(* ===== verification/Prelude.thy ===== *)
theory Prelude
  imports Main "HOL-Library.Word"
begin

text \<open>
  The shared vocabulary of the development.  It holds: the machine integers and byte strings of
  the Rust sources (\<open>u8\<close> .. \<open>u64\<close> as words, \<open>[u8]\<close> and \<open>Vec<u8>\<close> as lists of \<open>u8\<close>); the outcome
  type \<open>result\<close>, in which a Rust panic is a value of its own beside \<open>Ok\<close> and \<open>Err\<close>; slicing with
  the bounds check of \<open>&v[a..b]\<close>; and the little- and big-endian conversions of the standard
  library (\<open>to_le_bytes\<close>, \<open>from_be_bytes\<close>, ...) with their round trips.  The collections
  \<open>result_simps\<close> and \<open>byte_simps\<close> carry the component proofs.
\<close>

named_theorems result_simps "monadic simplification of outcomes"
named_theorems byte_simps "lengths and round trips of byte encodings"

section \<open>Machine integers\<close>

type_synonym u8 = "8 word"
type_synonym u16 = "16 word"
type_synonym u32 = "32 word"
type_synonym u64 = "64 word"
type_synonym bytes = "u8 list"
type_synonym key32 = "u8 list"

section \<open>Outcomes: a value, an error, or a panic\<close>

datatype ('e, 'a) result = Ok (the_ok: 'a) | Err 'e | Panic

fun rbind :: "('e, 'a) result \<Rightarrow> ('a \<Rightarrow> ('e, 'b) result) \<Rightarrow> ('e, 'b) result" where
  "rbind (Ok x) f = f x"
| "rbind (Err e) f = Err e"
| "rbind Panic f = Panic"

fun map_err :: "('e \<Rightarrow> 'f) \<Rightarrow> ('e, 'a) result \<Rightarrow> ('f, 'a) result" where
  "map_err g (Ok x) = Ok x"
| "map_err g (Err e) = Err (g e)"
| "map_err g Panic = Panic"

text \<open>\<open>unwrap\<close> and \<open>expect\<close>: an error becomes a panic.\<close>

fun unwrap :: "('e, 'a) result \<Rightarrow> ('f, 'a) result" where
  "unwrap (Ok x) = Ok x"
| "unwrap (Err e) = Panic"
| "unwrap Panic = Panic"

fun ok_or :: "'e \<Rightarrow> 'a option \<Rightarrow> ('e, 'a) result" where
  "ok_or e None = Err e"
| "ok_or e (Some x) = Ok x"

definition ensure :: "bool \<Rightarrow> 'e \<Rightarrow> ('e, unit) result" where
  "ensure b e = (if b then Ok () else Err e)"

lemma rbind_eq_Ok [result_simps]:
  "rbind m f = Ok y \<longleftrightarrow> (\<exists>x. m = Ok x \<and> f x = Ok y)"
  by (cases m) auto

lemma rbind_eq_Panic [result_simps]:
  "rbind m f = Panic \<longleftrightarrow> m = Panic \<or> (\<exists>x. m = Ok x \<and> f x = Panic)"
  by (cases m) auto

lemma rbind_eq_Err [result_simps]:
  "rbind m f = Err e \<longleftrightarrow> m = Err e \<or> (\<exists>x. m = Ok x \<and> f x = Err e)"
  by (cases m) auto

lemma rbind_assoc: "rbind (rbind m f) g = rbind m (\<lambda>x. rbind (f x) g)"
  by (cases m) auto

lemma rbind_Ok_right [simp]: "rbind m Ok = m"
  by (cases m) auto

lemma map_err_eq_Ok [result_simps]: "map_err g m = Ok x \<longleftrightarrow> m = Ok x"
  by (cases m) auto

lemma ok_or_not_Panic [simp]: "ok_or e x \<noteq> Panic"
  by (cases x) simp_all

lemma map_err_eq_Panic [result_simps]: "map_err g m = Panic \<longleftrightarrow> m = Panic"
  by (cases m) auto

lemma unwrap_eq_Ok [result_simps]: "unwrap m = Ok x \<longleftrightarrow> m = Ok x"
  by (cases m) auto

lemma ok_or_eq_Ok [result_simps]: "ok_or e x = Ok y \<longleftrightarrow> x = Some y"
  by (cases x) auto

section \<open>Slices\<close>

text \<open>\<open>&xs[a..b]\<close>: panics when \<open>a > b\<close> or \<open>b > xs.len()\<close>.\<close>

definition slice :: "nat \<Rightarrow> nat \<Rightarrow> 'a list \<Rightarrow> ('e, 'a list) result" where
  "slice a b xs = (if a \<le> b \<and> b \<le> length xs then Ok (take (b - a) (drop a xs)) else Panic)"

text \<open>\<open>xs[i]\<close>: panics out of bounds.\<close>

definition nth_checked :: "'a list \<Rightarrow> nat \<Rightarrow> ('e, 'a) result" where
  "nth_checked xs i = (if i < length xs then Ok (xs ! i) else Panic)"

lemma slice_Ok [simp]:
  "a \<le> b \<Longrightarrow> b \<le> length xs \<Longrightarrow> slice a b xs = Ok (take (b - a) (drop a xs))"
  by (simp add: slice_def)

lemma slice_Panic [simp]: "length xs < b \<Longrightarrow> slice a b xs = Panic"
  by (simp add: slice_def)

lemma nth_checked_Ok [simp]: "i < length xs \<Longrightarrow> nth_checked xs i = Ok (xs ! i)"
  by (simp add: nth_checked_def)

lemma nth_checked_Panic [simp]: "length xs \<le> i \<Longrightarrow> nth_checked xs i = Panic"
  by (simp add: nth_checked_def)

section \<open>Integers as bytes\<close>

fun le_of_nat :: "nat \<Rightarrow> nat \<Rightarrow> bytes" where
  "le_of_nat 0 k = []"
| "le_of_nat (Suc n) k = of_nat (k mod 256) # le_of_nat n (k div 256)"

fun nat_of_le :: "bytes \<Rightarrow> nat" where
  "nat_of_le [] = 0"
| "nat_of_le (b # bs) = unat b + 256 * nat_of_le bs"

definition to_le_bytes :: "nat \<Rightarrow> 'a::len word \<Rightarrow> bytes" where
  "to_le_bytes n w = le_of_nat n (unat w)"

definition from_le_bytes :: "bytes \<Rightarrow> 'a::len word" where
  "from_le_bytes bs = of_nat (nat_of_le bs)"

definition to_be_bytes :: "nat \<Rightarrow> 'a::len word \<Rightarrow> bytes" where
  "to_be_bytes n w = rev (le_of_nat n (unat w))"

definition from_be_bytes :: "bytes \<Rightarrow> 'a::len word" where
  "from_be_bytes bs = of_nat (nat_of_le (rev bs))"

text \<open>For evaluation at a concrete width.\<close>

lemma le_of_nat_numeral:
  "le_of_nat (numeral n) k = of_nat (k mod 256) # le_of_nat (pred_numeral n) (k div 256)"
  by (simp only: numeral_eq_Suc le_of_nat.simps)

lemma length_le_of_nat [simp, byte_simps]: "length (le_of_nat n k) = n"
  by (induction n arbitrary: k) auto

lemma length_to_le_bytes [simp, byte_simps]: "length (to_le_bytes n w) = n"
  by (simp add: to_le_bytes_def)

lemma length_to_be_bytes [simp, byte_simps]: "length (to_be_bytes n w) = n"
  by (simp add: to_be_bytes_def)

lemma unat_u8_less: "unat (b :: u8) < 256"
  using unsigned_less [of b, where ?'a = nat] by simp

lemma unat_of_nat_u8 [simp]: "unat (of_nat (k mod 256) :: u8) = k mod 256"
  by (simp add: unat_of_nat)

lemma nat_of_le_of_nat [byte_simps]: "nat_of_le (le_of_nat n k) = k mod 256 ^ n"
proof (induction n arbitrary: k)
  case 0
  then show ?case by simp
next
  case (Suc n)
  then show ?case by (simp add: mod_mult2_eq)
qed

lemma nat_of_le_bound: "nat_of_le bs < 256 ^ length bs"
proof (induction bs)
  case Nil
  then show ?case by simp
next
  case (Cons b bs)
  have "unat b + 256 * nat_of_le bs < 256 + 256 * nat_of_le bs"
    using unat_u8_less [of b] by simp
  also have "\<dots> \<le> 256 * 256 ^ length bs"
    using Cons.IH by (simp flip: mult_Suc_right)
  finally show ?case by simp
qed

lemma le_of_nat_of_le [byte_simps]: "le_of_nat (length bs) (nat_of_le bs) = bs"
proof (induction bs)
  case Nil
  then show ?case by simp
next
  case (Cons b bs)
  have "unat b mod 256 = unat b" "unat b div 256 = 0"
    using unat_u8_less [of b] by simp_all
  with Cons.IH show ?case by simp
qed

lemma from_to_le_bytes [simp, byte_simps]:
  fixes w :: "'a::len word"
  assumes "LENGTH('a) \<le> 8 * n"
  shows "from_le_bytes (to_le_bytes n w) = w"
proof -
  have "unat w < 2 ^ LENGTH('a)" by (rule unsigned_less)
  also have "(2::nat) ^ LENGTH('a) \<le> 2 ^ (8 * n)" using assms by simp
  also have "(2::nat) ^ (8 * n) = 256 ^ n" by (simp add: power_mult)
  finally show ?thesis
    by (simp add: from_le_bytes_def to_le_bytes_def nat_of_le_of_nat)
qed

lemma from_to_be_bytes [simp, byte_simps]:
  fixes w :: "'a::len word"
  assumes "LENGTH('a) \<le> 8 * n"
  shows "from_be_bytes (to_be_bytes n w) = w"
  using from_to_le_bytes [OF assms, of w]
  by (simp add: from_be_bytes_def to_be_bytes_def from_le_bytes_def to_le_bytes_def)

lemma to_from_le_bytes [byte_simps]:
  assumes "8 * length bs = LENGTH('a)"
  shows "to_le_bytes (length bs) (from_le_bytes bs :: 'a::len word) = bs"
proof -
  have "(256::nat) ^ length bs = 2 ^ (8 * length bs)" by (simp add: power_mult)
  then have "nat_of_le bs < 2 ^ LENGTH('a)"
    using nat_of_le_bound [of bs] assms by simp
  then have "unat (of_nat (nat_of_le bs) :: 'a word) = nat_of_le bs"
    by (simp add: unat_of_nat)
  then show ?thesis
    by (simp add: to_le_bytes_def from_le_bytes_def le_of_nat_of_le)
qed

lemma to_from_be_bytes [byte_simps]:
  assumes "8 * length bs = LENGTH('a)"
  shows "to_be_bytes (length bs) (from_be_bytes bs :: 'a::len word) = bs"
proof -
  have "to_le_bytes (length (rev bs)) (from_le_bytes (rev bs) :: 'a word) = rev bs"
    by (rule to_from_le_bytes) (simp add: assms)
  then show ?thesis
    by (simp add: to_be_bytes_def from_be_bytes_def to_le_bytes_def from_le_bytes_def
        rev_swap)
qed

text \<open>Big-endian strings of equal length order as the numbers they encode do.\<close>

lemma to_be_bytes_inj:
  fixes v w :: "'a::len word"
  assumes "LENGTH('a) \<le> 8 * n" "to_be_bytes n v = to_be_bytes n w"
  shows "v = w"
  using assms by (metis from_to_be_bytes)

section \<open>Words without wrap-around\<close>

lemma unat_add_nowrap:
  "unat (a :: 'a::len word) + unat b < 2 ^ LENGTH('a) \<Longrightarrow> unat (a + b) = unat a + unat b"
  by (simp flip: unat_add_lem)

lemma unat_succ_less: "(w :: 'a::len word) < c \<Longrightarrow> unat (w + 1) = unat w + 1"
proof -
  assume "w < c"
  then have "unat w < unat c" by (simp add: word_less_nat_alt)
  then have "unat w + 1 < 2 ^ LENGTH('a)" using unsigned_less [of c, where ?'a = nat] by linarith
  then have "unat w + unat (1 :: 'a word) < 2 ^ LENGTH('a)" by simp
  then show ?thesis by (simp add: unat_add_nowrap)
qed

lemma unat_sub_le: "b \<le> (a :: 'a::len word) \<Longrightarrow> unat (a - b) = unat a - unat b"
  by (simp add: unat_sub word_le_nat_alt)

section \<open>Lists\<close>

lemma take_append_exact [simp]: "length xs = n \<Longrightarrow> take n (xs @ ys) = xs"
  by simp

lemma drop_append_exact [simp]: "length xs = n \<Longrightarrow> drop n (xs @ ys) = ys"
  by simp

section \<open>Text\<close>

text \<open>Rust's \<open>{}\<close> of an unsigned integer and \<open>{:?}\<close> of a printable string.\<close>

fun dec_nat :: "nat \<Rightarrow> string" where
  "dec_nat n = (if n < 10 then [char_of (48 + n)] else dec_nat (n div 10) @ [char_of (48 + n mod 10)])"

declare dec_nat.simps [simp del]

fun nat_of_dec :: "nat \<Rightarrow> string \<Rightarrow> nat" where
  "nat_of_dec acc [] = acc"
| "nat_of_dec acc (c # cs) = nat_of_dec (10 * acc + (of_char c - 48)) cs"

lemma nat_of_dec_append: "nat_of_dec acc (xs @ ys) = nat_of_dec (nat_of_dec acc xs) ys"
  by (induction xs arbitrary: acc) simp_all

lemma nat_of_dec_nat [simp]: "nat_of_dec 0 (dec_nat n) = n"
proof (induction n rule: dec_nat.induct)
  case (1 n)
  have "of_char (char_of (48 + m) :: char) = 48 + m" if "m < 10" for m :: nat
    using that by (simp add: of_char_of take_bit_eq_mod)
  then show ?case using 1 by (subst dec_nat.simps) (auto simp: nat_of_dec_append)
qed

lemma dec_nat_inj [simp]: "dec_nat m = dec_nat n \<longleftrightarrow> m = n"
  by (metis nat_of_dec_nat)

definition escape_debug :: "char \<Rightarrow> string" where
  "escape_debug c =
     (if c = CHR 0x22 \<or> c = CHR 0x5C then [CHR 0x5C, c]
      else if c = CHR 0x0A then [CHR 0x5C, CHR ''n'']
      else if c = CHR 0x0D then [CHR 0x5C, CHR ''r'']
      else if c = CHR 0x09 then [CHR 0x5C, CHR ''t''] else [c])"

definition debug_str :: "string \<Rightarrow> string" where
  "debug_str s = [CHR 0x22] @ concat (map escape_debug s) @ [CHR 0x22]"

end
