(* ===== verification/Frame_Decoder.thy ===== *)
theory Frame_Decoder
  imports Prelude
begin

text \<open>
  Streaming decoders.  The relay protocols read frames from a byte stream through \<open>tokio_util\<close>'s
  \<open>Framed\<close>, which appends what the socket delivers to a buffer and calls \<open>Decoder::decode\<close> until it
  returns nothing.  A decoder is a function from its state and the buffer to the new state, the rest of
  the buffer and an outcome.  The locale \<open>frame_decoder\<close> states when such a function does not depend on
  where the stream was cut into chunks; the decoders of DERP and FRP are interpretations of it.
\<close>

datatype ('i, 'e) decoded = Item 'i | Need | Fail 'e | Crash

datatype 'e stream_end = Waiting | Failed 'e | Crashed

partial_function (option) drain ::
    "('s \<Rightarrow> bytes \<Rightarrow> 's \<times> bytes \<times> ('i, 'e) decoded) \<Rightarrow> 's \<Rightarrow> bytes \<Rightarrow>
     ('i list \<times> 'e stream_end \<times> 's \<times> bytes) option" where
  "drain dec s buf =
     (case dec s buf of
        (s', r, Item i) \<Rightarrow>
          Option.bind (drain dec s' r) (\<lambda>(is, fin, s'', r'). Some (i # is, fin, s'', r'))
      | (s', r, Need) \<Rightarrow> Some ([], Waiting, s', r)
      | (s', r, Fail e) \<Rightarrow> Some ([], Failed e, s', r)
      | (s', r, Crash) \<Rightarrow> Some ([], Crashed, s', r))"

text \<open>The buffer over a sequence of reads: each read is appended and drained; an error ends the stream.\<close>

fun feed ::
    "('s \<Rightarrow> bytes \<Rightarrow> 's \<times> bytes \<times> ('i, 'e) decoded) \<Rightarrow> 's \<Rightarrow> bytes \<Rightarrow> bytes list \<Rightarrow>
     ('i list \<times> 'e stream_end) option" where
  "feed dec s r [] = Some ([], Waiting)"
| "feed dec s r (c # cs) =
     (case drain dec s (r @ c) of
        None \<Rightarrow> None
      | Some (is, Waiting, s', r') \<Rightarrow>
          Option.bind (feed dec s' r' cs) (\<lambda>(js, fin). Some (is @ js, fin))
      | Some (is, fin, _, _) \<Rightarrow> Some (is, fin))"

definition outcome :: "('i list \<times> 'e stream_end \<times> 's \<times> bytes) option \<Rightarrow> ('i list \<times> 'e stream_end) option" where
  "outcome = map_option (\<lambda>(is, fin, _, _). (is, fin))"

locale frame_decoder =
  fixes dec :: "'s \<Rightarrow> bytes \<Rightarrow> 's \<times> bytes \<times> ('i, 'e) decoded" and size_of :: "'s \<Rightarrow> bytes \<Rightarrow> nat"
  assumes progress: "dec s b = (s', r, Item i) \<Longrightarrow> size_of s' r < size_of s b"
    and item_ext: "dec s b = (s', r, Item i) \<Longrightarrow> dec s (b @ x) = (s', r @ x, Item i)"
    and fail_ext: "dec s b = (s', r, Fail e) \<Longrightarrow> \<exists>s'' r'. dec s (b @ x) = (s'', r', Fail e)"
    and crash_ext: "dec s b = (s', r, Crash) \<Longrightarrow> \<exists>s'' r'. dec s (b @ x) = (s'', r', Crash)"
    and need_ext: "dec s b = (s', r, Need) \<Longrightarrow> dec s (b @ x) = dec s' (r @ x)"
begin

lemma drain_total: "\<exists>is fin s' r. drain dec s b = Some (is, fin, s', r)"
proof (induction "size_of s b" arbitrary: s b rule: less_induct)
  case less
  obtain s' r o' where d: "dec s b = (s', r, o')" by (cases "dec s b")
  show ?case
  proof (cases o')
    case (Item i)
    then obtain "is" fin s'' r' where "drain dec s' r = Some (is, fin, s'', r')"
      using less [OF progress] d by blast
    then show ?thesis using d Item by (subst drain.simps) simp
  qed (use d in \<open>subst drain.simps, simp\<close>)+
qed

lemma drain_append:
  assumes "drain dec s b = Some (is, fin, s', r)"
  shows "outcome (drain dec s (b @ x)) =
    (case fin of
       Waiting \<Rightarrow> map_option (\<lambda>(js, f). (is @ js, f)) (outcome (drain dec s' (r @ x)))
     | _ \<Rightarrow> Some (is, fin))"
  using assms
proof (induction "size_of s b" arbitrary: s b "is" rule: less_induct)
  case less
  obtain t q o' where d: "dec s b = (t, q, o')" by (cases "dec s b")
  show ?case
  proof (cases o')
    case (Item i)
    obtain js where js: "drain dec t q = Some (js, fin, s', r)" "is = i # js"
      using less.prems d Item by (subst (asm) drain.simps) (auto simp: Option.bind_eq_Some_conv)
    have "outcome (drain dec s (b @ x)) = map_option (\<lambda>(js, f). (i # js, f)) (outcome (drain dec t (q @ x)))"
      by (subst drain.simps, simp add: item_ext [OF d [unfolded Item]] outcome_def)
        (cases "drain dec t (q @ x)"; auto)
    then show ?thesis
      using less.hyps [OF progress [OF d [unfolded Item]] js(1)] js(2)
      by (cases "outcome (drain dec s' (r @ x))") (auto split: stream_end.splits)
  next
    case Need
    then have eq: "fin = Waiting" "is = []" "t = s'" "q = r"
      using less.prems d by (subst (asm) drain.simps, simp)+
    have "drain dec s (b @ x) = drain dec s' (r @ x)"
      using need_ext [OF d [unfolded Need], of x] eq by (subst (1 2) drain.simps) simp
    then show ?thesis using eq by (cases "outcome (drain dec s' (r @ x))") auto
  next
    case (Fail e)
    then have "fin = Failed e" "is = []" using less.prems d by (subst (asm) drain.simps, simp)+
    then show ?thesis using fail_ext [OF d [unfolded Fail], of x] by (subst drain.simps) (auto simp: outcome_def)
  next
    case Crash
    then have "fin = Crashed" "is = []" using less.prems d by (subst (asm) drain.simps, simp)+
    then show ?thesis using crash_ext [OF d [unfolded Crash], of x] by (subst drain.simps) (auto simp: outcome_def)
  qed
qed

text \<open>However the stream is cut, the items are those of the stream in one piece.\<close>

lemma feed_concat: "feed dec s r (c # cs) = outcome (drain dec s (r @ concat (c # cs)))"
proof (induction cs arbitrary: s r c)
  case Nil
  obtain "is" fin s' r' where "drain dec s (r @ c) = Some (is, fin, s', r')" using drain_total by blast
  then show ?case by (cases fin) (simp_all add: outcome_def)
next
  case (Cons c' cs)
  obtain "is" fin s' r' where d: "drain dec s (r @ c) = Some (is, fin, s', r')" using drain_total by blast
  show ?case
  proof (cases fin)
    case Waiting
    have "feed dec s r (c # c' # cs) = map_option (\<lambda>(js, f). (is @ js, f)) (feed dec s' r' (c' # cs))"
      using d Waiting by (cases "feed dec s' r' (c' # cs)") auto
    also have "\<dots> = outcome (drain dec s ((r @ c) @ concat (c' # cs)))"
      using drain_append [OF d, of "concat (c' # cs)"] Waiting Cons.IH [of s' r' c'] by simp
    finally show ?thesis by simp
  qed (use d drain_append [OF d, of "concat (c' # cs)"] in simp_all)
qed

text \<open>A decoder that agrees with this one on a set of states it does not leave drains alike.\<close>

lemma drain_agree:
  assumes "\<And>s b. P s \<Longrightarrow> dec' s b = dec s b" "\<And>s b s' r o'. P s \<Longrightarrow> dec s b = (s', r, o') \<Longrightarrow> P s'" "P s"
  shows "drain dec' s b = drain dec s b"
  using assms(3)
proof (induction "size_of s b" arbitrary: s b rule: less_induct)
  case less
  obtain s' r o' where d: "dec s b = (s', r, o')" by (cases "dec s b")
  show ?case
  proof (cases o')
    case (Item i)
    have "drain dec' s' r = drain dec s' r"
      using less.hyps [OF progress [OF d [unfolded Item]]] assms(2) [OF less.prems d] by blast
    then show ?thesis using assms(1) [OF less.prems, of b] d Item by (subst (1 2) drain.simps) simp
  qed (use assms(1) [OF less.prems, of b] d in \<open>subst (1 2) drain.simps, simp\<close>)+
qed

lemma drain_keeps:
  assumes "\<And>s b s' r o'. P s \<Longrightarrow> dec s b = (s', r, o') \<Longrightarrow> P s'" "P s" "drain dec s b = Some (is, fin, s', r)"
  shows "P s'"
  using assms(2,3)
proof (induction "size_of s b" arbitrary: s b "is" rule: less_induct)
  case less
  obtain t q o' where d: "dec s b = (t, q, o')" by (cases "dec s b")
  have P: "P t" by (rule assms(1) [OF less.prems(1) d])
  show ?case
  proof (cases o')
    case (Item i)
    obtain js where "drain dec t q = Some (js, fin, s', r)"
      using less.prems(2) d Item by (subst (asm) drain.simps) (auto simp: Option.bind_eq_Some_conv)
    then show ?thesis using less.hyps [OF progress [OF d [unfolded Item]] P] by blast
  qed (use less.prems(2) d P in \<open>subst (asm) drain.simps, simp\<close>)+
qed

lemma feed_agree:
  assumes "\<And>s b. P s \<Longrightarrow> dec' s b = dec s b" "\<And>s b s' r o'. P s \<Longrightarrow> dec s b = (s', r, o') \<Longrightarrow> P s'" "P s"
  shows "feed dec' s r cs = feed dec s r cs"
  using assms(3)
proof (induction cs arbitrary: s r)
  case Nil
  then show ?case by simp
next
  case (Cons c cs)
  have eq: "drain dec' s (r @ c) = drain dec s (r @ c)" by (rule drain_agree [of P, OF assms(1,2) Cons.prems])
  obtain "is" fin s' r' where d: "drain dec s (r @ c) = Some (is, fin, s', r')" using drain_total by blast
  have "P s'" by (rule drain_keeps [of P, OF assms(2) Cons.prems d])
  then show ?case using Cons.IH [of s' r'] eq d by (cases fin) simp_all
qed

end

end
