(* ===== verification/Protocol.thy ===== *)
theory Protocol
  imports Prelude
begin

text \<open>
  The wire format of WireGuard packets: \<open>vlink-tun/src/noise/protocol.rs\<close>, and the errors of
  \<open>noise/error.rs\<close>.  A fixed-size array \<open>[u8; n]\<close> is a list; the parsers establish its length.
  Every index and slice of the source carries its bounds check, so that a parser that reads past
  the end of a packet panics in the model as it does in Rust.
\<close>

section \<open>Errors and constants\<close>

datatype noise_error =
    InvalidKeyLength
  | Encryption
  | Decryption
  | InvalidPacket
  | InvalidHandshakeState
  | ReceiverIndexNotMatch

definition MESSAGE_TYPE_HANDSHAKE_INITIATION :: u8 where "MESSAGE_TYPE_HANDSHAKE_INITIATION = 1"
definition MESSAGE_TYPE_HANDSHAKE_RESPONSE :: u8 where "MESSAGE_TYPE_HANDSHAKE_RESPONSE = 2"
definition MESSAGE_TYPE_COOKIE_REPLY :: u8 where "MESSAGE_TYPE_COOKIE_REPLY = 3"
definition MESSAGE_TYPE_TRANSPORT_DATA :: u8 where "MESSAGE_TYPE_TRANSPORT_DATA = 4"
definition HANDSHAKE_INITIATION_PACKET_SIZE :: nat where "HANDSHAKE_INITIATION_PACKET_SIZE = 148"
definition HANDSHAKE_RESPONSE_PACKET_SIZE :: nat where "HANDSHAKE_RESPONSE_PACKET_SIZE = 92"
definition COOKIE_REPLY_PACKET_SIZE :: nat where "COOKIE_REPLY_PACKET_SIZE = 64"
definition REJECT_AFTER_MESSAGES :: u64 where "REJECT_AFTER_MESSAGES = - 1 - 2 ^ 13"
definition MIN_PACKET_SIZE :: nat where "MIN_PACKET_SIZE = 4"

lemmas protocol_consts =
  MESSAGE_TYPE_HANDSHAKE_INITIATION_def MESSAGE_TYPE_HANDSHAKE_RESPONSE_def
  MESSAGE_TYPE_COOKIE_REPLY_def MESSAGE_TYPE_TRANSPORT_DATA_def
  HANDSHAKE_INITIATION_PACKET_SIZE_def HANDSHAKE_RESPONSE_PACKET_SIZE_def
  COOKIE_REPLY_PACKET_SIZE_def MIN_PACKET_SIZE_def

lemma unat_REJECT_AFTER_MESSAGES: "unat REJECT_AFTER_MESSAGES = 2 ^ 64 - 1 - 2 ^ 13"
  by (simp add: REJECT_AFTER_MESSAGES_def)

section \<open>Packets\<close>

record handshake_initiation =
  hi_sender_index :: u32
  hi_ephemeral_public_key :: bytes
  hi_static_public_key :: bytes
  hi_timestamp :: bytes
  hi_mac1 :: bytes
  hi_mac2 :: bytes

record handshake_response =
  hr_sender_index :: u32
  hr_receiver_index :: u32
  hr_ephemeral_public_key :: bytes
  hr_empty :: bytes
  hr_mac1 :: bytes
  hr_mac2 :: bytes

record cookie_reply =
  cr_receiver_index :: u32
  cr_nonce :: bytes
  cr_cookie :: bytes

record transport_data =
  td_receiver_index :: u32
  td_counter :: u64
  td_payload :: bytes

definition initiation_try_from :: "bytes \<Rightarrow> (noise_error, handshake_initiation) result" where
  "initiation_try_from value =
     (if length value \<noteq> HANDSHAKE_INITIATION_PACKET_SIZE then Err InvalidPacket
      else rbind (slice 0 4 value) (\<lambda>ty.
        if ty \<noteq> [MESSAGE_TYPE_HANDSHAKE_INITIATION, 0, 0, 0] then Err InvalidPacket
        else rbind (slice 4 8 value) (\<lambda>idx.
             rbind (slice 8 40 value) (\<lambda>eph.
             rbind (slice 40 88 value) (\<lambda>st.
             rbind (slice 88 116 value) (\<lambda>ts.
             rbind (slice 116 132 value) (\<lambda>m1.
             rbind (slice 132 148 value) (\<lambda>m2.
               Ok \<lparr>hi_sender_index = from_le_bytes idx, hi_ephemeral_public_key = eph,
                   hi_static_public_key = st, hi_timestamp = ts, hi_mac1 = m1, hi_mac2 = m2\<rparr>))))))))"

definition response_try_from :: "bytes \<Rightarrow> (noise_error, handshake_response) result" where
  "response_try_from value =
     (if length value \<noteq> HANDSHAKE_RESPONSE_PACKET_SIZE then Err InvalidPacket
      else rbind (slice 0 4 value) (\<lambda>ty.
        if ty \<noteq> [MESSAGE_TYPE_HANDSHAKE_RESPONSE, 0, 0, 0] then Err InvalidPacket
        else rbind (slice 4 8 value) (\<lambda>si.
             rbind (slice 8 12 value) (\<lambda>ri.
             rbind (slice 12 44 value) (\<lambda>eph.
             rbind (slice 44 60 value) (\<lambda>em.
             rbind (slice 60 76 value) (\<lambda>m1.
             rbind (slice 76 92 value) (\<lambda>m2.
               Ok \<lparr>hr_sender_index = from_le_bytes si, hr_receiver_index = from_le_bytes ri,
                   hr_ephemeral_public_key = eph, hr_empty = em, hr_mac1 = m1, hr_mac2 = m2\<rparr>))))))))"

definition cookie_reply_try_from :: "bytes \<Rightarrow> (noise_error, cookie_reply) result" where
  "cookie_reply_try_from value =
     (if length value \<noteq> COOKIE_REPLY_PACKET_SIZE then Err InvalidPacket
      else rbind (slice 0 4 value) (\<lambda>ty.
        if ty \<noteq> [MESSAGE_TYPE_COOKIE_REPLY, 0, 0, 0] then Err InvalidPacket
        else rbind (slice 4 8 value) (\<lambda>ri.
             rbind (slice 8 32 value) (\<lambda>n.
             rbind (slice 32 64 value) (\<lambda>ck.
               Ok \<lparr>cr_receiver_index = from_le_bytes ri, cr_nonce = n, cr_cookie = ck\<rparr>)))))"

definition packet_len :: "transport_data \<Rightarrow> nat" where
  "packet_len p = length (td_payload p) + 16"

definition transport_to_bytes :: "transport_data \<Rightarrow> bytes" where
  "transport_to_bytes p =
     [MESSAGE_TYPE_TRANSPORT_DATA, 0, 0, 0] @ to_le_bytes 4 (td_receiver_index p) @
     to_le_bytes 8 (td_counter p) @ td_payload p"

definition transport_try_from :: "bytes \<Rightarrow> (noise_error, transport_data) result" where
  "transport_try_from value =
     (if length value < MIN_PACKET_SIZE then Err InvalidPacket
      else rbind (slice 0 4 value) (\<lambda>ty.
        if ty \<noteq> [MESSAGE_TYPE_TRANSPORT_DATA, 0, 0, 0] then Err InvalidPacket
        else rbind (slice 4 8 value) (\<lambda>ri.
             rbind (slice 8 16 value) (\<lambda>c.
             rbind (slice 16 (length value) value) (\<lambda>pl.
               Ok \<lparr>td_receiver_index = from_le_bytes ri, td_counter = from_le_bytes c,
                   td_payload = pl\<rparr>)))))"

datatype message =
    HandshakeInitiation handshake_initiation
  | HandshakeResponse handshake_response
  | CookieReply cookie_reply
  | TransportData transport_data

definition message_parse :: "bytes \<Rightarrow> (noise_error, message) result" where
  "message_parse payload =
     (if length payload < MIN_PACKET_SIZE then Err InvalidPacket
      else rbind (nth_checked payload 0) (\<lambda>ty.
        if ty = MESSAGE_TYPE_HANDSHAKE_INITIATION
        then rbind (initiation_try_from payload) (\<lambda>p. Ok (HandshakeInitiation p))
        else if ty = MESSAGE_TYPE_HANDSHAKE_RESPONSE
        then rbind (response_try_from payload) (\<lambda>p. Ok (HandshakeResponse p))
        else if ty = MESSAGE_TYPE_COOKIE_REPLY
        then rbind (cookie_reply_try_from payload) (\<lambda>p. Ok (CookieReply p))
        else if ty = MESSAGE_TYPE_TRANSPORT_DATA
        then rbind (transport_try_from payload) (\<lambda>p. Ok (TransportData p))
        else Err InvalidPacket))"

definition is_handshake :: "bytes \<Rightarrow> (noise_error, bool) result" where
  "is_handshake payload =
     rbind (nth_checked payload 0) (\<lambda>ty.
       Ok (ty = MESSAGE_TYPE_HANDSHAKE_INITIATION \<and>
             length payload = HANDSHAKE_INITIATION_PACKET_SIZE \<or>
           ty = MESSAGE_TYPE_HANDSHAKE_RESPONSE \<and>
             length payload = HANDSHAKE_RESPONSE_PACKET_SIZE))"

section \<open>Reading what was written\<close>

definition initiation_wf :: "handshake_initiation \<Rightarrow> bool" where
  "initiation_wf p \<longleftrightarrow> length (hi_ephemeral_public_key p) = 32 \<and>
     length (hi_static_public_key p) = 48 \<and> length (hi_timestamp p) = 28 \<and>
     length (hi_mac1 p) = 16 \<and> length (hi_mac2 p) = 16"

definition response_wf :: "handshake_response \<Rightarrow> bool" where
  "response_wf p \<longleftrightarrow> length (hr_ephemeral_public_key p) = 32 \<and> length (hr_empty p) = 16 \<and>
     length (hr_mac1 p) = 16 \<and> length (hr_mac2 p) = 16"

lemma head4: "4 \<le> length v \<Longrightarrow> take 4 v = [a, b, c, d] \<Longrightarrow> v ! 0 = a"
  by (cases v) auto

lemma initiation_try_from_build:
  assumes "length e = 32" "length s = 48" "length t = 28" "length m1 = 16" "length m2 = 16"
  shows "initiation_try_from ([1, 0, 0, 0] @ to_le_bytes 4 i @ e @ s @ t @ m1 @ m2) =
    Ok \<lparr>hi_sender_index = i, hi_ephemeral_public_key = e, hi_static_public_key = s,
        hi_timestamp = t, hi_mac1 = m1, hi_mac2 = m2\<rparr>"
  using assms by (simp add: initiation_try_from_def protocol_consts)

lemma response_try_from_build:
  assumes "length e = 32" "length em = 16" "length m1 = 16" "length m2 = 16"
  shows "response_try_from ([2, 0, 0, 0] @ to_le_bytes 4 i @ to_le_bytes 4 r @ e @ em @ m1 @ m2) =
    Ok \<lparr>hr_sender_index = i, hr_receiver_index = r, hr_ephemeral_public_key = e, hr_empty = em,
        hr_mac1 = m1, hr_mac2 = m2\<rparr>"
  using assms by (simp add: response_try_from_def protocol_consts)

lemma transport_try_from_to_bytes: "transport_try_from (transport_to_bytes p) = Ok p"
  by (simp add: transport_try_from_def transport_to_bytes_def protocol_consts)

lemma message_parse_transport: "message_parse (transport_to_bytes p) = Ok (TransportData p)"
proof -
  have "transport_to_bytes p ! 0 = 4" "4 \<le> length (transport_to_bytes p)"
    by (simp_all add: transport_to_bytes_def protocol_consts)
  then show ?thesis
    by (auto simp: message_parse_def protocol_consts transport_try_from_to_bytes nth_checked_def)
qed

lemma length_transport_to_bytes: "length (transport_to_bytes p) = packet_len p"
  by (simp add: transport_to_bytes_def packet_len_def)

lemma initiation_try_from_Ok:
  assumes "initiation_try_from v = Ok p"
  shows "length v = 148" "initiation_wf p" "v ! 0 = 1"
  using assms head4 [of v 1 0 0 0]
  by (auto simp: initiation_try_from_def initiation_wf_def protocol_consts result_simps
      split: if_splits)

lemma response_try_from_Ok:
  assumes "response_try_from v = Ok p"
  shows "length v = 92" "response_wf p" "v ! 0 = 2"
  using assms head4 [of v 2 0 0 0]
  by (auto simp: response_try_from_def response_wf_def protocol_consts result_simps
      split: if_splits)

lemma message_parse_initiation:
  "initiation_try_from v = Ok p \<Longrightarrow> message_parse v = Ok (HandshakeInitiation p)"
  using initiation_try_from_Ok [of v p] by (simp add: message_parse_def protocol_consts)

lemma message_parse_response:
  "response_try_from v = Ok p \<Longrightarrow> message_parse v = Ok (HandshakeResponse p)"
  using response_try_from_Ok [of v p] by (simp add: message_parse_def protocol_consts)

lemma try_from_no_panic:
  "initiation_try_from v \<noteq> Panic" "response_try_from v \<noteq> Panic" "cookie_reply_try_from v \<noteq> Panic"
  by (simp_all add: initiation_try_from_def response_try_from_def cookie_reply_try_from_def
      protocol_consts)

lemma transport_try_from_Panic:
  "transport_try_from v = Panic \<longleftrightarrow> 4 \<le> length v \<and> length v < 16 \<and> take 4 v = [4, 0, 0, 0]"
  by (cases "length v < 8"; cases "length v < 16")
    (auto simp: transport_try_from_def protocol_consts slice_def)

lemma message_parse_Panic:
  "message_parse v = Panic \<longleftrightarrow> 4 \<le> length v \<and> length v < 16 \<and> take 4 v = [4, 0, 0, 0]"
  using head4 [of v 4 0 0 0]
  by (auto simp: message_parse_def result_simps try_from_no_panic transport_try_from_Panic
      protocol_consts nth_checked_def split: if_splits)

lemma take_drop_join: "take n (drop m xs) @ drop (m + n) xs = drop m xs"
  by (metis append_take_drop_id drop_drop add.commute)

lemma transport_to_bytes_try_from:
  assumes "transport_try_from v = Ok p"
  shows "transport_to_bytes p = v"
proof -
  have len: "16 \<le> length v" and hd: "take 4 v = [4, 0, 0, 0]"
    and p: "p = \<lparr>td_receiver_index = from_le_bytes (take 4 (drop 4 v)),
        td_counter = from_le_bytes (take 8 (drop 8 v)), td_payload = drop 16 v\<rparr>"
    using assms
    by (auto simp: transport_try_from_def protocol_consts slice_def result_simps split: if_splits)
  have "to_le_bytes 4 (td_receiver_index p) = take 4 (drop 4 v)"
    using to_from_le_bytes [of "take 4 (drop 4 v)", where ?'a = 32] len by (simp add: p)
  moreover have "to_le_bytes 8 (td_counter p) = take 8 (drop 8 v)"
    using to_from_le_bytes [of "take 8 (drop 8 v)", where ?'a = 64] len by (simp add: p)
  ultimately have "transport_to_bytes p =
      take 4 v @ take 4 (drop 4 v) @ take 8 (drop 8 v) @ drop 16 v"
    by (simp add: transport_to_bytes_def protocol_consts hd p)
  also have "\<dots> = v"
    using take_drop_join [of 8 8 v] take_drop_join [of 4 4 v] by simp
  finally show ?thesis .
qed

section \<open>Properties\<close>

text \<open>A transport packet written by \<open>TransportData::to_bytes\<close> is read back by
  \<open>Message::parse\<close> as the same packet, and a packet read as transport data is, byte for byte, the
  one \<open>to_bytes\<close> writes for it.\<close>

theorem transport_roundtrip:
  "message_parse (transport_to_bytes p) = Ok (TransportData p) \<and>
   (message_parse v = Ok (TransportData q) \<longrightarrow> transport_to_bytes q = v)"
proof
  show "message_parse (transport_to_bytes p) = Ok (TransportData p)" by (rule message_parse_transport)
  show "message_parse v = Ok (TransportData q) \<longrightarrow> transport_to_bytes q = v"
    by (auto simp: message_parse_def result_simps transport_to_bytes_try_from split: if_splits)
qed

theorem transport_roundtrip_witness:
  "transport_to_bytes \<lparr>td_receiver_index = 7, td_counter = 1, td_payload = [9]\<rparr> =
     [4, 0, 0, 0, 7, 0, 0, 0, 1, 0, 0, 0, 0, 0, 0, 0, 9]"
proof -
  let ?v = "[4, 0, 0, 0, 7, 0, 0, 0, 1, 0, 0, 0, 0, 0, 0, 0, 9]"
  let ?q = "\<lparr>td_receiver_index = 7, td_counter = 1, td_payload = [9]\<rparr>"
  have "message_parse ?v = Ok (TransportData ?q)" by code_simp
  then show ?thesis using transport_roundtrip [of _ ?v ?q] by blast
qed

text \<open>\<open>Message::parse\<close> panics on exactly the packets of 4 to 15 bytes that carry the transport
  header: the guard \<open>MIN_PACKET_SIZE\<close> admits them and the fixed slices behind it do not fit.  On
  every other input it returns a packet or \<open>InvalidPacket\<close>.\<close>

theorem message_parse_panics_iff:
  "message_parse v = Panic \<longleftrightarrow> 4 \<le> length v \<and> length v < 16 \<and> take 4 v = [4, 0, 0, 0]"
  by (rule message_parse_Panic)

text \<open>What \<open>parse\<close> accepts has the sizes of the protocol: a handshake packet has exactly its
  fixed length and every field the length of its array type, and \<open>is_handshake\<close>, which gates the
  MAC check, says yes to a parsed packet exactly when it is an initiation or a response.\<close>

theorem message_parse_shape:
  assumes "message_parse v = Ok m"
  shows "(case m of
      HandshakeInitiation p \<Rightarrow> length v = HANDSHAKE_INITIATION_PACKET_SIZE \<and> initiation_wf p
    | HandshakeResponse p \<Rightarrow> length v = HANDSHAKE_RESPONSE_PACKET_SIZE \<and> response_wf p
    | CookieReply p \<Rightarrow> length v = COOKIE_REPLY_PACKET_SIZE
    | TransportData p \<Rightarrow> length v = packet_len p) \<and>
    is_handshake v = Ok (case m of HandshakeInitiation _ \<Rightarrow> True | HandshakeResponse _ \<Rightarrow> True
      | _ \<Rightarrow> False)"
proof -
  have "4 \<le> length v" and 0: "nth_checked v 0 = (Ok (v ! 0) :: (noise_error, u8) result)"
    using assms by (auto simp: message_parse_def protocol_consts result_simps nth_checked_def
        split: if_splits)
  show ?thesis
  proof (cases m)
    case (HandshakeInitiation p)
    then have "initiation_try_from v = Ok p"
      using assms by (auto simp: message_parse_def result_simps split: if_splits)
    from initiation_try_from_Ok [OF this] HandshakeInitiation show ?thesis
      by (simp add: is_handshake_def 0 protocol_consts)
  next
    case (HandshakeResponse p)
    then have "response_try_from v = Ok p"
      using assms by (auto simp: message_parse_def result_simps split: if_splits)
    from response_try_from_Ok [OF this] HandshakeResponse show ?thesis
      by (simp add: is_handshake_def 0 protocol_consts)
  next
    case (CookieReply p)
    then show ?thesis using assms 0
      by (auto simp: message_parse_def result_simps is_handshake_def cookie_reply_try_from_def
          protocol_consts split: if_splits)
  next
    case (TransportData p)
    then have "transport_try_from v = Ok p" "v ! 0 = 4"
      using assms 0 by (auto simp: message_parse_def result_simps protocol_consts split: if_splits)
    with TransportData show ?thesis
      using length_transport_to_bytes [of p] transport_to_bytes_try_from [of v p]
      by (simp add: is_handshake_def 0 protocol_consts)
  qed
qed

theorem message_parse_shape_witness:
  "is_handshake (transport_to_bytes \<lparr>td_receiver_index = 7, td_counter = 1, td_payload = [9]\<rparr>) =
    Ok False"
proof -
  let ?p = "\<lparr>td_receiver_index = 7, td_counter = 1, td_payload = [9 :: u8]\<rparr>"
  have "message_parse (transport_to_bytes ?p) = Ok (TransportData ?p)" by code_simp
  from message_parse_shape [OF this] show ?thesis by simp
qed

end
