(* ===== verification/Noise_Crypto.thy ===== *)
theory Noise_Crypto
  imports Protocol
begin

text \<open>
  The cryptographic layer of \<open>vlink-tun/src/noise/crypto.rs\<close> and the session cipher of
  \<open>device/cipher/chacha20_poly1305_cipher.rs\<close>.  The primitives come from other crates (blake2, hmac,
  chacha20poly1305, x25519-dalek); they are the fields of a record \<open>crypto\<close> that every definition
  takes as its argument, and \<open>crypto_laws\<close> states what those crates document: output lengths, that
  opening a sealed box returns the message, that Diffie-Hellman commutes.  What this layer builds
  from them (hash and key chains, nonce layout, key-length checks) is defined here.
\<close>

section \<open>The primitives\<close>

record crypto =
  blake2s :: "bytes \<Rightarrow> bytes"
  blake2s_mac :: "bytes \<Rightarrow> bytes \<Rightarrow> bytes option"
  hmac_blake2s :: "bytes \<Rightarrow> bytes \<Rightarrow> bytes"
  chacha_seal :: "bytes \<Rightarrow> bytes \<Rightarrow> bytes \<Rightarrow> bytes \<Rightarrow> bytes option"
  chacha_open :: "bytes \<Rightarrow> bytes \<Rightarrow> bytes \<Rightarrow> bytes \<Rightarrow> bytes option"
  xchacha_seal :: "bytes \<Rightarrow> bytes \<Rightarrow> bytes \<Rightarrow> bytes \<Rightarrow> bytes option"
  xchacha_open :: "bytes \<Rightarrow> bytes \<Rightarrow> bytes \<Rightarrow> bytes \<Rightarrow> bytes option"
  x25519 :: "bytes \<Rightarrow> bytes \<Rightarrow> bytes"
  x25519_pub :: "bytes \<Rightarrow> bytes"

definition crypto_laws :: "crypto \<Rightarrow> bool" where
  "crypto_laws cr \<longleftrightarrow>
     (\<forall>x. length (blake2s cr x) = 32) \<and>
     (\<forall>k x. length k = 32 \<longrightarrow> (\<exists>t. blake2s_mac cr k x = Some t \<and> length t = 16)) \<and>
     (\<forall>k x. length (hmac_blake2s cr k x) = 32) \<and>
     (\<forall>k n m a. length k = 32 \<longrightarrow> length n = 12 \<longrightarrow> length m < 2 ^ 32 \<longrightarrow>
        (\<exists>c. chacha_seal cr k n m a = Some c \<and> length c = length m + 16 \<and>
             chacha_open cr k n c a = Some m)) \<and>
     (\<forall>k n c a m. chacha_open cr k n c a = Some m \<longrightarrow> length c = length m + 16) \<and>
     (\<forall>a. length a = 32 \<longrightarrow> length (x25519_pub cr a) = 32) \<and>
     (\<forall>a b. x25519 cr a (x25519_pub cr b) = x25519 cr b (x25519_pub cr a))"

lemma crypto_lawsD:
  assumes "crypto_laws cr"
  shows "length (blake2s cr x) = 32"
    and "length k = 32 \<Longrightarrow> \<exists>t. blake2s_mac cr k x = Some t \<and> length t = 16"
    and "length (hmac_blake2s cr k x) = 32"
    and "length k = 32 \<Longrightarrow> length n = 12 \<Longrightarrow> length m < 2 ^ 32 \<Longrightarrow>
      \<exists>c. chacha_seal cr k n m a = Some c \<and> length c = length m + 16 \<and>
          chacha_open cr k n c a = Some m"
    and "chacha_open cr k n c a = Some m \<Longrightarrow> length c = length m + 16"
    and "length p = 32 \<Longrightarrow> length (x25519_pub cr p) = 32"
    and "x25519 cr p (x25519_pub cr q) = x25519 cr q (x25519_pub cr p)"
  using assms unfolding crypto_laws_def by blast+

text \<open>A concrete instance that satisfies the laws (with no secrecy whatever): it shows that the
  hypothesis can hold and lets witnesses evaluate.\<close>

definition plain_crypto :: crypto where
  "plain_crypto = \<lparr>
     blake2s = (\<lambda>x. take 32 (x @ replicate 32 0)),
     blake2s_mac = (\<lambda>k x. Some (take 16 (x @ replicate 16 0))),
     hmac_blake2s = (\<lambda>k x. take 32 (k @ x @ replicate 32 0)),
     chacha_seal = (\<lambda>k n m a. Some (m @ take 16 (k @ replicate 16 0))),
     chacha_open = (\<lambda>k n c a. if 16 \<le> length c \<and>
         drop (length c - 16) c = take 16 (k @ replicate 16 0)
       then Some (take (length c - 16) c) else None),
     xchacha_seal = (\<lambda>k n m a. Some (m @ take 16 (k @ replicate 16 0))),
     xchacha_open = (\<lambda>k n c a. if 16 \<le> length c \<and>
         drop (length c - 16) c = take 16 (k @ replicate 16 0)
       then Some (take (length c - 16) c) else None),
     x25519 = (\<lambda>a b. map2 (+) a b),
     x25519_pub = (\<lambda>a. a)\<rparr>"

lemma map2_add_commute: "map2 (+) xs ys = map2 (+) ys (xs :: u8 list)"
  by (induction xs ys rule: list_induct2') (auto simp: add.commute)

lemma plain_crypto_laws: "crypto_laws plain_crypto"
  by (auto simp: crypto_laws_def plain_crypto_def map2_add_commute split: if_splits)

section \<open>Keys\<close>

record local_static_secret =
  ls_private :: bytes
  ls_public :: bytes

record peer_static_secret =
  ps_local :: local_static_secret
  ps_public :: bytes
  ps_psk :: bytes

definition local_secret_new :: "crypto \<Rightarrow> bytes \<Rightarrow> local_static_secret" where
  "local_secret_new cr private_key =
     \<lparr>ls_private = private_key, ls_public = x25519_pub cr private_key\<rparr>"

definition peer_secret_new :: "local_static_secret \<Rightarrow> bytes \<Rightarrow> peer_static_secret" where
  "peer_secret_new loc public_key =
     \<lparr>ps_local = loc, ps_public = public_key, ps_psk = replicate 32 0\<rparr>"

definition with_peer :: "local_static_secret \<Rightarrow> bytes \<Rightarrow> peer_static_secret" where
  "with_peer loc peer_public_key = peer_secret_new loc peer_public_key"

definition set_psk :: "bytes \<Rightarrow> peer_static_secret \<Rightarrow> peer_static_secret" where
  "set_psk psk s = s\<lparr>ps_psk := psk\<rparr>"

text \<open>\<open>gen_ephemeral_key\<close>; the randomness is an argument.\<close>

definition gen_ephemeral_key :: "crypto \<Rightarrow> bytes \<Rightarrow> bytes \<times> bytes" where
  "gen_ephemeral_key cr secret = (secret, x25519_pub cr secret)"

section \<open>Hashing and key derivation\<close>

definition hash :: "crypto \<Rightarrow> bytes \<Rightarrow> bytes \<Rightarrow> bytes" where
  "hash cr in1 in2 = blake2s cr (in1 @ in2)"

definition mac :: "crypto \<Rightarrow> bytes \<Rightarrow> bytes \<Rightarrow> ('e, bytes) result" where
  "mac cr key in0 = (case blake2s_mac cr key in0 of None \<Rightarrow> Panic | Some t \<Rightarrow> Ok t)"

definition hmac1 :: "crypto \<Rightarrow> bytes \<Rightarrow> bytes \<Rightarrow> bytes" where
  "hmac1 cr key in0 = hmac_blake2s cr key in0"

definition hmac2 :: "crypto \<Rightarrow> bytes \<Rightarrow> bytes \<Rightarrow> bytes \<Rightarrow> bytes" where
  "hmac2 cr key in0 in1 = hmac_blake2s cr key (in0 @ in1)"

definition kdf1 :: "crypto \<Rightarrow> bytes \<Rightarrow> bytes \<Rightarrow> bytes" where
  "kdf1 cr key in0 = hmac1 cr (hmac1 cr key in0) [1]"

definition kdf2 :: "crypto \<Rightarrow> bytes \<Rightarrow> bytes \<Rightarrow> bytes \<times> bytes" where
  "kdf2 cr key in0 =
     (let prk = hmac1 cr key in0;
          t0 = hmac1 cr prk [1];
          t1 = hmac2 cr prk t0 [2]
      in (t0, t1))"

definition kdf3 :: "crypto \<Rightarrow> bytes \<Rightarrow> bytes \<Rightarrow> bytes \<times> bytes \<times> bytes" where
  "kdf3 cr key in0 =
     (let prk = hmac1 cr key in0;
          t0 = hmac1 cr prk [1];
          t1 = hmac2 cr prk t0 [2];
          t2 = hmac2 cr prk t1 [3]
      in (t0, t1, t2))"

section \<open>Authenticated encryption\<close>

text \<open>The 12-byte nonce: four zero bytes and the counter, little-endian.\<close>

definition counter_nonce :: "u64 \<Rightarrow> bytes" where
  "counter_nonce counter = replicate 4 0 @ to_le_bytes 8 counter"

definition aead_encrypt :: "crypto \<Rightarrow> bytes \<Rightarrow> u64 \<Rightarrow> bytes \<Rightarrow> bytes \<Rightarrow> (noise_error, bytes) result" where
  "aead_encrypt cr key counter msg aad =
     (if length key \<noteq> 32 then Err InvalidKeyLength
      else ok_or Encryption (chacha_seal cr key (counter_nonce counter) msg aad))"

definition aead_decrypt :: "crypto \<Rightarrow> bytes \<Rightarrow> u64 \<Rightarrow> bytes \<Rightarrow> bytes \<Rightarrow> (noise_error, bytes) result" where
  "aead_decrypt cr key counter msg aad =
     (if length key \<noteq> 32 then Err InvalidKeyLength
      else ok_or Decryption (chacha_open cr key (counter_nonce counter) msg aad))"

text \<open>\<open>XNonce::from_slice\<close> panics unless the nonce has 24 bytes.\<close>

definition xaead_encrypt :: "crypto \<Rightarrow> bytes \<Rightarrow> bytes \<Rightarrow> bytes \<Rightarrow> bytes \<Rightarrow> (noise_error, bytes) result" where
  "xaead_encrypt cr key nonce msg aad =
     (if length key \<noteq> 32 then Err InvalidKeyLength
      else if length nonce \<noteq> 24 then Panic
      else ok_or Encryption (xchacha_seal cr key nonce msg aad))"

definition xaead_decrypt :: "crypto \<Rightarrow> bytes \<Rightarrow> bytes \<Rightarrow> bytes \<Rightarrow> bytes \<Rightarrow> (noise_error, bytes) result" where
  "xaead_decrypt cr key nonce msg aad =
     (if length key \<noteq> 32 then Err InvalidKeyLength
      else if length nonce \<noteq> 24 then Panic
      else ok_or Decryption (xchacha_open cr key nonce msg aad))"

text \<open>\<open>ChachaCipher\<close> keeps the keyed cipher; its key length was checked when it was made.\<close>

datatype chacha_cipher = ChachaCipher (cipher_key: bytes)

definition chacha_cipher_new :: "bytes \<Rightarrow> (noise_error, chacha_cipher) result" where
  "chacha_cipher_new key =
     (if length key \<noteq> 32 then Err InvalidKeyLength else Ok (ChachaCipher key))"

fun cipher_encrypt :: "crypto \<Rightarrow> chacha_cipher \<Rightarrow> u64 \<Rightarrow> bytes \<Rightarrow> bytes \<Rightarrow> (noise_error, bytes) result" where
  "cipher_encrypt cr (ChachaCipher key) counter msg aad =
     ok_or Encryption (chacha_seal cr key (counter_nonce counter) msg aad)"

fun cipher_decrypt :: "crypto \<Rightarrow> chacha_cipher \<Rightarrow> u64 \<Rightarrow> bytes \<Rightarrow> bytes \<Rightarrow> (noise_error, bytes) result" where
  "cipher_decrypt cr (ChachaCipher key) counter msg aad =
     ok_or Decryption (chacha_open cr key (counter_nonce counter) msg aad)"

section \<open>Hexadecimal keys\<close>

definition hex_digit :: "nat \<Rightarrow> char" where
  "hex_digit n = (if n < 10 then char_of (48 + n) else char_of (87 + n))"

fun encode_to_hex :: "bytes \<Rightarrow> string" where
  "encode_to_hex [] = []"
| "encode_to_hex (b # bs) =
     hex_digit (unat b div 16) # hex_digit (unat b mod 16) # encode_to_hex bs"

definition digit_of_hex :: "char \<Rightarrow> nat option" where
  "digit_of_hex c =
     (let n = of_char c :: nat
      in if 48 \<le> n \<and> n \<le> 57 then Some (n - 48)
         else if 97 \<le> n \<and> n \<le> 102 then Some (n - 87)
         else if 65 \<le> n \<and> n \<le> 70 then Some (n - 55)
         else None)"

text \<open>\<open>u8::from_str_radix(s, 16)\<close> on a two-character string: a leading plus sign is admitted.\<close>

definition u8_from_hex2 :: "char \<Rightarrow> char \<Rightarrow> u8 option" where
  "u8_from_hex2 a b =
     (if a = CHR ''+'' then map_option of_nat (digit_of_hex b)
      else case (digit_of_hex a, digit_of_hex b) of
             (Some x, Some y) \<Rightarrow> Some (of_nat (16 * x + y))
           | _ \<Rightarrow> None)"

text \<open>\<open>decode_from_hex\<close>: an odd length makes the last slice overrun, a bad digit fails \<open>unwrap\<close>.\<close>

fun decode_from_hex :: "string \<Rightarrow> ('e, bytes) result" where
  "decode_from_hex [] = Ok []"
| "decode_from_hex [_] = Panic"
| "decode_from_hex (a # b # s) =
     (case u8_from_hex2 a b of
        None \<Rightarrow> Panic
      | Some v \<Rightarrow> rbind (decode_from_hex s) (\<lambda>vs. Ok (v # vs)))"

section \<open>Lengths and inverses\<close>

lemma length_counter_nonce [simp]: "length (counter_nonce c) = 12"
  by (simp add: counter_nonce_def)

lemma crypto_lengths:
  assumes "crypto_laws cr"
  shows "length (hash cr a b) = 32" "length (hmac1 cr k a) = 32" "length (hmac2 cr k a b) = 32"
    "length (kdf1 cr k a) = 32" "length (fst (kdf2 cr k a)) = 32" "length (snd (kdf2 cr k a)) = 32"
    "length (fst (kdf3 cr k a)) = 32" "length (fst (snd (kdf3 cr k a))) = 32"
    "length (snd (snd (kdf3 cr k a))) = 32"
  using crypto_lawsD(1,3) [OF assms]
  by (simp_all add: hash_def hmac1_def hmac2_def kdf1_def kdf2_def kdf3_def Let_def)

lemma mac_Ok:
  assumes "crypto_laws cr" "length key = 32"
  obtains t where "mac cr key m = Ok t" "length t = 16"
  using crypto_lawsD(2) [OF assms, of m] by (auto simp: mac_def)

lemma aead_roundtrip:
  assumes "crypto_laws cr" "length key = 32" "length msg < 2 ^ 32"
  obtains c where "aead_encrypt cr key counter msg aad = Ok c" "length c = length msg + 16"
    "aead_decrypt cr key counter c aad = Ok msg"
  using crypto_lawsD(4) [OF assms(1,2) length_counter_nonce [of counter] assms(3), of aad] assms(2)
  by (auto simp: aead_encrypt_def aead_decrypt_def)

lemma aead_decrypt_length:
  assumes "crypto_laws cr" "aead_decrypt cr key counter c aad = Ok msg"
  shows "length c = length msg + 16"
  using assms(2) crypto_lawsD(5) [OF assms(1)]
  by (auto simp: aead_decrypt_def result_simps split: if_splits)

lemma aead_no_panic: "aead_encrypt cr k n m a \<noteq> Panic" "aead_decrypt cr k n m a \<noteq> Panic"
  by (auto simp: aead_encrypt_def aead_decrypt_def split: option.splits elim: ok_or.elims)

lemma cipher_encrypt_eq:
  "length key = 32 \<Longrightarrow> cipher_encrypt cr (ChachaCipher key) n m a = aead_encrypt cr key n m a"
  by (simp add: aead_encrypt_def)

lemma cipher_decrypt_eq:
  "length key = 32 \<Longrightarrow> cipher_decrypt cr (ChachaCipher key) n m a = aead_decrypt cr key n m a"
  by (simp add: aead_decrypt_def)

lemma counter_nonce_inj: "counter_nonce a = counter_nonce b \<Longrightarrow> a = b"
proof -
  assume "counter_nonce a = counter_nonce b"
  then have "to_le_bytes 8 a = to_le_bytes 8 b" by (simp add: counter_nonce_def)
  then have "from_le_bytes (to_le_bytes 8 a) = (from_le_bytes (to_le_bytes 8 b) :: u64)" by simp
  then show "a = b" by simp
qed

lemma digit_of_hex_digit: "n < 16 \<Longrightarrow> digit_of_hex (hex_digit n) = Some n"
  by (auto simp: digit_of_hex_def hex_digit_def Let_def)

lemma hex_digit_not_plus: "n < 16 \<Longrightarrow> hex_digit n \<noteq> CHR ''+''"
proof
  assume "n < 16" "hex_digit n = CHR ''+''"
  then have "digit_of_hex (CHR ''+'') = Some n" using digit_of_hex_digit by metis
  then show False by (simp add: digit_of_hex_def Let_def)
qed

lemma u8_from_hex2_digits: "u8_from_hex2 (hex_digit (unat b div 16)) (hex_digit (unat b mod 16)) = Some b"
proof -
  have "unat b div 16 < 16" using unat_u8_less [of b] by (simp add: less_mult_imp_div_less)
  then show ?thesis
    by (simp add: u8_from_hex2_def hex_digit_not_plus digit_of_hex_digit)
qed

section \<open>Properties\<close>

text \<open>Keys survive the hexadecimal form: \<open>decode_from_hex\<close> undoes \<open>encode_to_hex\<close> on every byte
  string, and the text has two characters per byte.\<close>

theorem hex_roundtrip:
  "decode_from_hex (encode_to_hex bs) = (Ok bs :: ('e, bytes) result) \<and>
   length (encode_to_hex bs) = 2 * length bs"
  by (induction bs) (simp_all add: u8_from_hex2_digits)

end
