(* ===== verification/Frp.thy ===== *)
theory Frp
  imports Frame_Decoder Noise_Crypto
begin

text \<open>
  The FRP client of \<open>derp/frp-client\<close>: the messages (\<open>msg.rs\<close>), the buffer cipher (\<open>buf_crypto.rs\<close>), the
  codec of the control stream (\<open>frp_codec.rs\<close>), login and work connections (\<open>frp_control.rs\<close>) and the
  poll loop of the multiplexed connection (\<open>conn_control.rs\<close>).  The JSON library, PBKDF2, MD5 and
  AES-128-CFB are other crates: they are the fields of the record \<open>frp_lib\<close>, the cipher's state the type
  variable \<open>'k\<close>.
\<close>

section \<open>Messages\<close>

record auth_info =
  ai_privilege_key :: string
  ai_timestamp :: int

record login_request =
  lr_version :: string
  lr_hostname :: string
  lr_os :: string
  lr_arch :: string
  lr_user :: string
  lr_metas :: "(string \<times> string) list"
  lr_pool_count :: int
  lr_auth_info :: "auth_info option"

record ping_request =
  pr_auth_info :: "auth_info option"

record login_resp =
  lp_version :: string
  lp_run_id :: "string option"
  lp_error :: "string option"
  lp_login_message :: "string option"
  lp_rx_limit :: "u64 option"
  lp_tx_limit :: "u64 option"

record new_work_conn =
  wc_run_id :: string
  wc_privilege_key :: "string option"
  wc_timestamp :: "int option"

record start_work_conn_resp =
  sw_proxy_name :: string
  sw_src_addr :: string
  sw_dst_addr :: string
  sw_src_port :: u16
  sw_dst_port :: u16

record new_proxy_request =
  np_proxy_name :: string
  np_proxy_type :: string
  np_remote_port :: "u16 option"
  np_custom_domains :: "string list option"
  np_subdomain :: "string option"

record 'k frp_lib =
  json_login :: "login_request \<Rightarrow> bytes option"
  json_work_conn :: "new_work_conn \<Rightarrow> bytes option"
  json_ping :: "ping_request \<Rightarrow> bytes option"
  json_new_proxy :: "new_proxy_request \<Rightarrow> bytes option"
  json_login_resp :: "bytes \<Rightarrow> login_resp option"
  json_start_work_conn :: "bytes \<Rightarrow> start_work_conn_resp option"
  md5 :: "string \<Rightarrow> bytes"
  pbkdf2 :: "nat \<Rightarrow> string \<Rightarrow> string \<Rightarrow> bytes"
  cfb_new :: "bytes \<Rightarrow> bytes \<Rightarrow> 'k option"
  cfb_encrypt :: "'k \<Rightarrow> bytes \<Rightarrow> bytes \<times> 'k"
  cfb_decrypt :: "'k \<Rightarrow> bytes \<Rightarrow> bytes \<times> 'k"

text \<open>The texts of the error messages are named by constructors; those of other crates are left out.\<close>

datatype frp_text =
    MainStreamNone | RunIdNone | LoginFailed string | NoRunId | NoLoginResp | LoginTimeout

datatype frp_error =
    FrpIoError | SerdeJsonError | ConnectionError | Encrypt | FrpErrorMsg frp_text | FrpCodecError string
  | FrpSendError | Canceled

definition dec_int :: "int \<Rightarrow> string" where
  "dec_int i = (if i < 0 then ''-'' @ dec_nat (nat (- i)) else dec_nat (nat i))"

definition get_privilege_key :: "'k frp_lib \<Rightarrow> int \<Rightarrow> string \<Rightarrow> string" where
  "get_privilege_key lib timestamp auth_token = encode_to_hex (md5 lib (auth_token @ dec_int timestamp))"

definition FRP_VERSION :: string where "FRP_VERSION = ''0.44.0''"

definition login_request_new :: "'k frp_lib \<Rightarrow> string \<times> string \<Rightarrow> int \<Rightarrow> string \<Rightarrow> string \<Rightarrow> login_request" where
  "login_request_new lib platform timestamp token user =
     \<lparr>lr_version = FRP_VERSION, lr_hostname = [], lr_os = fst platform, lr_arch = snd platform, lr_user = user,
      lr_metas = [], lr_pool_count = 1,
      lr_auth_info = Some \<lparr>ai_privilege_key = get_privilege_key lib timestamp token, ai_timestamp = timestamp\<rparr>\<rparr>"

definition work_conn_from_run_id :: "string \<Rightarrow> new_work_conn" where
  "work_conn_from_run_id run_id = \<lparr>wc_run_id = run_id, wc_privilege_key = None, wc_timestamp = None\<rparr>"

definition new_work_conn_new :: "'k frp_lib \<Rightarrow> int \<Rightarrow> string \<Rightarrow> string \<Rightarrow> new_work_conn" where
  "new_work_conn_new lib timestamp run_id token =
     \<lparr>wc_run_id = run_id, wc_privilege_key = Some (get_privilege_key lib timestamp token),
      wc_timestamp = Some timestamp\<rparr>"

definition new_proxy_new :: "string \<Rightarrow> string \<Rightarrow> new_proxy_request" where
  "new_proxy_new proxy_name proxy_type =
     \<lparr>np_proxy_name = proxy_name, np_proxy_type = proxy_type, np_remote_port = None, np_custom_domains = None,
      np_subdomain = None\<rparr>"

definition set_remote_port :: "u16 \<Rightarrow> new_proxy_request \<Rightarrow> new_proxy_request" where
  "set_remote_port port req = req\<lparr>np_remote_port := Some port\<rparr>"

definition set_custom_domains :: "string list \<Rightarrow> new_proxy_request \<Rightarrow> new_proxy_request" where
  "set_custom_domains domains req = req\<lparr>np_custom_domains := Some domains\<rparr>"

definition set_subdomain :: "string \<Rightarrow> new_proxy_request \<Rightarrow> new_proxy_request" where
  "set_subdomain subdomain req = req\<lparr>np_subdomain := Some subdomain\<rparr>"

definition msg_type :: "char \<Rightarrow> u8" where "msg_type c = of_nat (of_char c)"

definition TYPE_LOGIN :: u8 where "TYPE_LOGIN = msg_type (CHR ''o'')"
definition TYPE_LOGIN_RESP :: u8 where "TYPE_LOGIN_RESP = msg_type (CHR ''1'')"
definition TYPE_REQ_WORK_CONN :: u8 where "TYPE_REQ_WORK_CONN = msg_type (CHR ''r'')"
definition TYPE_PING :: u8 where "TYPE_PING = msg_type (CHR ''h'')"
definition TYPE_NEW_WORK_CONN :: u8 where "TYPE_NEW_WORK_CONN = msg_type (CHR ''w'')"
definition TYPE_NEW_PROXY :: u8 where "TYPE_NEW_PROXY = msg_type (CHR ''p'')"
definition TYPE_NEW_PROXY_RESP :: u8 where "TYPE_NEW_PROXY_RESP = msg_type (CHR ''2'')"
definition TYPE_START_WORK_CONN :: u8 where "TYPE_START_WORK_CONN = msg_type (CHR ''s'')"

lemmas msg_types = TYPE_LOGIN_def TYPE_LOGIN_RESP_def TYPE_REQ_WORK_CONN_def TYPE_PING_def
  TYPE_NEW_WORK_CONN_def TYPE_NEW_PROXY_def TYPE_NEW_PROXY_RESP_def TYPE_START_WORK_CONN_def msg_type_def

record msg_header =
  mh_type :: u8
  mh_len :: u64

definition MSG_HEADER_SIZE :: nat where "MSG_HEADER_SIZE = 9"

definition msg_header_encode :: "msg_header \<Rightarrow> bytes" where
  "msg_header_encode hdr = mh_type hdr # to_be_bytes 8 (mh_len hdr)"

text \<open>On the nine bytes the type of the source asks for.\<close>

definition msg_header_decode :: "bytes \<Rightarrow> msg_header" where
  "msg_header_decode buf = \<lparr>mh_type = buf ! 0, mh_len = from_be_bytes (take 8 (drop 1 buf))\<rparr>"

section \<open>The codec\<close>

record 'k frp_buf_crypto =
  bc_iv :: bytes
  bc_key :: bytes
  bc_enc :: 'k
  bc_dec :: 'k

definition DEFAULT_SALT :: string where "DEFAULT_SALT = ''frp''"

definition frp_buf_crypto_new :: "'k frp_lib \<Rightarrow> string \<Rightarrow> bytes \<Rightarrow> (frp_error, 'k frp_buf_crypto) result" where
  "frp_buf_crypto_new lib token iv =
     (let key = pbkdf2 lib 64 DEFAULT_SALT token
      in rbind (ok_or Encrypt (cfb_new lib key iv)) (\<lambda>k.
           Ok \<lparr>bc_iv = iv, bc_key = key, bc_enc = k, bc_dec = k\<rparr>))"

definition decrypt_buf :: "'k frp_lib \<Rightarrow> 'k frp_buf_crypto \<Rightarrow> bytes \<Rightarrow> bytes \<times> 'k frp_buf_crypto" where
  "decrypt_buf lib c buf = (let (d, k) = cfb_decrypt lib (bc_dec c) buf in (d, c\<lparr>bc_dec := k\<rparr>))"

definition encrypt_buf :: "'k frp_lib \<Rightarrow> 'k frp_buf_crypto \<Rightarrow> bytes \<Rightarrow> bytes \<times> 'k frp_buf_crypto" where
  "encrypt_buf lib c buf = (let (d, k) = cfb_encrypt lib (bc_enc c) buf in (d, c\<lparr>bc_enc := k\<rparr>))"

datatype frp_request =
    LoginReq login_request | ReqWorkConn new_work_conn | PingReq ping_request
  | NewProxy new_proxy_request | IVReq

datatype frp_response =
    LoginRespR login_resp | IVR | TypeReqWorkConn | StartWorkConn start_work_conn_resp | FrpTestR

datatype frp_stage = LoginStage | WaitIv | Work

record 'k frp_codec =
  fc_token :: string
  fc_header :: "msg_header option"
  fc_coder :: "'k frp_buf_crypto option"
  fc_stage :: frp_stage

definition frp_codec_new :: "string \<Rightarrow> 'k frp_codec" where
  "frp_codec_new token = \<lparr>fc_token = token, fc_header = None, fc_coder = None, fc_stage = LoginStage\<rparr>"

definition is_encrypt :: "frp_request \<Rightarrow> bool" where
  "is_encrypt req = (case req of NewProxy _ \<Rightarrow> True | _ \<Rightarrow> False)"

text \<open>Every byte read goes through the decryptor once there is one.\<close>

definition frp_decrypt :: "'k frp_lib \<Rightarrow> 'k frp_codec \<Rightarrow> bytes \<Rightarrow> bytes \<times> 'k frp_codec" where
  "frp_decrypt lib c data =
     (case fc_coder c of
        Some coder \<Rightarrow> (let (d, coder') = decrypt_buf lib coder data in (d, c\<lparr>fc_coder := Some coder'\<rparr>))
      | None \<Rightarrow> (data, c))"

definition frp_message ::
    "'k frp_lib \<Rightarrow> 'k frp_codec \<Rightarrow> u8 \<Rightarrow> bytes \<Rightarrow> 'k frp_codec \<times> (frp_response, frp_error) decoded" where
  "frp_message lib c tb data =
     (if tb = TYPE_LOGIN_RESP then
        (case json_login_resp lib data of
           Some resp \<Rightarrow> (c\<lparr>fc_stage := WaitIv\<rparr>, Item (LoginRespR resp))
         | None \<Rightarrow> (c, Fail SerdeJsonError))
      else if tb = TYPE_REQ_WORK_CONN then (c, Item TypeReqWorkConn)
      else if tb = TYPE_NEW_PROXY_RESP then (c, Item FrpTestR)
      else if tb = TYPE_START_WORK_CONN then
        (case json_start_work_conn lib data of
           Some resp \<Rightarrow> (c, Item (StartWorkConn resp))
         | None \<Rightarrow> (c, Fail SerdeJsonError))
      else (c, Crash))"

definition frp_take_message ::
    "'k frp_lib \<Rightarrow> 'k frp_codec \<Rightarrow> msg_header \<Rightarrow> bytes \<Rightarrow> 'k frp_codec \<times> bytes \<times> (frp_response, frp_error) decoded" where
  "frp_take_message lib c header src =
     (let len = unat (mh_len header); c = c\<lparr>fc_header := None\<rparr>
      in if len > 2048 then (c, src, Fail (FrpCodecError ''msg len too long''))
         else if length src < len then (c\<lparr>fc_header := Some header\<rparr>, src, Need)
         else let (data, c) = frp_decrypt lib c (take len src);
                  (c, out) = frp_message lib c (mh_type header) data
              in (c, drop len src, out))"

definition frp_decode ::
    "'k frp_lib \<Rightarrow> 'k frp_codec \<Rightarrow> bytes \<Rightarrow> 'k frp_codec \<times> bytes \<times> (frp_response, frp_error) decoded" where
  "frp_decode lib c src =
     (if fc_stage c = WaitIv then
        if length src < 16 then (c, src, Need)
        else case frp_buf_crypto_new lib (fc_token c) (take 16 src) of
               Ok coder \<Rightarrow> (c\<lparr>fc_coder := Some coder, fc_stage := Work\<rparr>, drop 16 src, Item IVR)
             | Err e \<Rightarrow> (c, drop 16 src, Fail e)
             | Panic \<Rightarrow> (c, drop 16 src, Crash)
      else case fc_header c of
             None \<Rightarrow>
               if length src < 9 then (c, src, Need)
               else let (hdr, c) = frp_decrypt lib c (take 9 src)
                    in frp_take_message lib c (msg_header_decode hdr) (drop 9 src)
           | Some header \<Rightarrow> frp_take_message lib c header src)"

definition is_enough :: "u8 \<Rightarrow> nat \<Rightarrow> nat \<Rightarrow> bool" where
  "is_enough tp src_len header_len = (if tp = TYPE_LOGIN_RESP then src_len \<ge> header_len + 16 else True)"

definition frp_body :: "'k frp_lib \<Rightarrow> frp_request \<Rightarrow> (u8 \<times> bytes option) option" where
  "frp_body lib item =
     (case item of
        LoginReq r \<Rightarrow> Some (TYPE_LOGIN, json_login lib r)
      | ReqWorkConn r \<Rightarrow> Some (TYPE_NEW_WORK_CONN, json_work_conn lib r)
      | PingReq r \<Rightarrow> Some (TYPE_PING, json_ping lib r)
      | NewProxy r \<Rightarrow> Some (TYPE_NEW_PROXY, json_new_proxy lib r)
      | IVReq \<Rightarrow> None)"

definition frp_encode ::
    "'k frp_lib \<Rightarrow> 'k frp_codec \<Rightarrow> frp_request \<Rightarrow> bytes \<Rightarrow> (frp_error, bytes \<times> 'k frp_codec) result" where
  "frp_encode lib c item dst =
     (case frp_body lib item of
        None \<Rightarrow> rbind (ok_or (FrpCodecError ''frp_coder is None'') (fc_coder c)) (\<lambda>coder. Ok (dst @ bc_iv coder, c))
      | Some (tb, json) \<Rightarrow>
          rbind (ok_or SerdeJsonError json) (\<lambda>str_bytes.
            let data = [tb] @ to_be_bytes 8 (of_nat (length str_bytes) :: u64) @ str_bytes
            in if is_encrypt item then
                 rbind (ok_or (FrpCodecError ''frp_coder is None'') (fc_coder c)) (\<lambda>coder.
                   let (data, coder) = encrypt_buf lib coder data
                   in Ok (dst @ data, c\<lparr>fc_coder := Some coder\<rparr>))
               else Ok (dst @ data, c)))"

section \<open>The control stream\<close>

text \<open>
  The framed control stream: the codec, the bytes buffered, the reads still to come and whether the stream
  ends after them (otherwise it stays open and a read waits), what was written and whether writing works.
\<close>

record 'k frp_stream =
  fs_codec :: "'k frp_codec"
  fs_buf :: bytes
  fs_reads :: "bytes list"
  fs_eof :: bool
  fs_sent :: bytes
  fs_writable :: bool

datatype frp_next = NextItem frp_response | NextError frp_error | NextEnd | NextPending | NextPanic

fun frp_read ::
    "'k frp_lib \<Rightarrow> 'k frp_codec \<Rightarrow> bytes \<Rightarrow> bytes list \<Rightarrow> bool \<Rightarrow> frp_next \<times> 'k frp_codec \<times> bytes \<times> bytes list" where
  "frp_read lib c buf [] eof =
     (case frp_decode lib c buf of
        (c', r, Item i) \<Rightarrow> (NextItem i, c', r, [])
      | (c', r, Fail e) \<Rightarrow> (NextError e, c', r, [])
      | (c', r, Crash) \<Rightarrow> (NextPanic, c', r, [])
      | (c', r, Need) \<Rightarrow>
          (if \<not> eof then NextPending else if r = [] then NextEnd else NextError FrpIoError, c', r, []))"
| "frp_read lib c buf (x # xs) eof =
     (case frp_decode lib c buf of
        (c', r, Item i) \<Rightarrow> (NextItem i, c', r, x # xs)
      | (c', r, Fail e) \<Rightarrow> (NextError e, c', r, x # xs)
      | (c', r, Crash) \<Rightarrow> (NextPanic, c', r, x # xs)
      | (c', r, Need) \<Rightarrow> frp_read lib c' (r @ x) xs eof)"

definition stream_next :: "'k frp_lib \<Rightarrow> 'k frp_stream \<Rightarrow> frp_next \<times> 'k frp_stream" where
  "stream_next lib s =
     (let (n, c, b, rs) = frp_read lib (fs_codec s) (fs_buf s) (fs_reads s) (fs_eof s)
      in (n, s\<lparr>fs_codec := c, fs_buf := b, fs_reads := rs\<rparr>))"

definition sink_send :: "'k frp_lib \<Rightarrow> frp_request \<Rightarrow> 'k frp_stream \<Rightarrow> (frp_error, 'k frp_stream) result" where
  "sink_send lib item s =
     rbind (frp_encode lib (fs_codec s) item []) (\<lambda>(b, c).
       if fs_writable s then Ok (s\<lparr>fs_codec := c, fs_sent := fs_sent s @ b\<rparr>) else Err FrpIoError)"

record 'k frp_control =
  ct_token :: string
  ct_run_id :: "string option"
  ct_framed :: "'k frp_stream"
  ct_main_stream :: bool

definition frp_control_new :: "string \<Rightarrow> bytes list \<Rightarrow> bool \<Rightarrow> bool \<Rightarrow> 'k frp_control" where
  "frp_control_new token reads eof writable =
     \<lparr>ct_token = token, ct_run_id = None,
      ct_framed = \<lparr>fs_codec = frp_codec_new token, fs_buf = [], fs_reads = reads, fs_eof = eof, fs_sent = [],
        fs_writable = writable\<rparr>,
      ct_main_stream = True\<rparr>"

text \<open>The reads are those of the second the login may take: a read that waits longer is the time-out.\<close>

definition frp_login_iv :: "'k frp_lib \<Rightarrow> 'k frp_control \<Rightarrow> 'k frp_control \<times> (frp_error, unit) result" where
  "frp_login_iv lib ct =
     (case stream_next lib (ct_framed ct) of
        (NextItem IVR, s) \<Rightarrow>
          (case sink_send lib IVReq s of
             Ok s' \<Rightarrow> (ct\<lparr>ct_framed := s'\<rparr>, Ok ())
           | Err e \<Rightarrow> (ct\<lparr>ct_framed := s\<rparr>, Err e)
           | Panic \<Rightarrow> (ct\<lparr>ct_framed := s\<rparr>, Panic))
      | (NextPanic, s) \<Rightarrow> (ct\<lparr>ct_framed := s\<rparr>, Panic)
      | (NextPending, s) \<Rightarrow> (ct\<lparr>ct_framed := s\<rparr>, Err (FrpErrorMsg LoginTimeout))
      | (_, s) \<Rightarrow> (ct\<lparr>ct_framed := s\<rparr>, Ok ()))"

definition frp_login_resp :: "'k frp_lib \<Rightarrow> 'k frp_control \<Rightarrow> 'k frp_control \<times> (frp_error, unit) result" where
  "frp_login_resp lib ct =
     (case stream_next lib (ct_framed ct) of
        (NextItem (LoginRespR resp), s) \<Rightarrow>
          (case lp_error resp of
             Some e \<Rightarrow> (ct\<lparr>ct_framed := s\<rparr>, Err (FrpErrorMsg (LoginFailed e)))
           | None \<Rightarrow>
               (case lp_run_id resp of
                  None \<Rightarrow> (ct\<lparr>ct_framed := s\<rparr>, Err (FrpErrorMsg NoRunId))
                | Some run_id \<Rightarrow> frp_login_iv lib (ct\<lparr>ct_framed := s, ct_run_id := Some run_id\<rparr>)))
      | (NextPanic, s) \<Rightarrow> (ct\<lparr>ct_framed := s\<rparr>, Panic)
      | (NextPending, s) \<Rightarrow> (ct\<lparr>ct_framed := s\<rparr>, Err (FrpErrorMsg LoginTimeout))
      | (_, s) \<Rightarrow> (ct\<lparr>ct_framed := s\<rparr>, Err (FrpErrorMsg NoLoginResp)))"

definition frp_login ::
    "'k frp_lib \<Rightarrow> string \<times> string \<Rightarrow> int \<Rightarrow> string \<Rightarrow> 'k frp_control \<Rightarrow> 'k frp_control \<times> (frp_error, unit) result" where
  "frp_login lib platform now user ct =
     (case sink_send lib (LoginReq (login_request_new lib platform now (ct_token ct) user)) (ct_framed ct) of
        Ok s \<Rightarrow>
          if ct_main_stream ct then frp_login_resp lib (ct\<lparr>ct_framed := s\<rparr>)
          else (ct\<lparr>ct_framed := s\<rparr>, Err (FrpErrorMsg MainStreamNone))
      | _ \<Rightarrow> (ct, Panic))"

text \<open>\<open>run\<close> takes the stream before it looks for the run id.\<close>

definition frp_run :: "'k frp_control \<Rightarrow> 'k frp_control \<times> (frp_error, string \<times> string) result" where
  "frp_run ct =
     (if ct_main_stream ct then
        (ct\<lparr>ct_main_stream := False\<rparr>,
         case ct_run_id ct of
           None \<Rightarrow> Err (FrpErrorMsg RunIdNone)
         | Some run_id \<Rightarrow> Ok (run_id, ct_token ct))
      else (ct, Err (FrpErrorMsg MainStreamNone)))"

text \<open>The loop over the control stream: one work connection per request, each opened through the
  multiplexer (\<open>opens\<close> says which of these succeed; the source unwraps the result).\<close>

fun handle_stream :: "string \<times> string \<Rightarrow> frp_next list \<Rightarrow> bool list \<Rightarrow> (frp_error, (string \<times> string) list) result" where
  "handle_stream ctx (NextItem TypeReqWorkConn # ns) (ok # opens) =
     (if ok then rbind (handle_stream ctx ns opens) (\<lambda>ws. Ok (ctx # ws)) else Panic)"
| "handle_stream ctx (NextItem TypeReqWorkConn # ns) [] = Panic"
| "handle_stream ctx (NextItem i # ns) opens = handle_stream ctx ns opens"
| "handle_stream ctx (NextPanic # ns) opens = Panic"
| "handle_stream ctx _ opens = Ok []"

text \<open>A work connection: its first message, and the answer read before the bytes are proxied.  A buffer
  longer than \<open>isize::MAX\<close> cannot be allocated.\<close>

definition work_conn_hello :: "'k frp_lib \<Rightarrow> int \<Rightarrow> string \<Rightarrow> string \<Rightarrow> (frp_error, bytes) result" where
  "work_conn_hello lib now run_id token =
     rbind (ok_or SerdeJsonError (json_work_conn lib (new_work_conn_new lib now run_id token))) (\<lambda>str.
       Ok ([TYPE_NEW_WORK_CONN] @ to_be_bytes 8 (of_nat (length str) :: u64) @ str))"

definition work_conn_answer :: "'k frp_lib \<Rightarrow> bytes \<Rightarrow> (frp_error, start_work_conn_resp \<times> bytes) result" where
  "work_conn_answer lib input =
     (if length input < MSG_HEADER_SIZE then Err FrpIoError
      else let len = unat (from_be_bytes (take 8 (drop 1 input)) :: u64); body = drop MSG_HEADER_SIZE input
           in if len \<ge> 2 ^ 63 then Panic
              else if length body < len then Err FrpIoError
              else rbind (ok_or SerdeJsonError (json_start_work_conn lib (take len body))) (\<lambda>resp.
                     Ok (resp, drop len body)))"

definition hande_work_conn ::
    "'k frp_lib \<Rightarrow> int \<Rightarrow> string \<Rightarrow> string \<Rightarrow> bytes \<Rightarrow> (frp_error, bytes \<times> bytes) result" where
  "hande_work_conn lib now run_id token input =
     rbind (work_conn_hello lib now run_id token) (\<lambda>hello.
     rbind (work_conn_answer lib input) (\<lambda>(resp, rest). Ok (hello, rest)))"

text \<open>\<open>proxy\<close> copies in both directions until the first of the two copies ends, by the end of what it reads or by an error.  The
  result is what was written to either side and, once it has ended, how.\<close>

datatype copy_event = FromLocal bytes | FromPeer bytes | LocalEnds | PeerEnds | CopyFails

fun proxy_copy :: "copy_event list \<Rightarrow> bytes \<times> bytes \<Rightarrow> (bytes \<times> bytes) \<times> (frp_error, unit) result option" where
  "proxy_copy [] out = (out, None)"
| "proxy_copy (FromLocal b # es) (peer, loc) = proxy_copy es (peer @ b, loc)"
| "proxy_copy (FromPeer b # es) (peer, loc) = proxy_copy es (peer, loc @ b)"
| "proxy_copy (LocalEnds # es) out = (out, Some (Ok ()))"
| "proxy_copy (PeerEnds # es) out = (out, Some (Ok ()))"
| "proxy_copy (CopyFails # es) out = (out, Some (Err FrpIoError))"

text \<open>A side that has said all it has to say ends the connection for the other: what comes after is lost.\<close>

lemma proxy_half_close: "proxy_copy (es @ LocalEnds # rest) out = proxy_copy (es @ [LocalEnds]) out"
  by (induction es out rule: proxy_copy.induct) simp_all

text \<open>\<open>LoginRequest::send_msg\<close>, the login without the codec: what is written, and the answer read from \<open>input\<close>.\<close>

definition login_send_msg :: "'k frp_lib \<Rightarrow> login_request \<Rightarrow> bytes \<Rightarrow> bytes \<times> (frp_error, login_resp) result" where
  "login_send_msg lib req input =
     (case json_login lib req of
        None \<Rightarrow> ([], Err SerdeJsonError)
      | Some frame \<Rightarrow>
          (msg_header_encode \<lparr>mh_type = TYPE_LOGIN, mh_len = of_nat (length frame)\<rparr> @ frame,
           if length input < MSG_HEADER_SIZE then Err FrpIoError
           else let len = unat (mh_len (msg_header_decode (take MSG_HEADER_SIZE input))); body = drop MSG_HEADER_SIZE input
                in if len \<ge> 2 ^ 63 then Panic
                   else if length body < len then Err FrpIoError
                   else ok_or SerdeJsonError (json_login_resp lib (take len body))))"

section \<open>The multiplexed connection\<close>

datatype 'r poll = Ready 'r | Pending

datatype control_command = OpenStream nat | CloseConnection nat

text \<open>What each requester has been told: a stream, an error, or that its sender was dropped.\<close>

datatype open_reply = Opened nat | OpenFailed | SenderDropped

record conn_control =
  cc_queue :: "control_command list"
  cc_replies :: "(nat \<times> open_reply) list"

definition open_stream :: "nat \<Rightarrow> conn_control \<Rightarrow> conn_control" where
  "open_stream tx cc = cc\<lparr>cc_queue := cc_queue cc @ [OpenStream tx]\<rparr>"

text \<open>\<open>inbound\<close>: a stream opened by the remote side, its closing, or an error.\<close>

definition conn_poll_inbound :: "(nat option option) poll \<Rightarrow> conn_control \<Rightarrow> conn_control \<times> (frp_error, unit poll) result" where
  "conn_poll_inbound inbound cc =
     (case inbound of
        Pending \<Rightarrow> (cc, Ok Pending)
      | Ready None \<Rightarrow> (cc, Err ConnectionError)
      | Ready (Some _) \<Rightarrow> (cc, Panic))"

definition conn_poll ::
    "(nat option) poll \<Rightarrow> (nat option option) poll \<Rightarrow> conn_control \<Rightarrow> conn_control \<times> (frp_error, unit poll) result" where
  "conn_poll outbound inbound cc =
     (case cc_queue cc of
        [] \<Rightarrow> conn_poll_inbound inbound cc
      | OpenStream tx # q \<Rightarrow>
          (case outbound of
             Ready res \<Rightarrow>
               conn_poll_inbound inbound
                 (cc\<lparr>cc_queue := q,
                     cc_replies := cc_replies cc @ [(tx, case res of Some st \<Rightarrow> Opened st | None \<Rightarrow> OpenFailed)]\<rparr>)
           | Pending \<Rightarrow> (cc\<lparr>cc_queue := q, cc_replies := cc_replies cc @ [(tx, SenderDropped)]\<rparr>, Ok Pending))
      | CloseConnection tx # q \<Rightarrow> (cc\<lparr>cc_queue := q\<rparr>, Panic))"

section \<open>Reads of any size\<close>

lemma frp_decrypt_keeps:
  assumes "frp_decrypt lib c data = (d, c')"
  shows "fc_stage c' = fc_stage c" "fc_header c' = fc_header c" "fc_token c' = fc_token c"
  using assms by (auto simp: frp_decrypt_def split_beta split: option.splits)

lemma frp_message_not_Need: "snd (frp_message lib c tb data) \<noteq> Need"
  by (auto simp: frp_message_def split: option.splits)

lemma frp_message_header: "fc_header (fst (frp_message lib c tb data)) = fc_header c"
  by (auto simp: frp_message_def split: option.splits)

lemma frp_take_message_reset:
  "frp_take_message lib (c\<lparr>fc_header := h'\<rparr>) h src = frp_take_message lib c h src"
  by (simp add: frp_take_message_def)

lemma frp_take_message_cases:
  obtains (long) "frp_take_message lib c h src = (c\<lparr>fc_header := None\<rparr>, src, Fail (FrpCodecError ''msg len too long''))"
      "\<And>x. frp_take_message lib c h (src @ x) = (c\<lparr>fc_header := None\<rparr>, src @ x, Fail (FrpCodecError ''msg len too long''))"
  | (short) "frp_take_message lib c h src = (c\<lparr>fc_header := Some h\<rparr>, src, Need)"
  | (full) c' out where "frp_take_message lib c h src = (c', drop (unat (mh_len h)) src, out)"
      "\<And>x. frp_take_message lib c h (src @ x) = (c', drop (unat (mh_len h)) src @ x, out)"
      "fc_header c' = None" "out \<noteq> Need"
proof (cases "unat (mh_len h) > 2048")
  case True
  then show ?thesis by (intro long) (simp_all add: frp_take_message_def)
next
  case False
  show ?thesis
  proof (cases "length src < unat (mh_len h)")
    case True
    with False show ?thesis by (intro short) (simp add: frp_take_message_def)
  next
    case fits: False
    obtain d c1 where d: "frp_decrypt lib (c\<lparr>fc_header := None\<rparr>) (take (unat (mh_len h)) src) = (d, c1)"
      by (cases "frp_decrypt lib (c\<lparr>fc_header := None\<rparr>) (take (unat (mh_len h)) src)")
    obtain c2 out where m: "frp_message lib c1 (mh_type h) d = (c2, out)"
      by (cases "frp_message lib c1 (mh_type h) d")
    have "fc_header c2 = None" "out \<noteq> Need"
      using frp_message_header [of lib c1 "mh_type h" d] frp_message_not_Need [of lib c1 "mh_type h" d]
        frp_decrypt_keeps(2) [OF d] m by simp_all
    then show ?thesis
      using False fits d m by (intro full [of c2 out]) (simp_all add: frp_take_message_def)
  qed
qed

lemma frp_decode_cases:
  obtains (iv_wait) "fc_stage c = WaitIv" "length src < 16" "frp_decode lib c src = (c, src, Need)"
  | (iv) c' out where "fc_stage c = WaitIv" "16 \<le> length src" "frp_decode lib c src = (c', drop 16 src, out)"
      "\<And>x. frp_decode lib c (src @ x) = (c', drop 16 src @ x, out)" "out \<noteq> Need" "fc_header c' = fc_header c"
  | (wait) "fc_stage c \<noteq> WaitIv" "fc_header c = None" "length src < 9" "frp_decode lib c src = (c, src, Need)"
  | (head) hdr c' where "fc_stage c \<noteq> WaitIv" "fc_header c = None" "9 \<le> length src" "fc_stage c' = fc_stage c"
      "\<And>x. frp_decode lib c (src @ x) = frp_take_message lib c' (msg_header_decode hdr) (drop 9 src @ x)"
  | (body) h where "fc_stage c \<noteq> WaitIv" "fc_header c = Some h"
      "\<And>x. frp_decode lib c (src @ x) = frp_take_message lib c h (src @ x)"
proof (cases "fc_stage c = WaitIv")
  case True
  show ?thesis
  proof (cases "length src < 16")
    case short: True
    with True show ?thesis by (intro iv_wait) (simp_all add: frp_decode_def)
  next
    case False
    obtain k where "frp_buf_crypto_new lib (fc_token c) (take 16 src) = k" by blast
    with True False show ?thesis
      by (cases k) (auto simp: frp_decode_def intro: iv)
  qed
next
  case False
  show ?thesis
  proof (cases "fc_header c")
    case (Some h)
    with False show ?thesis by (intro body [of h]) (simp_all add: frp_decode_def)
  next
    case None
    obtain hdr c' where d: "frp_decrypt lib c (take 9 src) = (hdr, c')" by (cases "frp_decrypt lib c (take 9 src)")
    show ?thesis
    proof (cases "length src < 9")
      case True
      with None False show ?thesis by (intro wait) (simp_all add: frp_decode_def)
    next
      case long: False
      with None False d show ?thesis
        by (intro head [of c' hdr]) (simp_all add: frp_decode_def frp_decrypt_keeps(1) [OF d])
    qed
  qed
qed

lemma frp_decode_ext:
  assumes "frp_decode lib c src = (c', r, out)" "out \<noteq> Need"
  shows "frp_decode lib c (src @ x) = (c', r @ x, out)"
proof (cases rule: frp_decode_cases [of c src lib])
  case (head hdr c1)
  then show ?thesis
    using assms head(5) [of "[]"]
    by (cases rule: frp_take_message_cases [of lib c1 "msg_header_decode hdr" "drop 9 src"]) auto
next
  case (body h)
  then show ?thesis
    using assms body(3) [of "[]"] by (cases rule: frp_take_message_cases [of lib c h src]) auto
qed (use assms in auto)

lemma frp_decode_need:
  assumes "frp_decode lib c src = (c', r, Need)"
  shows "frp_decode lib c (src @ x) = frp_decode lib c' (r @ x)"
proof (cases rule: frp_decode_cases [of c src lib])
  case (head hdr c1)
  show ?thesis
  proof (cases rule: frp_take_message_cases [of lib c1 "msg_header_decode hdr" "drop 9 src"])
    case short
    then have "c' = c1\<lparr>fc_header := Some (msg_header_decode hdr)\<rparr>" "r = drop 9 src"
      using assms head(5) [of "[]"] by auto
    then show ?thesis using head(1,4,5) by (simp add: frp_decode_def frp_take_message_reset)
  qed (use assms head(5) [of "[]"] in auto)
next
  case (body h)
  show ?thesis
  proof (cases rule: frp_take_message_cases [of lib c h src])
    case short
    then have "c' = c" "r = src" using assms body(2) body(3) [of "[]"] by auto
    then show ?thesis by simp
  qed (use assms body(3) [of "[]"] in auto)
qed (use assms in auto)

definition frp_size :: "'k frp_codec \<Rightarrow> bytes \<Rightarrow> nat" where
  "frp_size c b = 2 * length b + (if fc_header c = None then 0 else 1)"

lemma frp_decode_progress:
  assumes "frp_decode lib c src = (c', r, Item i)"
  shows "frp_size c' r < frp_size c src"
proof (cases rule: frp_decode_cases [of c src lib])
  case (head hdr c1)
  then show ?thesis using assms head(5) [of "[]"]
    by (cases rule: frp_take_message_cases [of lib c1 "msg_header_decode hdr" "drop 9 src"]) (auto simp: frp_size_def)
next
  case (body h)
  then show ?thesis using assms body(3) [of "[]"]
    by (cases rule: frp_take_message_cases [of lib c h src]) (auto simp: frp_size_def)
next
  case (iv c1 out)
  then show ?thesis using assms by (auto simp: frp_size_def)
qed (use assms in auto)

interpretation frp: frame_decoder "frp_decode lib" frp_size for lib
proof (unfold_locales, goal_cases)
  case (1 s b s' r i)
  then show ?case by (rule frp_decode_progress)
next
  case (2 s b s' r i x)
  then show ?case using frp_decode_ext [of lib s b s' r "Item i" x] by simp
next
  case (3 s b s' r e x)
  then show ?case using frp_decode_ext [of lib s b s' r "Fail e" x] by simp
next
  case (4 s b s' r x)
  then show ?case using frp_decode_ext [of lib s b s' r Crash x] by simp
next
  case (5 s b s' r x)
  then show ?case by (rule frp_decode_need)
qed

text \<open>The control stream decodes to the same messages however the bytes are cut into reads, through
  login, key exchange and encrypted messages alike, and every buffer is decoded to an end.\<close>

theorem frp_chunking:
  "feed (frp_decode lib) c [] (ch # chs) = outcome (drain (frp_decode lib) c (concat (ch # chs)))
    \<and> feed (frp_decode lib) c [] (ch # chs) \<noteq> None"
proof -
  have "drain (frp_decode lib) c (concat (ch # chs)) \<noteq> None"
    using frp.drain_total [of lib c "concat (ch # chs)"] by auto
  then show ?thesis unfolding frp.feed_concat append_Nil by (simp add: outcome_def)
qed

lemma frp_read_item:
  assumes "frp_decode lib c (buf @ concat reads) = (c', r, Item i)"
  shows "\<exists>b rs. frp_read lib c buf reads eof = (NextItem i, c', b, rs) \<and> b @ concat rs = r"
  using assms
proof (induction reads arbitrary: c buf)
  case Nil
  then show ?case by simp
next
  case (Cons x xs)
  obtain c1 r1 out where d: "frp_decode lib c buf = (c1, r1, out)" by (cases "frp_decode lib c buf")
  show ?case
  proof (cases "out = Need")
    case True
    then have "frp_decode lib c1 ((r1 @ x) @ concat xs) = (c', r, Item i)"
      using frp_decode_need [of lib c buf c1 r1 "x @ concat xs"] Cons.prems d by simp
    from Cons.IH [OF this] show ?thesis using d True by simp
  next
    case False
    then show ?thesis using frp_decode_ext [OF d False, of "x @ concat xs"] Cons.prems d by simp
  qed
qed

lemma stream_next_item:
  assumes "frp_decode lib (fs_codec s) (fs_buf s @ concat (fs_reads s)) = (c', r, Item i)"
  obtains s' where "stream_next lib s = (NextItem i, s')" "fs_codec s' = c'" "fs_buf s' @ concat (fs_reads s') = r"
    "fs_sent s' = fs_sent s" "fs_writable s' = fs_writable s"
  using frp_read_item [OF assms, of "fs_eof s"] by (auto simp: stream_next_def)

section \<open>Login\<close>

definition frp_frame :: "u8 \<Rightarrow> bytes \<Rightarrow> bytes" where
  "frp_frame tb body = tb # to_be_bytes 8 (of_nat (length body) :: u64) @ body"

lemma frp_frame_header:
  "length (frp_frame tb body) = 9 + length body" "drop 9 (frp_frame tb body) = body"
  "take 9 (frp_frame tb body) = tb # to_be_bytes 8 (of_nat (length body) :: u64)"
  by (simp_all add: frp_frame_def)

lemma msg_header_decode_frame:
  "msg_header_decode (tb # to_be_bytes 8 len) = \<lparr>mh_type = tb, mh_len = len\<rparr>"
  by (simp add: msg_header_decode_def)

lemma frp_plain_frame_decodes:
  assumes "fc_stage c = LoginStage" "fc_header c = None" "fc_coder c = None" "length body \<le> 2048"
  shows "frp_decode lib c (frp_frame tb body @ x) =
     (let (c', out) = frp_message lib c tb body in (c', x, out))"
proof -
  have u: "unat (of_nat (length body) :: u64) = length body"
    using assms(4) by (simp add: unsigned_of_nat take_bit_nat_eq_self)
  have c: "c\<lparr>fc_header := None\<rparr> = c" using assms(2) by simp
  show ?thesis
    using assms(1-4)
    by (simp add: frp_decode_def frp_decrypt_def frp_take_message_def frp_frame_header msg_header_decode_frame u c Let_def)
qed

lemma frp_iv_decodes:
  assumes "fc_stage c = WaitIv" "length iv = 16" "cfb_new lib (pbkdf2 lib 64 DEFAULT_SALT (fc_token c)) iv = Some k"
  shows "frp_decode lib c (iv @ x) =
     (c\<lparr>fc_coder := Some \<lparr>bc_iv = iv, bc_key = pbkdf2 lib 64 DEFAULT_SALT (fc_token c), bc_enc = k, bc_dec = k\<rparr>,
        fc_stage := Work\<rparr>, x, Item IVR)"
  using assms by (simp add: frp_decode_def frp_buf_crypto_new_def)

lemma sink_send_login:
  assumes "json_login lib req = Some hello" "fs_writable s"
  shows "sink_send lib (LoginReq req) s = Ok (s\<lparr>fs_sent := fs_sent s @ frp_frame TYPE_LOGIN hello\<rparr>)"
  using assms by (simp add: sink_send_def frp_encode_def frp_body_def is_encrypt_def frp_frame_def)

text \<open>Logging in to a server that accepts: whatever the reads, once the login response without an
  error and the server's 16-byte iv have arrived, the client has sent its login and echoed the iv, keeps the
  run id, has the cipher of token and iv, and has consumed nothing beyond the iv.\<close>

theorem frp_login_succeeds:
  fixes lib :: "'k frp_lib"
  assumes "json_login lib (login_request_new lib platform now token user) = Some hello"
    and "json_login_resp lib body = Some resp" "lp_error resp = None" "lp_run_id resp = Some run_id"
    and "length body \<le> 2048" "length iv = 16" "cfb_new lib (pbkdf2 lib 64 DEFAULT_SALT token) iv = Some k"
    and "concat reads = frp_frame TYPE_LOGIN_RESP body @ iv @ rest"
  shows "\<exists>ct. frp_login lib platform now user (frp_control_new token reads eof True) = (ct, Ok ())
    \<and> ct_run_id ct = Some run_id
    \<and> fs_sent (ct_framed ct) = frp_frame TYPE_LOGIN hello @ iv
    \<and> fc_stage (fs_codec (ct_framed ct)) = Work
    \<and> fc_coder (fs_codec (ct_framed ct)) =
        Some \<lparr>bc_iv = iv, bc_key = pbkdf2 lib 64 DEFAULT_SALT token, bc_enc = k, bc_dec = k\<rparr>
    \<and> fs_buf (ct_framed ct) @ concat (fs_reads (ct_framed ct)) = rest"
proof -
  let ?ct = "frp_control_new token reads eof True :: 'k frp_control"
  let ?s = "(ct_framed ?ct)\<lparr>fs_sent := frp_frame TYPE_LOGIN hello\<rparr>"
  have new: "fs_writable (ct_framed ?ct)" "fs_sent (ct_framed ?ct) = []" "ct_token ?ct = token" "ct_main_stream ?ct"
    "fs_codec ?s = frp_codec_new token" "fs_buf ?s = []" "fs_reads ?s = reads" "fs_writable ?s"
    "fs_sent ?s = frp_frame TYPE_LOGIN hello"
    by (simp_all add: frp_control_new_def)
  have hello: "sink_send lib (LoginReq (login_request_new lib platform now token user)) (ct_framed ?ct) = Ok ?s"
    by (rule sink_send_login [OF assms(1) new(1), unfolded new(2) append_Nil])
  have "frp_decode lib (fs_codec ?s) (fs_buf ?s @ concat (fs_reads ?s)) =
      ((frp_codec_new token)\<lparr>fc_stage := WaitIv\<rparr>, iv @ rest, Item (LoginRespR resp))"
    unfolding new using assms(2,5,8)
    by (simp add: frp_plain_frame_decodes frp_codec_new_def frp_message_def)
  then obtain s1 where s1: "stream_next lib ?s = (NextItem (LoginRespR resp), s1)"
    "fs_codec s1 = (frp_codec_new token)\<lparr>fc_stage := WaitIv\<rparr>" "fs_buf s1 @ concat (fs_reads s1) = iv @ rest"
    "fs_sent s1 = frp_frame TYPE_LOGIN hello" "fs_writable s1"
    by (rule stream_next_item) (simp_all add: new)
  let ?k = "\<lparr>bc_iv = iv, bc_key = pbkdf2 lib 64 DEFAULT_SALT token, bc_enc = k, bc_dec = k\<rparr>"
  have "frp_decode lib (fs_codec s1) (fs_buf s1 @ concat (fs_reads s1)) =
      ((frp_codec_new token)\<lparr>fc_coder := Some ?k, fc_stage := Work\<rparr>, rest, Item IVR)"
    unfolding s1(2,3) using assms(6,7) by (simp add: frp_iv_decodes frp_codec_new_def)
  then obtain s2 where s2: "stream_next lib s1 = (NextItem IVR, s2)"
    "fs_codec s2 = (frp_codec_new token)\<lparr>fc_coder := Some ?k, fc_stage := Work\<rparr>"
    "fs_buf s2 @ concat (fs_reads s2) = rest" "fs_sent s2 = frp_frame TYPE_LOGIN hello" "fs_writable s2"
    by (rule stream_next_item) (simp_all add: s1)
  have "sink_send lib IVReq s2 = Ok (s2\<lparr>fs_sent := frp_frame TYPE_LOGIN hello @ iv\<rparr>)"
    using s2(2,4,5) by (simp add: sink_send_def frp_encode_def frp_body_def)
  then show ?thesis
    using s1(1) s2 hello assms(3,4) new(3,4) by (simp add: frp_login_def frp_login_resp_def frp_login_iv_def)
qed

text \<open>A library for concrete runs: the cipher adds the previous cipher byte, JSON is a fixed text.\<close>

fun chain_encrypt :: "u8 \<Rightarrow> bytes \<Rightarrow> bytes \<times> u8" where
  "chain_encrypt p [] = ([], p)"
| "chain_encrypt p (x # xs) = (let (ys, q) = chain_encrypt (x + p) xs in ((x + p) # ys, q))"

fun chain_decrypt :: "u8 \<Rightarrow> bytes \<Rightarrow> bytes \<times> u8" where
  "chain_decrypt p [] = ([], p)"
| "chain_decrypt p (y # ys) = (let (xs, q) = chain_decrypt y ys in ((y - p) # xs, q))"

definition text_bytes :: "string \<Rightarrow> bytes" where
  "text_bytes s = map (\<lambda>c. of_nat (of_char c)) s"

definition plain_resp :: login_resp where
  "plain_resp = \<lparr>lp_version = FRP_VERSION, lp_run_id = Some ''r1'', lp_error = None, lp_login_message = None,
     lp_rx_limit = None, lp_tx_limit = None\<rparr>"

definition plain_frp :: "u8 frp_lib" where
  "plain_frp =
     \<lparr>json_login = (\<lambda>r. Some (text_bytes (lr_user r))), json_work_conn = (\<lambda>r. Some (text_bytes (wc_run_id r))),
      json_ping = (\<lambda>r. Some (text_bytes ''{}'')), json_new_proxy = (\<lambda>r. Some (text_bytes (np_proxy_name r))),
      json_login_resp = (\<lambda>b. if b = text_bytes ''ok'' then Some plain_resp else None),
      json_start_work_conn = (\<lambda>b. None), md5 = (\<lambda>s. replicate 16 0), pbkdf2 = (\<lambda>n salt pw. replicate 16 0),
      cfb_new = (\<lambda>key iv. if length iv = 16 then Some (hd iv) else None),
      cfb_encrypt = chain_encrypt, cfb_decrypt = chain_decrypt\<rparr>"

theorem frp_login_succeeds_witness:
  "\<exists>ct. frp_login plain_frp (''linux'', ''x86_64'') 7 ''u'' (frp_control_new ''t''
       [[0x31, 0, 0], [0, 0, 0, 0, 0, 2, 0x6F], 0x6B # replicate 16 9] False True) = (ct, Ok ())
     \<and> ct_run_id ct = Some ''r1''"
proof -
  have reads: "concat [[0x31, 0, 0], [0, 0, 0, 0, 0, 2, 0x6F], 0x6B # replicate 16 9] =
      frp_frame TYPE_LOGIN_RESP (text_bytes ''ok'') @ replicate 16 9 @ []"
    by code_simp
  have "json_login plain_frp (login_request_new plain_frp (''linux'', ''x86_64'') 7 ''t'' ''u'') = Some (text_bytes ''u'')"
    "json_login_resp plain_frp (text_bytes ''ok'') = Some plain_resp"
    "lp_error plain_resp = None" "lp_run_id plain_resp = Some ''r1''" "length (text_bytes ''ok'') \<le> 2048"
    "length (replicate 16 (9 :: u8)) = 16"
    "cfb_new plain_frp (pbkdf2 plain_frp 64 DEFAULT_SALT ''t'') (replicate 16 9) = Some 9"
    by (simp_all add: plain_frp_def plain_resp_def text_bytes_def login_request_new_def numeral_eq_Suc)
  from frp_login_succeeds [OF this reads, of False] show ?thesis by blast
qed

section \<open>Encrypted requests\<close>

text \<open>What the code relies on of the buffered CFB mode, which works in place: encrypting in pieces is encrypting at once, and a
  decryptor of the same key and iv inverts the encryptor.\<close>

definition cfb_laws :: "'k frp_lib \<Rightarrow> bool" where
  "cfb_laws lib \<longleftrightarrow>
     (\<forall>k x y. cfb_encrypt lib k (x @ y) =
        (let (a, k1) = cfb_encrypt lib k x; (b, k2) = cfb_encrypt lib k1 y in (a @ b, k2))) \<and>
     (\<forall>k x. length (fst (cfb_encrypt lib k x)) = length x) \<and>
     (\<forall>k x. fst (cfb_decrypt lib k (fst (cfb_encrypt lib k x))) = x)"

lemma chain_laws: "cfb_laws plain_frp"
proof -
  have "chain_encrypt k (x @ y) =
      (let (a, k1) = chain_encrypt k x; (b, k2) = chain_encrypt k1 y in (a @ b, k2))" for k x y
    by (induction x arbitrary: k) (simp_all add: Let_def split_beta)
  moreover have "length (fst (chain_encrypt k x)) = length x" for k x
    by (induction x arbitrary: k) (simp_all add: Let_def split_beta)
  moreover have "fst (chain_decrypt k (fst (chain_encrypt k x))) = x" for k x
    by (induction x arbitrary: k) (simp_all add: Let_def split_beta)
  ultimately show ?thesis by (simp add: cfb_laws_def plain_frp_def)
qed

fun send_all :: "'k frp_lib \<Rightarrow> 'k frp_codec \<Rightarrow> frp_request list \<Rightarrow> bytes \<Rightarrow> (frp_error, bytes \<times> 'k frp_codec) result" where
  "send_all lib c [] dst = Ok (dst, c)"
| "send_all lib c (r # rs) dst = rbind (frp_encode lib c r dst) (\<lambda>(dst, c). send_all lib c rs dst)"

lemma send_all_new_proxy:
  assumes "cfb_laws lib" "fc_coder c = Some k" "list_all2 (\<lambda>r b. json_new_proxy lib r = Some b) reqs bodies"
  shows "\<exists>c'. send_all lib c (map NewProxy reqs) dst =
     Ok (dst @ fst (cfb_encrypt lib (bc_enc k) (concat (map (frp_frame TYPE_NEW_PROXY) bodies))), c')"
  using assms(3,2)
proof (induction arbitrary: c k dst rule: list_all2_induct)
  case Nil
  have "length (fst (cfb_encrypt lib (bc_enc k) [])) = 0" using assms(1) by (simp add: cfb_laws_def)
  then show ?case by simp
next
  case (Cons r reqs b bodies)
  let ?f = "frp_frame TYPE_NEW_PROXY b" and ?rest = "concat (map (frp_frame TYPE_NEW_PROXY) bodies)"
  obtain a k1 where a: "cfb_encrypt lib (bc_enc k) ?f = (a, k1)" by (cases "cfb_encrypt lib (bc_enc k) ?f")
  have "frp_encode lib c (NewProxy r) dst = Ok (dst @ a, c\<lparr>fc_coder := Some (k\<lparr>bc_enc := k1\<rparr>)\<rparr>)"
    using a Cons.hyps(1) Cons.prems
    by (simp add: frp_encode_def frp_body_def is_encrypt_def encrypt_buf_def frp_frame_def)
  moreover have "fst (cfb_encrypt lib (bc_enc k) (?f @ ?rest)) = a @ fst (cfb_encrypt lib k1 ?rest)"
    using assms(1) a by (simp add: cfb_laws_def split_beta)
  ultimately show ?case
    using Cons.IH [of "c\<lparr>fc_coder := Some (k\<lparr>bc_enc := k1\<rparr>)\<rparr>" "k\<lparr>bc_enc := k1\<rparr>" "dst @ a"] by simp
qed

text \<open>C32: The encrypted control messages: any sequence of proxy requests is encoded, and a decryptor with
  the same token and iv reads back exactly their frames, type, length and JSON in order.\<close>

theorem new_proxies_decrypt:
  assumes "cfb_laws lib" "frp_buf_crypto_new lib token iv = Ok k" "fc_coder c = Some k"
    and "list_all2 (\<lambda>r b. json_new_proxy lib r = Some b) reqs bodies"
  shows "\<exists>bs c'. send_all lib c (map NewProxy reqs) [] = Ok (bs, c')
    \<and> fst (decrypt_buf lib k bs) = concat (map (frp_frame TYPE_NEW_PROXY) bodies)"
proof -
  have "bc_dec k = bc_enc k"
    using assms(2) by (auto simp: frp_buf_crypto_new_def Let_def result_simps)
  moreover obtain c' where "send_all lib c (map NewProxy reqs) [] =
      Ok (fst (cfb_encrypt lib (bc_enc k) (concat (map (frp_frame TYPE_NEW_PROXY) bodies))), c')"
    using send_all_new_proxy [OF assms(1,3,4), of "[]"] by auto
  ultimately show ?thesis using assms(1) by (simp add: decrypt_buf_def cfb_laws_def split_beta)
qed

theorem new_proxies_decrypt_witness:
  "\<exists>bs c'. send_all plain_frp ((frp_codec_new ''t'')\<lparr>fc_coder := Some \<lparr>bc_iv = replicate 16 9, bc_key = replicate 16 0,
       bc_enc = 9, bc_dec = 9\<rparr>\<rparr>) (map NewProxy [new_proxy_new ''a'' ''tcp'', new_proxy_new ''b'' ''tcp'']) [] = Ok (bs, c')
     \<and> fst (decrypt_buf plain_frp \<lparr>bc_iv = replicate 16 9, bc_key = replicate 16 0, bc_enc = 9, bc_dec = 9\<rparr> bs) =
         concat (map (frp_frame TYPE_NEW_PROXY) [[97], [98]])"
  by (rule new_proxies_decrypt [OF chain_laws, where token = "''t''" and iv = "replicate 16 9"])
    (simp_all add: frp_buf_crypto_new_def plain_frp_def new_proxy_new_def text_bytes_def numeral_eq_Suc)

section \<open>Crashes and lost requests\<close>

text \<open>A complete message crashes the client exactly when its type is none of the four it knows.\<close>

theorem frp_message_crash_iff:
  "snd (frp_message lib c tb data) = Crash \<longleftrightarrow>
     tb \<notin> {TYPE_LOGIN_RESP, TYPE_REQ_WORK_CONN, TYPE_NEW_PROXY_RESP, TYPE_START_WORK_CONN}"
  by (auto simp: frp_message_def split: option.splits)

text \<open>The first waiting request for a stream is answered by every poll that runs, but by an error
  when the multiplexer is not ready at that moment: the request is dropped, not kept for the next poll.\<close>

theorem conn_poll_answers:
  assumes "cc_queue cc = OpenStream tx # q"
  shows "(tx, case outbound of Ready (Some st) \<Rightarrow> Opened st | Ready None \<Rightarrow> OpenFailed | Pending \<Rightarrow> SenderDropped)
      \<in> set (cc_replies (fst (conn_poll outbound inbound cc)))
    \<and> cc_queue (fst (conn_poll outbound inbound cc)) = q"
  using assms
  by (auto simp: conn_poll_def conn_poll_inbound_def split: poll.splits option.splits)

theorem conn_poll_answers_witness:
  "(3, SenderDropped) \<in> set (cc_replies (fst (conn_poll Pending Pending (open_stream 3 \<lparr>cc_queue = [], cc_replies = []\<rparr>))))"
  using conn_poll_answers [of "open_stream 3 \<lparr>cc_queue = [], cc_replies = []\<rparr>" 3 "[]" Pending Pending]
  by (simp add: open_stream_def)

end
