(* ===== verification/Abi.thy ===== *)
theory Abi
  imports Prelude
begin

text \<open>
  The messages between the coordination server and its clients, the protobuf types of
  \<open>vlink-core/src/proto/pb/abi.rs\<close>.  Field by field as declared there; a \<open>oneof\<close> is a datatype, a
  message with no field a constructor without argument.  The encoding itself is the \<open>prost\<close> crate's.
\<close>

record require_reply =
  rq_src :: string
  rq_proto :: string
  rq_server :: string

record extra_endpoint =
  ee_proto :: string
  ee_endpoint :: string

record req_handshake =
  rh_version :: u32
  rh_pub_key :: string
  rh_token :: "string option"
  rh_sign :: string

record peer_enter =
  en_ip :: string
  en_endpoint_addr :: "string option"
  en_port :: u32
  en_extra_endpoints :: "extra_endpoint list"

record peer_forward =
  pf_target_pub_key :: string
  pf_data :: "require_reply option"

record dev_handshake_complete =
  dh_target_pub_key :: string
  dh_proto :: string

datatype to_server_data =
    Handshake req_handshake | ReqConfig | PeerForward peer_forward | PeerEnter peer_enter | PeerLeave
  | PeerChange | PeerMessage | PeerReport | UpdateExtraEndpoint extra_endpoint
  | DevHandshakeComplete dev_handshake_complete

record to_server =
  ts_id :: u64
  ts_data :: "to_server_data option"

datatype connection_mode = Active | Passive | Bidirectional | NoneMode

fun mode_to_i32 :: "connection_mode \<Rightarrow> int" where
  "mode_to_i32 Active = 0"
| "mode_to_i32 Passive = 1"
| "mode_to_i32 Bidirectional = 2"
| "mode_to_i32 NoneMode = 3"

record bc_peer_enter =
  be_pub_key :: string
  be_ip :: string
  be_endpoint_addr :: "string option"
  be_port :: u32
  be_last_con_type :: "int option"
  be_mode :: int
  be_is_online :: bool

record extra_transport =
  et_proto :: string
  et_params :: string

record peer_extra_transport =
  px_target_pub_key :: string
  px_proto :: string
  px_endpoint :: string
  px_index :: int

record resp_config =
  rc_network_id :: int
  rc_address :: u32
  rc_mask :: u32
  rc_network :: u32
  rc_port :: u32
  rc_ipv6_addr :: "string option"
  rc_peers :: "bc_peer_enter list"
  rc_extra_transports :: "extra_transport list"
  rc_peer_extra_transports :: "peer_extra_transport list"

record resp_server_info =
  si_version :: string
  si_key :: string
  si_desc :: "string option"

record bc_update_extra_endpoint =
  bu_pub_key :: string
  bu_proto :: string
  bu_endpoint :: string

text \<open>The texts of errors are the type variable: each side has its own error values.\<close>

datatype 'm to_client_data =
    ErrorTC int 'm | RespServerInfo resp_server_info | RespHandshake bool "'m option"
  | RespConfig resp_config | PeerEnterTC bc_peer_enter | PeerLeaveTC string
  | RequireReplyTC require_reply | UpdateExtraEndpointTC bc_update_extra_endpoint

record 'm to_client =
  tc_id :: u64
  tc_data :: "'m to_client_data option"

end
