(* ===== verification/Rw_Map.thy ===== *)
theory Rw_Map
  imports Prelude "HOL-Library.AList"
begin

text \<open>
  The shared hash map of \<open>vlink-core/src/rw_map.rs\<close>: a list of pairs with distinct keys, in the order
  an iteration would give.  The order of Rust's map is unspecified, so nothing is proved of it; an insert
  keeps the place of a key it knows.  Locks are always free.
\<close>

type_synonym ('k, 'v) rw_map = "('k \<times> 'v) list"

definition rw_new :: "('k, 'v) rw_map" where
  "rw_new = []"

definition rw_get :: "('k, 'v) rw_map \<Rightarrow> 'k \<Rightarrow> 'v option" where
  "rw_get m k = map_of m k"

definition rw_insert :: "'k \<Rightarrow> 'v \<Rightarrow> ('k, 'v) rw_map \<Rightarrow> ('k, 'v) rw_map" where
  "rw_insert k v m = AList.update k v m"

definition rw_remove :: "'k \<Rightarrow> ('k, 'v) rw_map \<Rightarrow> ('k, 'v) rw_map" where
  "rw_remove k m = AList.delete k m"

text \<open>\<open>get_mut\<close> with an assignment through the reference.\<close>

definition rw_modify :: "'k \<Rightarrow> ('v \<Rightarrow> 'v) \<Rightarrow> ('k, 'v) rw_map \<Rightarrow> ('k, 'v) rw_map" where
  "rw_modify k f m = map (\<lambda>(k', v). (k', if k' = k then f v else v)) m"

definition rw_from :: "('k \<times> 'v) list \<Rightarrow> ('k, 'v) rw_map" where
  "rw_from xs = fold (\<lambda>(k, v). rw_insert k v) xs rw_new"

definition rw_wf :: "('k, 'v) rw_map \<Rightarrow> bool" where
  "rw_wf m \<longleftrightarrow> distinct (map fst m)"

section \<open>The interface of a map\<close>

text \<open>What the server and the daemon rely on: what a lookup returns after each operation, and that the
  pairs an iteration visits are exactly those a lookup finds.\<close>

locale hash_map =
  fixes get :: "'m \<Rightarrow> 'k \<Rightarrow> 'v option" and insert :: "'k \<Rightarrow> 'v \<Rightarrow> 'm \<Rightarrow> 'm" and remove :: "'k \<Rightarrow> 'm \<Rightarrow> 'm"
    and pairs :: "'m \<Rightarrow> ('k \<times> 'v) list" and empty :: 'm and wf :: "'m \<Rightarrow> bool"
  assumes wf_empty: "wf empty" and wf_insert: "wf m \<Longrightarrow> wf (insert k v m)" and wf_remove: "wf m \<Longrightarrow> wf (remove k m)"
    and get_empty: "get empty k = None"
    and get_insert: "get (insert k v m) k' = (if k' = k then Some v else get m k')"
    and get_remove: "wf m \<Longrightarrow> get (remove k m) k' = (if k' = k then None else get m k')"
    and pairs_get: "wf m \<Longrightarrow> (k, v) \<in> set (pairs m) \<longleftrightarrow> get m k = Some v"
begin

definition insert_all :: "('k \<times> 'v) list \<Rightarrow> 'm \<Rightarrow> 'm" where
  "insert_all xs m = fold (\<lambda>(k, v). insert k v) xs m"

lemma wf_insert_all: "wf m \<Longrightarrow> wf (insert_all xs m)"
  unfolding insert_all_def by (induction xs arbitrary: m) (auto simp: wf_insert)

text \<open>Of several values for one key the last is kept.\<close>

lemma get_insert_all: "get (insert_all xs m) k = (case map_of (rev xs) k of Some v \<Rightarrow> Some v | None \<Rightarrow> get m k)"
  unfolding insert_all_def
  by (induction xs arbitrary: m) (auto simp: get_insert map_add_def split: option.splits)

lemma iterate_insert_all:
  assumes "(k, v) \<in> set (pairs (insert_all xs empty))"
  shows "(k, v) \<in> set xs"
proof -
  have "get (insert_all xs empty) k = Some v" using assms by (simp add: pairs_get wf_insert_all wf_empty)
  then show ?thesis
    by (auto simp: get_insert_all get_empty split: option.splits dest: map_of_SomeD)
qed

lemma iterate_remove:
  "wf m \<Longrightarrow> (k', v) \<in> set (pairs (remove k m)) \<longleftrightarrow> k' \<noteq> k \<and> (k', v) \<in> set (pairs m)"
  by (auto simp: pairs_get wf_remove get_remove)

lemma iterate_insert:
  "wf m \<Longrightarrow> (k', v') \<in> set (pairs (insert k v m)) \<longleftrightarrow> (if k' = k then v' = v else (k', v') \<in> set (pairs m))"
  by (auto simp: pairs_get wf_insert get_insert)

end

interpretation rw: hash_map rw_get rw_insert rw_remove id rw_new rw_wf
proof (unfold_locales, goal_cases)
  case (6 m k k')
  then show ?case by (simp add: rw_get_def rw_remove_def AList.delete_conv)
next
  case (7 m k v)
  then show ?case by (simp add: rw_get_def rw_wf_def map_of_eq_Some_iff)
qed (simp_all add: rw_wf_def rw_new_def rw_get_def rw_insert_def rw_remove_def AList.distinct_update
    AList.distinct_delete AList.update_conv)

lemma rw_from_insert_all: "rw_from xs = rw.insert_all xs rw_new"
  by (simp add: rw_from_def rw.insert_all_def)

lemma rw_wf_from [simp]: "rw_wf (rw_from xs)"
  by (simp add: rw_from_insert_all rw.wf_insert_all rw.wf_empty)

lemma rw_from_set: "(k, v) \<in> set (rw_from xs) \<Longrightarrow> (k, v) \<in> set xs"
  using rw.iterate_insert_all [of k v xs] by (simp add: rw_from_insert_all)

lemma rw_get_from: "rw_get (rw_from xs) k = map_of (rev xs) k"
  by (simp add: rw_from_insert_all rw.get_insert_all rw.get_empty split: option.splits)

lemma rw_get_modify [simp]:
  "rw_get (rw_modify k f m) k' = (if k' = k then map_option f (rw_get m k) else rw_get m k')"
  by (induction m) (auto simp: rw_get_def rw_modify_def)

lemma rw_keys_modify [simp]: "map fst (rw_modify k f m) = map fst m"
  by (simp add: rw_modify_def split_beta comp_def)

lemma rw_wf_modify [simp]: "rw_wf (rw_modify k f m) \<longleftrightarrow> rw_wf m"
  by (simp add: rw_wf_def)

lemma rw_in_iff: "rw_wf m \<Longrightarrow> (k, v) \<in> set m \<longleftrightarrow> rw_get m k = Some v"
  using rw.pairs_get [of m k v] by simp

lemma rw_get_in: "rw_get m k = Some v \<Longrightarrow> (k, v) \<in> set m"
  by (simp add: rw_get_def map_of_SomeD)

end
