(* ===== verification/Timestamp.thy ===== *)
theory Timestamp
  imports Prelude
begin

text \<open>
  The TAI64N label of a handshake initiation: \<open>vlink-tun/src/noise/timestamp.rs\<close>.  A \<open>SystemTime\<close> is
  the number of nanoseconds since the Unix epoch, as an integer; \<open>duration_since\<close> fails before the
  epoch and its \<open>unwrap\<close> panics.  The derived \<open>Ord\<close> of the array type is the lexicographic order of
  the bytes; the property says that it is the order of time, at the resolution the whitening leaves.
\<close>

unbundle bit_operations_syntax

section \<open>Labels\<close>

definition BASE :: u64 where "BASE = 0x400000000000000a"
definition WHITENER_MASK :: u32 where "WHITENER_MASK = 0x1000000 - 1"

definition stamp :: "int \<Rightarrow> ('e, bytes) result" where
  "stamp t =
     (if t < 0 then Panic
      else let secs = BASE + of_int (t div 10 ^ 9);
               nanos = (of_int (t mod 10 ^ 9) :: u32) AND NOT WHITENER_MASK
           in Ok (to_be_bytes 8 secs @ to_be_bytes 4 nanos))"

text \<open>\<open>PartialOrd\<close> and \<open>Ord\<close> for \<open>Timestamp\<close>: the order of \<open>[u8; 12]\<close>.\<close>

definition timestamp_less :: "bytes \<Rightarrow> bytes \<Rightarrow> bool" where
  "timestamp_less a b \<longleftrightarrow> ord_class.lexordp a b"

section \<open>Big-endian strings order as numbers\<close>

lemma nat_of_le_append: "nat_of_le (xs @ ys) = nat_of_le xs + 256 ^ length xs * nat_of_le ys"
  by (induction xs) (simp_all add: algebra_simps)

lemma be_lex_less:
  assumes "length xs = length ys"
  shows "ord_class.lexordp xs ys \<longleftrightarrow> nat_of_le (rev xs) < nat_of_le (rev ys)"
  using assms
proof (induction xs ys rule: list_induct2)
  case Nil
  then show ?case by simp
next
  case (Cons x xs y ys)
  let ?a = "nat_of_le (rev xs)" and ?b = "nat_of_le (rev ys)" and ?n = "256 ^ length ys"
  have a: "?a < ?n" using nat_of_le_bound [of "rev xs"] Cons.hyps by simp
  have b: "?b < ?n" using nat_of_le_bound [of "rev ys"] by simp
  have step: "?a + ?n * unat x < ?b + ?n * unat y" if "unat x < unat y"
  proof -
    have "?a + ?n * unat x < ?n * Suc (unat x)" using a by simp
    also have "\<dots> \<le> ?n * unat y" using that by (intro mult_le_mono2) simp
    finally show ?thesis by simp
  qed
  have rstep: "?b + ?n * unat y < ?a + ?n * unat x" if "unat y < unat x"
  proof -
    have "?b + ?n * unat y < ?n * Suc (unat y)" using b by simp
    also have "\<dots> \<le> ?n * unat x" using that by (intro mult_le_mono2) simp
    finally show ?thesis by simp
  qed
  have "nat_of_le (rev (x # xs)) = ?a + ?n * unat x" "nat_of_le (rev (y # ys)) = ?b + ?n * unat y"
    using Cons.hyps by (simp_all add: nat_of_le_append)
  moreover consider "unat x < unat y" | "x = y" | "unat y < unat x"
    by (metis linorder_neqE_nat word_unat_eq_iff)
  then have "ord_class.lexordp (x # xs) (y # ys) \<longleftrightarrow> ?a + ?n * unat x < ?b + ?n * unat y"
  proof cases
    case 1
    then show ?thesis using step by (simp add: word_less_nat_alt)
  next
    case 2
    then show ?thesis using Cons.IH by simp
  next
    case 3
    then show ?thesis using rstep by (auto simp: word_less_nat_alt)
  qed
  ultimately show ?case by simp
qed

section \<open>Whitening\<close>

text \<open>The nanoseconds lose their low 24 bits.\<close>

definition whitened :: "int \<Rightarrow> nat" where
  "whitened t = nat (t div 10 ^ 9) * 2 ^ 32 + nat (t mod 10 ^ 9) div 2 ^ 24 * 2 ^ 24"

lemma mask_low_bits: "n AND NOT WHITENER_MASK = push_bit 24 (drop_bit 24 n)"
proof -
  have mask: "WHITENER_MASK = mask 24" by (simp add: WHITENER_MASK_def mask_eq_exp_minus_1)
  show ?thesis
    unfolding mask by (auto intro!: bit_word_eqI simp: bit_simps)
qed

lemma unat_mask_low_bits: "unat (n AND NOT WHITENER_MASK) = unat n div 2 ^ 24 * 2 ^ 24"
proof -
  have d: "unat (drop_bit 24 n) = unat n div 2 ^ 24"
    by (simp add: drop_bit_eq_div unat_div)
  have "unat n div 2 ^ 24 * 2 ^ 24 \<le> unat n" by (rule div_times_less_eq_dividend)
  also have "unat n < 2 ^ 32" using unsigned_less [of n, where ?'a = nat] by simp
  finally have "unat (drop_bit 24 n) * unat (2 ^ 24 :: u32) < 2 ^ LENGTH(32)" by (simp add: d)
  then have "unat (drop_bit 24 n * 2 ^ 24) = unat (drop_bit 24 n) * unat (2 ^ 24 :: u32)"
    unfolding unat_mult_lem .
  then show ?thesis by (simp add: mask_low_bits push_bit_eq_mult d)
qed

lemma mult_add_mono:
  assumes "a < b" "x < k"
  shows "a * k + x \<le> b * k + (y::nat)"
proof -
  have "a * k + x \<le> Suc a * k" using assms(2) by simp
  also have "\<dots> \<le> b * k" using assms(1) by (intro mult_le_mono1) simp
  finally show ?thesis by simp
qed

lemma whitened_mono:
  assumes "0 \<le> t" "t \<le> u"
  shows "whitened t \<le> whitened u"
proof -
  let ?s = "\<lambda>t. nat (t div 10 ^ 9)" and ?n = "\<lambda>t. nat (t mod 10 ^ 9)"
  have le: "?s t \<le> ?s u" using assms by (intro nat_mono zdiv_mono1) auto
  have n: "?n t div 2 ^ 24 * 2 ^ 24 < 2 ^ 32"
  proof -
    have "?n t div 2 ^ 24 * 2 ^ 24 \<le> ?n t" by (rule div_times_less_eq_dividend)
    also have "?n t < 2 ^ 32"
      using pos_mod_bound [of "10 ^ 9" t] by simp
    finally show ?thesis .
  qed
  show ?thesis
  proof (cases "?s t = ?s u")
    case True
    moreover have "0 \<le> t div 10 ^ 9" "0 \<le> u div 10 ^ 9"
      using assms by (simp_all add: pos_imp_zdiv_nonneg_iff)
    ultimately have "t div 10 ^ 9 = u div 10 ^ 9" by simp
    then have "t mod 10 ^ 9 \<le> u mod 10 ^ 9"
      using assms(2) by (simp only: minus_div_mult_eq_mod [symmetric] diff_right_mono)
    then have "?n t \<le> ?n u" by (rule nat_mono)
    then show ?thesis unfolding whitened_def True
      by (intro add_left_mono mult_le_mono1 div_le_mono)
  next
    case False
    with le have "?s t < ?s u" by (rule order.not_eq_order_implies_strict [rotated])
    then show ?thesis unfolding whitened_def using n by (rule mult_add_mono)
  qed
qed

lemma stamp_value:
  assumes "0 \<le> t" "t < 2 ^ 61 * 10 ^ 9"
  obtains a where "stamp t = (Ok a :: ('e, bytes) result)" "length a = 12"
    "nat_of_le (rev a) = unat BASE * 2 ^ 32 + whitened t"
proof -
  let ?s = "t div 10 ^ 9" and ?n = "t mod 10 ^ 9"
  have s: "0 \<le> ?s" "?s < 2 ^ 61"
    using assms by (auto simp: pos_imp_zdiv_nonneg_iff div_less_iff_less_mult)
  have us: "unat (BASE + of_int ?s) = unat BASE + nat ?s"
  proof -
    have ofs: "unat (of_int ?s :: u64) = nat ?s"
      using s by (simp add: unat_eq_nat_uint unsigned_of_int take_bit_int_eq_self)
    have "unat BASE + unat (of_int ?s :: u64) < 2 ^ 64"
      using s unfolding ofs by (simp add: BASE_def)
    then show ?thesis using ofs by (subst unat_add_nowrap) simp_all
  qed
  have n: "0 \<le> ?n" "?n < 2 ^ 32" using pos_mod_bound [of "10 ^ 9" t] by simp_all
  then have un: "unat (of_int ?n :: u32) = nat ?n"
    by (simp add: unat_eq_nat_uint unsigned_of_int take_bit_int_eq_self)
  let ?a = "to_be_bytes 8 (BASE + of_int ?s) @ to_be_bytes 4 ((of_int ?n :: u32) AND NOT WHITENER_MASK)"
  have b4: "nat_of_le (rev (to_be_bytes 4 (w :: u32))) = unat w" for w
    using unsigned_less [of w, where ?'a = nat]
    by (simp add: to_be_bytes_def nat_of_le_of_nat)
  have b8: "nat_of_le (rev (to_be_bytes 8 (w :: u64))) = unat w" for w
    using unsigned_less [of w, where ?'a = nat]
    by (simp add: to_be_bytes_def nat_of_le_of_nat)
  have "nat_of_le (rev ?a) = unat BASE * 2 ^ 32 + whitened t"
    by (simp add: nat_of_le_append b4 b8 us [simplified] un [simplified]
        unat_mask_low_bits whitened_def)
  moreover have "stamp t = (Ok ?a :: ('e, bytes) result)"
    using assms(1) by (simp add: stamp_def Let_def)
  ultimately show ?thesis by (intro that [of ?a]) simp_all
qed

section \<open>Properties\<close>

text \<open>Timestamps order as time does.  For system times after the epoch (and before the year
  73 billion), the byte-wise order of two labels is the order of the times with the low 24 bits of
  the nanoseconds cleared; in particular a later time never has a smaller label.\<close>

theorem timestamp_order:
  assumes "0 \<le> t" "t < 2 ^ 61 * 10 ^ 9" "0 \<le> u" "u < 2 ^ 61 * 10 ^ 9"
    and "stamp t = (Ok a :: (unit, bytes) result)" "stamp u = (Ok b :: (unit, bytes) result)"
  shows "(timestamp_less a b \<longleftrightarrow> whitened t < whitened u) \<and> (t \<le> u \<longrightarrow> \<not> timestamp_less b a)"
proof -
  obtain a' where a: "stamp t = (Ok a' :: (unit, bytes) result)" "length a' = 12"
      "nat_of_le (rev a') = unat BASE * 2 ^ 32 + whitened t"
    using assms(1,2) by (rule stamp_value)
  obtain b' where b: "stamp u = (Ok b' :: (unit, bytes) result)" "length b' = 12"
      "nat_of_le (rev b') = unat BASE * 2 ^ 32 + whitened u"
    using assms(3,4) by (rule stamp_value)
  have eq: "timestamp_less a b \<longleftrightarrow> whitened t < whitened u"
      "timestamp_less b a \<longleftrightarrow> whitened u < whitened t"
    using a b assms(5,6) by (simp_all add: timestamp_less_def be_lex_less)
  with whitened_mono [OF assms(1)] show ?thesis by (auto simp: not_less)
qed

theorem timestamp_order_witness:
  "timestamp_less [0x40, 0, 0, 0, 0, 0, 0, 0x0a, 7, 0, 0, 0] [0x40, 0, 0, 0, 0, 0, 0, 0x0b, 0, 0, 0, 0]
    \<longleftrightarrow> whitened 123456789 < whitened 1000000000"
proof -
  have "stamp 123456789 =
      (Ok [0x40, 0, 0, 0, 0, 0, 0, 0x0a, 7, 0, 0, 0] :: (unit, bytes) result)"
    by (simp add: stamp_def BASE_def WHITENER_MASK_def to_be_bytes_def le_of_nat_numeral)
  moreover have "stamp 1000000000 =
      (Ok [0x40, 0, 0, 0, 0, 0, 0, 0x0b, 0, 0, 0, 0] :: (unit, bytes) result)"
    by (simp add: stamp_def BASE_def WHITENER_MASK_def to_be_bytes_def le_of_nat_numeral)
  ultimately show ?thesis using timestamp_order [of 123456789 1000000000] by simp
qed

end
