(* ===== verification/Noise_Handshake.thy ===== *)
theory Noise_Handshake
  imports Noise_Crypto Timestamp
begin

text \<open>
  The Noise IKpsk2 handshake: \<open>vlink-tun/src/noise/handshake\<close> (\<open>cookie.rs\<close>, \<open>initiation.rs\<close>,
  \<open>response.rs\<close>).  Randomness (ephemeral keys, nonces, cookie secrets) and the clock are arguments;
  an \<open>Instant\<close> is a number of nanoseconds on the
  monotonic clock.  Each constructor returns the state the party keeps and
  the packet it sends; the properties say that the two parties end with the same hash and chaining
  key, and that the packets pass the checks of the receiver.
\<close>

section \<open>Labels\<close>

definition ascii :: "string \<Rightarrow> bytes" where
  "ascii s = map (\<lambda>c. of_nat (of_char c)) s"

definition CONSTRUCTION :: bytes where
  "CONSTRUCTION = ascii ''Noise_IKpsk2_25519_ChaChaPoly_BLAKE2s''"

definition IDENTIFIER :: bytes where
  "IDENTIFIER = ascii ''WireGuard v1 zx2c4 Jason@zx2c4.com''"

definition LABEL_MAC1 :: bytes where "LABEL_MAC1 = ascii ''mac1----''"
definition LABEL_COOKIE :: bytes where "LABEL_COOKIE = ascii ''cookie--''"

type_synonym instant = int
type_synonym duration = int

definition secs :: "int \<Rightarrow> duration" where
  "secs n = n * 10 ^ 9"

text \<open>\<open>Instant::elapsed\<close> saturates at zero.\<close>

definition elapsed :: "instant \<Rightarrow> instant \<Rightarrow> duration" where
  "elapsed now t = max 0 (now - t)"

definition COOKIE_LIFETIME :: duration where "COOKIE_LIFETIME = secs 120"

section \<open>Message authentication codes\<close>

record mac_generator =
  peer_mac1_hash :: bytes
  peer_cookie_hash :: bytes
  last_cookie :: "(bytes \<times> instant) option"

definition mac_generator_new :: "crypto \<Rightarrow> peer_static_secret \<Rightarrow> mac_generator" where
  "mac_generator_new cr secret =
     (let peer_pub = ps_public secret
      in \<lparr>peer_mac1_hash = hash cr LABEL_MAC1 peer_pub,
          peer_cookie_hash = hash cr LABEL_COOKIE peer_pub,
          last_cookie = None\<rparr>)"

definition generate_mac1 :: "crypto \<Rightarrow> mac_generator \<Rightarrow> bytes \<Rightarrow> ('e, bytes) result" where
  "generate_mac1 cr g payload = mac cr (peer_mac1_hash g) payload"

definition generate_mac2 :: "crypto \<Rightarrow> instant \<Rightarrow> mac_generator \<Rightarrow> bytes \<Rightarrow> ('e, bytes) result" where
  "generate_mac2 cr now g payload =
     (case last_cookie g of
        None \<Rightarrow> Ok (replicate 16 0)
      | Some (_, at) \<Rightarrow>
          if elapsed now at \<ge> COOKIE_LIFETIME then Ok (replicate 16 0)
          else mac cr (peer_cookie_hash g) payload)"

record cookie =
  ck_secret :: "(bytes \<times> instant) option"
  ck_cookie_hash :: bytes
  ck_mac1_hash :: bytes

definition cookie_new :: "crypto \<Rightarrow> local_static_secret \<Rightarrow> cookie" where
  "cookie_new cr secret =
     \<lparr>ck_secret = None,
      ck_cookie_hash = hash cr LABEL_COOKIE (ls_public secret),
      ck_mac1_hash = hash cr LABEL_MAC1 (ls_public secret)\<rparr>"

text \<open>\<open>payload.split_at(payload.len() - 32)\<close> panics on a payload shorter than 32 bytes.\<close>

definition split_macs :: "bytes \<Rightarrow> ('e, bytes \<times> bytes \<times> bytes) result" where
  "split_macs payload =
     (if length payload < 32 then Panic
      else let n = length payload - 32; macs = drop n payload
           in Ok (take n payload, take 16 macs, drop 16 macs))"

definition validate_mac1 :: "crypto \<Rightarrow> cookie \<Rightarrow> bytes \<Rightarrow> ('e, bool) result" where
  "validate_mac1 cr ck payload =
     rbind (split_macs payload) (\<lambda>(msg, mac1, mac2).
     rbind (mac cr (ck_mac1_hash ck) msg) (\<lambda>t. Ok (mac1 = t)))"

definition validate_mac2 :: "crypto \<Rightarrow> cookie \<Rightarrow> bytes \<Rightarrow> ('e, bool) result" where
  "validate_mac2 cr ck payload =
     rbind (split_macs payload) (\<lambda>(msg, mac1, mac2).
     rbind (mac cr (ck_cookie_hash ck) msg) (\<lambda>t. Ok (mac2 = t)))"

datatype socket_addr = V4 (addr_octets: bytes) (addr_port: u16) | V6 (addr_octets: bytes) (addr_port: u16)

fun encode_dst_addr :: "socket_addr \<Rightarrow> bytes" where
  "encode_dst_addr (V4 octets port) = octets @ to_le_bytes 2 port"
| "encode_dst_addr (V6 octets port) = octets @ to_le_bytes 2 port"

text \<open>\<open>refresh_secret\<close>: the current secret while it is younger than the lifetime, else the fresh one.\<close>

definition refresh_secret :: "instant \<Rightarrow> bytes \<Rightarrow> cookie \<Rightarrow> bytes \<times> cookie" where
  "refresh_secret now rv ck =
     (case ck_secret ck of
        Some (v, at) \<Rightarrow> if elapsed now at < COOKIE_LIFETIME then (v, ck)
                        else (rv, ck\<lparr>ck_secret := Some (rv, now)\<rparr>)
      | None \<Rightarrow> (rv, ck\<lparr>ck_secret := Some (rv, now)\<rparr>))"

definition generate_cookie_reply ::
    "crypto \<Rightarrow> instant \<Rightarrow> bytes \<Rightarrow> bytes \<Rightarrow> cookie \<Rightarrow> bytes \<Rightarrow> socket_addr \<Rightarrow>
     (noise_error, bytes \<times> cookie) result" where
  "generate_cookie_reply cr now nonce rv ck payload dst =
     rbind (slice 4 8 payload) (\<lambda>receiver_index.
     if length payload < 32 then Panic
     else rbind (slice (length payload - 32) (length payload - 16) payload) (\<lambda>mac1.
       let (secret, ck') = refresh_secret now rv ck
       in rbind (mac cr secret (encode_dst_addr dst)) (\<lambda>msg.
          rbind (unwrap (xaead_encrypt cr (ck_cookie_hash ck) nonce msg mac1)) (\<lambda>c.
            Ok (to_le_bytes 4 (3 :: u32) @ receiver_index @ nonce @ c, ck')))))"

section \<open>Initiation\<close>

record outgoing_initiation =
  oi_index :: u32
  oi_hash :: bytes
  oi_chaining_key :: bytes
  oi_ephemeral_private_key :: bytes

definition outgoing_initiation_new ::
    "crypto \<Rightarrow> bytes \<Rightarrow> bytes \<Rightarrow> instant \<Rightarrow> u32 \<Rightarrow> peer_static_secret \<Rightarrow> mac_generator \<Rightarrow>
     (noise_error, outgoing_initiation \<times> bytes) result" where
  "outgoing_initiation_new cr rand ts now sender_index secret macs =
     (let buf = to_le_bytes 4 (1 :: u32) @ to_le_bytes 4 sender_index;
          c = hash cr CONSTRUCTION [];
          h = hash cr (hash cr c IDENTIFIER) (ps_public secret);
          (eph_pri, eph_pub) = gen_ephemeral_key cr rand;
          c = kdf1 cr c eph_pub;
          buf = buf @ eph_pub;
          h = hash cr h eph_pub;
          (c, k) = kdf2 cr c (x25519 cr eph_pri (ps_public secret))
      in rbind (unwrap (aead_encrypt cr k 0 (ls_public (ps_local secret)) h)) (\<lambda>static_key.
         let buf = buf @ static_key;
             h = hash cr h static_key;
             (c, k) = kdf2 cr c (x25519 cr (ls_private (ps_local secret)) (ps_public secret))
         in rbind (unwrap (aead_encrypt cr k 0 ts h)) (\<lambda>timestamp.
            let buf = buf @ timestamp;
                h = hash cr h timestamp
            in rbind (generate_mac1 cr macs buf) (\<lambda>m1.
               let buf = buf @ m1
               in rbind (generate_mac2 cr now macs buf) (\<lambda>m2.
                  Ok (\<lparr>oi_index = sender_index, oi_hash = h, oi_chaining_key = c,
                       oi_ephemeral_private_key = eph_pri\<rparr>, buf @ m2))))))"

record incoming_initiation =
  ii_index :: u32
  ii_hash :: bytes
  ii_chaining_key :: bytes
  ii_timestamp :: bytes
  ii_ephemeral_public_key :: bytes
  ii_static_public_key :: bytes

text \<open>\<open>try_into().unwrap()\<close> on the opened fields panics unless they have 32 and 12 bytes.\<close>

definition exact_len :: "nat \<Rightarrow> bytes \<Rightarrow> ('e, bytes) result" where
  "exact_len n b = (if length b = n then Ok b else Panic)"

definition incoming_initiation_parse ::
    "crypto \<Rightarrow> local_static_secret \<Rightarrow> handshake_initiation \<Rightarrow>
     (noise_error, incoming_initiation) result" where
  "incoming_initiation_parse cr secret packet =
     (let c = hash cr CONSTRUCTION [];
          h = hash cr (hash cr c IDENTIFIER) (ls_public secret);
          peer_ephemeral_pub = hi_ephemeral_public_key packet;
          c = kdf1 cr c (hi_ephemeral_public_key packet);
          h = hash cr h (hi_ephemeral_public_key packet);
          (c, k) = kdf2 cr c (x25519 cr (ls_private secret) peer_ephemeral_pub)
      in rbind (rbind (aead_decrypt cr k 0 (hi_static_public_key packet) h) (exact_len 32))
          (\<lambda>peer_static_pub.
         let h = hash cr h (hi_static_public_key packet);
             (c, k) = kdf2 cr c (x25519 cr (ls_private secret) peer_static_pub)
         in rbind (rbind (aead_decrypt cr k 0 (hi_timestamp packet) h) (exact_len 12))
             (\<lambda>timestamp.
            let h = hash cr h (hi_timestamp packet)
            in Ok \<lparr>ii_index = hi_sender_index packet, ii_hash = h, ii_chaining_key = c,
                   ii_timestamp = timestamp, ii_ephemeral_public_key = peer_ephemeral_pub,
                   ii_static_public_key = peer_static_pub\<rparr>)))"

section \<open>Response\<close>

record outgoing_response =
  or_hash :: bytes
  or_chaining_key :: bytes
  or_ephemeral_private_key :: bytes

definition outgoing_response_new ::
    "crypto \<Rightarrow> bytes \<Rightarrow> instant \<Rightarrow> incoming_initiation \<Rightarrow> u32 \<Rightarrow> peer_static_secret \<Rightarrow>
     mac_generator \<Rightarrow> (noise_error, outgoing_response \<times> bytes) result" where
  "outgoing_response_new cr rand now initiation local_index secret macs =
     (let buf = to_le_bytes 4 (2 :: u32) @ to_le_bytes 4 local_index @
                to_le_bytes 4 (ii_index initiation);
          (eph_pri, eph_pub) = gen_ephemeral_key cr rand;
          buf = buf @ eph_pub;
          c = kdf1 cr (ii_chaining_key initiation) eph_pub;
          h = hash cr (ii_hash initiation) eph_pub;
          c = kdf1 cr c (x25519 cr eph_pri (ii_ephemeral_public_key initiation));
          c = kdf1 cr c (x25519 cr eph_pri (ps_public secret));
          (c, t, k) = kdf3 cr c (ps_psk secret);
          h = hash cr h t
      in rbind (unwrap (aead_encrypt cr k 0 [] h)) (\<lambda>empty.
         let buf = buf @ empty;
             h = hash cr h empty
         in rbind (generate_mac1 cr macs buf) (\<lambda>m1.
            let buf = buf @ m1
            in rbind (generate_mac2 cr now macs buf) (\<lambda>m2.
               Ok (\<lparr>or_hash = h, or_chaining_key = c, or_ephemeral_private_key = eph_pri\<rparr>,
                   buf @ m2)))))"

record incoming_response =
  ir_index :: u32
  ir_ephemeral_public_key :: bytes
  ir_hash :: bytes
  ir_chaining_key :: bytes

definition incoming_response_parse ::
    "crypto \<Rightarrow> outgoing_initiation \<Rightarrow> peer_static_secret \<Rightarrow> handshake_response \<Rightarrow>
     (noise_error, incoming_response) result" where
  "incoming_response_parse cr initiation secret packet =
     (let peer_ephemeral_pub = hr_ephemeral_public_key packet;
          c = kdf1 cr (oi_chaining_key initiation) peer_ephemeral_pub;
          h = hash cr (oi_hash initiation) peer_ephemeral_pub;
          c = kdf1 cr c (x25519 cr (oi_ephemeral_private_key initiation) peer_ephemeral_pub);
          c = kdf1 cr c (x25519 cr (ls_private (ps_local secret)) peer_ephemeral_pub);
          (c, t, k) = kdf3 cr c (ps_psk secret);
          h = hash cr h t
      in rbind (aead_decrypt cr k 0 (hr_empty packet) h) (\<lambda>empty.
         if empty \<noteq> [] then Err Decryption
         else let h = hash cr h (hr_empty packet)
              in Ok \<lparr>ir_index = hr_sender_index packet,
                     ir_ephemeral_public_key = peer_ephemeral_pub,
                     ir_hash = h, ir_chaining_key = c\<rparr>))"

section \<open>Both ends of the handshake\<close>

lemma tag_bytes:
  "to_le_bytes 4 (1 :: u32) = [1, 0, 0, 0]" "to_le_bytes 4 (2 :: u32) = [2, 0, 0, 0]"
  "to_le_bytes 4 (3 :: u32) = [3, 0, 0, 0]"
  by (simp_all add: to_le_bytes_def le_of_nat_numeral)

definition macs_for :: "crypto \<Rightarrow> bytes \<Rightarrow> mac_generator \<Rightarrow> bool" where
  "macs_for cr pub g \<longleftrightarrow> peer_mac1_hash g = hash cr LABEL_MAC1 pub \<and>
     peer_cookie_hash g = hash cr LABEL_COOKIE pub"

lemma macs_for_new: "macs_for cr (ps_public s) (mac_generator_new cr s)"
  by (simp add: macs_for_def mac_generator_new_def Let_def)

lemma generate_mac1_Ok:
  assumes "crypto_laws cr" "macs_for cr pub g"
  obtains t where "generate_mac1 cr g m = (Ok t :: ('e, bytes) result)" "length t = 16"
    "mac cr (hash cr LABEL_MAC1 pub) m = (Ok t :: ('f, bytes) result)"
  using crypto_lawsD(2) [OF assms(1) crypto_lengths(1) [OF assms(1)], of LABEL_MAC1 pub m] assms(2)
  by (auto simp: generate_mac1_def mac_def macs_for_def)

lemma generate_mac2_Ok:
  assumes "crypto_laws cr" "macs_for cr pub g"
  obtains t where "generate_mac2 cr now g m = (Ok t :: ('e, bytes) result)" "length t = 16"
proof -
  obtain t where "mac cr (peer_cookie_hash g) m = (Ok t :: ('e, bytes) result)" "length t = 16"
    using crypto_lawsD(2) [OF assms(1) crypto_lengths(1) [OF assms(1)], of LABEL_COOKIE pub m] assms(2)
    by (auto simp: mac_def macs_for_def)
  then have "\<exists>t. generate_mac2 cr now g m = (Ok t :: ('e, bytes) result) \<and> length t = 16"
    by (auto simp: generate_mac2_def split: option.splits)
  then show ?thesis using that by blast
qed

lemma split_macs_append:
  "length m1 = 16 \<Longrightarrow> length m2 = 16 \<Longrightarrow> split_macs (m @ m1 @ m2) = Ok (m, m1, m2)"
  by (simp add: split_macs_def Let_def)

lemma validate_mac1_append:
  assumes "mac cr (hash cr LABEL_MAC1 (ls_public s)) m = (Ok m1 :: ('e, bytes) result)"
    "length m1 = 16" "length m2 = 16"
  shows "validate_mac1 cr (cookie_new cr s) (m @ m1 @ m2) = (Ok True :: ('e, bool) result)"
  using assms by (simp add: validate_mac1_def split_macs_append cookie_new_def)

lemma initiation_exchange:
  assumes laws: "crypto_laws cr" and len: "length a = 32" "length b = 32" "length rand = 32" "length ts = 12"
    and loc: "ps_local s = local_secret_new cr a" and pub: "ps_public s = x25519_pub cr b"
    and macs: "macs_for cr (ps_public s) g"
  obtains st payload p inc where
    "outgoing_initiation_new cr rand ts now idx s g = Ok (st, payload)"
    "length payload = 148" "initiation_try_from payload = Ok p"
    "validate_mac1 cr (cookie_new cr (local_secret_new cr b)) payload = (Ok True :: ('e, bool) result)"
    "incoming_initiation_parse cr (local_secret_new cr b) p = Ok inc"
    "oi_index st = idx" "oi_ephemeral_private_key st = rand"
    "inc = \<lparr>ii_index = idx, ii_hash = oi_hash st, ii_chaining_key = oi_chaining_key st,
       ii_timestamp = ts, ii_ephemeral_public_key = x25519_pub cr rand,
       ii_static_public_key = x25519_pub cr a\<rparr>"
proof -
  define c0 where "c0 = hash cr CONSTRUCTION []"
  define e where "e = x25519_pub cr rand"
  define h1 where "h1 = hash cr (hash cr (hash cr c0 IDENTIFIER) (x25519_pub cr b)) e"
  define ck1 where "ck1 = kdf2 cr (kdf1 cr c0 e) (x25519 cr rand (x25519_pub cr b))"
  define ck2 where "ck2 = kdf2 cr (fst ck1) (x25519 cr a (x25519_pub cr b))"
  have lens: "length (snd ck1) = 32" "length (snd ck2) = 32" "length e = 32"
      "length (x25519_pub cr a) = 32"
    using laws len by (simp_all add: ck1_def ck2_def e_def crypto_lengths crypto_lawsD(6))
  obtain sk where sk: "aead_encrypt cr (snd ck1) 0 (x25519_pub cr a) h1 = Ok sk" "length sk = 48"
      "aead_decrypt cr (snd ck1) 0 sk h1 = Ok (x25519_pub cr a)"
    using aead_roundtrip [OF laws lens(1), of "x25519_pub cr a" 0 h1] lens(4) by auto
  obtain t where t: "aead_encrypt cr (snd ck2) 0 ts (hash cr h1 sk) = Ok t" "length t = 28"
      "aead_decrypt cr (snd ck2) 0 t (hash cr h1 sk) = Ok ts"
    using aead_roundtrip [OF laws lens(2), of ts 0 "hash cr h1 sk"] len by auto
  define buf where "buf = [1, 0, 0, 0] @ to_le_bytes 4 idx @ e @ sk @ t"
  obtain m1 where m1: "generate_mac1 cr g buf = (Ok m1 :: (noise_error, bytes) result)" "length m1 = 16"
      "mac cr (hash cr LABEL_MAC1 (ps_public s)) buf = (Ok m1 :: ('e, bytes) result)"
    using generate_mac1_Ok [OF laws macs, where ?'e = noise_error and ?'f = 'e] by blast
  obtain m2 where m2: "generate_mac2 cr now g (buf @ m1) = (Ok m2 :: (noise_error, bytes) result)" "length m2 = 16"
    using generate_mac2_Ok [OF laws macs, where ?'e = noise_error] by blast
  have dh: "x25519 cr b e = x25519 cr rand (x25519_pub cr b)"
      "x25519 cr b (x25519_pub cr a) = x25519 cr a (x25519_pub cr b)"
    using crypto_lawsD(7) [OF laws] by (simp_all add: e_def)
  define st where "st = \<lparr>oi_index = idx, oi_hash = hash cr (hash cr h1 sk) t,
      oi_chaining_key = fst ck2, oi_ephemeral_private_key = rand\<rparr>"
  have out: "outgoing_initiation_new cr rand ts now idx s g = Ok (st, buf @ m1 @ m2)"
    using sk(1) t(1) m1(1) m2(1)
    by (simp add: outgoing_initiation_new_def Let_def split_beta gen_ephemeral_key_def loc pub
        local_secret_new_def tag_bytes buf_def st_def flip: e_def c0_def h1_def ck1_def ck2_def)
  moreover have "initiation_try_from (buf @ m1 @ m2) =
      Ok \<lparr>hi_sender_index = idx, hi_ephemeral_public_key = e, hi_static_public_key = sk,
          hi_timestamp = t, hi_mac1 = m1, hi_mac2 = m2\<rparr>" (is "_ = Ok ?p")
    using initiation_try_from_build [of e sk t m1 m2 idx] lens sk t m1 m2 by (simp add: buf_def)
  moreover have "validate_mac1 cr (cookie_new cr (local_secret_new cr b)) (buf @ m1 @ m2) =
      (Ok True :: ('e, bool) result)"
    using m1 m2 by (intro validate_mac1_append) (simp_all add: local_secret_new_def pub)
  moreover have "incoming_initiation_parse cr (local_secret_new cr b) ?p =
      Ok \<lparr>ii_index = idx, ii_hash = oi_hash st, ii_chaining_key = oi_chaining_key st,
       ii_timestamp = ts, ii_ephemeral_public_key = x25519_pub cr rand,
       ii_static_public_key = x25519_pub cr a\<rparr>"
    using sk(3) t(3) lens(4) len(4)
    by (simp add: incoming_initiation_parse_def Let_def split_beta local_secret_new_def dh st_def
        exact_len_def e_def [symmetric] c0_def [symmetric] h1_def [symmetric] ck1_def [symmetric]
        ck2_def [symmetric])
  moreover have "length (buf @ m1 @ m2) = 148" using lens sk t m1 m2 by (simp add: buf_def)
  ultimately show ?thesis using that by (simp add: st_def)
qed

lemma response_exchange:
  assumes laws: "crypto_laws cr" and len: "length rand = 32"
    and si: "ps_local si = local_secret_new cr a" "ps_psk si = psk"
    and sr: "ps_public sr = x25519_pub cr a" "ps_psk sr = psk"
    and inc: "ii_hash inc = oi_hash st" "ii_chaining_key inc = oi_chaining_key st"
      "ii_ephemeral_public_key inc = x25519_pub cr (oi_ephemeral_private_key st)"
    and macs: "macs_for cr (ps_public sr) g"
  obtains rst payload p fin where
    "outgoing_response_new cr rand now inc idx sr g = Ok (rst, payload)"
    "length payload = 92" "response_try_from payload = Ok p"
    "validate_mac1 cr (cookie_new cr (local_secret_new cr a)) payload = (Ok True :: ('e, bool) result)"
    "hr_receiver_index p = ii_index inc"
    "incoming_response_parse cr st si p = Ok fin"
    "ir_index fin = idx" "ir_hash fin = or_hash rst" "ir_chaining_key fin = or_chaining_key rst"
proof -
  define e where "e = x25519_pub cr rand"
  define c1 where "c1 = kdf1 cr (oi_chaining_key st) e"
  define c2 where "c2 = kdf1 cr c1 (x25519 cr rand (x25519_pub cr (oi_ephemeral_private_key st)))"
  define c3 where "c3 = kdf3 cr (kdf1 cr c2 (x25519 cr rand (x25519_pub cr a))) psk"
  define h where "h = hash cr (hash cr (oi_hash st) e) (fst (snd c3))"
  have lens: "length (snd (snd c3)) = 32" "length e = 32"
    using laws len by (simp_all add: c3_def e_def crypto_lengths crypto_lawsD(6))
  obtain em where em: "aead_encrypt cr (snd (snd c3)) 0 [] h = Ok em" "length em = 16"
      "aead_decrypt cr (snd (snd c3)) 0 em h = Ok []"
    using aead_roundtrip [OF laws lens(1), of "[]" 0 h] by auto
  define buf where "buf = [2, 0, 0, 0] @ to_le_bytes 4 idx @ to_le_bytes 4 (ii_index inc) @ e @ em"
  obtain m1 where m1: "generate_mac1 cr g buf = (Ok m1 :: (noise_error, bytes) result)" "length m1 = 16"
      "mac cr (hash cr LABEL_MAC1 (ps_public sr)) buf = (Ok m1 :: ('e, bytes) result)"
    using generate_mac1_Ok [OF laws macs, where ?'e = noise_error and ?'f = 'e] by blast
  obtain m2 where m2: "generate_mac2 cr now g (buf @ m1) = (Ok m2 :: (noise_error, bytes) result)" "length m2 = 16"
    using generate_mac2_Ok [OF laws macs, where ?'e = noise_error] by blast
  have dh: "x25519 cr (oi_ephemeral_private_key st) e =
        x25519 cr rand (x25519_pub cr (oi_ephemeral_private_key st))"
      "x25519 cr a e = x25519 cr rand (x25519_pub cr a)"
    using crypto_lawsD(7) [OF laws] by (simp_all add: e_def)
  have "outgoing_response_new cr rand now inc idx sr g =
      Ok (\<lparr>or_hash = hash cr h em, or_chaining_key = fst c3, or_ephemeral_private_key = rand\<rparr>,
          buf @ m1 @ m2)"
    using em(1) m1(1) m2(1)
    by (simp add: outgoing_response_new_def Let_def split_beta gen_ephemeral_key_def sr inc
        tag_bytes buf_def e_def [symmetric] c1_def [symmetric] c2_def [symmetric] c3_def [symmetric]
        h_def [symmetric])
  moreover have "response_try_from (buf @ m1 @ m2) =
      Ok \<lparr>hr_sender_index = idx, hr_receiver_index = ii_index inc, hr_ephemeral_public_key = e,
          hr_empty = em, hr_mac1 = m1, hr_mac2 = m2\<rparr>" (is "_ = Ok ?p")
    using response_try_from_build [of e em m1 m2 idx "ii_index inc"] lens em m1 m2
    by (simp add: buf_def)
  moreover have "validate_mac1 cr (cookie_new cr (local_secret_new cr a)) (buf @ m1 @ m2) =
      (Ok True :: ('e, bool) result)"
    using m1 m2 by (intro validate_mac1_append) (simp_all add: local_secret_new_def sr)
  moreover have "incoming_response_parse cr st si ?p =
      Ok \<lparr>ir_index = idx, ir_ephemeral_public_key = e, ir_hash = hash cr h em,
          ir_chaining_key = fst c3\<rparr>"
    using em(3)
    by (simp add: incoming_response_parse_def Let_def split_beta local_secret_new_def dh si
        c1_def [symmetric] c2_def [symmetric] c3_def [symmetric] h_def [symmetric])
  moreover have "length (buf @ m1 @ m2) = 92" using lens em m1 m2 by (simp add: buf_def)
  ultimately show ?thesis using that by simp
qed

lemma incoming_no_panic:
  assumes "crypto_laws cr"
  shows "initiation_wf p \<Longrightarrow> incoming_initiation_parse cr s p \<noteq> Panic"
    "incoming_response_parse cr st ps q \<noteq> Panic"
  using aead_decrypt_length [OF assms] aead_no_panic(2) [of cr]
  by (force simp: incoming_initiation_parse_def incoming_response_parse_def initiation_wf_def
      Let_def split_beta result_simps exact_len_def split: if_splits)+

section \<open>Properties\<close>

text \<open>C15: One round of the handshake between honest parties agrees.  For every pair of static keys,
  every pre-shared key both hold and all randomness, the initiator's packet parses, passes the
  responder's mac1 check and opens to the initiator's static key and timestamp; the responder's
  packet parses, passes the initiator's mac1 check and is accepted; and the two parties end with
  the same transcript hash and chaining key, each knowing the index the other chose.\<close>

theorem handshake_agreement:
  assumes "crypto_laws cr" "length a = 32" "length b = 32" "length ri = 32" "length rr = 32"
    "length ts = 12"
    and "si = set_psk psk (with_peer (local_secret_new cr a) (x25519_pub cr b))"
    and "sr = set_psk psk (with_peer (local_secret_new cr b) (x25519_pub cr a))"
    and "gi = mac_generator_new cr si" "gr = mac_generator_new cr sr"
  shows "\<exists>st init p inc rst resp q fin.
    outgoing_initiation_new cr ri ts now i si gi = Ok (st, init) \<and>
    message_parse init = Ok (HandshakeInitiation p) \<and>
    validate_mac1 cr (cookie_new cr (ps_local sr)) init = (Ok True :: (noise_error, bool) result) \<and>
    incoming_initiation_parse cr (ps_local sr) p = Ok inc \<and>
    ii_static_public_key inc = ls_public (ps_local si) \<and> ii_timestamp inc = ts \<and> ii_index inc = i \<and>
    outgoing_response_new cr rr now' inc r sr gr = Ok (rst, resp) \<and>
    message_parse resp = Ok (HandshakeResponse q) \<and>
    validate_mac1 cr (cookie_new cr (ps_local si)) resp = (Ok True :: (noise_error, bool) result) \<and>
    hr_receiver_index q = i \<and>
    incoming_response_parse cr st si q = Ok fin \<and>
    ir_index fin = r \<and> ir_hash fin = or_hash rst \<and> ir_chaining_key fin = or_chaining_key rst"
proof -
  have s: "ps_local si = local_secret_new cr a" "ps_public si = x25519_pub cr b" "ps_psk si = psk"
      "ps_local sr = local_secret_new cr b" "ps_public sr = x25519_pub cr a" "ps_psk sr = psk"
    using assms by (simp_all add: set_psk_def with_peer_def peer_secret_new_def)
  have g: "macs_for cr (ps_public si) gi" "macs_for cr (ps_public sr) gr"
    using assms macs_for_new by simp_all
  obtain st init p inc where 1: "outgoing_initiation_new cr ri ts now i si gi = Ok (st, init)"
    "length init = 148" "initiation_try_from init = Ok p"
    "validate_mac1 cr (cookie_new cr (local_secret_new cr b)) init = (Ok True :: (noise_error, bool) result)"
    "incoming_initiation_parse cr (local_secret_new cr b) p = Ok inc"
    "oi_index st = i" "oi_ephemeral_private_key st = ri"
    "inc = \<lparr>ii_index = i, ii_hash = oi_hash st, ii_chaining_key = oi_chaining_key st,
       ii_timestamp = ts, ii_ephemeral_public_key = x25519_pub cr ri,
       ii_static_public_key = x25519_pub cr a\<rparr>"
    by (rule initiation_exchange [OF assms(1,2,3,4,6) s(1,2) g(1), where ?'e = noise_error])
  obtain rst resp q fin where 2: "outgoing_response_new cr rr now' inc r sr gr = Ok (rst, resp)"
    "length resp = 92" "response_try_from resp = Ok q"
    "validate_mac1 cr (cookie_new cr (local_secret_new cr a)) resp = (Ok True :: (noise_error, bool) result)"
    "hr_receiver_index q = ii_index inc" "incoming_response_parse cr st si q = Ok fin"
    "ir_index fin = r" "ir_hash fin = or_hash rst" "ir_chaining_key fin = or_chaining_key rst"
    by (rule response_exchange [OF assms(1,5) s(1,3) s(5,6) _ _ _ g(2), of inc st, where ?'e = noise_error])
      (use 1 in simp_all)
  show ?thesis
    using 1 2 s message_parse_initiation [OF 1(3)] message_parse_response [OF 2(3)]
    by (auto simp: local_secret_new_def)
qed

theorem handshake_agreement_witness:
  "\<exists>st init p. outgoing_initiation_new plain_crypto (replicate 32 3) (replicate 12 9) 0 7
      (set_psk (replicate 32 5) (with_peer (local_secret_new plain_crypto (replicate 32 1))
        (x25519_pub plain_crypto (replicate 32 2))))
      (mac_generator_new plain_crypto (set_psk (replicate 32 5)
        (with_peer (local_secret_new plain_crypto (replicate 32 1))
          (x25519_pub plain_crypto (replicate 32 2))))) = Ok (st, init) \<and>
    message_parse init = Ok (HandshakeInitiation p)"
  using handshake_agreement [OF plain_crypto_laws _ _ _ _ _ refl refl refl refl,
      of "replicate 32 1" "replicate 32 2" "replicate 32 3" "replicate 32 4" "replicate 12 9"
        0 7 "replicate 32 5" 0 8]
  by auto

text \<open>No handshake packet can bring the receiver down in the parsers behind \<open>Message::parse\<close>:
  the length of an opened box is fixed by the packet layout, so the conversions to arrays succeed.\<close>

theorem handshake_parse_no_panic:
  assumes "crypto_laws cr"
  shows "(message_parse v = Ok (HandshakeInitiation p) \<longrightarrow> incoming_initiation_parse cr s p \<noteq> Panic) \<and>
    incoming_response_parse cr st ps q \<noteq> Panic"
proof -
  have "initiation_wf p" if "message_parse v = Ok (HandshakeInitiation p)"
    using that initiation_try_from_Ok
    by (auto simp: message_parse_def result_simps split: if_splits)
  then show ?thesis using incoming_no_panic [OF assms] by blast
qed

theorem handshake_parse_no_panic_witness:
  "incoming_initiation_parse plain_crypto (local_secret_new plain_crypto (replicate 32 1))
     \<lparr>hi_sender_index = 7, hi_ephemeral_public_key = replicate 32 0,
      hi_static_public_key = replicate 48 0, hi_timestamp = replicate 28 0,
      hi_mac1 = replicate 16 0, hi_mac2 = replicate 16 0\<rparr> \<noteq> Panic"
proof -
  have "message_parse ([1, 0, 0, 0] @ to_le_bytes 4 (7 :: u32) @ replicate 32 0 @ replicate 48 0 @
      replicate 28 0 @ replicate 16 0 @ replicate 16 0) = Ok (HandshakeInitiation
      \<lparr>hi_sender_index = 7, hi_ephemeral_public_key = replicate 32 0,
      hi_static_public_key = replicate 48 0, hi_timestamp = replicate 28 0,
      hi_mac1 = replicate 16 0, hi_mac2 = replicate 16 0\<rparr>)"
    by (intro message_parse_initiation initiation_try_from_build) simp_all
  then show ?thesis using handshake_parse_no_panic [OF plain_crypto_laws] by blast
qed

end
