(* ===== verification/Cidr.thy ===== *)
theory Cidr
  imports Noise_Handshake
begin

text \<open>
  Allowed-IP prefixes and the routing table, \<open>vlink-tun/src/device/peer/cidr.rs\<close>.  Address parsing and
  printing is that of the Rust standard library (\<open>IpAddr::from_str\<close>, \<open>Display\<close>).  Networks and the
  prefix table are the crates \<open>ip_network\<close> and \<open>ip_network_table\<close>: the operations the code calls are
  the fields of the record \<open>netlib\<close>, and \<open>netlib_laws\<close> states what those crates document.
\<close>

section \<open>Addresses as text\<close>

datatype ip_addr = Ipv4 bytes | Ipv6 bytes

definition digit_val :: "nat \<Rightarrow> char \<Rightarrow> nat option" where
  "digit_val radix c = (case digit_of_hex c of Some d \<Rightarrow> if d < radix then Some d else None | None \<Rightarrow> None)"

text \<open>The digits at the front of the input, at most \<open>md\<close> of them; one more is an error.\<close>

fun read_digits :: "nat \<Rightarrow> nat \<Rightarrow> nat \<Rightarrow> nat \<Rightarrow> string \<Rightarrow> (nat \<times> nat \<times> string) option" where
  "read_digits radix md n acc [] = Some (n, acc, [])"
| "read_digits radix md n acc (c # cs) =
     (case digit_val radix c of
        None \<Rightarrow> Some (n, acc, c # cs)
      | Some d \<Rightarrow> if n \<ge> md then None else read_digits radix md (Suc n) (acc * radix + d) cs)"

definition read_number :: "nat \<Rightarrow> nat \<Rightarrow> nat \<Rightarrow> bool \<Rightarrow> string \<Rightarrow> (nat \<times> string) option" where
  "read_number radix md limit allow_zero_prefix s =
     (case read_digits radix md 0 0 s of
        None \<Rightarrow> None
      | Some (n, v, rest) \<Rightarrow>
          if n = 0 \<or> v > limit then None
          else if \<not> allow_zero_prefix \<and> hd s = CHR ''0'' \<and> n > 1 then None
          else Some (v, rest))"

fun read_sep :: "char \<Rightarrow> bool \<Rightarrow> (string \<Rightarrow> ('a \<times> string) option) \<Rightarrow> string \<Rightarrow> ('a \<times> string) option" where
  "read_sep sep first p s =
     (if first then p s else case s of c # cs \<Rightarrow> if c = sep then p cs else None | [] \<Rightarrow> None)"

definition read_octet :: "bool \<Rightarrow> string \<Rightarrow> (nat \<times> string) option" where
  "read_octet first = read_sep CHR ''.'' first (read_number 10 3 255 False)"

definition read_ipv4 :: "string \<Rightarrow> (bytes \<times> string) option" where
  "read_ipv4 s =
     Option.bind (read_octet True s) (\<lambda>(a, s).
     Option.bind (read_octet False s) (\<lambda>(b, s).
     Option.bind (read_octet False s) (\<lambda>(c, s).
     Option.bind (read_octet False s) (\<lambda>(d, s).
       Some (map of_nat [a, b, c, d], s)))))"

text \<open>\<open>read_groups\<close>: groups of four hexadecimal digits, or an IPv4 suffix where two are left.\<close>

fun read_groups :: "nat \<Rightarrow> nat \<Rightarrow> string \<Rightarrow> u16 list \<times> bool \<times> string" where
  "read_groups 0 i s = ([], False, s)"
| "read_groups (Suc left) i s =
     (case (if 0 < left then read_sep CHR '':'' (i = 0) read_ipv4 s else None) of
        Some (v4, rest) \<Rightarrow> ([from_be_bytes (take 2 v4), from_be_bytes (drop 2 v4)], True, rest)
      | None \<Rightarrow>
          (case read_sep CHR '':'' (i = 0) (read_number 16 4 65535 True) s of
             None \<Rightarrow> ([], False, s)
           | Some (g, rest) \<Rightarrow>
               (let (gs, v4, rest') = read_groups left (Suc i) rest in (of_nat g # gs, v4, rest'))))"

definition groups_bytes :: "u16 list \<Rightarrow> bytes" where
  "groups_bytes gs = concat (map (to_be_bytes 2) gs)"

definition read_ipv6 :: "string \<Rightarrow> (bytes \<times> string) option" where
  "read_ipv6 s =
     (let (head, head_v4, rest) = read_groups 8 0 s
      in if length head = 8 then Some (groups_bytes head, rest)
         else if head_v4 then None
         else case rest of
                c # c' # rest' \<Rightarrow>
                  if c = CHR '':'' \<and> c' = CHR '':'' then
                    (let (tail, _, rest'') = read_groups (7 - length head) 0 rest'
                     in Some (groups_bytes (head @ replicate (8 - length head - length tail) 0 @ tail), rest''))
                  else None
              | _ \<Rightarrow> None)"

definition ip_from_str :: "string \<Rightarrow> ip_addr option" where
  "ip_from_str s =
     (case read_ipv4 s of
        Some (b, rest) \<Rightarrow> if rest = [] then Some (Ipv4 b) else None
      | None \<Rightarrow> (case read_ipv6 s of
          Some (b, rest) \<Rightarrow> if rest = [] then Some (Ipv6 b) else None
        | None \<Rightarrow> None))"

text \<open>\<open>u8::from_str\<close>: decimal digits with an optional plus sign, at most 255.\<close>

fun dec_value :: "nat \<Rightarrow> string \<Rightarrow> nat option" where
  "dec_value acc [] = Some acc"
| "dec_value acc (c # cs) = (case digit_val 10 c of None \<Rightarrow> None | Some d \<Rightarrow> dec_value (acc * 10 + d) cs)"

definition u8_from_str :: "string \<Rightarrow> u8 option" where
  "u8_from_str s =
     (let body = (case s of c # cs \<Rightarrow> if c = CHR ''+'' then cs else s | [] \<Rightarrow> [])
      in if body = [] then None
         else case dec_value 0 body of Some v \<Rightarrow> if v \<le> 255 then Some (of_nat v) else None | None \<Rightarrow> None)"

fun split_once :: "char \<Rightarrow> string \<Rightarrow> (string \<times> string) option" where
  "split_once sep [] = None"
| "split_once sep (c # cs) =
     (if c = sep then Some ([], cs)
      else case split_once sep cs of None \<Rightarrow> None | Some (a, b) \<Rightarrow> Some (c # a, b))"

definition dec_u8 :: "u8 \<Rightarrow> string" where
  "dec_u8 b =
     (let n = unat b
      in (if n \<ge> 100 then [hex_digit (n div 100)] else []) @
         (if n \<ge> 10 then [hex_digit (n div 10 mod 10)] else []) @ [hex_digit (n mod 10)])"

fun ipv4_to_string :: "bytes \<Rightarrow> string" where
  "ipv4_to_string [a, b, c, d] = dec_u8 a @ ''.'' @ dec_u8 b @ ''.'' @ dec_u8 c @ ''.'' @ dec_u8 d"
| "ipv4_to_string _ = []"

text \<open>How the standard library prints an IPv6 address: groups in hexadecimal, the first of the longest runs of two or more zero groups
  as \<open>::\<close>, an IPv4-mapped address with its last four bytes in decimal.\<close>

definition hex_u16 :: "u16 \<Rightarrow> string" where
  "hex_u16 w = (let n = unat w
     in (if n \<ge> 4096 then [hex_digit (n div 4096)] else []) @ (if n \<ge> 256 then [hex_digit (n div 256 mod 16)] else []) @
        (if n \<ge> 16 then [hex_digit (n div 16 mod 16)] else []) @ [hex_digit (n mod 16)])"

fun bytes_groups :: "bytes \<Rightarrow> u16 list" where
  "bytes_groups (a # b # rest) = from_be_bytes [a, b] # bytes_groups rest"
| "bytes_groups _ = []"

fun longest_zeros :: "nat \<Rightarrow> nat \<times> nat \<Rightarrow> nat \<times> nat \<Rightarrow> u16 list \<Rightarrow> nat \<times> nat" where
  "longest_zeros i cur best [] = best"
| "longest_zeros i (start, len) best (g # gs) =
     (if g = 0
      then let cur = (if len = 0 then i else start, Suc len)
           in longest_zeros (Suc i) cur (if snd best < snd cur then cur else best) gs
      else longest_zeros (Suc i) (0, 0) best gs)"

fun join_groups :: "u16 list \<Rightarrow> string" where
  "join_groups [] = []"
| "join_groups [g] = hex_u16 g"
| "join_groups (g # gs) = hex_u16 g @ '':'' @ join_groups gs"

definition ipv6_to_string :: "bytes \<Rightarrow> string" where
  "ipv6_to_string bs =
     (let gs = bytes_groups bs; (start, len) = longest_zeros 0 (0, 0) (0, 0) gs
      in if take 6 gs = [0, 0, 0, 0, 0, 0xFFFF] then ''::ffff:'' @ ipv4_to_string (drop 12 bs)
         else if 1 < len then join_groups (take start gs) @ ''::'' @ join_groups (drop (start + len) gs)
         else join_groups gs)"

fun ip_to_string :: "ip_addr \<Rightarrow> string" where
  "ip_to_string (Ipv4 bs) = ipv4_to_string bs"
| "ip_to_string (Ipv6 bs) = ipv6_to_string bs"

section \<open>Prefixes\<close>

datatype parse_cidr_error = InvalidIp | InvalidMask

record ('n, 't, 'v) netlib =
  new_truncate :: "ip_addr \<Rightarrow> u8 \<Rightarrow> 'n option"
  netmask :: "'n \<Rightarrow> u8"
  net_contains :: "'n \<Rightarrow> ip_addr \<Rightarrow> bool"
  table_new :: "'t"
  table_insert :: "'n \<Rightarrow> 'v \<Rightarrow> 't \<Rightarrow> 't"
  table_remove :: "'n \<Rightarrow> 't \<Rightarrow> 't"
  longest_match :: "ip_addr \<Rightarrow> 't \<Rightarrow> ('n \<times> 'v) option"

fun max_mask_for_ip :: "ip_addr \<Rightarrow> u8" where
  "max_mask_for_ip (Ipv4 _) = 32"
| "max_mask_for_ip (Ipv6 _) = 128"

text \<open>\<open>Cidr::new\<close> panics when the mask does not fit the address.\<close>

definition cidr_new :: "('n, 't, 'v) netlib \<Rightarrow> ip_addr \<Rightarrow> u8 \<Rightarrow> ('e, 'n) result" where
  "cidr_new nl ip msk = (case new_truncate nl ip msk of None \<Rightarrow> Panic | Some n \<Rightarrow> Ok n)"

definition cidr_from_ip :: "('n, 't, 'v) netlib \<Rightarrow> ip_addr \<Rightarrow> ('e, 'n) result" where
  "cidr_from_ip nl value = cidr_new nl value (max_mask_for_ip value)"

text \<open>The text of a prefix; \<open>addr\<close> is \<open>IpNetwork::network_address\<close>.\<close>

definition cidr_to_string :: "('n, 't, 'v) netlib \<Rightarrow> ('n \<Rightarrow> ip_addr) \<Rightarrow> 'n \<Rightarrow> string" where
  "cidr_to_string nl addr n = ip_to_string (addr n) @ ''/'' @ dec_u8 (netmask nl n)"

definition cidr_from_str :: "('n, 't, 'v) netlib \<Rightarrow> string \<Rightarrow> (parse_cidr_error, 'n) result" where
  "cidr_from_str nl s =
     (case split_once CHR ''/'' s of
        Some (ip, msk) \<Rightarrow>
          rbind (ok_or InvalidIp (ip_from_str ip)) (\<lambda>ip.
          rbind (ok_or InvalidMask (u8_from_str msk)) (\<lambda>msk.
            if msk > max_mask_for_ip ip then Err InvalidMask
            else cidr_new nl ip msk))
      | None \<Rightarrow>
          rbind (ok_or InvalidIp (ip_from_str s)) (\<lambda>ip. cidr_from_ip nl ip))"

section \<open>The table\<close>

definition cidr_table_new :: "('n, 't, 'v) netlib \<Rightarrow> 't" where
  "cidr_table_new nl = table_new nl"

definition cidr_insert :: "('n, 't, 'v) netlib \<Rightarrow> 'n \<Rightarrow> 'v \<Rightarrow> 't \<Rightarrow> 't" where
  "cidr_insert nl cidr v t = table_insert nl cidr v t"

definition cidr_get_by_ip :: "('n, 't, 'v) netlib \<Rightarrow> ip_addr \<Rightarrow> 't \<Rightarrow> 'v option" where
  "cidr_get_by_ip nl ip t = map_option snd (longest_match nl ip t)"

definition cidr_remove :: "('n, 't, 'v) netlib \<Rightarrow> 'n \<Rightarrow> 't \<Rightarrow> 't" where
  "cidr_remove nl cidr t = table_remove nl cidr t"

definition cidr_clear :: "('n, 't, 'v) netlib \<Rightarrow> 't \<Rightarrow> 't" where
  "cidr_clear nl t = table_new nl"

section \<open>What the crates promise\<close>

text \<open>\<open>entries\<close> is the finite map a table stands for: insertion replaces, and \<open>longest_match\<close> returns
  an entry whose network contains the address, with no longer mask among those that do.\<close>

definition netlib_laws :: "('n, 't, 'v) netlib \<Rightarrow> ('t \<Rightarrow> 'n \<rightharpoonup> 'v) \<Rightarrow> bool" where
  "netlib_laws nl entries \<longleftrightarrow>
     (\<forall>ip m. m \<le> max_mask_for_ip ip \<longrightarrow>
        (\<exists>n. new_truncate nl ip m = Some n \<and> netmask nl n = m \<and> net_contains nl n ip)) \<and>
     entries (table_new nl) = (\<lambda>_. None) \<and>
     (\<forall>n v t. entries (table_insert nl n v t) = (entries t)(n \<mapsto> v)) \<and>
     (\<forall>n t. entries (table_remove nl n t) = (entries t)(n := None)) \<and>
     (\<forall>ip t n v. longest_match nl ip t = Some (n, v) \<longrightarrow>
        entries t n = Some v \<and> net_contains nl n ip \<and>
        (\<forall>n' v'. entries t n' = Some v' \<longrightarrow> net_contains nl n' ip \<longrightarrow> netmask nl n' \<le> netmask nl n)) \<and>
     (\<forall>ip t n v. longest_match nl ip t = None \<longrightarrow> entries t n = Some v \<longrightarrow> \<not> net_contains nl n ip)"

lemma netlib_lawsD:
  assumes "netlib_laws nl entries"
  shows "m \<le> max_mask_for_ip ip \<Longrightarrow>
      \<exists>n. new_truncate nl ip m = Some n \<and> netmask nl n = m \<and> net_contains nl n ip"
    and "entries (table_new nl) = (\<lambda>_. None)"
    and "entries (table_insert nl n v t) = (entries t)(n \<mapsto> v)"
    and "entries (table_remove nl n t) = (entries t)(n := None)"
    and "longest_match nl ip t = Some (n, v) \<Longrightarrow> entries t n = Some v \<and> net_contains nl n ip"
    and "longest_match nl ip t = Some (n, v) \<Longrightarrow> entries t n' = Some v' \<Longrightarrow> net_contains nl n' ip \<Longrightarrow>
      netmask nl n' \<le> netmask nl n"
    and "longest_match nl ip t = None \<Longrightarrow> entries t n = Some v \<Longrightarrow> \<not> net_contains nl n ip"
  using assms unfolding netlib_laws_def by blast+

text \<open>A table as an association list satisfies the laws.\<close>

definition byte_bits :: "u8 \<Rightarrow> bool list" where
  "byte_bits b = map (\<lambda>i. bit b (7 - i)) [0..<8]"

fun addr_bits :: "ip_addr \<Rightarrow> bool \<times> bool list" where
  "addr_bits (Ipv4 bs) = (False, concat (map byte_bits bs))"
| "addr_bits (Ipv6 bs) = (True, concat (map byte_bits bs))"

type_synonym list_net = "bool \<times> bool list \<times> u8"

definition list_contains :: "list_net \<Rightarrow> ip_addr \<Rightarrow> bool" where
  "list_contains n ip \<longleftrightarrow> fst (addr_bits ip) = fst n \<and>
     take (unat (snd (snd n))) (snd (addr_bits ip)) = fst (snd n)"

fun list_match :: "ip_addr \<Rightarrow> (list_net \<times> 'v) list \<Rightarrow> (list_net \<times> 'v) option" where
  "list_match ip [] = None"
| "list_match ip ((n, v) # t) =
     (if list_contains n ip
      then case list_match ip t of
             Some (n', v') \<Rightarrow> if snd (snd n) < snd (snd n') then Some (n', v') else Some (n, v)
           | None \<Rightarrow> Some (n, v)
      else list_match ip t)"

definition list_netlib :: "(list_net, (list_net \<times> 'v) list, 'v) netlib" where
  "list_netlib = \<lparr>
     new_truncate = (\<lambda>ip m. if m \<le> max_mask_for_ip ip
       then Some (fst (addr_bits ip), take (unat m) (snd (addr_bits ip)), m) else None),
     netmask = (\<lambda>n. snd (snd n)),
     net_contains = list_contains,
     table_new = [],
     table_insert = (\<lambda>n v t. (n, v) # filter (\<lambda>e. fst e \<noteq> n) t),
     table_remove = (\<lambda>n t. filter (\<lambda>e. fst e \<noteq> n) t),
     longest_match = list_match\<rparr>"

lemma list_match_Some:
  "list_match ip t = Some (n, v) \<Longrightarrow> map_of t n = Some v \<and> list_contains n ip \<and>
    (\<forall>n' v'. map_of t n' = Some v' \<longrightarrow> list_contains n' ip \<longrightarrow> snd (snd n') \<le> snd (snd n))"
  and list_match_None: "list_match ip t = None \<Longrightarrow> map_of t n' = Some v' \<Longrightarrow> \<not> list_contains n' ip"
proof (induction t arbitrary: n v n' v')
  case Nil
  { case 1 then show ?case by simp next case 2 then show ?case by simp }
next
  case (Cons e t)
  obtain m w where e: "e = (m, w)" by (cases e)
  { case 1
    show ?case
    proof (cases "list_match ip t")
      case None
      then show ?thesis using 1 Cons.IH(2) [OF None] e by (auto split: if_splits)
    next
      case (Some r)
      obtain a b where r: "r = (a, b)" by (cases r)
      show ?thesis using 1 Cons.IH(1) [of a b] Some e r
        by (auto split: if_splits dest: less_imp_le order_trans simp: not_less)
    qed
  next
    case 2
    then show ?case using Cons.IH(2) [of n' v'] e by (auto split: if_splits option.splits prod.splits)
  }
qed

lemma map_of_filter_neq: "map_of (filter (\<lambda>e. fst e \<noteq> n) t) = (map_of t)(n := None)"
  by (induction t) auto

lemma list_netlib_laws: "netlib_laws list_netlib map_of"
  unfolding netlib_laws_def
proof (intro conjI allI impI, goal_cases)
  case (3 n v t)
  show ?case by (simp add: list_netlib_def map_of_filter_neq)
next
  case (4 n t)
  show ?case by (simp add: list_netlib_def map_of_filter_neq)
next
  case (5 ip t n v)
  then show ?case using list_match_Some [of ip t n v] by (simp add: list_netlib_def)
next
  case (6 ip t n v)
  then show ?case using list_match_Some [of ip t n v] by (simp add: list_netlib_def)
next
  case (7 ip t n v n' v')
  then show ?case using list_match_Some [of ip t n v] by (simp add: list_netlib_def del: split_paired_All)
next
  case (8 ip t n v)
  then show ?case using list_match_None [of ip t n v] by (simp add: list_netlib_def)
qed (auto simp: list_netlib_def list_contains_def)

section \<open>Reading back a dotted address\<close>

lemma digit_val_hex: "n < 10 \<Longrightarrow> digit_val 10 (hex_digit n) = Some n"
  by (simp add: digit_val_def digit_of_hex_digit)

lemma digit_val_dot [simp]: "digit_val 10 CHR ''.'' = None"
  by (simp add: digit_val_def digit_of_hex_def Let_def)

lemma hex_digit_0_iff: "n < 10 \<Longrightarrow> hex_digit n = CHR ''0'' \<longleftrightarrow> n = 0"
proof -
  have "digit_of_hex (CHR ''0'') = Some 0" by (simp add: digit_of_hex_def Let_def)
  moreover have "hex_digit 0 = CHR ''0''" by code_simp
  moreover assume "n < 10"
  ultimately show ?thesis using digit_of_hex_digit [of n] by auto
qed

definition no_digit :: "string \<Rightarrow> bool" where
  "no_digit s \<longleftrightarrow> s = [] \<or> digit_val 10 (hd s) = None"

lemma read_digits_stop: "no_digit s \<Longrightarrow> read_digits 10 md n acc s = Some (n, acc, s)"
  by (cases s) (auto simp: no_digit_def)

lemma read_number_dec:
  assumes "no_digit s"
  shows "read_number 10 3 255 False (dec_u8 b @ s) = Some (unat b, s)"
proof -
  have b: "unat b < 256" by (rule unat_u8_less)
  have d: "unat b div 100 < 10" "unat b div 10 mod 10 < 10" "unat b mod 10 < 10" "unat b < 100 \<Longrightarrow> unat b div 10 < 10"
    using b by auto
  have v: "unat b div 100 * 100 + unat b div 10 mod 10 * 10 + unat b mod 10 = unat b"
  proof -
    have "unat b div 100 = unat b div 10 div 10" by (simp add: div_mult2_eq [symmetric])
    then have "unat b div 100 * 10 + unat b div 10 mod 10 = unat b div 10" by simp
    then show ?thesis using div_mult_mod_eq [of "unat b" 10] by linarith
  qed
  consider "unat b < 10" | "10 \<le> unat b" "unat b < 100" | "100 \<le> unat b" by linarith
  then show ?thesis
  proof cases
    case 1
    then show ?thesis using assms
      by (simp add: read_number_def dec_u8_def Let_def digit_val_hex read_digits_stop numeral_3_eq_3)
  next
    case 2
    then have "hex_digit (unat b div 10) \<noteq> CHR ''0''" "unat b div 10 * 10 + unat b mod 10 = unat b"
        "unat b div 10 mod 10 = unat b div 10"
      using hex_digit_0_iff [of "unat b div 10"] d by auto
    with 2 d show ?thesis using assms
      by (simp add: read_number_def dec_u8_def Let_def digit_val_hex read_digits_stop hex_digit_0_iff)
  next
    case 3
    then have "unat b div 100 \<noteq> 0" by auto
    with 3 d v b show ?thesis using assms
      by (simp add: read_number_def dec_u8_def Let_def digit_val_hex read_digits_stop hex_digit_0_iff
          algebra_simps)
  qed
qed

lemma dec_u8_chars: "c \<in> set (dec_u8 b) \<Longrightarrow> \<exists>n<10. c = hex_digit n"
proof -
  assume "c \<in> set (dec_u8 b)"
  moreover have "unat b div 100 < 10" using unat_u8_less [of b] by auto
  ultimately show ?thesis
    by (auto simp: dec_u8_def Let_def split: if_splits intro: exI [of _ "unat b div 100"]
        exI [of _ "unat b div 10 mod 10"] exI [of _ "unat b mod 10"])
qed

lemma hex_digit_not: "n < 10 \<Longrightarrow> digit_of_hex c = None \<Longrightarrow> hex_digit n \<noteq> c"
  using digit_of_hex_digit [of n] by auto

lemma dec_u8_no_slash: "CHR ''/'' \<notin> set (dec_u8 b)"
proof
  assume "CHR ''/'' \<in> set (dec_u8 b)"
  then obtain n where n: "n < 10" "CHR ''/'' = hex_digit n" using dec_u8_chars by blast
  have "digit_of_hex CHR ''/'' = None" by (simp add: digit_of_hex_def Let_def)
  from hex_digit_not [OF n(1) this] n(2) show False by simp
qed

lemma split_once_none: "sep \<notin> set s \<Longrightarrow> split_once sep s = None"
  by (induction s) auto

lemma split_once_app: "sep \<notin> set a \<Longrightarrow> split_once sep (a @ sep # b) = Some (a, b)"
  by (induction a) auto

lemma read_digits_dec: "read_digits 10 md n acc s = Some (k, v, []) \<Longrightarrow> dec_value acc s = Some v"
  by (induction "10 :: nat" md n acc s rule: read_digits.induct) (auto split: option.splits if_splits)

lemma u8_from_str_dec: "u8_from_str (dec_u8 b) = Some b"
proof -
  have "read_number 10 3 255 False (dec_u8 b @ []) = Some (unat b, [])"
    by (rule read_number_dec) (simp add: no_digit_def)
  then obtain k where "read_digits 10 3 0 0 (dec_u8 b) = Some (k, unat b, [])"
    by (auto simp: read_number_def split: option.splits if_splits)
  then have v: "dec_value 0 (dec_u8 b) = Some (unat b)" by (rule read_digits_dec)
  obtain c cs where c: "dec_u8 b = c # cs" by (cases "dec_u8 b") (simp_all add: dec_u8_def Let_def)
  then obtain n where "n < 10" "c = hex_digit n" using dec_u8_chars [of c b] by auto
  then have "c \<noteq> CHR ''+''" using hex_digit_not_plus [of n] by auto
  then show ?thesis using v c unat_u8_less [of b] by (simp add: u8_from_str_def)
qed

lemma ip_from_str_dotted: "ip_from_str (ipv4_to_string [a, b, c, d]) = Some (Ipv4 [a, b, c, d])"
proof -
  have nd: "no_digit (CHR ''.'' # s)" "no_digit []" for s by (simp_all add: no_digit_def)
  have "read_ipv4 (ipv4_to_string [a, b, c, d]) = Some ([a, b, c, d], [])"
    using read_number_dec [OF nd(2), of d]
    by (simp add: read_ipv4_def read_octet_def read_number_dec nd)
  then show ?thesis by (simp add: ip_from_str_def)
qed

text \<open>Decimal text of a number, and that every text without superfluous zeros is one.\<close>

lemma digit_val_dec: "d < 10 \<Longrightarrow> digit_val 10 (char_of (48 + d)) = Some d"
  using digit_val_hex [of d] by (simp add: hex_digit_def)

lemma dec_nat_digits: "\<forall>c \<in> set (dec_nat n). digit_val 10 c \<noteq> None"
proof (induction n rule: dec_nat.induct)
  case (1 n)
  then show ?case
    by (subst dec_nat.simps) (auto simp: digit_val_dec simp flip: hex_digit_def)
qed

lemma dec_nat_value: "foldl (\<lambda>acc c. acc * 10 + the (digit_val 10 c)) 0 (dec_nat n) = n"
proof (induction n rule: dec_nat.induct)
  case (1 n)
  show ?case
  proof (cases "n < 10")
    case True
    then show ?thesis by (subst dec_nat.simps) (simp add: digit_val_dec)
  next
    case False
    then show ?thesis using 1 by (subst dec_nat.simps) (simp add: digit_val_dec)
  qed
qed

lemma dec_nat_not_Nil [simp]: "dec_nat n \<noteq> []"
  by (subst dec_nat.simps) simp

lemma dec_value_foldl:
  "\<forall>c \<in> set s. digit_val 10 c \<noteq> None \<Longrightarrow>
   dec_value acc s = Some (foldl (\<lambda>acc c. acc * 10 + the (digit_val 10 c)) acc s)"
  by (induction s arbitrary: acc) auto

lemma dec_value_nat [simp]: "dec_value 0 (dec_nat n) = Some n"
  by (simp add: dec_value_foldl [OF dec_nat_digits] dec_nat_value)

lemma digit_val_char: "digit_val 10 c = Some d \<Longrightarrow> d < 10 \<and> c = char_of (48 + d)"
  by (auto simp: digit_val_def digit_of_hex_def Let_def split: option.splits if_splits)

definition canonical_dec :: "string \<Rightarrow> bool" where
  "canonical_dec s \<longleftrightarrow> s = ''0'' \<or> s \<noteq> [] \<and> hd s \<noteq> CHR ''0'' \<and> (\<forall>c \<in> set s. digit_val 10 c \<noteq> None)"

lemma char_zero: "char_of (48 :: nat) = CHR ''0''"
  by code_simp

lemma dec_nat_zero: "dec_nat 0 = ''0''"
  by (simp add: dec_nat.simps [of 0] char_zero)

lemma dec_nat_hd: "0 < n \<Longrightarrow> hd (dec_nat n) \<noteq> CHR ''0''"
proof (induction n rule: dec_nat.induct)
  case (1 n)
  show ?case
  proof (cases "n < 10")
    case True
    have "digit_val 10 (char_of (48 + n)) \<noteq> digit_val 10 (char_of (48 :: nat))"
      using True 1(2) digit_val_dec [of n] digit_val_dec [of 0] by simp
    then show ?thesis using True char_zero by (subst dec_nat.simps) auto
  next
    case False
    then show ?thesis using 1(1) by (subst dec_nat.simps) simp
  qed
qed

lemma dec_nat_of_digits:
  assumes "s \<noteq> []" "hd s \<noteq> CHR ''0''" "\<forall>c \<in> set s. digit_val 10 c \<noteq> None"
  shows "\<exists>n. s = dec_nat n"
  using assms
proof (induction s rule: rev_induct)
  case (snoc c xs)
  have "digit_val 10 c \<noteq> None" using snoc.prems(3) by simp
  then obtain d where "digit_val 10 c = Some d" by blast
  note d = digit_val_char [OF this, THEN conjunct1] digit_val_char [OF this, THEN conjunct2]
  show ?case
  proof (cases "xs = []")
    case True
    then show ?thesis using d by (intro exI [of _ d]) (simp add: dec_nat.simps [of d])
  next
    case False
    then obtain n where n: "xs = dec_nat n" using snoc by auto
    have "n \<noteq> 0" using snoc.prems(2) n dec_nat_zero by (cases "n = 0") simp_all
    then have "dec_nat (10 * n + d) = dec_nat n @ [char_of (48 + d)]" using d(1) by (subst dec_nat.simps) auto
    then show ?thesis using n d(2) by metis
  qed
qed simp

lemma canonical_dec_iff: "canonical_dec s \<longleftrightarrow> (\<exists>n. s = dec_nat n)"
proof
  assume "canonical_dec s"
  then show "\<exists>n. s = dec_nat n" using dec_nat_of_digits dec_nat_zero by (metis canonical_dec_def)
next
  assume "\<exists>n. s = dec_nat n"
  then obtain n where "s = dec_nat n" by blast
  then show "canonical_dec s" using dec_nat_hd [of n] dec_nat_digits [of n] dec_nat_zero
    by (cases "n = 0") (simp_all add: canonical_dec_def)
qed

section \<open>Properties\<close>

text \<open>A prefix written as four octets and a length is parsed to exactly that: every mask up to 32
  gives the network of the address under that mask, every larger one is refused, and an address
  alone stands for its full-length prefix.\<close>

theorem cidr_from_str_dotted:
  "cidr_from_str nl (ipv4_to_string [a, b, c, d] @ ''/'' @ dec_u8 m) =
     (if 32 < m then Err InvalidMask else cidr_new nl (Ipv4 [a, b, c, d]) m) \<and>
   cidr_from_str nl (ipv4_to_string [a, b, c, d]) = cidr_new nl (Ipv4 [a, b, c, d]) 32"
proof -
  have "CHR ''/'' \<notin> set (ipv4_to_string [a, b, c, d])" by (simp add: dec_u8_no_slash)
  from split_once_none [OF this] split_once_app [OF this, of "dec_u8 m"] show ?thesis
    by (simp add: cidr_from_str_def cidr_from_ip_def ip_from_str_dotted u8_from_str_dec
        del: ipv4_to_string.simps)
qed

text \<open>The text of an IPv4 prefix is read back as that prefix.\<close>

lemma cidr_text_read_back:
  assumes "addr n = Ipv4 [a, b, c, d]" "netmask nl n \<le> 32" "new_truncate nl (addr n) (netmask nl n) = Some n"
  shows "cidr_from_str nl (cidr_to_string nl addr n) = Ok n"
  using cidr_from_str_dotted [of nl a b c d "netmask nl n"] assms
  by (simp add: cidr_to_string_def cidr_new_def not_less [symmetric] del: ipv4_to_string.simps)

text \<open>Parsing a prefix never panics: the mask is checked against the address family before
  \<open>Cidr::new\<close> unwraps.  A parsed prefix contains the address it was written with.\<close>

theorem cidr_from_str_safe:
  assumes "netlib_laws nl entries"
  shows "cidr_from_str nl s \<noteq> Panic \<and>
    (cidr_from_str nl s = Ok n \<longrightarrow> (\<exists>ip. ip_from_str (case split_once CHR ''/'' s of Some (a, _) \<Rightarrow> a | None \<Rightarrow> s) =
       Some ip \<and> net_contains nl n ip \<and> netmask nl n \<le> max_mask_for_ip ip))"
proof -
  have new: "\<exists>n. cidr_new nl ip m = (Ok n :: (parse_cidr_error, _) result) \<and> netmask nl n = m \<and> net_contains nl n ip"
    if "m \<le> max_mask_for_ip ip" for ip m
    using netlib_lawsD(1) [OF assms that] by (auto simp: cidr_new_def)
  show ?thesis
  proof (cases "split_once CHR ''/'' s")
    case None
    show ?thesis
    proof (cases "ip_from_str s")
      case (Some ip)
      then show ?thesis using None new [of "max_mask_for_ip ip" ip]
        by (auto simp: cidr_from_str_def cidr_from_ip_def)
    qed (use None in \<open>simp add: cidr_from_str_def\<close>)
  next
    case (Some r)
    obtain a m where r: "r = (a, m)" by (cases r)
    show ?thesis
    proof (cases "ip_from_str a")
      case ip: (Some ip)
      show ?thesis
      proof (cases "u8_from_str m")
        case m: (Some k)
        then show ?thesis using Some r ip new [of k ip] by (auto simp: cidr_from_str_def not_less)
      qed (use Some r ip in \<open>simp add: cidr_from_str_def\<close>)
    qed (use Some r in \<open>simp add: cidr_from_str_def\<close>)
  qed
qed

theorem cidr_from_str_safe_witness:
  "cidr_from_str (list_netlib :: (list_net, (list_net \<times> unit) list, unit) netlib) ''10.2.3.4/33'' = Err InvalidMask \<and>
   cidr_from_str (list_netlib :: (list_net, (list_net \<times> unit) list, unit) netlib) ''10.2.3.4/33'' \<noteq> Panic"
proof
  show "cidr_from_str (list_netlib :: (list_net, (list_net \<times> unit) list, unit) netlib) ''10.2.3.4/33'' = Err InvalidMask"
    by code_simp
  show "cidr_from_str (list_netlib :: (list_net, (list_net \<times> unit) list, unit) netlib) ''10.2.3.4/33'' \<noteq> Panic"
    using cidr_from_str_safe [OF list_netlib_laws, where s = "''10.2.3.4/33''"] by blast
qed

end
