(* ===== verification/Headlink.thy ===== *)
theory Headlink
  imports Abi Rw_Map Cidr
begin

text \<open>
  The coordination server \<open>headlink\<close>: networks and their peers (\<open>server.rs\<close>, \<open>network.rs\<close>,
  \<open>peer.rs\<close>), login and the request loop of a client (\<open>client.rs\<close>, \<open>client/dispatcher.rs\<close>), the
  handlers (\<open>client/handler\<close>) and the life of a connection (\<open>main.rs\<close>).  The database is a parameter: the
  record \<open>db\<close> holds the queries the code makes, each of which may fail, over a state \<open>'d\<close>; the record
  \<open>net4\<close> holds what is used of the crate \<open>ip_network\<close>.  The order of a hash map is the order of its list.
\<close>

section \<open>Data\<close>

record peer_model =
  pm_id :: int
  pm_pub_key :: string
  pm_ip :: "string option"
  pm_default_proto :: "string option"
  pm_endpoint_addr :: "string option"
  pm_port :: "int option"
  pm_network_id :: int
  pm_disabled :: bool

record network_model =
  nm_network_id :: int
  nm_cidr :: string

record token_model =
  tk_network_id :: int
  tk_disabled :: bool

record transport_model =
  tm_proto :: string
  tm_params :: string

text \<open>The errors built with \<open>anyhow!\<close>, by what they say, and the errors of the handlers.\<close>

datatype anyhow =
    NetworkIdMissing | DbErr string | CidrParse | SendClosed | NoIpLeft | TokenMissing | TokenDisabled
  | PeerNotRegistered | SetError | PeerConnected string | HandshakeDataError | HandshakePacketError
  | HandshakeTimeout

datatype execute_error =
    StrMessage string | DbError string | AnyhowError anyhow | ParseError | PeerNotFound | IpNotMatch | IpNotFound

definition error_code :: "execute_error \<Rightarrow> int" where
  "error_code e = -1"

datatype server_text = HandlerText execute_error | LoginText anyhow

record 'd db =
  find_network :: "'d \<Rightarrow> int \<Rightarrow> (string, network_model option) result"
  find_network_peers :: "'d \<Rightarrow> int \<Rightarrow> (string, peer_model list) result"
  find_token :: "'d \<Rightarrow> string \<Rightarrow> (string, token_model option) result"
  find_peer :: "'d \<Rightarrow> string \<Rightarrow> (string, peer_model option) result"
  find_transports :: "'d \<Rightarrow> int \<Rightarrow> (string, transport_model list) result"
  update_peer_ip :: "'d \<Rightarrow> int \<Rightarrow> string \<Rightarrow> (string, 'd) result"

record 'n net4 =
  net4_parse :: "string \<Rightarrow> 'n option"
  net4_hosts :: "'n \<Rightarrow> u32 list"
  net4_mask :: "'n \<Rightarrow> u8"
  net4_address :: "'n \<Rightarrow> u32"

record client_id =
  id_pub_key :: string
  id_network :: int

text \<open>A connection: its address, and a number for the cell and the channel its clones share.\<close>

record client_connect =
  co_addr :: string
  co_id :: nat

record online_info =
  on_connect :: client_connect
  on_port :: u32
  on_endpoint_addr :: "string option"
  on_extra_endpoints :: "(string, string) rw_map"

record vlink_peer =
  vp_pub_key :: string
  vp_model :: peer_model
  vp_online :: "online_info option"

definition is_online :: "vlink_peer \<Rightarrow> bool" where
  "is_online p = (vp_online p \<noteq> None)"

definition peer_from_model :: "peer_model \<Rightarrow> vlink_peer" where
  "peer_from_model m = \<lparr>vp_pub_key = pm_pub_key m, vp_model = m, vp_online = None\<rparr>"

record peer_connect =
  pc_direction :: bool
  pc_proto :: string

record 'n vlink_network =
  nw_id :: int
  nw_cidr :: 'n
  nw_peers :: "(string, vlink_peer) rw_map"
  nw_connects :: "(string, peer_connect) rw_map"

type_synonym to_client_msg = "server_text to_client_data"

record ('n, 'd) server =
  sv_clients :: "(string, client_connect) rw_map"
  sv_networks :: "(int, 'n vlink_network) rw_map"
  sv_version :: string
  sv_key :: string
  sv_db :: 'd
  sv_ids :: "(nat, client_id) rw_map"
  sv_open :: "nat list"
  sv_out :: "(nat \<times> u64 option \<times> to_client_msg) list"

section \<open>Connections (client.rs)\<close>

text \<open>A message is handed to the task that writes to the socket; without that task sending fails.\<close>

definition client_send ::
    "client_connect \<Rightarrow> u64 option \<Rightarrow> to_client_msg \<Rightarrow> ('n, 'd) server \<Rightarrow> ('n, 'd) server \<times> (anyhow, unit) result" where
  "client_send c mid data sv =
     (if co_id c \<in> set (sv_open sv) then (sv\<lparr>sv_out := sv_out sv @ [(co_id c, mid, data)]\<rparr>, Ok ())
      else (sv, Err SendClosed))"

text \<open>That task: the id of a message without one is counted up; the number handed back is the counter.\<close>

fun to_client_handler :: "u64 \<Rightarrow> (u64 option \<times> 'm to_client_data) list \<Rightarrow> ('m to_client \<times> u64) list" where
  "to_client_handler n [] = []"
| "to_client_handler n ((id_op, data) # rest) =
     (let (use_id, n) = (case id_op of Some i \<Rightarrow> (i, n) | None \<Rightarrow> (n + 1, n + 1))
      in (\<lparr>tc_id = use_id, tc_data = Some data\<rparr>, n) # to_client_handler n rest)"

section \<open>Networks (network.rs, server.rs)\<close>

definition peers_new :: "vlink_peer list \<Rightarrow> (string, vlink_peer) rw_map" where
  "peers_new ps = rw_from (map (\<lambda>p. (pm_pub_key (vp_model p), p)) ps)"

definition peers_offline :: "string \<Rightarrow> (string, vlink_peer) rw_map \<Rightarrow> (string, vlink_peer) rw_map" where
  "peers_offline pub_key = rw_modify pub_key (\<lambda>p. p\<lparr>vp_online := None\<rparr>)"

definition refresh_model :: "peer_model \<Rightarrow> (string, vlink_peer) rw_map \<Rightarrow> (string, vlink_peer) rw_map" where
  "refresh_model m = rw_modify (pm_pub_key m) (\<lambda>p. p\<lparr>vp_model := m\<rparr>)"

text \<open>A network handle is its number: networks are never removed from the map.\<close>

definition on_network :: "int \<Rightarrow> ('n vlink_network \<Rightarrow> 'n vlink_network) \<Rightarrow> ('n, 'd) server \<Rightarrow> ('n, 'd) server" where
  "on_network n f sv = sv\<lparr>sv_networks := rw_modify n f (sv_networks sv)\<rparr>"

definition on_peers ::
    "int \<Rightarrow> ((string, vlink_peer) rw_map \<Rightarrow> (string, vlink_peer) rw_map) \<Rightarrow> ('n, 'd) server \<Rightarrow> ('n, 'd) server" where
  "on_peers n f = on_network n (\<lambda>nw. nw\<lparr>nw_peers := f (nw_peers nw)\<rparr>)"

definition broadcast_by ::
    "to_client_msg \<Rightarrow> (string \<Rightarrow> bool) \<Rightarrow> 'n vlink_network \<Rightarrow> ('n, 'd) server \<Rightarrow> ('n, 'd) server" where
  "broadcast_by data predict nw sv =
     fold (\<lambda>(k, p) sv.
         if \<not> predict k then sv
         else case vp_online p of None \<Rightarrow> sv | Some s \<Rightarrow> fst (client_send (on_connect s) None data sv))
       (nw_peers nw) sv"

definition broadcast_to ::
    "to_client_msg \<Rightarrow> string list \<Rightarrow> 'n vlink_network \<Rightarrow> ('n, 'd) server \<Rightarrow> ('n, 'd) server" where
  "broadcast_to data incl nw sv = (if incl = [] then sv else broadcast_by data (\<lambda>k. k \<in> set incl) nw sv)"

definition broadcast ::
    "to_client_msg \<Rightarrow> string \<Rightarrow> 'n vlink_network \<Rightarrow> ('n, 'd) server \<Rightarrow> ('n, 'd) server" where
  "broadcast data exclude nw sv = broadcast_by data (\<lambda>k. exclude \<noteq> k) nw sv"

definition broadcast_excludes ::
    "to_client_msg \<Rightarrow> string list \<Rightarrow> 'n vlink_network \<Rightarrow> ('n, 'd) server \<Rightarrow> ('n, 'd) server" where
  "broadcast_excludes data exclude nw sv = broadcast_by data (\<lambda>k. k \<notin> set exclude) nw sv"

definition network_offline :: "int \<Rightarrow> string \<Rightarrow> ('n, 'd) server \<Rightarrow> ('n, 'd) server" where
  "network_offline n pub_key sv =
     (let sv = on_peers n (peers_offline pub_key) sv
      in case rw_get (sv_networks sv) n of
           None \<Rightarrow> sv
         | Some nw \<Rightarrow> broadcast (PeerLeaveTC pub_key) pub_key nw sv)"

definition insert_client :: "client_connect \<Rightarrow> ('n, 'd) server \<Rightarrow> ('n, 'd) server" where
  "insert_client c sv = sv\<lparr>sv_clients := rw_insert (co_addr c) c (sv_clients sv)\<rparr>"

definition remove_client :: "string \<Rightarrow> ('n, 'd) server \<Rightarrow> ('n, 'd) server \<times> client_connect option" where
  "remove_client addr sv =
     (sv\<lparr>sv_clients := rw_remove addr (sv_clients sv)\<rparr>, rw_get (sv_clients sv) addr)"

definition get_client :: "string \<Rightarrow> ('n, 'd) server \<Rightarrow> client_connect option" where
  "get_client addr sv = rw_get (sv_clients sv) addr"

definition db_result :: "(string, 'a) result \<Rightarrow> (anyhow, 'a) result" where
  "db_result r = map_err DbErr r"

definition load_network :: "'d db \<Rightarrow> 'n net4 \<Rightarrow> int \<Rightarrow> 'd \<Rightarrow> (anyhow, 'n vlink_network) result" where
  "load_network lib nl n d =
     rbind (db_result (find_network lib d n)) (\<lambda>found.
     rbind (ok_or NetworkIdMissing found) (\<lambda>m.
     rbind (db_result (find_network_peers lib d (nm_network_id m))) (\<lambda>models.
     rbind (ok_or CidrParse (net4_parse nl (nm_cidr m))) (\<lambda>cidr.
       Ok \<lparr>nw_id = nm_network_id m, nw_cidr = cidr, nw_peers = peers_new (map peer_from_model models),
           nw_connects = rw_new\<rparr>))))"

definition get_network ::
    "'d db \<Rightarrow> 'n net4 \<Rightarrow> int \<Rightarrow> ('n, 'd) server \<Rightarrow> ('n, 'd) server \<times> (anyhow, 'n vlink_network) result" where
  "get_network lib nl n sv =
     (case rw_get (sv_networks sv) n of
        Some nw \<Rightarrow> (sv, Ok nw)
      | None \<Rightarrow>
          (case load_network lib nl n (sv_db sv) of
             Ok nw \<Rightarrow> (sv\<lparr>sv_networks := rw_insert n nw (sv_networks sv)\<rparr>, Ok nw)
           | Err e \<Rightarrow> (sv, Err e)
           | Panic \<Rightarrow> (sv, Panic)))"

section \<open>Login (client.rs)\<close>

definition login_network ::
    "'d db \<Rightarrow> 'n net4 \<Rightarrow> req_handshake \<Rightarrow> ('n, 'd) server \<Rightarrow> ('n, 'd) server \<times> (anyhow, int) result" where
  "login_network lib nl data sv =
     (case rh_token data of
        Some t \<Rightarrow>
          (case rbind (db_result (find_token lib (sv_db sv) t)) (ok_or TokenMissing) of
             Ok token \<Rightarrow>
               if tk_disabled token then (sv, Err TokenDisabled)
               else (case get_network lib nl (tk_network_id token) sv of
                       (sv, Ok nw) \<Rightarrow> (sv, Ok (nw_id nw))
                     | (sv, Err e) \<Rightarrow> (sv, Err e)
                     | (sv, Panic) \<Rightarrow> (sv, Panic))
           | Err e \<Rightarrow> (sv, Err e)
           | Panic \<Rightarrow> (sv, Panic))
      | None \<Rightarrow>
          (sv, rbind (rbind (db_result (find_peer lib (sv_db sv) (rh_pub_key data))) (ok_or PeerNotRegistered))
                 (\<lambda>peer. Ok (pm_network_id peer))))"

definition set_client_id :: "client_connect \<Rightarrow> client_id \<Rightarrow> ('n, 'd) server \<Rightarrow> ('n, 'd) server \<times> (anyhow, unit) result" where
  "set_client_id c cid sv =
     (case rw_get (sv_ids sv) (co_id c) of
        Some _ \<Rightarrow> (sv, Err SetError)
      | None \<Rightarrow> (sv\<lparr>sv_ids := rw_insert (co_id c) cid (sv_ids sv)\<rparr>, Ok ()))"

definition login_peer ::
    "'d db \<Rightarrow> 'n net4 \<Rightarrow> client_connect \<Rightarrow> client_id \<Rightarrow> ('n, 'd) server \<Rightarrow> ('n, 'd) server \<times> (anyhow, client_id) result" where
  "login_peer lib nl c cid sv =
     (case set_client_id c cid sv of
        (sv, Ok _) \<Rightarrow>
          (case get_network lib nl (id_network cid) sv of
             (sv, Ok nw) \<Rightarrow>
               (case rw_get (nw_peers nw) (id_pub_key cid) of
                  Some e \<Rightarrow> if is_online e then (sv, Err (PeerConnected (id_pub_key cid))) else (sv, Ok cid)
                | None \<Rightarrow> (sv, Ok cid))
           | (sv, Err e) \<Rightarrow> (sv, Err e)
           | (sv, Panic) \<Rightarrow> (sv, Panic))
      | (sv, Err e) \<Rightarrow> (sv, Err e)
      | (sv, Panic) \<Rightarrow> (sv, Panic))"

definition handshake0 ::
    "'d db \<Rightarrow> 'n net4 \<Rightarrow> client_connect \<Rightarrow> to_server \<Rightarrow> ('n, 'd) server \<Rightarrow> ('n, 'd) server \<times> (anyhow, client_id) result" where
  "handshake0 lib nl c msg sv =
     (case ts_data msg of
        Some (Handshake data) \<Rightarrow>
          (case login_network lib nl data sv of
             (sv, Ok n) \<Rightarrow> login_peer lib nl c \<lparr>id_pub_key = rh_pub_key data, id_network = n\<rparr> sv
           | (sv, Err e) \<Rightarrow> (sv, Err e)
           | (sv, Panic) \<Rightarrow> (sv, Panic))
      | _ \<Rightarrow> (sv, Err HandshakeDataError))"

text \<open>The first message decides, if one comes in time.\<close>

datatype first_msg = FirstMsg to_server | Closed | TimedOut

definition srv_await_handshake ::
    "'d db \<Rightarrow> 'n net4 \<Rightarrow> client_connect \<Rightarrow> first_msg \<Rightarrow> ('n, 'd) server \<Rightarrow>
     ('n, 'd) server \<times> (anyhow, client_id) result" where
  "srv_await_handshake lib nl c first sv =
     (case client_send c None (RespServerInfo \<lparr>si_version = sv_version sv, si_key = sv_key sv, si_desc = None\<rparr>) sv of
        (sv, Ok _) \<Rightarrow>
          (case first of
             TimedOut \<Rightarrow> (sv, Err HandshakeTimeout)
           | Closed \<Rightarrow> (sv, Err HandshakePacketError)
           | FirstMsg msg \<Rightarrow>
               (case handshake0 lib nl c msg sv of
                  (sv, Panic) \<Rightarrow> (sv, Panic)
                | (sv, res) \<Rightarrow>
                    (case client_send c (Some (ts_id msg))
                        (RespHandshake (case res of Ok _ \<Rightarrow> True | _ \<Rightarrow> False)
                           (case res of Err e \<Rightarrow> Some (LoginText e) | _ \<Rightarrow> None)) sv of
                       (sv, Ok _) \<Rightarrow> (sv, res)
                     | (sv, _) \<Rightarrow> (sv, Err SendClosed))))
      | (sv, _) \<Rightarrow> (sv, Err SendClosed))"

section \<open>Handlers (client/handler)\<close>

text \<open>The context of a request: who asks, over which connection, under which request number.\<close>

record request_ctx =
  rx_id :: u64
  rx_client_id :: client_id
  rx_client :: client_connect

definition send_resp ::
    "request_ctx \<Rightarrow> to_client_msg \<Rightarrow> ('n, 'd) server \<Rightarrow> ('n, 'd) server \<times> (execute_error, unit) result" where
  "send_resp ctx resp sv =
     (let (sv, r) = client_send (rx_client ctx) (Some (rx_id ctx)) resp sv in (sv, map_err AnyhowError r))"

text \<open>Rust compares strings bytewise.\<close>

fun str_less :: "string \<Rightarrow> string \<Rightarrow> bool" where
  "str_less [] [] = False"
| "str_less [] (y # ys) = True"
| "str_less (x # xs) [] = False"
| "str_less (x # xs) (y # ys) =
     ((of_char x :: nat) < of_char y \<or> (x = y \<and> str_less xs ys))"

definition union_pub_key :: "string \<Rightarrow> string \<Rightarrow> string \<times> bool" where
  "union_pub_key a b = (if str_less a b then (a @ b, True) else (b @ a, False))"

text \<open>Every handler starts from the network of its context, or from \<open>get_network\<close>.\<close>

definition with_network ::
    "'d db \<Rightarrow> 'n net4 \<Rightarrow> request_ctx \<Rightarrow> ('n, 'd) server \<Rightarrow>
     ('n vlink_network \<Rightarrow> ('n, 'd) server \<Rightarrow> ('n, 'd) server \<times> (execute_error, unit) result) \<Rightarrow>
     ('n, 'd) server \<times> (execute_error, unit) result" where
  "with_network lib nl ctx sv f =
     (case get_network lib nl (id_network (rx_client_id ctx)) sv of
        (sv, Ok nw) \<Rightarrow> f nw sv
      | (sv, Err e) \<Rightarrow> (sv, Err (AnyhowError e))
      | (sv, Panic) \<Rightarrow> (sv, Panic))"

definition dev_handshake_complete_exec ::
    "'d db \<Rightarrow> 'n net4 \<Rightarrow> request_ctx \<Rightarrow> dev_handshake_complete \<Rightarrow> ('n, 'd) server \<Rightarrow>
     ('n, 'd) server \<times> (execute_error, unit) result" where
  "dev_handshake_complete_exec lib nl ctx data sv =
     with_network lib nl ctx sv (\<lambda>nw sv.
       let (key, direction) = union_pub_key (id_pub_key (rx_client_id ctx)) (dh_target_pub_key data)
       in (on_network (id_network (rx_client_id ctx))
             (\<lambda>nw. nw\<lparr>nw_connects := rw_insert key \<lparr>pc_direction = direction, pc_proto = dh_proto data\<rparr> (nw_connects nw)\<rparr>) sv,
           Ok ()))"

definition peer_enter_exec ::
    "'d db \<Rightarrow> 'n net4 \<Rightarrow> request_ctx \<Rightarrow> peer_enter \<Rightarrow> ('n, 'd) server \<Rightarrow>
     ('n, 'd) server \<times> (execute_error, unit) result" where
  "peer_enter_exec lib nl ctx data sv =
     with_network lib nl ctx sv (\<lambda>nw sv.
       let pub_key = id_pub_key (rx_client_id ctx); n = id_network (rx_client_id ctx) in
       case rw_get (nw_peers nw) pub_key of
         None \<Rightarrow> (sv, Err PeerNotFound)
       | Some peer \<Rightarrow>
           let info = \<lparr>on_connect = rx_client ctx, on_port = en_port data, on_endpoint_addr = en_endpoint_addr data,
                 on_extra_endpoints = rw_from (map (\<lambda>x. (ee_proto x, ee_endpoint x)) (en_extra_endpoints data))\<rparr>
           in if en_ip data \<noteq> (case pm_ip (vp_model peer) of Some ip \<Rightarrow> ip | None \<Rightarrow> []) then (sv, Err IpNotMatch)
              else let sv = on_peers n (rw_modify pub_key (\<lambda>p. p\<lparr>vp_online := Some info\<rparr>)) sv
                   in case rw_get (sv_networks sv) n of
                        None \<Rightarrow> (sv, Ok ())
                      | Some nw \<Rightarrow>
                          (broadcast (PeerEnterTC \<lparr>be_pub_key = pub_key, be_ip = en_ip data,
                              be_endpoint_addr = en_endpoint_addr data, be_port = en_port data,
                              be_last_con_type = None, be_mode = mode_to_i32 Bidirectional, be_is_online = True\<rparr>)
                             pub_key nw sv, Ok ()))"

definition peer_forward_exec ::
    "'d db \<Rightarrow> 'n net4 \<Rightarrow> request_ctx \<Rightarrow> peer_forward \<Rightarrow> ('n, 'd) server \<Rightarrow>
     ('n, 'd) server \<times> (execute_error, unit) result" where
  "peer_forward_exec lib nl ctx data sv =
     with_network lib nl ctx sv (\<lambda>nw sv.
       case pf_data data of
         None \<Rightarrow> (sv, Ok ())
       | Some r \<Rightarrow> (broadcast_to (RequireReplyTC r) [pf_target_pub_key data] nw sv, Ok ()))"

definition peer_leave_exec ::
    "'d db \<Rightarrow> 'n net4 \<Rightarrow> request_ctx \<Rightarrow> ('n, 'd) server \<Rightarrow> ('n, 'd) server \<times> (execute_error, unit) result" where
  "peer_leave_exec lib nl ctx sv =
     with_network lib nl ctx sv (\<lambda>nw sv.
       (network_offline (id_network (rx_client_id ctx)) (id_pub_key (rx_client_id ctx)) sv, Ok ()))"

definition extra_endpoint_exec ::
    "'d db \<Rightarrow> 'n net4 \<Rightarrow> request_ctx \<Rightarrow> extra_endpoint \<Rightarrow> ('n, 'd) server \<Rightarrow>
     ('n, 'd) server \<times> (execute_error, unit) result" where
  "extra_endpoint_exec lib nl ctx data sv =
     with_network lib nl ctx sv (\<lambda>nw sv.
       let pub_key = id_pub_key (rx_client_id ctx); n = id_network (rx_client_id ctx) in
       case rw_get (nw_peers nw) pub_key of
         None \<Rightarrow> (sv, Err PeerNotFound)
       | Some self \<Rightarrow>
           let sv = on_peers n (rw_modify pub_key (\<lambda>p. p\<lparr>vp_online :=
                 map_option (\<lambda>e. e\<lparr>on_extra_endpoints := rw_insert (ee_proto data) (ee_endpoint data) (on_extra_endpoints e)\<rparr>)
                   (vp_online p)\<rparr>)) sv;
               is_default = (pm_default_proto (vp_model self) = Some (ee_proto data));
               broad_to = map fst (filter (\<lambda>(k, p). k \<noteq> pub_key \<and> is_online p \<and>
                 rw_get (nw_connects nw) (fst (union_pub_key pub_key k)) = None \<and> is_default) (nw_peers nw))
           in (broadcast_to (UpdateExtraEndpointTC \<lparr>bu_pub_key = vp_pub_key self, bu_proto = ee_proto data,
                 bu_endpoint = ee_endpoint data\<rparr>) broad_to nw sv, Ok ()))"

section \<open>Configuration (handler/req_config.rs)\<close>

definition ipv4_text :: "u32 \<Rightarrow> string" where
  "ipv4_text ip = ipv4_to_string (to_be_bytes 4 ip)"

definition ipv4_from_str :: "string \<Rightarrow> u32 option" where
  "ipv4_from_str s =
     (if length s > 15 then None
      else case read_ipv4 s of Some (b, rest) \<Rightarrow> if rest = [] then Some (from_be_bytes b) else None | None \<Rightarrow> None)"

definition peer_ips :: "(string, vlink_peer) rw_map \<Rightarrow> string list" where
  "peer_ips peers = concat (map (\<lambda>(k, p). case pm_ip (vp_model p) of Some ip \<Rightarrow> [ip] | None \<Rightarrow> []) peers)"

definition generate_ip :: "'n net4 \<Rightarrow> 'n \<Rightarrow> (string, vlink_peer) rw_map \<Rightarrow> (anyhow, u32) result" where
  "generate_ip nl cidr peers =
     ok_or NoIpLeft (List.find (\<lambda>ip. \<forall>p \<in> set (peer_ips peers). p \<noteq> ipv4_text ip) (drop 2 (net4_hosts nl cidr)))"

definition config_peers :: "(string, vlink_peer) rw_map \<Rightarrow> bc_peer_enter list" where
  "config_peers peers =
     concat (map (\<lambda>(k, p). case pm_ip (vp_model p) of
         None \<Rightarrow> []
       | Some ip \<Rightarrow>
           [\<lparr>be_pub_key = k, be_ip = ip,
             be_endpoint_addr = (case vp_online p of Some e \<Rightarrow> on_endpoint_addr e | None \<Rightarrow> None),
             be_port = (case vp_online p of Some e \<Rightarrow> on_port e | None \<Rightarrow> 0),
             be_last_con_type = None, be_mode = 3, be_is_online = is_online p\<rparr>]) peers)"

definition extra_endpoints_map :: "(string, vlink_peer) rw_map \<Rightarrow> (string, string \<times> string) rw_map" where
  "extra_endpoints_map peers =
     fold (\<lambda>(k, v) m. case vp_online v of
         None \<Rightarrow> m
       | Some e \<Rightarrow> fold (\<lambda>(proto, en) m. rw_insert k (proto, en) m) (on_extra_endpoints e) m) peers rw_new"

text \<open>The address: a new one is chosen from the peers as they are now, and is stored in the database and in
  the network later, after the database has answered.\<close>

definition plan_ip :: "'n net4 \<Rightarrow> 'n vlink_network \<Rightarrow> vlink_peer \<Rightarrow> (execute_error, u32 \<times> bool) result" where
  "plan_ip nl nw self =
     (case pm_ip (vp_model self) of
        None \<Rightarrow> rbind (map_err AnyhowError (generate_ip nl (nw_cidr nw) (nw_peers nw))) (\<lambda>ip. Ok (ip, True))
      | Some e \<Rightarrow> rbind (ok_or ParseError (ipv4_from_str e)) (\<lambda>ip. Ok (ip, False)))"

definition store_ip ::
    "'d db \<Rightarrow> int \<Rightarrow> vlink_peer \<Rightarrow> u32 \<Rightarrow> ('n, 'd) server \<Rightarrow> ('n, 'd) server \<times> (execute_error, unit) result" where
  "store_ip lib n self ip sv =
     (case update_peer_ip lib (sv_db sv) (pm_id (vp_model self)) (ipv4_text ip) of
        Ok d \<Rightarrow>
          (on_peers n (refresh_model ((vp_model self)\<lparr>pm_ip := Some (ipv4_text ip)\<rparr>)) (sv\<lparr>sv_db := d\<rparr>), Ok ())
      | Err e \<Rightarrow> (sv, Err (DbError e))
      | Panic \<Rightarrow> (sv, Panic))"

definition config_answer ::
    "'d db \<Rightarrow> 'n net4 \<Rightarrow> request_ctx \<Rightarrow> vlink_peer \<Rightarrow> bc_peer_enter list \<Rightarrow> u32 \<Rightarrow> ('n, 'd) server \<Rightarrow>
     ('n, 'd) server \<times> (execute_error, unit) result" where
  "config_answer lib nl ctx self peers addr sv =
     (case (find_transports lib (sv_db sv) (pm_id (vp_model self)), rw_get (sv_networks sv) (id_network (rx_client_id ctx))) of
        (Ok transports, Some nw) \<Rightarrow>
          send_resp ctx (RespConfig
            \<lparr>rc_network_id = nw_id nw, rc_address = addr, rc_mask = ucast (net4_mask nl (nw_cidr nw)),
             rc_network = net4_address nl (nw_cidr nw),
             rc_port = (case pm_port (vp_model self) of Some p \<Rightarrow> of_int p | None \<Rightarrow> 0), rc_ipv6_addr = None,
             rc_peers = peers,
             rc_extra_transports = map (\<lambda>m. \<lparr>et_proto = tm_proto m, et_params = tm_params m\<rparr>) transports,
             rc_peer_extra_transports =
               map (\<lambda>(k, proto, en). \<lparr>px_target_pub_key = k, px_proto = proto, px_endpoint = en, px_index = 0\<rparr>)
                 (extra_endpoints_map (nw_peers nw))\<rparr>) sv
      | (Err e, _) \<Rightarrow> (sv, Err (DbError e))
      | _ \<Rightarrow> (sv, Panic))"

definition req_config_exec ::
    "'d db \<Rightarrow> 'n net4 \<Rightarrow> request_ctx \<Rightarrow> ('n, 'd) server \<Rightarrow> ('n, 'd) server \<times> (execute_error, unit) result" where
  "req_config_exec lib nl ctx sv =
     with_network lib nl ctx sv (\<lambda>nw sv.
       case rw_get (nw_peers nw) (id_pub_key (rx_client_id ctx)) of
         None \<Rightarrow> (sv, Err PeerNotFound)
       | Some self \<Rightarrow>
           let peers = config_peers (nw_peers nw) in
           case plan_ip nl nw self of
             Ok (ip, fresh) \<Rightarrow>
               (case (if fresh then store_ip lib (id_network (rx_client_id ctx)) self ip sv else (sv, Ok ())) of
                  (sv, Ok _) \<Rightarrow> config_answer lib nl ctx self peers ip sv
                | (sv, Err e) \<Rightarrow> (sv, Err e)
                | (sv, Panic) \<Rightarrow> (sv, Panic))
           | Err e \<Rightarrow> (sv, Err e)
           | Panic \<Rightarrow> (sv, Panic))"

section \<open>Dispatch and the life of a connection (dispatcher.rs, client.rs, main.rs)\<close>

definition dispatch ::
    "'d db \<Rightarrow> 'n net4 \<Rightarrow> request_ctx \<Rightarrow> to_server_data \<Rightarrow> ('n, 'd) server \<Rightarrow>
     ('n, 'd) server \<times> (execute_error, unit) result" where
  "dispatch lib nl ctx data sv =
     (case data of
        PeerEnter d \<Rightarrow> peer_enter_exec lib nl ctx d sv
      | PeerLeave \<Rightarrow> peer_leave_exec lib nl ctx sv
      | PeerForward d \<Rightarrow> peer_forward_exec lib nl ctx d sv
      | ReqConfig \<Rightarrow> req_config_exec lib nl ctx sv
      | UpdateExtraEndpoint d \<Rightarrow> extra_endpoint_exec lib nl ctx d sv
      | DevHandshakeComplete d \<Rightarrow> dev_handshake_complete_exec lib nl ctx d sv
      | _ \<Rightarrow> (sv, Err (StrMessage ''Dispatcher::dispatch: unknown data type'')))"

text \<open>One request of the loop in \<open>process_client\<close>; \<open>Ok\<close> goes on, an error ends the connection.\<close>

definition process_request ::
    "'d db \<Rightarrow> 'n net4 \<Rightarrow> client_id \<Rightarrow> client_connect \<Rightarrow> to_server \<Rightarrow> ('n, 'd) server \<Rightarrow>
     ('n, 'd) server \<times> (anyhow, unit) result" where
  "process_request lib nl cid c msg sv =
     (case ts_data msg of
        None \<Rightarrow> (sv, Ok ())
      | Some data \<Rightarrow>
          (case dispatch lib nl \<lparr>rx_id = ts_id msg, rx_client_id = cid, rx_client = c\<rparr> data sv of
             (sv, Ok _) \<Rightarrow> (sv, Ok ())
           | (sv, Err e) \<Rightarrow> client_send c (Some (ts_id msg)) (ErrorTC (error_code e) (HandlerText e)) sv
           | (sv, Panic) \<Rightarrow> (sv, Panic)))"

text \<open>Login and the network of the context, as \<open>process_client\<close> begins.\<close>

definition process_login ::
    "'d db \<Rightarrow> 'n net4 \<Rightarrow> client_connect \<Rightarrow> first_msg \<Rightarrow> ('n, 'd) server \<Rightarrow>
     ('n, 'd) server \<times> (anyhow, client_id) result" where
  "process_login lib nl c first sv =
     (case srv_await_handshake lib nl c first sv of
        (sv, Ok cid) \<Rightarrow>
          (case get_network lib nl (id_network cid) sv of
             (sv, Ok nw) \<Rightarrow> (sv, Ok cid)
           | (sv, Err e) \<Rightarrow> (sv, Err e)
           | (sv, Panic) \<Rightarrow> (sv, Panic))
      | (sv, Err e) \<Rightarrow> (sv, Err e)
      | (sv, Panic) \<Rightarrow> (sv, Panic))"

definition client_accept :: "string \<Rightarrow> nat \<Rightarrow> ('n, 'd) server \<Rightarrow> ('n, 'd) server" where
  "client_accept addr i sv =
     insert_client \<lparr>co_addr = addr, co_id = i\<rparr> (sv\<lparr>sv_open := i # sv_open sv\<rparr>)"

definition client_end ::
    "'d db \<Rightarrow> 'n net4 \<Rightarrow> client_connect \<Rightarrow> ('n, 'd) server \<Rightarrow> ('n, 'd) server" where
  "client_end lib nl c sv =
     (let sv = sv\<lparr>sv_open := filter (\<lambda>i. i \<noteq> co_id c) (sv_open sv)\<rparr>;
          (sv, cli) = remove_client (co_addr c) sv
      in case cli of
           None \<Rightarrow> sv
         | Some c' \<Rightarrow>
             (case rw_get (sv_ids sv) (co_id c') of
                None \<Rightarrow> sv
              | Some cid \<Rightarrow>
                  (case get_network lib nl (id_network cid) sv of
                     (sv, Ok nw) \<Rightarrow> network_offline (id_network cid) (id_pub_key cid) sv
                   | (sv, _) \<Rightarrow> sv)))"

definition server_new :: "string \<Rightarrow> 'd \<Rightarrow> ('n, 'd) server" where
  "server_new key d =
     \<lparr>sv_clients = rw_new, sv_networks = rw_new, sv_version = ''1.0.0'', sv_key = key, sv_db = d, sv_ids = rw_new,
      sv_open = [], sv_out = []\<rparr>"

end
