(* ===== verification/Headlink_Steps.thy ===== *)
theory Headlink_Steps
  imports Headlink
begin

text \<open>
  The coordination server in operation: the tasks of its connections as a step relation over the
  operations of \<open>Headlink\<close>, what each operation keeps, and the invariants of reachable servers.
\<close>

section \<open>What an operation leaves alone\<close>

definition online_at :: "('n, 'd) server \<Rightarrow> int \<Rightarrow> string \<Rightarrow> client_connect \<Rightarrow> bool" where
  "online_at sv n k c \<longleftrightarrow>
     (\<exists>nw p e. rw_get (sv_networks sv) n = Some nw \<and> rw_get (nw_peers nw) k = Some p \<and>
        vp_online p = Some e \<and> on_connect e = c)"

definition same_conns :: "('n, 'd) server \<Rightarrow> ('n, 'd) server \<Rightarrow> bool" where
  "same_conns sv sv' \<longleftrightarrow> sv_clients sv' = sv_clients sv \<and> sv_open sv' = sv_open sv"

text \<open>Nothing of the connections changes, no peer comes online.\<close>

definition quiet :: "('n, 'd) server \<Rightarrow> ('n, 'd) server \<Rightarrow> bool" where
  "quiet sv sv' \<longleftrightarrow> same_conns sv sv' \<and> sv_ids sv' = sv_ids sv \<and>
     (\<forall>n k c. online_at sv' n k c \<longrightarrow> online_at sv n k c)"

lemma quiet_refl [simp, intro]: "quiet sv sv"
  by (simp add: quiet_def same_conns_def)

lemma quiet_trans [trans]: "quiet a b \<Longrightarrow> quiet b c \<Longrightarrow> quiet a c"
  by (simp add: quiet_def same_conns_def)

lemma quiet_networks:
  assumes "sv_clients sv' = sv_clients sv" "sv_open sv' = sv_open sv" "sv_ids sv' = sv_ids sv"
    "sv_networks sv' = sv_networks sv"
  shows "quiet sv sv'"
  using assms by (simp add: quiet_def same_conns_def online_at_def)

lemma out_same: "\<exists>out. sv = sv\<lparr>sv_out := out\<rparr>"
  by (rule exI [of _ "sv_out sv"]) simp

lemma client_send_out: "\<exists>out. fst (client_send c i data sv) = sv\<lparr>sv_out := out\<rparr>"
  using out_same [of sv] by (auto simp: client_send_def)

lemma broadcast_by_out: "\<exists>out. broadcast_by data P nw sv = sv\<lparr>sv_out := out\<rparr>"
proof -
  have "\<exists>out. fold (\<lambda>(k, p) sv. if \<not> P k then sv
      else case vp_online p of None \<Rightarrow> sv | Some s \<Rightarrow> fst (client_send (on_connect s) None data sv)) ps sv =
      sv\<lparr>sv_out := out\<rparr>" for ps :: "(string, vlink_peer) rw_map"
  proof (induction ps arbitrary: sv)
    case Nil
    then show ?case using out_same [of sv] by simp
  next
    case (Cons a ps)
    let ?f = "\<lambda>(k, p) sv. if \<not> P k then sv
      else case vp_online p of None \<Rightarrow> sv | Some s \<Rightarrow> fst (client_send (on_connect s) None data sv)"
    obtain o1 where o1: "?f a sv = sv\<lparr>sv_out := o1\<rparr>"
    proof (cases "P (fst a) \<and> vp_online (snd a) \<noteq> None")
      case True
      then show ?thesis using that client_send_out [of "on_connect (the (vp_online (snd a)))" None data sv]
        by (auto simp: split_beta)
    next
      case False
      then show ?thesis using that [of "sv_out sv"] by (auto simp: split_beta split: option.splits)
    qed
    obtain o2 where "fold ?f ps (sv\<lparr>sv_out := o1\<rparr>) = sv\<lparr>sv_out := o1\<rparr>\<lparr>sv_out := o2\<rparr>"
      using Cons.IH [of "sv\<lparr>sv_out := o1\<rparr>"] by blast
    then show ?case using o1 by auto
  qed
  then show ?thesis by (simp add: broadcast_by_def)
qed

lemma broadcast_fields [simp]:
  "sv_networks (broadcast_by data P nw sv) = sv_networks sv" "sv_ids (broadcast_by data P nw sv) = sv_ids sv"
  "sv_clients (broadcast_by data P nw sv) = sv_clients sv" "sv_open (broadcast_by data P nw sv) = sv_open sv"
  "sv_db (broadcast_by data P nw sv) = sv_db sv"
  using broadcast_by_out [of data P nw sv] by auto

lemma client_send_fields [simp]:
  "sv_networks (fst (client_send c i data sv)) = sv_networks sv" "sv_ids (fst (client_send c i data sv)) = sv_ids sv"
  "sv_clients (fst (client_send c i data sv)) = sv_clients sv" "sv_open (fst (client_send c i data sv)) = sv_open sv"
  "sv_db (fst (client_send c i data sv)) = sv_db sv"
  using client_send_out [of c i data sv] by auto

lemma client_send_not_Panic [simp]: "snd (client_send c i data sv) \<noteq> Panic"
  by (simp add: client_send_def)

lemma quiet_client_send: "quiet sv (fst (client_send c i data sv))"
  by (rule quiet_networks) simp_all

lemma quiet_broadcast: "quiet sv (broadcast_by data P nw sv)" "quiet sv (broadcast data k nw sv)"
  "quiet sv (broadcast_to data ks nw sv)"
  by (rule quiet_networks; simp add: broadcast_def broadcast_to_def)+

lemma online_at_on_network:
  "online_at (on_network m f sv) n k c \<longleftrightarrow>
     (if n = m then \<exists>nw p e. rw_get (sv_networks sv) n = Some nw \<and> rw_get (nw_peers (f nw)) k = Some p \<and>
        vp_online p = Some e \<and> on_connect e = c else online_at sv n k c)"
  by (auto simp: online_at_def on_network_def)

lemma on_network_fields [simp]:
  "sv_clients (on_network n f sv) = sv_clients sv" "sv_open (on_network n f sv) = sv_open sv"
  "sv_ids (on_network n f sv) = sv_ids sv" "sv_db (on_network n f sv) = sv_db sv" "sv_out (on_network n f sv) = sv_out sv"
  by (simp_all add: on_network_def)

text \<open>An update of one peer that keeps its connection is quiet.\<close>

lemma quiet_modify_peer:
  assumes "\<And>p e. vp_online (f p) = Some e \<Longrightarrow> \<exists>e'. vp_online p = Some e' \<and> on_connect e' = on_connect e"
  shows "quiet sv (on_peers n (rw_modify k f) sv)"
proof -
  have "online_at sv m j c" if "online_at (on_peers n (rw_modify k f) sv) m j c" for m j c
    using that assms unfolding on_peers_def online_at_on_network
    by (cases "m = n"; cases "j = k") (fastforce simp: online_at_def)+
  then show ?thesis by (simp add: quiet_def same_conns_def on_peers_def)
qed

lemma load_network_offline:
  assumes "load_network lib nl n d = Ok nw" "rw_get (nw_peers nw) k = Some p"
  shows "vp_online p = None"
proof -
  obtain ms where "nw_peers nw = peers_new (map peer_from_model ms)"
    using assms(1) by (auto simp: load_network_def result_simps)
  then have "(k, p) \<in> set (rw_from (map (\<lambda>p. (pm_pub_key (vp_model p), p)) (map peer_from_model ms)))"
    using rw_get_in [OF assms(2)] by (simp add: peers_new_def)
  from rw_from_set [OF this] show ?thesis by (auto simp: peer_from_model_def)
qed

lemma get_network_cases:
  obtains (known) nw where "rw_get (sv_networks sv) n = Some nw" "get_network lib nl n sv = (sv, Ok nw)"
  | (loaded) nw where "rw_get (sv_networks sv) n = None" "load_network lib nl n (sv_db sv) = Ok nw"
      "get_network lib nl n sv = (sv\<lparr>sv_networks := rw_insert n nw (sv_networks sv)\<rparr>, Ok nw)"
  | (failed) e where "rw_get (sv_networks sv) n = None" "get_network lib nl n sv = (sv, Err e)"
  | (panic) "rw_get (sv_networks sv) n = None" "load_network lib nl n (sv_db sv) = Panic"
      "get_network lib nl n sv = (sv, Panic)"
  by (cases "rw_get (sv_networks sv) n"; cases "load_network lib nl n (sv_db sv)")
    (auto simp: get_network_def intro: that)

lemma get_network_Ok:
  assumes "get_network lib nl n sv = (sv', Ok nw)"
  shows "rw_get (sv_networks sv') n = Some nw"
  using assms by (cases rule: get_network_cases [of sv n lib nl]) (auto simp: rw.get_insert)

lemma quiet_get_network: "quiet sv (fst (get_network lib nl n sv))"
proof (cases rule: get_network_cases [of sv n lib nl])
  case (loaded nw)
  have "online_at sv m k c" if on: "online_at (sv\<lparr>sv_networks := rw_insert n nw (sv_networks sv)\<rparr>) m k c" for m k c
  proof (cases "m = n")
    case True
    then show ?thesis using on load_network_offline [OF loaded(2)] by (auto simp: online_at_def rw.get_insert)
  next
    case False
    then show ?thesis using on by (simp add: online_at_def rw.get_insert)
  qed
  then show ?thesis using loaded by (simp add: quiet_def same_conns_def)
qed simp_all

lemma network_offline_effect:
  "quiet sv (network_offline n k sv)" "\<not> online_at (network_offline n k sv) n k c"
proof -
  have q: "quiet sv (on_peers n (peers_offline k) sv)"
    unfolding peers_offline_def by (rule quiet_modify_peer) simp
  have off: "\<not> online_at (on_peers n (peers_offline k) sv) n k c"
    by (auto simp: on_peers_def online_at_on_network peers_offline_def)
  have "quiet (on_peers n (peers_offline k) sv) (network_offline n k sv)"
    by (auto simp: network_offline_def Let_def quiet_broadcast split: option.split)
  then show "quiet sv (network_offline n k sv)" "\<not> online_at (network_offline n k sv) n k c"
    using q off quiet_trans [OF q] by (auto simp: quiet_def)
qed

section \<open>Requests\<close>

text \<open>At most the requester comes online, over its own connection.\<close>

definition enters :: "client_id \<Rightarrow> client_connect \<Rightarrow> ('n, 'd) server \<Rightarrow> ('n, 'd) server \<Rightarrow> bool" where
  "enters cid c sv sv' \<longleftrightarrow> same_conns sv sv' \<and> sv_ids sv' = sv_ids sv \<and>
     (\<forall>n k d. online_at sv' n k d \<longrightarrow>
        online_at sv n k d \<or> (n = id_network cid \<and> k = id_pub_key cid \<and> d = c))"

lemma quiet_enters: "quiet sv sv' \<Longrightarrow> enters cid c sv sv'"
  by (simp add: quiet_def enters_def)

lemma enters_trans: "enters cid c a b \<Longrightarrow> enters cid c b d \<Longrightarrow> enters cid c a d"
  unfolding enters_def same_conns_def by metis

lemma with_network_enters:
  assumes "\<And>nw sv'. rw_get (sv_networks sv') (id_network (rx_client_id ctx)) = Some nw \<Longrightarrow> enters cid c sv' (fst (f nw sv'))"
  shows "enters cid c sv (fst (with_network lib nl ctx sv f))"
proof -
  have q: "enters cid c sv (fst (get_network lib nl (id_network (rx_client_id ctx)) sv))"
    by (rule quiet_enters [OF quiet_get_network])
  obtain sv1 r where g: "get_network lib nl (id_network (rx_client_id ctx)) sv = (sv1, r)"
    by (cases "get_network lib nl (id_network (rx_client_id ctx)) sv")
  show ?thesis
  proof (cases r)
    case (Ok nw)
    then show ?thesis
      using enters_trans [OF q, of "fst (f nw sv1)"] assms [OF get_network_Ok [OF g [unfolded Ok]]] g
      by (simp add: with_network_def)
  qed (use q g in \<open>simp_all add: with_network_def\<close>)
qed

lemma with_network_quiet:
  assumes "\<And>nw sv'. quiet sv' (fst (f nw sv'))"
  shows "quiet sv (fst (with_network lib nl ctx sv f))"
proof -
  obtain sv1 r where g: "get_network lib nl (id_network (rx_client_id ctx)) sv = (sv1, r)"
    by (cases "get_network lib nl (id_network (rx_client_id ctx)) sv")
  have q: "quiet sv sv1" using quiet_get_network [of sv lib nl "id_network (rx_client_id ctx)"] g by simp
  show ?thesis
    using quiet_trans [OF q] assms g q by (cases r) (simp_all add: with_network_def)
qed

lemma quiet_refresh: "quiet sv (on_peers n (refresh_model m) sv)"
  unfolding refresh_model_def by (rule quiet_modify_peer) simp

lemma quiet_store_ip: "quiet sv (fst (store_ip lib n self ip sv))"
proof (cases "update_peer_ip lib (sv_db sv) (pm_id (vp_model self)) (ipv4_text ip)")
  case (Ok d)
  have "quiet sv (sv\<lparr>sv_db := d\<rparr>)" by (rule quiet_networks) simp_all
  then show ?thesis using Ok quiet_trans [OF _ quiet_refresh] by (simp add: store_ip_def)
qed (simp_all add: store_ip_def)

lemma quiet_send_resp: "quiet sv (fst (send_resp ctx m sv))"
  using quiet_client_send by (simp add: send_resp_def split_beta Let_def)

lemma quiet_config_answer: "quiet sv (fst (config_answer lib nl ctx self peers ip sv))"
  by (auto simp: config_answer_def quiet_send_resp split: result.split option.split)

lemma quiet_req_config: "quiet sv (fst (req_config_exec lib nl ctx sv))"
  unfolding req_config_exec_def
proof (rule with_network_quiet)
  fix nw and sv' :: "('a, 'b) server"
  let ?n = "id_network (rx_client_id ctx)"
  have "quiet sv' (fst (case (if fresh then store_ip lib ?n self ip sv' else (sv', Ok ())) of
      (sv, Ok _) \<Rightarrow> config_answer lib nl ctx self peers ip sv | (sv, Err e) \<Rightarrow> (sv, Err e) | (sv, Panic) \<Rightarrow> (sv, Panic)))"
    for fresh self ip peers
  proof -
    obtain sv1 r where st: "(if fresh then store_ip lib ?n self ip sv' else (sv', Ok ())) = (sv1, r)"
      by (cases "if fresh then store_ip lib ?n self ip sv' else (sv', Ok ())")
    have q: "quiet sv' sv1" using quiet_store_ip [of sv' lib ?n self ip] st by (auto split: if_splits)
    show ?thesis using quiet_trans [OF q quiet_config_answer] q unfolding st by (cases r) auto
  qed
  then show "quiet sv' (fst (case rw_get (nw_peers nw) (id_pub_key (rx_client_id ctx)) of
      None \<Rightarrow> (sv', Err PeerNotFound)
    | Some self \<Rightarrow> let peers = config_peers (nw_peers nw) in
        case plan_ip nl nw self of
          Ok (ip, fresh) \<Rightarrow>
            (case (if fresh then store_ip lib ?n self ip sv' else (sv', Ok ())) of
               (sv, Ok _) \<Rightarrow> config_answer lib nl ctx self peers ip sv
             | (sv, Err e) \<Rightarrow> (sv, Err e) | (sv, Panic) \<Rightarrow> (sv, Panic))
        | Err e \<Rightarrow> (sv', Err e) | Panic \<Rightarrow> (sv', Panic)))"
    by (auto simp: Let_def split: option.split result.split)
qed

lemma peer_enter_enters: "enters (rx_client_id ctx) (rx_client ctx) sv (fst (peer_enter_exec lib nl ctx data sv))"
  unfolding peer_enter_exec_def
proof (rule with_network_enters, goal_cases)
  case (1 nw sv')
  let ?n = "id_network (rx_client_id ctx)" and ?k = "id_pub_key (rx_client_id ctx)"
  let ?info = "\<lparr>on_connect = rx_client ctx, on_port = en_port data, on_endpoint_addr = en_endpoint_addr data,
      on_extra_endpoints = rw_from (map (\<lambda>x. (ee_proto x, ee_endpoint x)) (en_extra_endpoints data))\<rparr>"
  let ?sv = "on_peers ?n (rw_modify ?k (\<lambda>p. p\<lparr>vp_online := Some ?info\<rparr>)) sv'"
  have "enters (rx_client_id ctx) (rx_client ctx) sv' ?sv"
  proof -
    have "online_at sv' m j d \<or> (m = ?n \<and> j = ?k \<and> d = rx_client ctx)" if "online_at ?sv m j d" for m j d
      using that unfolding on_peers_def online_at_on_network
      by (cases "m = ?n"; cases "j = ?k") (auto simp: online_at_def)
    then show ?thesis by (simp add: enters_def same_conns_def on_peers_def)
  qed
  then have "enters (rx_client_id ctx) (rx_client ctx) sv' (broadcast m ?k nw' ?sv)" for m nw'
    by (rule enters_trans) (rule quiet_enters [OF quiet_broadcast(2)])
  then show ?case
    using \<open>enters (rx_client_id ctx) (rx_client ctx) sv' ?sv\<close>
    by (auto simp: Let_def quiet_enters split: option.split)
qed

lemma dispatch_enters: "enters (rx_client_id ctx) (rx_client ctx) sv (fst (dispatch lib nl ctx data sv))"
proof (cases data)
  case (PeerEnter d)
  then show ?thesis using peer_enter_enters by (simp add: dispatch_def)
next
  case PeerLeave
  have "quiet sv (fst (peer_leave_exec lib nl ctx sv))"
    unfolding peer_leave_exec_def by (rule with_network_quiet) (simp add: network_offline_effect)
  then show ?thesis using PeerLeave by (simp add: dispatch_def quiet_enters)
next
  case (PeerForward d)
  have "quiet sv (fst (peer_forward_exec lib nl ctx d sv))"
    unfolding peer_forward_exec_def by (rule with_network_quiet) (auto simp: quiet_broadcast split: option.split)
  then show ?thesis using PeerForward by (simp add: dispatch_def quiet_enters)
next
  case ReqConfig
  then show ?thesis using quiet_enters [OF quiet_req_config] by (simp add: dispatch_def)
next
  case (UpdateExtraEndpoint d)
  have "quiet sv (fst (extra_endpoint_exec lib nl ctx d sv))"
    unfolding extra_endpoint_exec_def
    by (rule with_network_quiet)
      (auto simp: Let_def split: option.split intro!: quiet_trans [OF quiet_modify_peer quiet_broadcast(3)])
  then show ?thesis using UpdateExtraEndpoint by (simp add: dispatch_def quiet_enters)
next
  case (DevHandshakeComplete d)
  have "quiet sv' (on_network n (\<lambda>nw. nw\<lparr>nw_connects := f nw\<rparr>) sv')" for sv' :: "('a, 'b) server" and n f
  proof -
    have "online_at sv' m j c" if "online_at (on_network n (\<lambda>nw. nw\<lparr>nw_connects := f nw\<rparr>) sv') m j c" for m j c
      using that unfolding online_at_on_network by (cases "m = n") (auto simp: online_at_def)
    then show ?thesis by (simp add: quiet_def same_conns_def)
  qed
  then have "quiet sv (fst (dev_handshake_complete_exec lib nl ctx d sv))"
    unfolding dev_handshake_complete_exec_def by (intro with_network_quiet) (simp add: split_beta Let_def)
  then show ?thesis using DevHandshakeComplete by (simp add: dispatch_def quiet_enters)
qed (simp_all add: dispatch_def quiet_enters)

lemma process_request_enters: "enters cid c sv (fst (process_request lib nl cid c msg sv))"
proof (cases "ts_data msg")
  case (Some data)
  let ?ctx = "\<lparr>rx_id = ts_id msg, rx_client_id = cid, rx_client = c\<rparr>"
  obtain sv1 r where d: "dispatch lib nl ?ctx data sv = (sv1, r)" by (cases "dispatch lib nl ?ctx data sv")
  have e: "enters cid c sv sv1" using dispatch_enters [of ?ctx sv lib nl data] d by simp
  show ?thesis
    using e d Some enters_trans [OF e quiet_enters [OF quiet_client_send]]
    by (cases r) (simp_all add: process_request_def)
qed (simp add: process_request_def quiet_enters)

section \<open>Login\<close>

text \<open>A login changes nothing but the identity of its own connection, which it sets at most once.\<close>

definition logs_in :: "client_connect \<Rightarrow> ('n, 'd) server \<Rightarrow> ('n, 'd) server \<Rightarrow> bool" where
  "logs_in c sv sv' \<longleftrightarrow> same_conns sv sv' \<and>
     (\<forall>j. j \<noteq> co_id c \<longrightarrow> rw_get (sv_ids sv') j = rw_get (sv_ids sv) j) \<and>
     (\<forall>n k d. online_at sv' n k d \<longrightarrow> online_at sv n k d)"

lemma quiet_logs_in: "quiet sv sv' \<Longrightarrow> logs_in c sv sv'"
  by (simp add: quiet_def logs_in_def)

lemma logs_in_trans: "logs_in c a b \<Longrightarrow> logs_in c b d \<Longrightarrow> logs_in c a d"
  by (simp add: logs_in_def same_conns_def)

lemma quiet_login_network: "quiet sv (fst (login_network lib nl data sv))"
proof -
  have "quiet sv (fst (case get_network lib nl n sv of
      (sv, Ok nw) \<Rightarrow> (sv, Ok (nw_id nw)) | (sv, Err e) \<Rightarrow> (sv, Err e) | (sv, Panic) \<Rightarrow> (sv, Panic)))" for n
    using quiet_get_network [of sv lib nl n] by (auto split: prod.split result.split)
  then show ?thesis
    by (auto simp: login_network_def split: option.split result.split)
qed

lemma login_peer_effect:
  assumes "login_peer lib nl c cid sv = (sv', r)"
  shows "logs_in c sv sv'" "r = Ok cid' \<Longrightarrow> cid' = cid \<and> rw_get (sv_ids sv') (co_id c) = Some cid"
proof -
  let ?sv = "sv\<lparr>sv_ids := rw_insert (co_id c) cid (sv_ids sv)\<rparr>"
  have q: "quiet ?sv (fst (get_network lib nl (id_network cid) ?sv))" by (rule quiet_get_network)
  have set: "logs_in c sv ?sv"
    by (simp add: logs_in_def same_conns_def online_at_def rw.get_insert)
  consider "sv' = sv" "\<nexists>x. r = Ok x"
    | "sv' = fst (get_network lib nl (id_network cid) ?sv)" "\<forall>x. r = Ok x \<longrightarrow> x = cid"
    using assms
    by (auto simp: login_peer_def set_client_id_def split: option.splits result.splits prod.splits if_splits)
  then have "logs_in c sv sv' \<and> (r = Ok cid' \<longrightarrow> cid' = cid \<and> rw_get (sv_ids sv') (co_id c) = Some cid)"
  proof cases
    case 1
    then show ?thesis by (simp add: quiet_logs_in)
  next
    case 2
    then show ?thesis
      using logs_in_trans [OF set quiet_logs_in [OF q]] q by (auto simp: quiet_def rw.get_insert)
  qed
  then show "logs_in c sv sv'" "r = Ok cid' \<Longrightarrow> cid' = cid \<and> rw_get (sv_ids sv') (co_id c) = Some cid" by blast+
qed

lemma handshake0_effect:
  assumes "handshake0 lib nl c msg sv = (sv', r)"
  shows "logs_in c sv sv' \<and> (\<forall>cid. r = Ok cid \<longrightarrow> rw_get (sv_ids sv') (co_id c) = Some cid)"
proof (cases "\<exists>data. ts_data msg = Some (Handshake data)")
  case True
  then obtain data where d: "ts_data msg = Some (Handshake data)" by blast
  obtain sv1 r1 where l: "login_network lib nl data sv = (sv1, r1)" by (cases "login_network lib nl data sv")
  have q: "logs_in c sv sv1" using quiet_login_network [of sv lib nl data] l by (simp add: quiet_logs_in)
  show ?thesis
  proof (cases r1)
    case (Ok n)
    then have p: "login_peer lib nl c \<lparr>id_pub_key = rh_pub_key data, id_network = n\<rparr> sv1 = (sv', r)"
      using assms d l by (simp add: handshake0_def)
    show ?thesis using logs_in_trans [OF q login_peer_effect(1) [OF p]] login_peer_effect(2) [OF p] by blast
  qed (use assms d l q in \<open>auto simp: handshake0_def\<close>)
next
  case False
  then have "sv' = sv \<and> r = Err HandshakeDataError"
    using assms by (auto simp: handshake0_def split: option.splits to_server_data.splits)
  then show ?thesis by (simp add: quiet_logs_in)
qed

lemma await_handshake_effect:
  assumes "srv_await_handshake lib nl c first sv = (sv', r)"
  shows "logs_in c sv sv' \<and> (\<forall>cid. r = Ok cid \<longrightarrow> rw_get (sv_ids sv') (co_id c) = Some cid)"
proof -
  let ?hello = "client_send c None (RespServerInfo \<lparr>si_version = sv_version sv, si_key = sv_key sv, si_desc = None\<rparr>) sv"
  have q: "logs_in c sv (fst ?hello)" by (rule quiet_logs_in [OF quiet_client_send])
  show ?thesis
  proof (cases "\<exists>msg. first = FirstMsg msg \<and> snd ?hello = Ok ()")
    case False
    then have "sv' = fst ?hello \<and> (\<nexists>x. r = Ok x)"
      using assms by (auto simp: srv_await_handshake_def split: prod.splits result.splits first_msg.splits)
    then show ?thesis using q by auto
  next
    case True
    then obtain msg where m: "first = FirstMsg msg" "snd ?hello = Ok ()" by blast
    obtain sv2 r2 where h: "handshake0 lib nl c msg (fst ?hello) = (sv2, r2)"
      by (cases "handshake0 lib nl c msg (fst ?hello)")
    let ?reply = "client_send c (Some (ts_id msg)) (RespHandshake (case r2 of Ok _ \<Rightarrow> True | _ \<Rightarrow> False)
        (case r2 of Err e \<Rightarrow> Some (LoginText e) | _ \<Rightarrow> None)) sv2"
    have e: "logs_in c sv sv2" "\<forall>cid. r2 = Ok cid \<longrightarrow> rw_get (sv_ids sv2) (co_id c) = Some cid"
      using handshake0_effect [OF h] logs_in_trans [OF q] by blast+
    have s: "sv' = sv2 \<or> sv' = fst ?reply" "\<forall>x. r = Ok x \<longrightarrow> r2 = Ok x"
      using assms m h
      by (auto simp: srv_await_handshake_def split_beta split: prod.splits result.splits)
    have "logs_in c sv2 (fst ?reply)" by (rule quiet_logs_in [OF quiet_client_send])
    then show ?thesis using s e logs_in_trans [OF e(1)] by auto
  qed
qed

lemma process_login_effect:
  assumes "process_login lib nl c first sv = (sv', r)"
  shows "logs_in c sv sv' \<and> (\<forall>cid. r = Ok cid \<longrightarrow> rw_get (sv_ids sv') (co_id c) = Some cid)"
proof -
  obtain sv1 r1 where a: "srv_await_handshake lib nl c first sv = (sv1, r1)"
    by (cases "srv_await_handshake lib nl c first sv")
  note e = await_handshake_effect [OF a]
  show ?thesis
  proof (cases r1)
    case (Ok cid)
    have q: "quiet sv1 (fst (get_network lib nl (id_network cid) sv1))" by (rule quiet_get_network)
    have "sv' = fst (get_network lib nl (id_network cid) sv1)" "\<forall>x. r = Ok x \<longrightarrow> x = cid"
      using assms a Ok by (auto simp: process_login_def split: prod.splits result.splits)
    then show ?thesis using e Ok logs_in_trans [OF _ quiet_logs_in [OF q]] q by (auto simp: quiet_def)
  qed (use assms a e in \<open>auto simp: process_login_def\<close>)
qed

section \<open>No panics\<close>

text \<open>The queries of the database library return a result or an error.\<close>

definition db_safe :: "'d db \<Rightarrow> bool" where
  "db_safe lib \<longleftrightarrow>
     (\<forall>d n. find_network lib d n \<noteq> Panic) \<and> (\<forall>d n. find_network_peers lib d n \<noteq> Panic) \<and>
     (\<forall>d t. find_token lib d t \<noteq> Panic) \<and> (\<forall>d k. find_peer lib d k \<noteq> Panic) \<and>
     (\<forall>d i. find_transports lib d i \<noteq> Panic) \<and> (\<forall>d i s. update_peer_ip lib d i s \<noteq> Panic)"

lemma get_network_not_Panic: "db_safe lib \<Longrightarrow> snd (get_network lib nl n sv) \<noteq> Panic"
  by (cases rule: get_network_cases [of sv n lib nl])
    (auto simp: load_network_def db_safe_def db_result_def result_simps)

lemma login_network_not_Panic:
  assumes "db_safe lib"
  shows "snd (login_network lib nl data sv) \<noteq> Panic"
proof (cases "rh_token data")
  case None
  then show ?thesis using assms by (auto simp: login_network_def db_safe_def db_result_def result_simps)
next
  case (Some t)
  have t: "rbind (db_result (find_token lib (sv_db sv) t)) (ok_or TokenMissing) \<noteq> Panic"
    using assms by (auto simp: db_safe_def db_result_def result_simps)
  have "snd (case get_network lib nl n sv of
      (sv, Ok nw) \<Rightarrow> (sv, Ok (nw_id nw)) | (sv, Err e) \<Rightarrow> (sv, Err e) | (sv, Panic) \<Rightarrow> (sv, Panic)) \<noteq> Panic" for n
    using get_network_not_Panic [OF assms, of nl n sv] by (auto split: prod.split result.split)
  then show ?thesis using t Some
    by (cases "rbind (db_result (find_token lib (sv_db sv) t)) (ok_or TokenMissing)") (simp_all add: login_network_def)
qed

lemma login_peer_not_Panic: "db_safe lib \<Longrightarrow> snd (login_peer lib nl c cid sv) \<noteq> Panic"
  using get_network_not_Panic [of lib nl "id_network cid" "sv\<lparr>sv_ids := rw_insert (co_id c) cid (sv_ids sv)\<rparr>"]
  by (auto simp: login_peer_def set_client_id_def split: option.splits result.splits prod.splits)

lemma handshake0_not_Panic:
  assumes "db_safe lib"
  shows "snd (handshake0 lib nl c msg sv) \<noteq> Panic"
proof (cases "\<exists>data. ts_data msg = Some (Handshake data)")
  case True
  then obtain data where d: "ts_data msg = Some (Handshake data)" by blast
  obtain sv1 r1 where l: "login_network lib nl data sv = (sv1, r1)" by (cases "login_network lib nl data sv")
  show ?thesis
    using d l login_network_not_Panic [OF assms, of nl data sv] login_peer_not_Panic [OF assms]
    by (cases r1) (simp_all add: handshake0_def)
qed (auto simp: handshake0_def split: option.splits to_server_data.splits)

lemma process_login_not_Panic:
  assumes "db_safe lib"
  shows "snd (process_login lib nl c first sv) \<noteq> Panic"
proof -
  have aw: "snd (srv_await_handshake lib nl c first sv) \<noteq> Panic"
  proof (cases first)
    case (FirstMsg msg)
    obtain sv0 r0 where s: "client_send c None (RespServerInfo \<lparr>si_version = sv_version sv, si_key = sv_key sv,
        si_desc = None\<rparr>) sv = (sv0, r0)" by (rule prod.exhaust)
    obtain sv1 r1 where h: "handshake0 lib nl c msg sv0 = (sv1, r1)" by (cases "handshake0 lib nl c msg sv0")
    have "r1 \<noteq> Panic" using handshake0_not_Panic [OF assms, of nl c msg sv0] h by simp
    then show ?thesis using FirstMsg s h
      by (cases r0; cases r1) (auto simp: srv_await_handshake_def split: prod.splits result.splits)
  qed (auto simp: srv_await_handshake_def split: prod.splits result.splits)
  obtain sv1 r1 where a: "srv_await_handshake lib nl c first sv = (sv1, r1)"
    by (cases "srv_await_handshake lib nl c first sv")
  show ?thesis
  proof (cases r1)
    case (Ok cid)
    then show ?thesis using a get_network_not_Panic [OF assms, of nl "id_network cid" sv1]
      by (auto simp: process_login_def split: prod.splits result.splits)
  qed (use a aw in \<open>auto simp: process_login_def\<close>)
qed

lemma with_network_not_Panic:
  assumes "db_safe lib"
    "\<And>nw sv'. rw_get (sv_networks sv') (id_network (rx_client_id ctx)) = Some nw \<Longrightarrow> snd (f nw sv') \<noteq> Panic"
  shows "snd (with_network lib nl ctx sv f) \<noteq> Panic"
proof -
  obtain sv1 r where g: "get_network lib nl (id_network (rx_client_id ctx)) sv = (sv1, r)"
    by (cases "get_network lib nl (id_network (rx_client_id ctx)) sv")
  show ?thesis
  proof (cases r)
    case (Ok nw)
    then show ?thesis using assms(2) [OF get_network_Ok [OF g [unfolded Ok]]] g by (simp add: with_network_def)
  qed (use g get_network_not_Panic [OF assms(1), of nl "id_network (rx_client_id ctx)" sv] in
      \<open>auto simp: with_network_def\<close>)
qed

lemma config_answer_not_Panic:
  assumes "db_safe lib" "rw_get (sv_networks sv) (id_network (rx_client_id ctx)) = Some nw"
  shows "snd (config_answer lib nl ctx self peers ip sv) \<noteq> Panic"
proof -
  have "snd (send_resp ctx m sv) \<noteq> Panic" for m
    using client_send_not_Panic [of "rx_client ctx" "Some (rx_id ctx)" m sv]
    by (simp add: send_resp_def split_beta Let_def map_err_eq_Panic)
  then show ?thesis using assms by (auto simp: config_answer_def db_safe_def split: result.splits)
qed

lemma req_config_not_Panic:
  assumes "db_safe lib"
  shows "snd (req_config_exec lib nl ctx sv) \<noteq> Panic"
  unfolding req_config_exec_def
proof (rule with_network_not_Panic [OF assms], goal_cases)
  case (1 nw sv')
  let ?n = "id_network (rx_client_id ctx)"
  have st: "snd (store_ip lib ?n self ip sv') \<noteq> Panic"
    "rw_get (sv_networks (fst (store_ip lib ?n self ip sv'))) ?n \<noteq> None" for self ip
    using assms 1 by (auto simp: store_ip_def db_safe_def on_peers_def on_network_def split: result.split)
  have "snd (case (if fresh then store_ip lib ?n self ip sv' else (sv', Ok ())) of
      (sv, Ok _) \<Rightarrow> config_answer lib nl ctx self peers ip sv | (sv, Err e) \<Rightarrow> (sv, Err e) | (sv, Panic) \<Rightarrow> (sv, Panic)) \<noteq> Panic"
    for fresh self ip peers
  proof -
    obtain sv1 r where s: "(if fresh then store_ip lib ?n self ip sv' else (sv', Ok ())) = (sv1, r)"
      by (cases "if fresh then store_ip lib ?n self ip sv' else (sv', Ok ())")
    obtain nw' where nw': "r \<noteq> Panic" "rw_get (sv_networks sv1) ?n = Some nw'"
      using s st [of self ip] 1 by (auto split: if_splits)
    then show ?thesis using config_answer_not_Panic [OF assms nw'(2)] unfolding s by (cases r) auto
  qed
  moreover have "plan_ip nl nw self \<noteq> Panic" for self
    by (auto simp: plan_ip_def generate_ip_def result_simps split: option.split)
  ultimately show ?case by (auto simp: Let_def split: option.split result.split)
qed

lemma handlers_not_Panic:
  assumes "db_safe lib"
  shows "snd (dev_handshake_complete_exec lib nl ctx d sv) \<noteq> Panic" "snd (peer_enter_exec lib nl ctx e sv) \<noteq> Panic"
    "snd (peer_forward_exec lib nl ctx f sv) \<noteq> Panic" "snd (peer_leave_exec lib nl ctx sv) \<noteq> Panic"
    "snd (extra_endpoint_exec lib nl ctx x sv) \<noteq> Panic"
  unfolding dev_handshake_complete_exec_def peer_enter_exec_def peer_forward_exec_def peer_leave_exec_def
    extra_endpoint_exec_def
  by (rule with_network_not_Panic [OF assms]; auto simp: Let_def split_beta split: option.split)+

lemma process_request_not_Panic:
  assumes "db_safe lib"
  shows "snd (process_request lib nl cid c msg sv) \<noteq> Panic"
proof -
  have d: "snd (dispatch lib nl ctx data sv) \<noteq> Panic" for ctx data
    using req_config_not_Panic [OF assms] handlers_not_Panic [OF assms] by (cases data) (simp_all add: dispatch_def)
  show ?thesis
  proof (cases "ts_data msg")
    case (Some data)
    obtain sv1 r1 where "dispatch lib nl \<lparr>rx_id = ts_id msg, rx_client_id = cid, rx_client = c\<rparr> data sv = (sv1, r1)"
      by (rule prod.exhaust)
    then show ?thesis using d [of "\<lparr>rx_id = ts_id msg, rx_client_id = cid, rx_client = c\<rparr>" data] Some
      by (cases r1) (simp_all add: process_request_def)
  qed (simp add: process_request_def)
qed

section \<open>The server as a transition system\<close>

text \<open>
  A state is the server and its live tasks: for each connection its handle and, after login, whom it
  logged in as.  A connection is accepted under a number not used before, from an address no live
  connection has; it logs in with whatever first message it gets; it makes requests in any order with all
  others; it may end at any time.  A task that fails is cleaned up, one that panics is not.
\<close>

type_synonym tasks = "nat \<rightharpoonup> client_connect \<times> client_id option"

inductive srv_step ::
    "'d db \<Rightarrow> 'n net4 \<Rightarrow> ('n, 'd) server \<times> tasks \<Rightarrow> ('n, 'd) server \<times> tasks \<Rightarrow> bool" for lib nl where
  accept: "ts i = None \<Longrightarrow> rw_get (sv_ids sv) i = None \<Longrightarrow> rw_get (sv_clients sv) addr = None \<Longrightarrow>
    srv_step lib nl (sv, ts) (client_accept addr i sv, ts(i \<mapsto> (\<lparr>co_addr = addr, co_id = i\<rparr>, None)))"
| login: "ts i = Some (c, None) \<Longrightarrow> process_login lib nl c first sv = (sv', Ok cid) \<Longrightarrow>
    srv_step lib nl (sv, ts) (sv', ts(i \<mapsto> (c, Some cid)))"
| login_failed: "ts i = Some (c, None) \<Longrightarrow> process_login lib nl c first sv = (sv', Err e) \<Longrightarrow>
    srv_step lib nl (sv, ts) (client_end lib nl c sv', ts(i := None))"
| login_panic: "ts i = Some (c, None) \<Longrightarrow> process_login lib nl c first sv = (sv', Panic) \<Longrightarrow>
    srv_step lib nl (sv, ts) (sv'\<lparr>sv_open := filter (\<lambda>j. j \<noteq> i) (sv_open sv')\<rparr>, ts(i := None))"
| request: "ts i = Some (c, Some cid) \<Longrightarrow> process_request lib nl cid c msg sv = (sv', Ok u) \<Longrightarrow>
    srv_step lib nl (sv, ts) (sv', ts)"
| request_failed: "ts i = Some (c, Some cid) \<Longrightarrow> process_request lib nl cid c msg sv = (sv', Err e) \<Longrightarrow>
    srv_step lib nl (sv, ts) (client_end lib nl c sv', ts(i := None))"
| request_panic: "ts i = Some (c, Some cid) \<Longrightarrow> process_request lib nl cid c msg sv = (sv', Panic) \<Longrightarrow>
    srv_step lib nl (sv, ts) (sv'\<lparr>sv_open := filter (\<lambda>j. j \<noteq> i) (sv_open sv')\<rparr>, ts(i := None))"
| disconnect: "ts i = Some (c, login) \<Longrightarrow>
    srv_step lib nl (sv, ts) (client_end lib nl c sv, ts(i := None))"

inductive srv_reach :: "'d db \<Rightarrow> 'n net4 \<Rightarrow> ('n, 'd) server \<times> tasks \<Rightarrow> bool" for lib nl where
  start: "srv_reach lib nl (server_new key d, Map.empty)"
| step: "srv_reach lib nl s \<Longrightarrow> srv_step lib nl s s' \<Longrightarrow> srv_reach lib nl s'"

text \<open>The invariant: a task is registered under its address with an open channel and the identity it logged
  in with; an online peer is online over a live task that logged in as that peer.\<close>

definition tasks_ok :: "('n, 'd) server \<Rightarrow> tasks \<Rightarrow> bool" where
  "tasks_ok sv ts \<longleftrightarrow> (\<forall>i c login. ts i = Some (c, login) \<longrightarrow>
     co_id c = i \<and> rw_get (sv_clients sv) (co_addr c) = Some c \<and> i \<in> set (sv_open sv) \<and>
     (\<forall>cid. login = Some cid \<longrightarrow> rw_get (sv_ids sv) i = Some cid))"

definition online_ok :: "('n, 'd) server \<Rightarrow> tasks \<Rightarrow> bool" where
  "online_ok sv ts \<longleftrightarrow> (\<forall>n k c. online_at sv n k c \<longrightarrow>
     ts (co_id c) = Some (c, Some \<lparr>id_pub_key = k, id_network = n\<rparr>))"

lemma tasks_okD:
  assumes "tasks_ok sv ts" "ts i = Some (c, login)"
  shows "co_id c = i" "rw_get (sv_clients sv) (co_addr c) = Some c" "i \<in> set (sv_open sv)"
    "login = Some cid \<Longrightarrow> rw_get (sv_ids sv) i = Some cid"
  using assms by (auto simp: tasks_ok_def)

lemma rw_get_remove [simp]: "rw_get (rw_remove k m) j = (if j = k then None else rw_get m j)"
  by (simp add: rw_get_def rw_remove_def AList.delete_conv)

lemma client_end_effect:
  assumes "tasks_ok sv ts" "ts i = Some (c, login)" and sv': "sv' = client_end lib nl c sv"
  shows "sv_ids sv' = sv_ids sv" "sv_open sv' = filter (\<lambda>j. j \<noteq> i) (sv_open sv)"
    "sv_clients sv' = rw_remove (co_addr c) (sv_clients sv)"
    "online_at sv' n k d \<Longrightarrow> online_at sv n k d \<and> rw_get (sv_ids sv) i \<noteq> Some \<lparr>id_pub_key = k, id_network = n\<rparr>"
proof -
  note t = tasks_okD [OF assms(1,2)]
  define s1 where "s1 = sv\<lparr>sv_open := filter (\<lambda>j. j \<noteq> i) (sv_open sv), sv_clients := rw_remove (co_addr c) (sv_clients sv)\<rparr>"
  have on: "online_at s1 n k d \<longleftrightarrow> online_at sv n k d" for n k d by (simp add: s1_def online_at_def)
  have s1: "sv' = (case rw_get (sv_ids sv) i of None \<Rightarrow> s1 | Some cid \<Rightarrow>
      (case get_network lib nl (id_network cid) s1 of
         (sv, Ok nw) \<Rightarrow> network_offline (id_network cid) (id_pub_key cid) sv | (sv, _) \<Rightarrow> sv))"
    using t(1,2) by (cases "rw_get (sv_ids sv) i") (simp_all add: sv' client_end_def s1_def remove_client_def Let_def)
  have all: "sv_ids sv' = sv_ids s1 \<and> same_conns s1 sv' \<and> (online_at sv' n k d \<longrightarrow> online_at s1 n k d \<and>
      rw_get (sv_ids sv) i \<noteq> Some \<lparr>id_pub_key = k, id_network = n\<rparr>)"
  proof (cases "rw_get (sv_ids sv) i")
    case None
    then show ?thesis using s1 by (simp add: same_conns_def)
  next
    case (Some cid)
    show ?thesis
    proof (cases rule: get_network_cases [of s1 "id_network cid" lib nl])
      case (known nw)
      have "sv' = network_offline (id_network cid) (id_pub_key cid) s1" using s1 Some known by simp
      then show ?thesis
        using Some network_offline_effect(1) [of s1 "id_network cid" "id_pub_key cid"]
          network_offline_effect(2) [of "id_network cid" "id_pub_key cid" s1 d] by (auto simp: quiet_def)
    next
      case (loaded nw)
      let ?s2 = "s1\<lparr>sv_networks := rw_insert (id_network cid) nw (sv_networks s1)\<rparr>"
      have q: "quiet s1 ?s2" using quiet_get_network [of s1 lib nl "id_network cid"] loaded by simp
      have "sv' = network_offline (id_network cid) (id_pub_key cid) ?s2" using s1 Some loaded by simp
      then show ?thesis
        using Some quiet_trans [OF q network_offline_effect(1) [of ?s2 "id_network cid" "id_pub_key cid"]]
          network_offline_effect(2) [of "id_network cid" "id_pub_key cid" ?s2 d] by (auto simp: quiet_def)
    next
      case (failed e)
      then show ?thesis using s1 Some by (auto simp: same_conns_def online_at_def)
    next
      case panic
      then show ?thesis using s1 Some by (auto simp: same_conns_def online_at_def)
    qed
  qed
  then show "sv_ids sv' = sv_ids sv" "sv_open sv' = filter (\<lambda>j. j \<noteq> i) (sv_open sv)"
    "sv_clients sv' = rw_remove (co_addr c) (sv_clients sv)"
    "online_at sv' n k d \<Longrightarrow> online_at sv n k d \<and> rw_get (sv_ids sv) i \<noteq> Some \<lparr>id_pub_key = k, id_network = n\<rparr>"
    using on by (auto simp: s1_def same_conns_def)
qed

text \<open>Each kind of change keeps the invariant.\<close>

lemma inv_enters:
  assumes "tasks_ok sv ts" "online_ok sv ts" "ts i = Some (c, Some cid)" "enters cid c sv sv'"
  shows "tasks_ok sv' ts" "online_ok sv' ts"
proof -
  note e = assms(4) [unfolded enters_def same_conns_def]
  show "tasks_ok sv' ts" using assms(1) e by (simp add: tasks_ok_def)
  have "ts (co_id d) = Some (d, Some \<lparr>id_pub_key = k, id_network = n\<rparr>)" if on: "online_at sv' n k d" for n k d
  proof -
    consider "online_at sv n k d" | "n = id_network cid" "k = id_pub_key cid" "d = c" using e on by blast
    then show ?thesis
      by cases (use assms(2) in \<open>simp add: online_ok_def\<close>, use assms(3) tasks_okD(1) [OF assms(1,3)] in simp)
  qed
  then show "online_ok sv' ts" by (simp add: online_ok_def)
qed

lemma inv_logs_in:
  assumes "tasks_ok sv ts" "online_ok sv ts" "ts i = Some (c, None)" "logs_in c sv sv'"
  shows "tasks_ok sv' ts" "online_ok sv' ts"
proof -
  note l = assms(4) [unfolded logs_in_def same_conns_def]
  have c: "co_id c = i" by (rule tasks_okD(1) [OF assms(1,3)])
  have "rw_get (sv_ids sv') j = Some cid" if "ts j = Some (d, Some cid)" for j d cid
    using that l c assms(3) tasks_okD(4) [OF assms(1) that] by (cases "j = i") auto
  then show "tasks_ok sv' ts" using assms(1) l by (auto simp: tasks_ok_def)
  show "online_ok sv' ts" using assms(2) l by (auto simp: online_ok_def)
qed

lemma inv_login:
  assumes "tasks_ok sv ts" "online_ok sv ts" "ts i = Some (c, None)" "rw_get (sv_ids sv) (co_id c) = Some cid"
  shows "tasks_ok sv (ts(i \<mapsto> (c, Some cid)))" "online_ok sv (ts(i \<mapsto> (c, Some cid)))"
proof -
  note t = tasks_okD [OF assms(1,3)]
  show "tasks_ok sv (ts(i \<mapsto> (c, Some cid)))"
    unfolding tasks_ok_def
  proof (intro allI impI)
    fix j d l assume "(ts(i \<mapsto> (c, Some cid))) j = Some (d, l)"
    then show "co_id d = j \<and> rw_get (sv_clients sv) (co_addr d) = Some d \<and> j \<in> set (sv_open sv) \<and>
        (\<forall>cid. l = Some cid \<longrightarrow> rw_get (sv_ids sv) j = Some cid)"
      using t(1-3) assms(4) tasks_okD [OF assms(1), of j d l] by (cases "j = i") simp_all
  qed
  show "online_ok sv (ts(i \<mapsto> (c, Some cid)))"
    unfolding online_ok_def
  proof (intro allI impI)
    fix n k d assume "online_at sv n k d"
    then have "ts (co_id d) = Some (d, Some \<lparr>id_pub_key = k, id_network = n\<rparr>)"
      using assms(2) by (simp add: online_ok_def)
    then show "(ts(i \<mapsto> (c, Some cid))) (co_id d) = Some (d, Some \<lparr>id_pub_key = k, id_network = n\<rparr>)"
      using assms(3) by (cases "co_id d = i") simp_all
  qed
qed

lemma inv_client_end:
  assumes "tasks_ok sv ts" "online_ok sv ts" "ts i = Some (c, login)"
  shows "tasks_ok (client_end lib nl c sv) (ts(i := None))" "online_ok (client_end lib nl c sv) (ts(i := None))"
proof -
  note e = client_end_effect [OF assms(1,3) refl, of lib nl]
  note t = tasks_okD [OF assms(1,3)]
  have "co_addr d \<noteq> co_addr c" if j: "ts j = Some (d, l)" "j \<noteq> i" for j d l
  proof
    assume "co_addr d = co_addr c"
    then have "d = c" using tasks_okD(2) [OF assms(1) j(1)] t(2) by (metis option.inject)
    then show False using tasks_okD(1) [OF assms(1) j(1)] t(1) j(2) by simp
  qed
  then show "tasks_ok (client_end lib nl c sv) (ts(i := None))"
    unfolding tasks_ok_def e(1-3)
  proof (intro allI impI)
    fix j d l assume "(ts(i := None)) j = Some (d, l)"
    then have j: "j \<noteq> i" "ts j = Some (d, l)" by (simp_all split: if_splits)
    then show "co_id d = j \<and> rw_get (rw_remove (co_addr c) (sv_clients sv)) (co_addr d) = Some d \<and>
        j \<in> set (filter (\<lambda>j. j \<noteq> i) (sv_open sv)) \<and> (\<forall>cid. l = Some cid \<longrightarrow> rw_get (sv_ids sv) j = Some cid)"
      using tasks_okD [OF assms(1) j(2)] \<open>\<And>j d l. ts j = Some (d, l) \<Longrightarrow> j \<noteq> i \<Longrightarrow> co_addr d \<noteq> co_addr c\<close> by simp
  qed
  have "ts (co_id d) = Some (d, Some \<lparr>id_pub_key = k, id_network = n\<rparr>) \<and> co_id d \<noteq> i"
    if on: "online_at (client_end lib nl c sv) n k d" for n k d
  proof
    show ts: "ts (co_id d) = Some (d, Some \<lparr>id_pub_key = k, id_network = n\<rparr>)"
      using e(4) [OF on] assms(2) by (auto simp: online_ok_def)
    show "co_id d \<noteq> i" using tasks_okD(4) [OF assms(1) ts refl] e(4) [OF on] by auto
  qed
  then show "online_ok (client_end lib nl c sv) (ts(i := None))" by (auto simp: online_ok_def)
qed

lemma srv_step_inv:
  assumes "srv_step lib nl (sv, ts) (sv', ts')" "db_safe lib" "tasks_ok sv ts" "online_ok sv ts"
  shows "tasks_ok sv' ts' \<and> online_ok sv' ts'"
  using assms(1)
proof (cases rule: srv_step.cases)
  case (accept i addr)
  then show ?thesis using assms(3,4)
    by (fastforce simp: tasks_ok_def online_ok_def online_at_def client_accept_def insert_client_def rw.get_insert)
next
  case (login i c first cid)
  note l = process_login_effect [OF login(3)]
  show ?thesis using inv_login [OF inv_logs_in [OF assms(3,4) login(2)] login(2)] l login(1) by simp
next
  case (login_failed i c first sv1 e)
  note l = process_login_effect [OF login_failed(4)]
  show ?thesis
    using inv_client_end [OF inv_logs_in [OF assms(3,4) login_failed(3)] login_failed(3)] l login_failed(1,2) by simp
next
  case (login_panic i c first sv1)
  then show ?thesis using process_login_not_Panic [OF assms(2), of nl c first sv] by simp
next
  case (request i c cid msg u)
  then show ?thesis using inv_enters [OF assms(3,4) request(2)] process_request_enters [of cid c sv lib nl msg] by simp
next
  case (request_failed i c cid msg sv1 e)
  have "enters cid c sv sv1" using process_request_enters [of cid c sv lib nl msg] request_failed(4) by simp
  note inv = inv_enters [OF assms(3,4) request_failed(3) this]
  show ?thesis using inv_client_end [OF inv request_failed(3)] request_failed(1,2) by simp
next
  case (request_panic i c cid msg sv1)
  then show ?thesis using process_request_not_Panic [OF assms(2), of nl cid c msg sv] by simp
next
  case (disconnect i c login)
  then show ?thesis using inv_client_end [OF assms(3,4) disconnect(3)] by simp
qed

lemma srv_reach_inv:
  assumes "srv_reach lib nl s" "db_safe lib"
  shows "tasks_ok (fst s) (snd s) \<and> online_ok (fst s) (snd s)"
  using assms(1)
proof (induction rule: srv_reach.induct)
  case (start key d)
  then show ?case by (simp add: tasks_ok_def online_ok_def online_at_def server_new_def rw.get_empty)
next
  case (step s s')
  then show ?case using srv_step_inv [of lib nl "fst s" "snd s" "fst s'" "snd s'"] assms(2) by simp
qed

text \<open>C21: However connections come, log in, make requests, fail and go, a peer the server holds to be
  online can be reached: its connection is registered under its address, its channel is open, it belongs to
  a live task, and that task logged in as this very peer of this network.\<close>

theorem online_peers_reachable:
  assumes "srv_reach lib nl (sv, ts)" "db_safe lib" "online_at sv n k c"
  shows "rw_get (sv_clients sv) (co_addr c) = Some c \<and> co_id c \<in> set (sv_open sv)
    \<and> rw_get (sv_ids sv) (co_id c) = Some \<lparr>id_pub_key = k, id_network = n\<rparr>
    \<and> ts (co_id c) = Some (c, Some \<lparr>id_pub_key = k, id_network = n\<rparr>)"
proof -
  have inv: "tasks_ok sv ts" "online_ok sv ts" using srv_reach_inv [OF assms(1,2)] by simp_all
  then have t: "ts (co_id c) = Some (c, Some \<lparr>id_pub_key = k, id_network = n\<rparr>)"
    using assms(3) by (simp add: online_ok_def)
  then show ?thesis using tasks_okD [OF inv(1) t] by simp
qed

section \<open>A small server\<close>

text \<open>Instances of the parameters for concrete runs: a database with one network and the peers of a list,
  and networks of eight addresses.\<close>

definition plain_peer :: "int \<Rightarrow> string \<Rightarrow> string option \<Rightarrow> peer_model" where
  "plain_peer i k ip = \<lparr>pm_id = i, pm_pub_key = k, pm_ip = ip, pm_default_proto = None, pm_endpoint_addr = None,
     pm_port = None, pm_network_id = 1, pm_disabled = False\<rparr>"

definition plain_db :: "peer_model list db" where
  "plain_db =
     \<lparr>find_network = (\<lambda>d n. Ok (if n = 1 then Some \<lparr>nm_network_id = 1, nm_cidr = ''0.0.0.0/29''\<rparr> else None)),
      find_network_peers = (\<lambda>d n. Ok (filter (\<lambda>m. pm_network_id m = n) d)),
      find_token = (\<lambda>d t. Ok (if t = ''t'' then Some \<lparr>tk_network_id = 1, tk_disabled = False\<rparr> else None)),
      find_peer = (\<lambda>d k. Ok (List.find (\<lambda>m. pm_pub_key m = k) d)),
      find_transports = (\<lambda>d i. Ok []),
      update_peer_ip = (\<lambda>d i ip. Ok (map (\<lambda>m. if pm_id m = i then m\<lparr>pm_ip := Some ip\<rparr> else m) d))\<rparr>"

definition plain_net4 :: "u32 net4" where
  "plain_net4 =
     \<lparr>net4_parse = (\<lambda>s. if s = ''0.0.0.0/29'' then Some 0 else None),
      net4_hosts = (\<lambda>a. map (\<lambda>i. a + of_nat i) [0..<8]), net4_mask = (\<lambda>a. 29), net4_address = (\<lambda>a. a)\<rparr>"

lemma plain_db_safe: "db_safe plain_db"
  by (simp add: db_safe_def plain_db_def)

definition plain_hello :: "u64 \<Rightarrow> string \<Rightarrow> to_server" where
  "plain_hello i k = \<lparr>ts_id = i, ts_data = Some (Handshake \<lparr>rh_version = 0, rh_pub_key = k, rh_token = None, rh_sign = []\<rparr>)\<rparr>"

definition plain_enter :: "u64 \<Rightarrow> string \<Rightarrow> to_server" where
  "plain_enter i ip = \<lparr>ts_id = i, ts_data = Some (PeerEnter \<lparr>en_ip = ip, en_endpoint_addr = None, en_port = 0,
     en_extra_endpoints = []\<rparr>)\<rparr>"

definition conn :: "nat \<Rightarrow> client_connect" where
  "conn i = \<lparr>co_addr = [char_of (65 + i)], co_id = i\<rparr>"

definition run_accepted :: "(u32, peer_model list) server" where
  "run_accepted = client_accept ''A'' 0 (server_new ''K'' [plain_peer 1 ''k'' (Some ''0.0.0.2'')])"

definition run_logged_in :: "(u32, peer_model list) server" where
  "run_logged_in = fst (process_login plain_db plain_net4 (conn 0) (FirstMsg (plain_hello 1 ''k'')) run_accepted)"

definition run_entered :: "(u32, peer_model list) server" where
  "run_entered = fst (process_request plain_db plain_net4 \<lparr>id_pub_key = ''k'', id_network = 1\<rparr> (conn 0)
     (plain_enter 2 ''0.0.0.2'') run_logged_in)"

definition online_conn :: "('n, 'd) server \<Rightarrow> int \<Rightarrow> string \<Rightarrow> client_connect option" where
  "online_conn sv n k =
     Option.bind (rw_get (sv_networks sv) n) (\<lambda>nw.
     Option.bind (rw_get (nw_peers nw) k) (\<lambda>p. map_option on_connect (vp_online p)))"

lemma online_at_conn: "online_at sv n k c \<longleftrightarrow> online_conn sv n k = Some c"
  by (auto simp: online_at_def online_conn_def Option.bind_eq_Some_conv)

lemma run_entered_reached:
  "srv_reach plain_db plain_net4 (run_entered, [0 \<mapsto> (conn 0, Some \<lparr>id_pub_key = ''k'', id_network = 1\<rparr>)])"
proof -
  let ?cid = "\<lparr>id_pub_key = ''k'', id_network = 1\<rparr>" and ?new = "server_new ''K'' [plain_peer 1 ''k'' (Some ''0.0.0.2'')]"
  have c: "\<lparr>co_addr = ''A'', co_id = 0\<rparr> = conn 0" by code_simp
  have r1: "srv_reach plain_db plain_net4 (run_accepted, [0 \<mapsto> (conn 0, None)])"
    using srv_reach.step [OF srv_reach.start srv_step.accept [of Map.empty 0 ?new "''A''"], of plain_db plain_net4]
    by (simp add: c run_accepted_def server_new_def rw.get_empty)
  have "snd (process_login plain_db plain_net4 (conn 0) (FirstMsg (plain_hello 1 ''k'')) run_accepted) = Ok ?cid"
    by code_simp
  then have "process_login plain_db plain_net4 (conn 0) (FirstMsg (plain_hello 1 ''k'')) run_accepted = (run_logged_in, Ok ?cid)"
    unfolding run_logged_in_def by (metis prod.collapse)
  from srv_reach.step [OF r1 srv_step.login [of _ 0, OF _ this]]
  have r2: "srv_reach plain_db plain_net4 (run_logged_in, [0 \<mapsto> (conn 0, Some ?cid)])" by simp
  have "snd (process_request plain_db plain_net4 ?cid (conn 0) (plain_enter 2 ''0.0.0.2'') run_logged_in) = Ok ()"
    by code_simp
  then have "process_request plain_db plain_net4 ?cid (conn 0) (plain_enter 2 ''0.0.0.2'') run_logged_in = (run_entered, Ok ())"
    unfolding run_entered_def by (metis prod.collapse)
  from srv_reach.step [OF r2 srv_step.request [of _ 0, OF _ this]] show ?thesis by simp
qed

lemma run_entered_online: "online_at run_entered 1 ''k'' (conn 0)"
  unfolding online_at_conn by code_simp

theorem online_peers_reachable_witness:
  "online_at run_entered 1 ''k'' (conn 0) \<and> co_id (conn 0) \<in> set (sv_open run_entered)"
  using online_peers_reachable [OF run_entered_reached plain_db_safe run_entered_online] run_entered_online by blast

section \<open>A second login\<close>

text \<open>C38: A rejected second login takes the peer offline.  While a peer is online over one connection, a
  second connection that logs in under the same public key, which is not checked against the signature it
  sends, is refused as already connected; but its identity has been set before the check, so when it is
  cleaned up the peer is marked offline although its own connection is still open.\<close>

theorem duplicate_login_offline:
  assumes "tasks_ok sv ts" "online_at sv n k c" "ts i = Some (c', None)" "rw_get (sv_ids sv) i = None"
    and "ts_data msg = Some (Handshake data)" "rh_pub_key data = k" "rh_token data = None"
    and "find_peer lib (sv_db sv) k = Ok (Some m)" "pm_network_id m = n"
    and "co_id c \<in> set (sv_open sv)" "co_id c \<noteq> i"
  shows "\<exists>sv'. process_login lib nl c' (FirstMsg msg) sv = (sv', Err (PeerConnected k))
    \<and> (\<forall>d. \<not> online_at (client_end lib nl c' sv') n k d)
    \<and> co_id c \<in> set (sv_open (client_end lib nl c' sv'))"
proof -
  note t = tasks_okD [OF assms(1,3)]
  obtain nw p e where on: "rw_get (sv_networks sv) n = Some nw" "rw_get (nw_peers nw) k = Some p" "vp_online p = Some e"
    using assms(2) by (auto simp: online_at_def)
  let ?cid = "\<lparr>id_pub_key = k, id_network = n\<rparr>"
  obtain out0 where s1: "client_send c' None (RespServerInfo \<lparr>si_version = sv_version sv, si_key = sv_key sv,
      si_desc = None\<rparr>) sv = (sv\<lparr>sv_out := out0\<rparr>, Ok ())"
    using t(1,3) by (simp add: client_send_def)
  let ?sv1 = "sv\<lparr>sv_out := out0\<rparr>"
  let ?sv2 = "?sv1\<lparr>sv_ids := rw_insert i ?cid (sv_ids sv)\<rparr>"
  have "handshake0 lib nl c' msg ?sv1 = (?sv2, Err (PeerConnected k))"
    using assms(4-9) on t(1)
    by (simp add: handshake0_def login_network_def login_peer_def set_client_id_def get_network_def is_online_def db_result_def)
  moreover have "co_id c' \<in> set (sv_open ?sv2)" using t(1,3) by simp
  then obtain out where "client_send c' (Some (ts_id msg)) (RespHandshake False (Some (LoginText (PeerConnected k)))) ?sv2 =
      (?sv2\<lparr>sv_out := out\<rparr>, Ok ())" by (simp add: client_send_def)
  ultimately have login: "process_login lib nl c' (FirstMsg msg) sv = (?sv2\<lparr>sv_out := out\<rparr>, Err (PeerConnected k))"
    using s1 by (simp add: process_login_def srv_await_handshake_def)
  let ?sv' = "?sv2\<lparr>sv_out := out\<rparr>"
  have ok: "tasks_ok ?sv' ts"
    using inv_logs_in(1) [OF assms(1) _ assms(3), of ?sv'] assms(1,3) t(1)
    by (auto simp: tasks_ok_def rw.get_insert)
  note e = client_end_effect [OF ok assms(3) refl, of lib nl]
  have "\<not> online_at (client_end lib nl c' ?sv') n k d" for d
    using e(4) [of n k d] by (auto simp: rw.get_insert)
  moreover have "co_id c \<in> set (sv_open (client_end lib nl c' ?sv'))" using e(2) assms(10,11) by simp
  ultimately show ?thesis using login by blast
qed

theorem duplicate_login_offline_witness:
  "\<exists>sv'. process_login plain_db plain_net4 (conn 1) (FirstMsg (plain_hello 1 ''k'')) (client_accept ''B'' 1 run_entered) =
      (sv', Err (PeerConnected ''k''))
    \<and> (\<forall>d. \<not> online_at (client_end plain_db plain_net4 (conn 1) sv') 1 ''k'' d)
    \<and> co_id (conn 0) \<in> set (sv_open (client_end plain_db plain_net4 (conn 1) sv'))"
proof -
  let ?ts = "[0 \<mapsto> (conn 0, Some \<lparr>id_pub_key = ''k'', id_network = 1\<rparr>), 1 \<mapsto> (conn 1, None)]"
  let ?sv = "client_accept ''B'' 1 run_entered"
  have c: "\<lparr>co_addr = ''B'', co_id = 1\<rparr> = conn 1" by code_simp
  have new: "rw_get (sv_ids run_entered) 1 = None" "rw_get (sv_clients run_entered) ''B'' = None" by code_simp+
  have "srv_reach plain_db plain_net4 (?sv, ?ts)"
    using srv_reach.step [OF run_entered_reached srv_step.accept [of _ 1 run_entered "''B''"]] new by (simp add: c [simplified])
  then have ok: "tasks_ok ?sv ?ts" using srv_reach_inv plain_db_safe by fastforce
  have on: "online_at ?sv 1 ''k'' (conn 0)" unfolding online_at_conn by code_simp
  have m: "find_peer plain_db (sv_db ?sv) ''k'' = Ok (Some (plain_peer 1 ''k'' (Some ''0.0.0.2'')))" by code_simp
  have "co_id (conn 0) \<in> set (sv_open ?sv)" "rw_get (sv_ids ?sv) 1 = None" by code_simp+
  then show ?thesis
    by (intro duplicate_login_offline [OF ok on _ _ _ _ _ m, where i = 1 and
          data = "\<lparr>rh_version = 0, rh_pub_key = ''k'', rh_token = None, rh_sign = []\<rparr>"])
      (simp_all add: plain_hello_def plain_peer_def conn_def)
qed

section \<open>Notifications\<close>

lemma broadcast_by_sent:
  "sv_out (broadcast_by data P nw sv) = sv_out sv @
     concat (map (\<lambda>(k, p). case vp_online p of
         Some e \<Rightarrow> if P k \<and> co_id (on_connect e) \<in> set (sv_open sv) then [(co_id (on_connect e), None, data)] else []
       | None \<Rightarrow> []) (nw_peers nw))"
proof -
  let ?f = "\<lambda>(k, p) sv. if \<not> P k then sv
      else case vp_online p of None \<Rightarrow> sv | Some s \<Rightarrow> fst (client_send (on_connect s) None data sv)"
  let ?g = "\<lambda>(k, p). case vp_online p of
         Some e \<Rightarrow> if P k \<and> co_id (on_connect e) \<in> set (sv_open sv) then [(co_id (on_connect e), None, data)] else []
       | None \<Rightarrow> []"
  have step: "sv_out (?f a s) = sv_out s @ ?g a" "sv_open (?f a s) = sv_open s" if "sv_open s = sv_open sv"
    for a and s :: "('a, 'b) server"
    using that by (auto simp: client_send_def split_beta split: option.split)
  have "sv_out (fold ?f ps s) = sv_out s @ concat (map ?g ps)" if "sv_open s = sv_open sv"
    for ps :: "(string, vlink_peer) rw_map" and s :: "('a, 'b) server"
    using that
  proof (induction ps arbitrary: s)
    case (Cons a ps)
    have "sv_out (fold ?f ps (?f a s)) = sv_out (?f a s) @ concat (map ?g ps)"
      using Cons.IH [of "?f a s"] step(2) [OF Cons.prems, of a] Cons.prems by simp
    then show ?case using step(1) [OF Cons.prems, of a] by simp
  qed simp
  then show ?thesis by (simp add: broadcast_by_def)
qed

lemma broadcast_sent_iff:
  "(i, a, m) \<in> set (drop (length (sv_out sv)) (sv_out (broadcast data k nw sv))) \<longleftrightarrow>
     a = None \<and> m = data \<and> i \<in> set (sv_open sv) \<and>
     (\<exists>j q e. (j, q) \<in> set (nw_peers nw) \<and> j \<noteq> k \<and> vp_online q = Some e \<and> co_id (on_connect e) = i)"
proof -
  define g where "g = (\<lambda>(j, q :: vlink_peer). case vp_online q of
      Some e \<Rightarrow> if k \<noteq> j \<and> co_id (on_connect e) \<in> set (sv_open sv) then [(co_id (on_connect e), None :: u64 option, data)] else []
    | None \<Rightarrow> [])"
  have g: "(i, a, m) \<in> set (g (j, q)) \<longleftrightarrow> a = None \<and> m = data \<and> i \<in> set (sv_open sv) \<and> j \<noteq> k \<and>
      (\<exists>e. vp_online q = Some e \<and> co_id (on_connect e) = i)" for j q
    by (cases "vp_online q") (auto simp: g_def)
  have "sv_out (broadcast data k nw sv) = sv_out sv @ concat (map g (nw_peers nw))"
    by (simp add: broadcast_def broadcast_by_sent g_def)
  then have "(i, a, m) \<in> set (drop (length (sv_out sv)) (sv_out (broadcast data k nw sv))) \<longleftrightarrow>
      (\<exists>j q. (j, q) \<in> set (nw_peers nw) \<and> (i, a, m) \<in> set (g (j, q)))"
    by (simp add: Bex_def)
  then show ?thesis unfolding g by blast
qed

lemma rw_modify_other: "j \<noteq> k \<Longrightarrow> (j, q) \<in> set (rw_modify k f m) \<longleftrightarrow> (j, q) \<in> set m"
  by (force simp: rw_modify_def)

text \<open>Entering the network.  A peer that reports the address the server has given it is recorded as
  online with its connection, port and endpoint, and exactly the other peers that are online with an open
  channel are told, once each; a peer that reports another address is refused and nothing changes.\<close>

theorem peer_enter_outcome:
  assumes "rw_get (sv_networks sv) (id_network (rx_client_id ctx)) = Some nw"
    and "rw_get (nw_peers nw) (id_pub_key (rx_client_id ctx)) = Some p"
  shows "let (sv', r) = peer_enter_exec lib nl ctx data sv; k = id_pub_key (rx_client_id ctx) in
    if pm_ip (vp_model p) = Some (en_ip data) \<or> (pm_ip (vp_model p) = None \<and> en_ip data = [])
    then r = Ok () \<and> online_at sv' (id_network (rx_client_id ctx)) k (rx_client ctx)
      \<and> (\<forall>i a m. (i, a, m) \<in> set (drop (length (sv_out sv)) (sv_out sv')) \<longleftrightarrow>
          a = None \<and> m = PeerEnterTC \<lparr>be_pub_key = k, be_ip = en_ip data, be_endpoint_addr = en_endpoint_addr data,
            be_port = en_port data, be_last_con_type = None, be_mode = mode_to_i32 Bidirectional, be_is_online = True\<rparr>
          \<and> i \<in> set (sv_open sv)
          \<and> (\<exists>j q e. (j, q) \<in> set (nw_peers nw) \<and> j \<noteq> k \<and> vp_online q = Some e \<and> co_id (on_connect e) = i))
    else r = Err IpNotMatch \<and> sv' = sv"
proof -
  let ?k = "id_pub_key (rx_client_id ctx)" and ?n = "id_network (rx_client_id ctx)"
  let ?info = "\<lparr>on_connect = rx_client ctx, on_port = en_port data, on_endpoint_addr = en_endpoint_addr data,
      on_extra_endpoints = rw_from (map (\<lambda>x. (ee_proto x, ee_endpoint x)) (en_extra_endpoints data))\<rparr>"
  let ?f = "\<lambda>p. p\<lparr>vp_online := Some ?info\<rparr>"
  let ?sv = "on_peers ?n (rw_modify ?k ?f) sv" and ?nw = "nw\<lparr>nw_peers := rw_modify ?k ?f (nw_peers nw)\<rparr>"
  let ?m = "PeerEnterTC \<lparr>be_pub_key = ?k, be_ip = en_ip data, be_endpoint_addr = en_endpoint_addr data,
            be_port = en_port data, be_last_con_type = None, be_mode = mode_to_i32 Bidirectional, be_is_online = True\<rparr>"
  have get: "get_network lib nl ?n sv = (sv, Ok nw)" using assms(1) by (simp add: get_network_def)
  have nw: "rw_get (sv_networks ?sv) ?n = Some ?nw" using assms(1) by (simp add: on_peers_def on_network_def)
  have exec: "peer_enter_exec lib nl ctx data sv =
      (if en_ip data \<noteq> (case pm_ip (vp_model p) of Some ip \<Rightarrow> ip | None \<Rightarrow> []) then (sv, Err IpNotMatch)
       else (broadcast ?m ?k ?nw ?sv, Ok ()))"
    using assms(2) get nw by (simp add: peer_enter_exec_def with_network_def Let_def)
  have on: "online_at (broadcast ?m ?k ?nw ?sv) ?n ?k (rx_client ctx)"
    using nw assms(2) by (simp add: online_at_def broadcast_def)
  have "(i, a, m) \<in> set (drop (length (sv_out sv)) (sv_out (broadcast ?m ?k ?nw ?sv))) \<longleftrightarrow>
      a = None \<and> m = ?m \<and> i \<in> set (sv_open sv) \<and>
      (\<exists>j q e. (j, q) \<in> set (nw_peers nw) \<and> j \<noteq> ?k \<and> vp_online q = Some e \<and> co_id (on_connect e) = i)" for i a m
    using broadcast_sent_iff [of i a m ?sv ?m ?k ?nw] rw_modify_other [of _ ?k _ ?f "nw_peers nw"]
    by (auto simp: on_peers_def)
  then show ?thesis using exec on by (auto split: option.splits)
qed

theorem peer_enter_outcome_witness:
  "let ctx = \<lparr>rx_id = 2, rx_client_id = \<lparr>id_pub_key = ''k'', id_network = 1\<rparr>, rx_client = conn 0\<rparr>;
       data = \<lparr>en_ip = ''0.0.0.2'', en_endpoint_addr = None, en_port = 0, en_extra_endpoints = []\<rparr>;
       (sv', r) = peer_enter_exec plain_db plain_net4 ctx data run_logged_in
   in r = Ok () \<and> online_at sv' 1 ''k'' (conn 0)"
proof -
  let ?ctx = "\<lparr>rx_id = 2, rx_client_id = \<lparr>id_pub_key = ''k'', id_network = 1\<rparr>, rx_client = conn 0\<rparr>"
  let ?data = "\<lparr>en_ip = ''0.0.0.2'', en_endpoint_addr = None, en_port = 0, en_extra_endpoints = []\<rparr>"
  have "Option.bind (rw_get (sv_networks run_logged_in) 1) (\<lambda>nw. Option.bind (rw_get (nw_peers nw) ''k'') (\<lambda>p.
      pm_ip (vp_model p))) = Some ''0.0.0.2''" by code_simp
  then obtain nw p where "rw_get (sv_networks run_logged_in) 1 = Some nw" "rw_get (nw_peers nw) ''k'' = Some p"
    "pm_ip (vp_model p) = Some ''0.0.0.2''" by (auto simp: Option.bind_eq_Some_conv)
  then show ?thesis
    using peer_enter_outcome [of run_logged_in ?ctx nw p plain_db plain_net4 ?data] by (simp add: Let_def split_beta)
qed

end
