(* ===== verification/Vlink_Core.thy ===== *)
theory Vlink_Core
  imports Prelude
begin

unbundle bit_operations_syntax

text \<open>
  What daemon and coordination server share (\<open>vlink-core\<close>: \<open>base64.rs\<close>, \<open>secret.rs\<close>,
  \<open>utils/network.rs\<close>) and the key file of the daemon (\<open>vlinkd/src/storage.rs\<close>, \<open>config.rs\<close>).  The record \<open>core_lib\<close>
  holds what is used of other crates: base64, hex, the curve, the box, JSON.
\<close>

record core_lib =
  b64_encode :: "bytes \<Rightarrow> string"
  b64_decode :: "string \<Rightarrow> bytes option"
  hex_encode :: "bytes \<Rightarrow> string"
  hex_decode :: "string \<Rightarrow> bytes option"
  secret_pub :: "bytes \<Rightarrow> bytes"
  salsa_seal :: "bytes \<Rightarrow> bytes \<Rightarrow> bytes \<Rightarrow> bytes \<Rightarrow> bytes option"
  json_of_secret :: "string \<Rightarrow> string"
  secret_of_json :: "string \<Rightarrow> string option"

text \<open>The encodings are inverted by their decoders.\<close>

definition core_laws :: "core_lib \<Rightarrow> bool" where
  "core_laws lib \<longleftrightarrow>
     (\<forall>b. b64_decode lib (b64_encode lib b) = Some b) \<and>
     (\<forall>b. hex_decode lib (hex_encode lib b) = Some b) \<and>
     (\<forall>s. secret_of_json lib (json_of_secret lib s) = Some s) \<and>
     (\<forall>k. length k = 32 \<longrightarrow> length (secret_pub lib k) = 32)"

lemma core_lawsD:
  assumes "core_laws lib"
  shows "b64_decode lib (b64_encode lib b) = Some b" "hex_decode lib (hex_encode lib b) = Some b"
    "secret_of_json lib (json_of_secret lib s) = Some s" "length k = 32 \<Longrightarrow> length (secret_pub lib k) = 32"
  using assms by (simp_all add: core_laws_def)

section \<open>Base64 (base64.rs)\<close>

definition decode_base64 :: "core_lib \<Rightarrow> string \<Rightarrow> bytes option" where
  "decode_base64 lib s = b64_decode lib s"

definition encode_base64 :: "core_lib \<Rightarrow> bytes \<Rightarrow> string" where
  "encode_base64 lib b = b64_encode lib b"

text \<open>A vector as a key: the conversion to an array fails on any other length.\<close>

definition try_into_key :: "bytes \<Rightarrow> bytes option" where
  "try_into_key b = (if length b = 32 then Some b else None)"

definition decode_base64_key :: "core_lib \<Rightarrow> string \<Rightarrow> ('e, bytes) result" where
  "decode_base64_key lib s =
     (case decode_base64 lib s of
        None \<Rightarrow> Panic
      | Some b \<Rightarrow> (case try_into_key b of None \<Rightarrow> Panic | Some k \<Rightarrow> Ok k))"

lemma decode_encode_base64 [simp]: "core_laws lib \<Longrightarrow> decode_base64 lib (encode_base64 lib b) = Some b"
  by (simp add: decode_base64_def encode_base64_def core_lawsD)

lemma decode_base64_key_Panic:
  "decode_base64_key lib s = Panic \<longleftrightarrow> (\<forall>k. length k = 32 \<longrightarrow> decode_base64 lib s \<noteq> Some k)"
  by (auto simp: decode_base64_key_def try_into_key_def split: option.splits)

section \<open>Key pairs (secret.rs)\<close>

record vlink_static_secret =
  vs_private_key :: bytes
  vs_public_key :: bytes

definition secret_of :: "core_lib \<Rightarrow> bytes \<Rightarrow> vlink_static_secret" where
  "secret_of lib private_key = \<lparr>vs_private_key = private_key, vs_public_key = secret_pub lib private_key\<rparr>"

definition secret_generate :: "core_lib \<Rightarrow> bytes \<Rightarrow> vlink_static_secret" where
  "secret_generate lib rnd = secret_of lib rnd"

definition base64_pub :: "core_lib \<Rightarrow> vlink_static_secret \<Rightarrow> string" where
  "base64_pub lib s = encode_base64 lib (vs_public_key s)"

definition hex_private :: "core_lib \<Rightarrow> vlink_static_secret \<Rightarrow> string" where
  "hex_private lib s = hex_encode lib (vs_private_key s)"

definition HELLO_STR :: string where
  "HELLO_STR = ''hello''"

datatype secret_error = SealError | BadHex

definition hello_sign :: "core_lib \<Rightarrow> bytes \<Rightarrow> vlink_static_secret \<Rightarrow> (secret_error, string) result" where
  "hello_sign lib target_pub s =
     rbind (ok_or SealError (salsa_seal lib target_pub (vs_private_key s) (take 24 target_pub)
              (map of_char HELLO_STR)))
       (\<lambda>c. Ok (encode_base64 lib c))"

definition secret_serialize :: "core_lib \<Rightarrow> vlink_static_secret \<Rightarrow> string" where
  "secret_serialize lib s = hex_private lib s"

text \<open>Reading a key slices the first 32 bytes, which panics when there are fewer.\<close>

definition secret_deserialize :: "core_lib \<Rightarrow> string \<Rightarrow> (secret_error, vlink_static_secret) result" where
  "secret_deserialize lib key =
     rbind (ok_or BadHex (hex_decode lib key)) (\<lambda>b.
       if length b < 32 then Panic else Ok (secret_of lib (take 32 b)))"

lemma secret_deserialize_serialize:
  assumes "core_laws lib" "length k = 32"
  shows "secret_deserialize lib (secret_serialize lib (secret_of lib k)) = Ok (secret_of lib k)"
  using assms by (simp add: secret_deserialize_def secret_serialize_def hex_private_def core_lawsD secret_of_def)

section \<open>The key file (storage.rs)\<close>

datatype storage_error = DirError | CreateError | WriteError | JsonError

text \<open>The file is its content; \<open>io\<close> says which of creating the directory, creating the file and
  writing succeed.  A file that was created but not written is empty.\<close>

record storage_io =
  io_dir :: bool
  io_create :: bool
  io_write :: bool

definition read_config :: "core_lib \<Rightarrow> string \<Rightarrow> (storage_error, vlink_static_secret) result" where
  "read_config lib txt =
     rbind (ok_or JsonError (secret_of_json lib txt)) (\<lambda>key. map_err (\<lambda>_. JsonError) (secret_deserialize lib key))"

definition load_config ::
    "core_lib \<Rightarrow> storage_io \<Rightarrow> bytes \<Rightarrow> string option \<Rightarrow> string option \<times> (storage_error, vlink_static_secret) result" where
  "load_config lib io rnd file =
     (case file of
        Some txt \<Rightarrow> (file, read_config lib txt)
      | None \<Rightarrow>
          if \<not> io_dir io then (None, Err DirError)
          else if \<not> io_create io then (None, Err CreateError)
          else let config = secret_generate lib rnd; txt = json_of_secret lib (secret_serialize lib config)
               in if \<not> io_write io then (Some '''', Err WriteError) else (Some txt, Ok config))"

text \<open>The key a daemon starts with is the key it keeps: once a start has written the file, every later
  start reads the same pair back.\<close>

lemma load_config_stable:
  assumes "core_laws lib" "length rnd = 32" "load_config lib io rnd None = (file, Ok s)"
  shows "load_config lib io' rnd' file = (file, Ok s)"
proof -
  have "file = Some (json_of_secret lib (secret_serialize lib (secret_of lib rnd)))" "s = secret_of lib rnd"
    using assms(3) by (auto simp: load_config_def Let_def secret_generate_def split: if_splits)
  then show ?thesis
    using assms(1,2) by (simp add: load_config_def read_config_def core_lawsD secret_deserialize_serialize)
qed

section \<open>Masks (utils/network.rs)\<close>

definition leading_zeros :: "u32 \<Rightarrow> nat" where
  "leading_zeros w = length (takeWhile (\<lambda>i. \<not> bit w (31 - i)) [0..<32])"

definition bit_length :: "u32 \<Rightarrow> u8" where
  "bit_length number = 32 - of_nat (leading_zeros number)"

text \<open>The assertion and the subtraction both fail above the width.\<close>

definition bite_mask :: "u8 \<Rightarrow> ('e, u32) result" where
  "bite_mask m = (if m > 32 then Panic else if m = 0 then Ok 0 else Ok (push_bit (unat (32 - m)) (NOT 0)))"

definition bite_mask_u128 :: "u8 \<Rightarrow> ('e, 128 word) result" where
  "bite_mask_u128 m = (if m > 128 then Panic else if m = 0 then Ok 0 else Ok (push_bit (unat (128 - m)) (NOT 0)))"

lemma bite_mask_bit:
  assumes "bite_mask m = Ok w" "i < 32"
  shows "bit w i \<longleftrightarrow> 32 - unat m \<le> i"
proof (cases "m = 0")
  case False
  have m: "m \<le> 32" using assms(1) by (auto simp: bite_mask_def split: if_splits)
  then have "unat (32 - m) = 32 - unat m" by (simp add: unat_sub)
  then show ?thesis using assms m False by (auto simp: bite_mask_def bit_simps split: if_splits)
qed (use assms in \<open>auto simp: bite_mask_def\<close>)

end
