(* ===== verification/Daemon_Client.thy ===== *)
theory Daemon_Client
  imports Abi Vlink_Core
begin

text \<open>
  The daemon's connection to the coordination server (\<open>vlinkd/src/connect.rs\<close>, \<open>client.rs\<close>,
  \<open>network/ctrl.rs\<close>, \<open>error.rs\<close>): numbered messages, requests that wait for their answer, login, the reconnection
  loop and the task that passes the server's messages on.  What the network does (whether a connection
  is made, a message written, which messages come back and how waiting for them ends) are arguments.
\<close>

section \<open>A connection (connect.rs)\<close>

datatype 'm client_error =
    Disconnected | CallTimeout | IoFailed | ReadError | ServerNotConnected | EmptyAnswer | Refused 'm
  | BadServerInfo | BadServerKey | SignFailed | LoginRefused "'m option" | BadLoginAnswer | CtrlClosed

record daemon_conn =
  dn_next :: u64
  dn_connected :: bool
  dn_sent :: "to_server list"

definition conn_new :: daemon_conn where
  "conn_new = \<lparr>dn_next = 0, dn_connected = True, dn_sent = []\<rparr>"

text \<open>The task that writes to the socket: a message without a number gets the next one; the number handed back
  is the counter.\<close>

definition to_server_turn :: "u64 option \<Rightarrow> to_server_data \<Rightarrow> daemon_conn \<Rightarrow> daemon_conn \<times> u64" where
  "to_server_turn id_op data c =
     (let (use_id, n) = (case id_op of Some i \<Rightarrow> (i, dn_next c) | None \<Rightarrow> (dn_next c + 1, dn_next c + 1))
      in (c\<lparr>dn_next := n, dn_sent := dn_sent c @ [\<lparr>ts_id = use_id, ts_data = Some data\<rparr>]\<rparr>, n))"

text \<open>What becomes of a message: written, not written, or no word of it in time (taken by the task or not).\<close>

datatype delivery = Written | NotWritten | Late bool

definition conn_send ::
    "delivery \<Rightarrow> u64 option \<Rightarrow> to_server_data \<Rightarrow> daemon_conn \<Rightarrow> daemon_conn \<times> ('m client_error, u64) result" where
  "conn_send dl id_op data c =
     (if \<not> dn_connected c then (c, Err Disconnected)
      else case dl of
             Written \<Rightarrow> (let (c, n) = to_server_turn id_op data c in (c, Ok n))
           | NotWritten \<Rightarrow> (fst (to_server_turn id_op data c)\<lparr>dn_sent := dn_sent c\<rparr>, Err IoFailed)
           | Late taken \<Rightarrow> ((if taken then fst (to_server_turn id_op data c) else c), Err CallTimeout))"

datatype recv_end = RecvTimeout | RecvClosed

fun await_reply :: "u64 \<Rightarrow> 'm to_client list \<Rightarrow> recv_end \<Rightarrow> ('m client_error, 'm to_client_data option) result" where
  "await_reply i [] e = Err (case e of RecvTimeout \<Rightarrow> CallTimeout | RecvClosed \<Rightarrow> ReadError)"
| "await_reply i (m # ms) e = (if tc_id m = i then Ok (tc_data m) else await_reply i ms e)"

text \<open>A request: \<open>ms\<close> are the messages received from the moment of subscription on.\<close>

definition conn_request ::
    "delivery \<Rightarrow> 'm to_client list \<Rightarrow> recv_end \<Rightarrow> to_server_data \<Rightarrow> daemon_conn \<Rightarrow>
     daemon_conn \<times> ('m client_error, 'm to_client_data option) result" where
  "conn_request dl ms e data c =
     (if \<not> dn_connected c then (c, Err Disconnected)
      else case conn_send dl None data c of
             (c, Ok i) \<Rightarrow> (c, await_reply i ms e)
           | (c, Err er) \<Rightarrow> (c, Err er)
           | (c, Panic) \<Rightarrow> (c, Panic))"

lemma await_reply_not_Panic [simp]: "await_reply i ms e \<noteq> Panic"
  by (induction ms) simp_all

lemma conn_request_written:
  assumes "dn_connected c"
  shows "conn_request Written ms e data c =
    (c\<lparr>dn_next := dn_next c + 1, dn_sent := dn_sent c @ [\<lparr>ts_id = dn_next c + 1, ts_data = Some data\<rparr>]\<rparr>,
     await_reply (dn_next c + 1) ms e)"
  using assms by (simp add: conn_request_def conn_send_def to_server_turn_def)

lemma conn_request_not_Panic [simp]: "snd (conn_request dl ms e data c) \<noteq> Panic"
  by (cases dl) (simp_all add: conn_request_def conn_send_def split_beta)

section \<open>Login (client.rs)\<close>

record handshake_param =
  hp_pub_key :: string
  hp_sign :: string
  hp_token :: "string option"

definition client_handshake ::
    "delivery \<Rightarrow> 'm to_client list \<Rightarrow> recv_end \<Rightarrow> handshake_param \<Rightarrow> daemon_conn \<Rightarrow>
     daemon_conn \<times> ('m client_error, unit) result" where
  "client_handshake dl ms e param c =
     (case conn_request dl ms e (Handshake \<lparr>rh_version = 0, rh_pub_key = hp_pub_key param, rh_token = hp_token param,
             rh_sign = hp_sign param\<rparr>) c of
        (c, Ok (Some (RespHandshake success msg))) \<Rightarrow> (c, if success then Ok () else Err (LoginRefused msg))
      | (c, Ok _) \<Rightarrow> (c, Err BadLoginAnswer)
      | (c, Err er) \<Rightarrow> (c, Err er)
      | (c, Panic) \<Rightarrow> (c, Panic))"

section \<open>Commands to the network manager (network/ctrl.rs)\<close>

datatype 'm network_ctrl_cmd = ReqInfo | ChangeIp | FirstConnected | Connected | ToClientCmd "'m to_client_data"

definition process_cmd :: "'m to_client list \<Rightarrow> 'm network_ctrl_cmd list" where
  "process_cmd ms = concat (map (\<lambda>m. case tc_data m of Some d \<Rightarrow> [ToClientCmd d] | None \<Rightarrow> []) ms)"

section \<open>Reconnection (client.rs, spawn)\<close>

text \<open>One attempt as the network has it: whether the server accepts, the first message that comes in time,
  the fate of the login message, the messages after it, and whether the manager still takes commands.\<close>

record 'm attempt =
  at_tcp :: bool
  at_first :: "'m to_client option"
  at_delivery :: delivery
  at_replies :: "'m to_client list"
  at_end :: recv_end
  at_ctrl :: bool

record 'm reconnect =
  rs_count :: nat
  rs_first :: bool
  rs_conn :: "daemon_conn option"
  rs_cmds :: "'m network_ctrl_cmd list"

definition reconnect_new :: "'m reconnect" where
  "reconnect_new = \<lparr>rs_count = 0, rs_first = True, rs_conn = None, rs_cmds = []\<rparr>"

definition login_param ::
    "core_lib \<Rightarrow> vlink_static_secret \<Rightarrow> 'm to_client option \<Rightarrow> ('m client_error, handshake_param) result" where
  "login_param lib secret first =
     (case Option.bind first tc_data of
        Some (RespServerInfo info) \<Rightarrow>
          rbind (ok_or BadServerKey (Option.bind (decode_base64 lib (si_key info)) try_into_key)) (\<lambda>key.
          rbind (map_err (\<lambda>_. SignFailed) (hello_sign lib key secret)) (\<lambda>sign.
            Ok \<lparr>hp_pub_key = base64_pub lib secret, hp_sign = sign, hp_token = None\<rparr>))
      | _ \<Rightarrow> Err BadServerInfo)"

text \<open>A turn of the loop, which begins once the previous connection has ended: \<open>None\<close> goes on, a result is
  what the loop ended with.\<close>

definition reconnect_turn ::
    "core_lib \<Rightarrow> vlink_static_secret \<Rightarrow> 'm attempt \<Rightarrow> 'm reconnect \<Rightarrow>
     'm reconnect \<times> ('m client_error, unit) result option" where
  "reconnect_turn lib secret a s =
     (let s = s\<lparr>rs_count := rs_count s + 1\<rparr> in
      if \<not> at_tcp a then (s, None)
      else let s = s\<lparr>rs_count := 1\<rparr> in
        case login_param lib secret (at_first a) of
          Err er \<Rightarrow> (s, Some (Err er))
        | Panic \<Rightarrow> (s, Some Panic)
        | Ok param \<Rightarrow>
            (case client_handshake (at_delivery a) (at_replies a) (at_end a) param conn_new of
               (c, Ok _) \<Rightarrow>
                 (let s = s\<lparr>rs_conn := Some c\<rparr> in
                  if \<not> at_ctrl a then (s, Some (Err CtrlClosed))
                  else (s\<lparr>rs_cmds := rs_cmds s @ (if rs_first s then [FirstConnected] else []) @ [Connected],
                          rs_first := False\<rparr>, None))
             | (c, Err er) \<Rightarrow> (s, Some (Ok ()))
             | (c, Panic) \<Rightarrow> (s, Some Panic)))"

fun reconnect_loop ::
    "core_lib \<Rightarrow> vlink_static_secret \<Rightarrow> 'm attempt list \<Rightarrow> 'm reconnect \<Rightarrow>
     'm reconnect \<times> ('m client_error, unit) result option" where
  "reconnect_loop lib secret [] s = (s, None)"
| "reconnect_loop lib secret (a # as) s =
     (case reconnect_turn lib secret a s of
        (s, None) \<Rightarrow> reconnect_loop lib secret as s
      | (s, Some r) \<Rightarrow> (s, Some r))"

section \<open>Requests of the daemon (client.rs)\<close>

definition get_conn :: "daemon_conn option \<Rightarrow> ('m client_error, daemon_conn) result" where
  "get_conn conn = ok_or ServerNotConnected conn"

definition client_request ::
    "delivery \<Rightarrow> 'm to_client list \<Rightarrow> recv_end \<Rightarrow> to_server_data \<Rightarrow> daemon_conn option \<Rightarrow>
     daemon_conn option \<times> ('m client_error, 'm to_client_data) result" where
  "client_request dl ms e data conn =
     (case get_conn conn of
        Ok c \<Rightarrow>
          (let (c, r) = conn_request dl ms e data c
           in (Some c, rbind r (\<lambda>answer. rbind (ok_or EmptyAnswer answer) (\<lambda>d.
                case d of ErrorTC code m \<Rightarrow> Err (Refused m) | _ \<Rightarrow> Ok d))))
      | Err er \<Rightarrow> (conn, Err er)
      | Panic \<Rightarrow> (conn, Panic))"

definition daemon_send ::
    "delivery \<Rightarrow> to_server_data \<Rightarrow> daemon_conn option \<Rightarrow> daemon_conn option \<times> ('m client_error, u64) result" where
  "daemon_send dl data conn =
     (case get_conn conn of
        Ok c \<Rightarrow> (let (c, r) = conn_send dl None data c in (Some c, r))
      | Err er \<Rightarrow> (conn, Err er)
      | Panic \<Rightarrow> (conn, Panic))"

definition forward_to ::
    "delivery \<Rightarrow> string \<Rightarrow> require_reply \<Rightarrow> daemon_conn option \<Rightarrow> daemon_conn option \<times> ('m client_error, u64) result" where
  "forward_to dl dst data conn =
     daemon_send dl (PeerForward \<lparr>pf_target_pub_key = dst, pf_data = Some data\<rparr>) conn"

section \<open>Reaching the server\<close>

lemma reconnect_no_tcp:
  "\<not> at_tcp a \<Longrightarrow> reconnect_turn lib secret a s = (s\<lparr>rs_count := rs_count s + 1\<rparr>, None)"
  by (simp add: reconnect_turn_def)

lemma reconnect_skip:
  assumes "\<forall>a \<in> set as. \<not> at_tcp a"
  shows "reconnect_loop lib secret (as @ bs) s =
    reconnect_loop lib secret bs (s\<lparr>rs_count := rs_count s + length as\<rparr>)"
  using assms by (induction as arbitrary: s) (simp_all add: reconnect_no_tcp)

text \<open>A server that works: it accepts, names a key of 32 bytes, the daemon can sign for it, and the
  first message it sends under the number of the login accepts it.\<close>

definition good_attempt :: "core_lib \<Rightarrow> vlink_static_secret \<Rightarrow> 'm attempt \<Rightarrow> bool" where
  "good_attempt lib secret a \<longleftrightarrow>
     at_tcp a \<and> at_ctrl a \<and> at_delivery a = Written \<and>
     (\<exists>param. login_param lib secret (at_first a) = Ok param) \<and>
     (\<exists>ms m ms' t. at_replies a = ms @ m # ms' \<and> (\<forall>m' \<in> set ms. tc_id m' \<noteq> 1) \<and> tc_id m = 1 \<and>
        tc_data m = Some (RespHandshake True t))"

lemma await_reply_first:
  "\<forall>m' \<in> set ms. tc_id m' \<noteq> i \<Longrightarrow> tc_id m = i \<Longrightarrow> await_reply i (ms @ m # ms') e = Ok (tc_data m)"
  by (induction ms) simp_all

lemma good_turn:
  assumes "good_attempt lib secret a"
  obtains c where "reconnect_turn lib secret a s =
      (s\<lparr>rs_count := 1, rs_conn := Some c, rs_cmds := rs_cmds s @ (if rs_first s then [FirstConnected] else []) @ [Connected],
         rs_first := False\<rparr>, None)"
    "dn_connected c" "dn_next c = 1" "length (dn_sent c) = 1"
    "\<exists>rh. ts_data (dn_sent c ! 0) = Some (Handshake rh) \<and> rh_pub_key rh = base64_pub lib secret"
proof -
  obtain param where p: "login_param lib secret (at_first a) = Ok param" using assms by (auto simp: good_attempt_def)
  obtain ms m ms' t where r: "at_replies a = ms @ m # ms'" "\<forall>m' \<in> set ms. tc_id m' \<noteq> 1" "tc_id m = 1"
    "tc_data m = Some (RespHandshake True t)" using assms by (auto simp: good_attempt_def)
  have key: "hp_pub_key param = base64_pub lib secret"
    using p by (auto simp: login_param_def result_simps split: option.splits to_client_data.splits)
  let ?rh = "\<lparr>rh_version = 0, rh_pub_key = hp_pub_key param, rh_token = hp_token param, rh_sign = hp_sign param\<rparr>"
  let ?c = "conn_new\<lparr>dn_next := 1, dn_sent := [\<lparr>ts_id = 1, ts_data = Some (Handshake ?rh)\<rparr>]\<rparr>"
  have "await_reply 1 (at_replies a) (at_end a) = Ok (Some (RespHandshake True t))"
    using await_reply_first [OF r(2,3), of ms' "at_end a"] r(1,4) by simp
  then have "client_handshake (at_delivery a) (at_replies a) (at_end a) param conn_new = (?c, Ok ())"
    using assms by (simp add: client_handshake_def conn_request_written good_attempt_def conn_new_def)
  then have "reconnect_turn lib secret a s =
      (s\<lparr>rs_count := 1, rs_conn := Some ?c, rs_cmds := rs_cmds s @ (if rs_first s then [FirstConnected] else []) @ [Connected],
         rs_first := False\<rparr>, None)"
    using assms p by (simp add: reconnect_turn_def good_attempt_def)
  then show ?thesis by (rule that) (simp_all add: conn_new_def key)
qed

lemma reconnect_up:
  fixes a :: "'m attempt"
  assumes "\<forall>a \<in> set down. \<not> at_tcp a" "good_attempt lib secret a"
  obtains s c m rh where "reconnect_loop lib secret (down @ [a]) reconnect_new = (s, None)" "rs_conn s = Some c" "dn_connected c"
    "dn_next c = 1" "rs_cmds s = [FirstConnected, Connected]" "dn_sent c = [m]" "ts_data m = Some (Handshake rh)"
    "rh_pub_key rh = base64_pub lib secret"
proof -
  let ?s = "reconnect_new\<lparr>rs_count := rs_count (reconnect_new :: 'm reconnect) + length down\<rparr> :: 'm reconnect"
  obtain c where turn: "reconnect_turn lib secret a ?s = (?s\<lparr>rs_count := 1, rs_conn := Some c,
      rs_cmds := rs_cmds ?s @ (if rs_first ?s then [FirstConnected] else []) @ [Connected], rs_first := False\<rparr>, None)"
    "dn_connected c" "dn_next c = 1" "length (dn_sent c) = 1"
    "\<exists>rh. ts_data (dn_sent c ! 0) = Some (Handshake rh) \<and> rh_pub_key rh = base64_pub lib secret"
    by (rule good_turn [OF assms(2)])
  obtain m where m: "dn_sent c = [m]" using turn(4) by (cases "dn_sent c") simp_all
  then obtain rh where "ts_data m = Some (Handshake rh)" "rh_pub_key rh = base64_pub lib secret"
    using turn(5) by auto
  with that [of _ c] show ?thesis
    using turn(1-3) m by (simp add: reconnect_skip [OF assms(1)] reconnect_new_def)
qed

text \<open>The daemon reaches the server.  However many attempts find no server, it tries again, and the first
  attempt that does find a working one leaves it connected: it has sent its login, the manager has
  been told of the first connection and of the connection, and the loop is still running.\<close>

theorem reconnect_reaches_server:
  fixes a :: "'m attempt"
  assumes "\<forall>a \<in> set down. \<not> at_tcp a" "good_attempt lib secret a"
  shows "\<exists>s c rh. reconnect_loop lib secret (down @ [a]) reconnect_new = (s, None)
    \<and> rs_conn s = Some c \<and> dn_connected c \<and> rs_cmds s = [FirstConnected, Connected]
    \<and> map ts_data (dn_sent c) = [Some (Handshake rh)] \<and> rh_pub_key rh = base64_pub lib secret"
  by (rule reconnect_up [OF assms]) (auto intro!: exI)

text \<open>One failed login ends reconnection for good.  When the server accepts a connection but its first
  message does not come in time or is not its key, or the login is not answered with an acceptance, the
  loop ends and with it the client's tasks: no later attempt is made, whatever the server does.\<close>

theorem reconnect_gives_up:
  assumes "at_tcp a"
    and "login_param lib secret (at_first a) = Err e \<or>
      (\<exists>param. login_param lib secret (at_first a) = Ok param \<and>
        (\<forall>t. await_reply 1 (at_replies a) (at_end a) \<noteq> Ok (Some (RespHandshake True t))))"
  shows "\<exists>s' r. r \<noteq> Panic \<and> rs_conn s' = rs_conn s \<and> rs_cmds s' = rs_cmds s
    \<and> (\<forall>later. reconnect_loop lib secret (a # later) s = (s', Some r))"
proof (cases "login_param lib secret (at_first a)")
  case (Err e')
  then show ?thesis using assms(1)
    by (intro exI [of _ "s\<lparr>rs_count := 1\<rparr>"] exI [of _ "Err e'"]) (simp add: reconnect_turn_def)
next
  case (Ok param)
  let ?hs = "client_handshake (at_delivery a) (at_replies a) (at_end a) param conn_new"
  let ?data = "Handshake \<lparr>rh_version = 0, rh_pub_key = hp_pub_key param, rh_token = hp_token param, rh_sign = hp_sign param\<rparr>"
  obtain c r where cr: "conn_request (at_delivery a) (at_replies a) (at_end a) ?data conn_new = (c, r)" by force
  have "r \<noteq> Ok (Some (RespHandshake True t))" for t
    using cr assms(2) Ok
    by (cases "at_delivery a") (auto simp: conn_request_def conn_send_def to_server_turn_def conn_new_def)
  moreover have "r \<noteq> Panic" using cr conn_request_not_Panic [of "at_delivery a" "at_replies a" "at_end a" ?data conn_new] by simp
  ultimately have "\<exists>e'. ?hs = (c, Err e')"
    using cr by (auto simp: client_handshake_def split: result.split option.split to_client_data.split)
  then show ?thesis using Ok assms(1)
    by (intro exI [of _ "s\<lparr>rs_count := 1\<rparr>"] exI [of _ "Ok ()"]) (auto simp: reconnect_turn_def)
next
  case Panic
  then show ?thesis using assms(2) by simp
qed

section \<open>Numbers of messages\<close>

text \<open>A request takes the first message with its number for its answer, whatever it is.  A notification the server
  has numbered by its own counter, when that counter has the value of the request's number, is returned
  in place of the answer that follows.\<close>

lemma request_takes_colliding_message:
  assumes "dn_connected c" "\<forall>m \<in> set ms. tc_id m \<noteq> dn_next c + 1"
    and "tc_id notice = dn_next c + 1" "tc_data notice = Some d" "\<forall>code t. d \<noteq> ErrorTC code t"
  shows "snd (client_request Written (ms @ notice # answer # ms') e data (Some c)) = Ok d"
proof -
  have "await_reply (dn_next c + 1) (ms @ notice # answer # ms') e = Ok (Some d)"
    using await_reply_first [OF assms(2,3)] assms(4) by simp
  moreover have "(case d of ErrorTC code m \<Rightarrow> Err (Refused m) | _ \<Rightarrow> Ok d) = Ok d"
    using assms(5) by (cases d) simp_all
  ultimately show ?thesis using assms(1) by (simp add: client_request_def get_conn_def conn_request_written)
qed

section \<open>A small world\<close>

text \<open>An instance of the parameters: characters for bytes, and no cryptography.\<close>

definition plain_core :: core_lib where
  "plain_core = \<lparr>b64_encode = map (\<lambda>b. char_of (unat b)), b64_decode = (\<lambda>s. Some (map of_char s)),
     hex_encode = map (\<lambda>b. char_of (unat b)), hex_decode = (\<lambda>s. Some (map of_char s)), secret_pub = rev,
     salsa_seal = (\<lambda>pk sk n m. Some m), json_of_secret = (\<lambda>s. s), secret_of_json = Some\<rparr>"

lemma of_char_char_of_u8 [simp]: "of_char (char_of (unat b)) = (b :: u8)"
proof -
  have "of_char (char_of (unat b)) = (of_nat (of_char (char_of (unat b))) :: u8)" by (simp only: of_nat_of_char)
  also have "\<dots> = of_nat (unat b mod 256)" by (simp only: of_char_of)
  also have "\<dots> = b" using unsigned_less [of b, where ?'a = nat] by simp
  finally show ?thesis .
qed

lemma plain_core_laws: "core_laws plain_core"
  by (simp add: core_laws_def plain_core_def comp_def)

definition plain_keys :: vlink_static_secret where
  "plain_keys = secret_of plain_core (replicate 32 1)"

definition plain_attempt :: "bool \<Rightarrow> string attempt" where
  "plain_attempt accepts = \<lparr>at_tcp = True,
     at_first = Some \<lparr>tc_id = 1, tc_data = Some (RespServerInfo
       \<lparr>si_version = ''1.0.0'', si_key = replicate 32 CHR ''K'', si_desc = None\<rparr>)\<rparr>,
     at_delivery = Written,
     at_replies = [\<lparr>tc_id = 1, tc_data = Some (RespHandshake accepts None)\<rparr>], at_end = RecvTimeout, at_ctrl = True\<rparr>"

definition plain_down :: "string attempt" where
  "plain_down = (plain_attempt True)\<lparr>at_tcp := False\<rparr>"

lemma plain_login: "\<exists>param. login_param plain_core plain_keys (at_first (plain_attempt b)) = Ok param"
  by (simp add: login_param_def plain_attempt_def plain_core_def decode_base64_def try_into_key_def hello_sign_def)

lemma plain_good: "good_attempt plain_core plain_keys (plain_attempt True)"
  unfolding good_attempt_def
proof (intro conjI)
  show "\<exists>ms m ms' t. at_replies (plain_attempt True) = ms @ m # ms' \<and> (\<forall>m' \<in> set ms. tc_id m' \<noteq> 1) \<and> tc_id m = 1 \<and>
      tc_data m = Some (RespHandshake True t)"
    by (rule exI [of _ "[]"], simp add: plain_attempt_def)
qed (use plain_login in \<open>simp_all add: plain_attempt_def\<close>)

theorem reconnect_reaches_server_witness:
  "\<exists>s c. reconnect_loop plain_core plain_keys ([plain_down, plain_down] @ [plain_attempt True]) reconnect_new = (s, None)
    \<and> rs_conn s = Some c \<and> dn_connected c \<and> rs_cmds s = [FirstConnected, Connected]"
  using reconnect_reaches_server [of "[plain_down, plain_down]", OF _ plain_good]
  by (auto simp: plain_down_def)

theorem reconnect_gives_up_witness:
  "\<exists>s' r. r \<noteq> Panic \<and> rs_conn s' = None
    \<and> (\<forall>later. reconnect_loop plain_core plain_keys (plain_attempt False # later) reconnect_new = (s', Some r))"
proof -
  have "\<forall>t. await_reply 1 (at_replies (plain_attempt False)) (at_end (plain_attempt False)) \<noteq> Ok (Some (RespHandshake True t))"
    by (simp add: plain_attempt_def)
  then show ?thesis
    using reconnect_gives_up [of "plain_attempt False" plain_core plain_keys _ reconnect_new] plain_login [of False]
    by (fastforce simp: plain_attempt_def reconnect_new_def)
qed

end
