(* ===== verification/Login.thy ===== *)
theory Login
  imports Headlink_Steps Daemon_Client
begin

text \<open>
  Daemon and coordination server together, up to the end of the login: how the server gets the key it greets with
  (\<open>VlinkServer::new\<close> in \<open>headlink/src/server.rs\<close>), the tasks that read messages from a connection on both sides
  (\<open>headlink/src/client.rs\<close>, \<open>vlinkd/src/connect.rs\<close>), and the exchange greeting, login, answer.
\<close>

section \<open>The key of the server (server.rs)\<close>

text \<open>The configuration table of the database, and JSON of a single string.\<close>

record 'd config_table =
  ct_find :: "'d \<Rightarrow> string \<Rightarrow> (string, string option) result"
  ct_insert :: "'d \<Rightarrow> string \<Rightarrow> string \<Rightarrow> (string, 'd) result"
  ct_to_json :: "string \<Rightarrow> string"
  ct_of_json :: "string \<Rightarrow> string option"

definition SECRET_KEY :: string where
  "SECRET_KEY = ''secret''"

datatype server_start_error = ConfigDbErr string | ConfigJsonErr

definition vlink_server_new ::
    "core_lib \<Rightarrow> 'd config_table \<Rightarrow> bytes \<Rightarrow> 'd \<Rightarrow> (server_start_error, vlink_static_secret \<times> ('n, 'd) server) result" where
  "vlink_server_new cl ct rnd d =
     rbind (map_err ConfigDbErr (ct_find ct d SECRET_KEY)) (\<lambda>found.
     rbind (case found of
              None \<Rightarrow>
                (let secret = secret_generate cl rnd; secret_str = ct_to_json ct (secret_serialize cl secret)
                 in rbind (map_err ConfigDbErr (ct_insert ct d SECRET_KEY secret_str)) (\<lambda>d'. Ok (secret, d')))
            | Some value \<Rightarrow>
                rbind (ok_or ConfigJsonErr (ct_of_json ct value)) (\<lambda>key.
                rbind (map_err (\<lambda>_. ConfigJsonErr) (secret_deserialize cl key)) (\<lambda>s. Ok (s, d)))) (\<lambda>(secret, d').
       Ok (secret, server_new (base64_pub cl secret) d')))"

text \<open>What is relied on: JSON of a string is read back, a row that was inserted is the row that is found as long as queries
  succeed, and storing the address of a peer leaves the configuration table alone.\<close>

definition stored :: "'d config_table \<Rightarrow> string \<Rightarrow> string \<Rightarrow> 'd \<Rightarrow> bool" where
  "stored ct k v d \<longleftrightarrow> (\<forall>r. ct_find ct d k = Ok r \<longrightarrow> r = Some v)"

definition config_laws :: "'d config_table \<Rightarrow> 'd db \<Rightarrow> bool" where
  "config_laws ct lib \<longleftrightarrow>
     (\<forall>s. ct_of_json ct (ct_to_json ct s) = Some s) \<and>
     (\<forall>d k v d'. ct_insert ct d k v = Ok d' \<longrightarrow> stored ct k v d') \<and>
     (\<forall>d i ip d' k v. update_peer_ip lib d i ip = Ok d' \<longrightarrow> stored ct k v d \<longrightarrow> stored ct k v d')"

lemma config_lawsD:
  assumes "config_laws ct lib"
  shows "ct_of_json ct (ct_to_json ct s) = Some s" "ct_insert ct d k v = Ok d' \<Longrightarrow> stored ct k v d'"
    "update_peer_ip lib d i ip = Ok d' \<Longrightarrow> stored ct k v d \<Longrightarrow> stored ct k v d'"
  using assms unfolding config_laws_def by blast+

subsection \<open>A start leaves its key in the table\<close>

definition holds_key :: "core_lib \<Rightarrow> 'd config_table \<Rightarrow> vlink_static_secret \<Rightarrow> 'd \<Rightarrow> bool" where
  "holds_key cl ct secret d \<longleftrightarrow> (\<exists>v key. stored ct SECRET_KEY v d \<and> ct_of_json ct v = Some key \<and> secret_deserialize cl key = Ok secret)"

lemma server_new_holds_key:
  assumes "core_laws cl" "config_laws ct lib" "length rnd = 32" "vlink_server_new cl ct rnd d = Ok (secret, sv)"
  shows "holds_key cl ct secret (sv_db sv)" "sv_key sv = base64_pub cl secret" "sv = server_new (sv_key sv) (sv_db sv)"
proof -
  obtain found where f: "ct_find ct d SECRET_KEY = Ok found"
    using assms(4) by (auto simp: vlink_server_new_def result_simps)
  have "holds_key cl ct secret (sv_db sv) \<and> sv_key sv = base64_pub cl secret \<and> sv = server_new (sv_key sv) (sv_db sv)"
  proof (cases found)
    case None
    then obtain d' where d': "ct_insert ct d SECRET_KEY (ct_to_json ct (secret_serialize cl secret)) = Ok d'"
        "secret = secret_of cl rnd" "sv = server_new (base64_pub cl secret) d'"
      using assms(4) f by (auto simp: vlink_server_new_def result_simps Let_def secret_generate_def)
    have "stored ct SECRET_KEY (ct_to_json ct (secret_serialize cl secret)) d'"
      "ct_of_json ct (ct_to_json ct (secret_serialize cl secret)) = Some (secret_serialize cl secret)"
      "secret_deserialize cl (secret_serialize cl secret) = Ok secret"
      using config_lawsD [OF assms(2)] d' secret_deserialize_serialize [OF assms(1,3)] by auto
    then have "holds_key cl ct secret d'" unfolding holds_key_def by blast
    then show ?thesis by (simp add: d'(3) server_new_def)
  next
    case (Some v)
    then show ?thesis using assms(4) f
      by (auto simp: vlink_server_new_def result_simps holds_key_def stored_def server_new_def)
  qed
  then show "holds_key cl ct secret (sv_db sv)" "sv_key sv = base64_pub cl secret" "sv = server_new (sv_key sv) (sv_db sv)"
    by blast+
qed

lemma server_new_reads_key:
  assumes "holds_key cl ct secret d" "ct_find ct d SECRET_KEY = Ok r"
  shows "vlink_server_new cl ct rnd d = Ok (secret, server_new (base64_pub cl secret) d)"
  using assms by (auto simp: holds_key_def stored_def vlink_server_new_def)

section \<open>The running server and its database\<close>

text \<open>The only write of the running server is the address of a peer, so what such writes keep, every step keeps.\<close>

lemma get_network_db [simp]: "sv_db (fst (get_network lib nl n sv)) = sv_db sv"
  by (cases rule: get_network_cases [of sv n lib nl]) simp_all

lemma get_network_db': "get_network lib nl n sv = (sv', r) \<Longrightarrow> sv_db sv' = sv_db sv"
  using get_network_db [of lib nl n sv] by simp

lemma client_send_db': "client_send c i data sv = (sv', r) \<Longrightarrow> sv_db sv' = sv_db sv"
  using client_send_fields(5) [of c i data sv] by simp

lemma network_offline_db [simp]: "sv_db (network_offline n k sv) = sv_db sv"
  by (simp add: network_offline_def Let_def on_peers_def broadcast_def split: option.split)

lemma set_client_id_db: "set_client_id c cid sv = (sv', r) \<Longrightarrow> sv_db sv' = sv_db sv"
  by (auto simp: set_client_id_def split: option.splits)

lemma login_network_db: "login_network lib nl data sv = (sv', r) \<Longrightarrow> sv_db sv' = sv_db sv"
  by (auto simp: login_network_def dest!: get_network_db' split: option.splits result.splits prod.splits if_splits)

lemma login_peer_db: "login_peer lib nl c cid sv = (sv', r) \<Longrightarrow> sv_db sv' = sv_db sv"
  by (auto simp: login_peer_def dest!: get_network_db' set_client_id_db split: option.splits result.splits prod.splits if_splits)

lemma handshake0_db: "handshake0 lib nl c msg sv = (sv', r) \<Longrightarrow> sv_db sv' = sv_db sv"
  by (auto simp: handshake0_def dest!: login_network_db login_peer_db
      split: option.splits to_server_data.splits result.splits prod.splits)

lemma srv_await_handshake_db: "srv_await_handshake lib nl c first sv = (sv', r) \<Longrightarrow> sv_db sv' = sv_db sv"
  by (auto simp: srv_await_handshake_def dest!: handshake0_db client_send_db'
      split: first_msg.splits result.splits prod.splits)

lemma process_login_db: "process_login lib nl c first sv = (sv', r) \<Longrightarrow> sv_db sv' = sv_db sv"
  by (auto simp: process_login_def dest!: srv_await_handshake_db get_network_db' split: result.splits prod.splits)

lemma client_end_db [simp]: "sv_db (client_end lib nl c sv) = sv_db sv"
  by (auto simp: client_end_def remove_client_def Let_def dest!: get_network_db' split: option.splits result.splits prod.splits)

definition keeps :: "('d \<Rightarrow> bool) \<Rightarrow> ('n, 'd) server \<Rightarrow> ('n, 'd) server \<Rightarrow> bool" where
  "keeps P sv sv' \<longleftrightarrow> (P (sv_db sv) \<longrightarrow> P (sv_db sv'))"

lemma keeps_same: "sv_db sv' = sv_db sv \<Longrightarrow> keeps P sv sv'"
  by (simp add: keeps_def)

lemma with_network_keeps:
  assumes "\<And>nw sv'. keeps P sv' (fst (f nw sv'))"
  shows "keeps P sv (fst (with_network lib nl ctx sv f))"
proof -
  obtain sv1 r where g: "get_network lib nl (id_network (rx_client_id ctx)) sv = (sv1, r)"
    by (cases "get_network lib nl (id_network (rx_client_id ctx)) sv")
  then show ?thesis
    using assms get_network_db' [OF g] by (cases r) (simp_all add: with_network_def keeps_def)
qed

lemma send_resp_db: "sv_db (fst (send_resp ctx m sv)) = sv_db sv"
  by (simp add: send_resp_def split_beta Let_def)

lemma config_answer_db: "sv_db (fst (config_answer lib nl ctx self peers ip sv)) = sv_db sv"
  by (auto simp: config_answer_def send_resp_db split: result.split option.split)

definition survives_writes :: "'d db \<Rightarrow> ('d \<Rightarrow> bool) \<Rightarrow> bool" where
  "survives_writes lib P \<longleftrightarrow> (\<forall>d i ip d'. update_peer_ip lib d i ip = Ok d' \<longrightarrow> P d \<longrightarrow> P d')"

lemma store_ip_keeps: "survives_writes lib P \<Longrightarrow> keeps P sv (fst (store_ip lib n self ip sv))"
  by (cases "update_peer_ip lib (sv_db sv) (pm_id (vp_model self)) (ipv4_text ip)")
    (auto simp: store_ip_def keeps_def on_peers_def survives_writes_def)

lemma req_config_keeps:
  assumes "survives_writes lib P"
  shows "keeps P sv (fst (req_config_exec lib nl ctx sv))"
  unfolding req_config_exec_def
proof (rule with_network_keeps, goal_cases)
  case (1 nw sv')
  let ?n = "id_network (rx_client_id ctx)"
  have "keeps P sv' (fst (case (if fresh then store_ip lib ?n self ip sv' else (sv', Ok ())) of
      (sv, Ok _) \<Rightarrow> config_answer lib nl ctx self peers ip sv | (sv, Err e) \<Rightarrow> (sv, Err e) | (sv, Panic) \<Rightarrow> (sv, Panic)))"
    for fresh self ip peers
  proof -
    obtain sv1 r where st: "(if fresh then store_ip lib ?n self ip sv' else (sv', Ok ())) = (sv1, r)"
      by (cases "if fresh then store_ip lib ?n self ip sv' else (sv', Ok ())")
    have "keeps P sv' sv1" using store_ip_keeps [OF assms, of sv' ?n self ip] st by (auto simp: keeps_def split: if_splits)
    then show ?thesis unfolding st by (cases r) (simp_all add: keeps_def config_answer_db)
  qed
  then show ?case by (auto simp: Let_def keeps_same split: option.split result.split)
qed

lemma handlers_keep:
  "keeps P sv (fst (dev_handshake_complete_exec lib nl ctx d sv))" "keeps P sv (fst (peer_enter_exec lib nl ctx e sv))"
  "keeps P sv (fst (peer_forward_exec lib nl ctx f sv))" "keeps P sv (fst (peer_leave_exec lib nl ctx sv))"
  "keeps P sv (fst (extra_endpoint_exec lib nl ctx x sv))"
  unfolding dev_handshake_complete_exec_def peer_enter_exec_def peer_forward_exec_def peer_leave_exec_def
    extra_endpoint_exec_def
  by (rule with_network_keeps; auto simp: Let_def split_beta keeps_same on_peers_def broadcast_def broadcast_to_def
        split: option.split)+

lemma process_request_keeps:
  assumes "survives_writes lib P" "process_request lib nl cid c msg sv = (sv', r)" "P (sv_db sv)"
  shows "P (sv_db sv')"
proof -
  have d: "keeps P sv (fst (dispatch lib nl ctx data sv))" for ctx data
    using req_config_keeps [OF assms(1)] handlers_keep by (cases data) (simp_all add: dispatch_def keeps_same)
  show ?thesis
  proof (cases "ts_data msg")
    case (Some data)
    obtain sv1 r1 where s: "dispatch lib nl \<lparr>rx_id = ts_id msg, rx_client_id = cid, rx_client = c\<rparr> data sv = (sv1, r1)"
      by (rule prod.exhaust)
    then have "P (sv_db sv1)" using d [of "\<lparr>rx_id = ts_id msg, rx_client_id = cid, rx_client = c\<rparr>" data] assms(3) by (simp add: keeps_def)
    then show ?thesis using assms(2) Some s by (cases r1) (auto simp: process_request_def dest: client_send_db')
  qed (use assms(2,3) in \<open>simp add: process_request_def\<close>)
qed

lemma srv_step_keeps:
  assumes "srv_step lib nl s s'" "survives_writes lib P" "P (sv_db (fst s))"
  shows "P (sv_db (fst s'))"
  using assms(1,3)
  by (cases rule: srv_step.cases)
    (auto simp: client_accept_def insert_client_def dest: process_login_db process_request_keeps [OF assms(2)])

lemma srv_steps_keep:
  assumes "(srv_step lib nl)\<^sup>*\<^sup>* s s'" "survives_writes lib P" "P (sv_db (fst s))"
  shows "P (sv_db (fst s'))"
  using assms(1,3) by (induction rule: rtranclp_induct) (auto intro: srv_step_keeps [OF _ assms(2)])

lemma key_survives_writes: "config_laws ct lib \<Longrightarrow> survives_writes lib (holds_key cl ct secret)"
  unfolding survives_writes_def holds_key_def by (meson config_lawsD(3))

text \<open>C7: The server keeps its identity.  Whatever key a start comes up with, read from the database or drawn and
  inserted there, a restart on the database as any run of the server has left it comes up with the same key pair and
  greets with the same public key, provided the database answers the one query it makes.\<close>

theorem server_identity_kept:
  fixes sv sv' :: "('n, 'd) server"
  assumes "core_laws cl" "config_laws ct lib" "length rnd = 32"
    and "vlink_server_new cl ct rnd d = Ok (secret, sv)"
    and "(srv_step lib nl)\<^sup>*\<^sup>* (sv, Map.empty) (sv', ts)" "ct_find ct (sv_db sv') SECRET_KEY = Ok r"
  shows "vlink_server_new cl ct rnd' (sv_db sv') = Ok (secret, server_new (sv_key sv) (sv_db sv') :: ('n, 'd) server)"
proof -
  note new = server_new_holds_key [OF assms(1-4)]
  have "holds_key cl ct secret (sv_db sv')"
    using srv_steps_keep [OF assms(5) key_survives_writes [OF assms(2)]] new(1) by simp
  then show ?thesis using server_new_reads_key [OF _ assms(6)] new(2) by simp
qed

section \<open>Reading a connection (client.rs, connect.rs)\<close>

text \<open>The encoding of crate \<open>prost\<close>, for the messages in both directions, into frames \<open>'w\<close>.\<close>

record ('w, 'm) abi_codec =
  cd_encode_server :: "to_server \<Rightarrow> 'w"
  cd_decode_server :: "'w \<Rightarrow> to_server option"
  cd_encode_client :: "'m to_client \<Rightarrow> 'w"
  cd_decode_client :: "'w \<Rightarrow> 'm to_client option"

definition codec_laws :: "('w, 'm) abi_codec \<Rightarrow> bool" where
  "codec_laws cd \<longleftrightarrow> (\<forall>m. cd_decode_server cd (cd_encode_server cd m) = Some m) \<and>
     (\<forall>m. cd_decode_client cd (cd_encode_client cd m) = Some m)"

text \<open>What the framed stream yields until it ends: a frame, or a read error (\<open>None\<close>), which ends the loop like the end of
  the stream does.  The task passes on what it decodes; a frame that does not decode is an error.\<close>

fun srv_recv_handler :: "('w, 'm) abi_codec \<Rightarrow> 'w option list \<Rightarrow> to_server list \<times> (unit, unit) result" where
  "srv_recv_handler cd (Some b # fs) =
     (case cd_decode_server cd b of
        None \<Rightarrow> ([], Err ())
      | Some m \<Rightarrow> (let (ms, r) = srv_recv_handler cd fs in (m # ms, r)))"
| "srv_recv_handler cd _ = ([], Ok ())"

fun conn_recv_handler :: "('w, 'm) abi_codec \<Rightarrow> 'w option list \<Rightarrow> 'm to_client list \<times> (unit, unit) result" where
  "conn_recv_handler cd (Some b # fs) =
     (case cd_decode_client cd b of
        None \<Rightarrow> ([], Err ())
      | Some m \<Rightarrow> (let (ms, r) = conn_recv_handler cd fs in (m # ms, r)))"
| "conn_recv_handler cd _ = ([], Ok ())"

text \<open>Either task ending ends the connection of the daemon.\<close>

definition conn_event_loop_end :: "daemon_conn \<Rightarrow> daemon_conn" where
  "conn_event_loop_end c = c\<lparr>dn_connected := False\<rparr>"

lemma srv_recv_all:
  "codec_laws cd \<Longrightarrow> srv_recv_handler cd (map (Some \<circ> cd_encode_server cd) ms @ rest) =
     (let (ms', r) = srv_recv_handler cd rest in (ms @ ms', r))"
  by (induction ms) (simp_all add: codec_laws_def split_beta)

lemma conn_recv_all:
  "codec_laws cd \<Longrightarrow> conn_recv_handler cd (map (Some \<circ> cd_encode_client cd) ms @ rest) =
     (let (ms', r) = conn_recv_handler cd rest in (ms @ ms', r))"
  by (induction ms) (simp_all add: codec_laws_def split_beta)

lemma disconnected_refuses: "conn_send dl i data (conn_event_loop_end c) = (conn_event_loop_end c, Err Disconnected)"
  by (simp add: conn_send_def conn_event_loop_end_def)

section \<open>The login exchange\<close>

text \<open>What the server has written to a connection, numbered.\<close>

definition written_to :: "nat \<Rightarrow> ('n, 'd) server \<Rightarrow> server_text to_client list" where
  "written_to i sv = map fst (to_client_handler 0 (map snd (filter (\<lambda>x. fst x = i) (sv_out sv))))"

text \<open>Whom the server lets in without a token: a registered key whose network loads and which is not online there.\<close>

definition admits :: "'d db \<Rightarrow> 'n net4 \<Rightarrow> string \<Rightarrow> ('n, 'd) server \<Rightarrow> int \<Rightarrow> bool" where
  "admits lib nl k sv n \<longleftrightarrow> (\<exists>m nw. find_peer lib (sv_db sv) k = Ok (Some m) \<and> n = pm_network_id m \<and>
     snd (get_network lib nl n sv) = Ok nw \<and> (\<forall>p. rw_get (nw_peers nw) k = Some p \<longrightarrow> \<not> is_online p))"

lemma get_network_update [simp]:
  "get_network lib nl n (sv\<lparr>sv_out := out\<rparr>) = (let (sv', r) = get_network lib nl n sv in (sv'\<lparr>sv_out := out\<rparr>, r))"
  "get_network lib nl n (sv\<lparr>sv_ids := ids\<rparr>) = (let (sv', r) = get_network lib nl n sv in (sv'\<lparr>sv_ids := ids\<rparr>, r))"
  by (simp_all add: get_network_def split: option.split result.split)

lemma get_network_keeps:
  "get_network lib nl n sv = (sv', r) \<Longrightarrow> sv_out sv' = sv_out sv \<and> sv_open sv' = sv_open sv \<and> sv_ids sv' = sv_ids sv"
  by (cases rule: get_network_cases [of sv n lib nl]) auto

text \<open>The login without a token: it succeeds for exactly the admitted keys, writes nothing, and leaves the network loaded.\<close>

lemma handshake0_no_token:
  assumes "db_safe lib" "ts_data msg = Some (Handshake data)" "rh_token data = None" "rw_get (sv_ids sv) (co_id c) = None"
    and "handshake0 lib nl c msg sv = (sv', r)"
  shows "r = Ok cid \<longleftrightarrow> id_pub_key cid = rh_pub_key data \<and> admits lib nl (rh_pub_key data) sv (id_network cid)"
    "r \<noteq> Panic" "sv_out sv' = sv_out sv" "sv_open sv' = sv_open sv"
    "r = Ok cid \<Longrightarrow> rw_get (sv_networks sv') (id_network cid) \<noteq> None"
proof -
  show "r \<noteq> Panic" using handshake0_not_Panic [OF assms(1), of nl c msg sv] assms(5) by simp
  let ?k = "rh_pub_key data"
  have "(r = Ok cid \<longleftrightarrow> id_pub_key cid = ?k \<and> admits lib nl ?k sv (id_network cid)) \<and>
    sv_out sv' = sv_out sv \<and> sv_open sv' = sv_open sv \<and> (r = Ok cid \<longrightarrow> rw_get (sv_networks sv') (id_network cid) \<noteq> None)"
  proof (cases "\<exists>m. find_peer lib (sv_db sv) ?k = Ok (Some m)")
    case True
    then obtain m where m: "find_peer lib (sv_db sv) ?k = Ok (Some m)" by blast
    let ?cid = "\<lparr>id_pub_key = ?k, id_network = pm_network_id m\<rparr>"
    obtain sv1 g where g: "get_network lib nl (pm_network_id m) sv = (sv1, g)" by (rule prod.exhaust)
    have h: "handshake0 lib nl c msg sv = login_peer lib nl c ?cid sv"
      using assms(2,3) m by (simp add: handshake0_def login_network_def db_result_def)
    have net: "g = Ok nw \<Longrightarrow> rw_get (sv_networks sv1) (pm_network_id m) = Some nw" for nw
      using get_network_Ok [of lib nl "pm_network_id m" sv sv1 nw] g by simp
    show ?thesis
      using assms(4,5) g get_network_keeps [OF g] m net unfolding h
      by (cases g) (auto simp: login_peer_def set_client_id_def admits_def split: option.splits if_splits)
  next
    case False
    then have "\<not> admits lib nl ?k sv n" for n by (auto simp: admits_def)
    moreover have "\<exists>e. handshake0 lib nl c msg sv = (sv, Err e) \<or> handshake0 lib nl c msg sv = (sv, Panic)"
      using False assms(2,3)
      by (cases "find_peer lib (sv_db sv) ?k"; cases "case find_peer lib (sv_db sv) ?k of Ok x \<Rightarrow> x | _ \<Rightarrow> None")
        (auto simp: handshake0_def login_network_def db_result_def)
    ultimately show ?thesis using assms(5) by auto
  qed
  then show "r = Ok cid \<longleftrightarrow> id_pub_key cid = ?k \<and> admits lib nl ?k sv (id_network cid)"
    "sv_out sv' = sv_out sv" "sv_open sv' = sv_open sv" "r = Ok cid \<Longrightarrow> rw_get (sv_networks sv') (id_network cid) \<noteq> None"
    by blast+
qed

lemma admits_cong:
  assumes "sv_networks sv' = sv_networks sv" "sv_db sv' = sv_db sv"
  shows "admits lib nl k sv' n = admits lib nl k sv n"
proof -
  have "snd (get_network lib nl n sv') = snd (get_network lib nl n sv)" for n
    using assms by (simp add: get_network_def split: option.split result.split)
  then show ?thesis using assms by (simp add: admits_def)
qed

lemma process_login_outcome:
  assumes "db_safe lib" "ts_data msg = Some (Handshake data)" "rh_token data = None" "rw_get (sv_ids sv) (co_id c) = None"
    and "co_id c \<in> set (sv_open sv)"
  obtains sv' r where "process_login lib nl c (FirstMsg msg) sv = (sv', r)" "r \<noteq> Panic"
    "\<And>cid. r = Ok cid \<longleftrightarrow> id_pub_key cid = rh_pub_key data \<and> admits lib nl (rh_pub_key data) sv (id_network cid)"
    "sv_out sv' = sv_out sv @
       [(co_id c, None, RespServerInfo \<lparr>si_version = sv_version sv, si_key = sv_key sv, si_desc = None\<rparr>),
        (co_id c, Some (ts_id msg), RespHandshake (case r of Ok _ \<Rightarrow> True | _ \<Rightarrow> False)
           (case r of Err e \<Rightarrow> Some (LoginText e) | _ \<Rightarrow> None))]"
proof -
  let ?info = "RespServerInfo \<lparr>si_version = sv_version sv, si_key = sv_key sv, si_desc = None\<rparr>"
  let ?sv1 = "sv\<lparr>sv_out := sv_out sv @ [(co_id c, None, ?info)]\<rparr>"
  have s1: "client_send c None ?info sv = (?sv1, Ok ())" using assms(5) by (simp add: client_send_def)
  obtain sv2 r where h: "handshake0 lib nl c msg ?sv1 = (sv2, r)" by (rule prod.exhaust)
  note out = handshake0_no_token [OF assms(1-3) _ h]
  have ids: "rw_get (sv_ids ?sv1) (co_id c) = None" using assms(4) by simp
  let ?m = "RespHandshake (case r of Ok _ \<Rightarrow> True | _ \<Rightarrow> False) (case r of Err e \<Rightarrow> Some (LoginText e) | _ \<Rightarrow> None)"
  let ?sv3 = "sv2\<lparr>sv_out := sv_out sv2 @ [(co_id c, Some (ts_id msg), ?m)]\<rparr>"
  have "co_id c \<in> set (sv_open sv2)" using out(4) [OF ids] assms(5) by simp
  then have "srv_await_handshake lib nl c (FirstMsg msg) sv = (?sv3, r)"
    using s1 h out(2) [OF ids] by (cases r) (simp_all add: srv_await_handshake_def client_send_def)
  moreover have "get_network lib nl (id_network cid) ?sv3 = (?sv3, Ok (the (rw_get (sv_networks sv2) (id_network cid))))"
    if "r = Ok cid" for cid
    using out(5) [OF ids that] by (auto simp: get_network_def)
  ultimately have login: "process_login lib nl c (FirstMsg msg) sv = (?sv3, r)"
    using out(2) [OF ids] by (cases r) (simp_all add: process_login_def)
  have adm: "admits lib nl k ?sv1 n = admits lib nl k sv n" for k n by (rule admits_cong) simp_all
  show ?thesis
    by (rule that [OF login out(2) [OF ids]]) (use out(1,3) [OF ids] adm in simp_all)
qed

text \<open>What the daemon makes of the answer to its login: the connection it made, or the reason it gives up for.\<close>

lemma daemon_takes_answer:
  fixes secret :: vlink_static_secret
  assumes param: "login_param cl secret (Some hello) = Ok param" and r: "r \<noteq> Panic"
    and ans: "ans = \<lparr>tc_id = 1, tc_data = Some (RespHandshake (case r of Ok _ \<Rightarrow> True | _ \<Rightarrow> False)
           (case r of Err e \<Rightarrow> Some (LoginText e) | _ \<Rightarrow> None))\<rparr>"
    and con: "con = conn_new\<lparr>dn_next := 1, dn_sent := [\<lparr>ts_id = 1, ts_data = Some (Handshake
           \<lparr>rh_version = 0, rh_pub_key = hp_pub_key param, rh_token = hp_token param, rh_sign = hp_sign param\<rparr>)\<rparr>]\<rparr>"
  obtains res s' x where "client_handshake Written [ans] e param conn_new = (con, res)"
    "reconnect_turn cl secret \<lparr>at_tcp = True, at_first = Some hello, at_delivery = Written, at_replies = [ans],
      at_end = e, at_ctrl = True\<rparr> s = (s', x)"
    "if \<exists>cid. r = Ok cid then res = Ok () \<and> x = None \<and> rs_conn s' = Some con
     else x = Some (Ok ()) \<and> rs_conn s' = rs_conn s \<and> (\<exists>err. r = Err err \<and> res = Err (LoginRefused (Some (LoginText err))))"
proof -
  define res :: "(server_text client_error, unit) result" where
    "res = (case r of Ok _ \<Rightarrow> Ok () | Err err \<Rightarrow> Err (LoginRefused (Some (LoginText err))) | Panic \<Rightarrow> Panic)"
  have hs: "client_handshake Written [ans] e param conn_new = (con, res)"
    using r by (cases r) (simp_all add: client_handshake_def conn_request_written conn_new_def ans con res_def)
  have "\<exists>s' x. reconnect_turn cl secret \<lparr>at_tcp = True, at_first = Some hello, at_delivery = Written, at_replies = [ans],
      at_end = e, at_ctrl = True\<rparr> s = (s', x) \<and>
    (if \<exists>cid. r = Ok cid then res = Ok () \<and> x = None \<and> rs_conn s' = Some con
     else x = Some (Ok ()) \<and> rs_conn s' = rs_conn s \<and> (\<exists>err. r = Err err \<and> res = Err (LoginRefused (Some (LoginText err)))))"
    using r hs param by (cases r) (simp_all add: reconnect_turn_def Let_def res_def)
  then show ?thesis using hs that by blast
qed

text \<open>C6: Daemon and server agree on a login.  A daemon that connects to the server, over a connection the server has not
  written to before, is greeted, sends its login and gets an answer, each read by the other side as it was sent.  The
  server takes the connection for the peer of the daemon's key exactly when that key is registered, its network can be
  loaded and the peer is not online already, and in exactly that case the daemon ends up connected; otherwise its
  login is refused with the reason the server found, and the daemon stops connecting for good.  No token plays a part.\<close>

theorem login_agreed:
  fixes secret :: vlink_static_secret and lib :: "'d db" and nl :: "'n net4"
  assumes "core_laws cl" "length sk = 32" "sv_key sv = base64_pub cl (secret_of cl sk)"
    and "hello_sign cl (secret_pub cl sk) secret = Ok sign" "db_safe lib" "codec_laws cd"
    and "rw_get (sv_ids sv) i = None" "\<forall>x \<in> set (sv_out sv). fst x \<noteq> i"
  shows "\<exists>login sv' r greeting reply param con res s' x.
    process_login lib nl \<lparr>co_addr = addr, co_id = i\<rparr> (FirstMsg login) (client_accept addr i sv) = (sv', r) \<and>
    written_to i sv' = [greeting, reply] \<and>
    conn_recv_handler cd (map (Some \<circ> cd_encode_client cd) (written_to i sv')) = ([greeting, reply], Ok ()) \<and>
    login_param cl secret (Some greeting) = Ok param \<and>
    client_handshake Written [reply] e param conn_new = (con, res) \<and>
    srv_recv_handler cd (map (Some \<circ> cd_encode_server cd) (dn_sent con)) = ([login], Ok ()) \<and>
    (\<forall>n. r = Ok \<lparr>id_pub_key = base64_pub cl secret, id_network = n\<rparr> \<longleftrightarrow> admits lib nl (base64_pub cl secret) sv n) \<and>
    reconnect_turn cl secret \<lparr>at_tcp = True, at_first = Some greeting, at_delivery = Written, at_replies = [reply],
      at_end = e, at_ctrl = True\<rparr> s = (s', x) \<and>
    (if \<exists>n. admits lib nl (base64_pub cl secret) sv n then res = Ok () \<and> x = None \<and> rs_conn s' = Some con
     else x = Some (Ok ()) \<and> rs_conn s' = rs_conn s \<and> (\<exists>err. r = Err err \<and> res = Err (LoginRefused (Some (LoginText err)))))"
proof -
  let ?k = "base64_pub cl secret"
  let ?data = "\<lparr>rh_version = 0, rh_pub_key = ?k, rh_token = None, rh_sign = sign\<rparr>"
  let ?msg = "\<lparr>ts_id = 1, ts_data = Some (Handshake ?data)\<rparr>" and ?c = "\<lparr>co_addr = addr, co_id = i\<rparr>"
  let ?sv = "client_accept addr i sv"
  have acc: "rw_get (sv_ids ?sv) (co_id ?c) = None" "co_id ?c \<in> set (sv_open ?sv)" "sv_out ?sv = sv_out sv" "sv_key ?sv = sv_key sv"
    using assms(7) by (simp_all add: client_accept_def insert_client_def)
  have adm: "admits lib nl ?k ?sv n = admits lib nl ?k sv n" for n
    by (rule admits_cong) (simp_all add: client_accept_def insert_client_def)
  obtain sv' r where p: "process_login lib nl ?c (FirstMsg ?msg) ?sv = (sv', r)" "r \<noteq> Panic"
    "\<And>cid. r = Ok cid \<longleftrightarrow> id_pub_key cid = rh_pub_key ?data \<and> admits lib nl (rh_pub_key ?data) ?sv (id_network cid)"
    "sv_out sv' = sv_out ?sv @
       [(co_id ?c, None, RespServerInfo \<lparr>si_version = sv_version ?sv, si_key = sv_key ?sv, si_desc = None\<rparr>),
        (co_id ?c, Some (ts_id ?msg), RespHandshake (case r of Ok _ \<Rightarrow> True | _ \<Rightarrow> False)
           (case r of Err e \<Rightarrow> Some (LoginText e) | _ \<Rightarrow> None))]"
    by (rule process_login_outcome [OF assms(5) _ _ acc(1,2), of ?msg ?data nl]) simp_all
  let ?hello = "\<lparr>tc_id = 1, tc_data = Some (RespServerInfo \<lparr>si_version = sv_version ?sv, si_key = sv_key sv, si_desc = None\<rparr>)\<rparr> :: server_text to_client"
  let ?ans = "\<lparr>tc_id = 1, tc_data = Some (RespHandshake (case r of Ok _ \<Rightarrow> True | _ \<Rightarrow> False)
           (case r of Err e \<Rightarrow> Some (LoginText e) | _ \<Rightarrow> None))\<rparr>"
  have "filter (\<lambda>x. fst x = i) (sv_out sv) = []" using assms(8) by (simp add: filter_empty_conv)
  then have written: "written_to i sv' = [?hello, ?ans]" by (simp add: written_to_def p(4) acc(3,4))
  have param: "login_param cl secret (Some ?hello) = Ok \<lparr>hp_pub_key = ?k, hp_sign = sign, hp_token = None\<rparr>"
    using assms(1,2,4) core_lawsD(4) [OF assms(1,2)]
    by (simp add: login_param_def assms(3) base64_pub_def secret_of_def try_into_key_def)
  let ?con = "conn_new\<lparr>dn_next := 1, dn_sent := [?msg]\<rparr>"
  obtain res s' x where d: "client_handshake Written [?ans] e \<lparr>hp_pub_key = ?k, hp_sign = sign, hp_token = None\<rparr> conn_new = (?con, res)"
    "reconnect_turn cl secret \<lparr>at_tcp = True, at_first = Some ?hello, at_delivery = Written, at_replies = [?ans],
      at_end = e, at_ctrl = True\<rparr> s = (s', x)"
    "if \<exists>cid. r = Ok cid then res = Ok () \<and> x = None \<and> rs_conn s' = Some ?con
     else x = Some (Ok ()) \<and> rs_conn s' = rs_conn s \<and> (\<exists>err. r = Err err \<and> res = Err (LoginRefused (Some (LoginText err))))"
    by (rule daemon_takes_answer [OF param p(2) refl, where con = ?con and e = e and s = s]) simp_all
  have ok: "(\<exists>n. admits lib nl ?k sv n) \<longleftrightarrow> (\<exists>cid. r = Ok cid)"
    using p(3) adm by (metis client_id.select_convs req_handshake.select_convs(2))
  have r: "\<forall>n. r = Ok \<lparr>id_pub_key = ?k, id_network = n\<rparr> \<longleftrightarrow> admits lib nl ?k sv n" using p(3) adm by simp
  have wire: "conn_recv_handler cd (map (Some \<circ> cd_encode_client cd) (written_to i sv')) = ([?hello, ?ans], Ok ())"
    "srv_recv_handler cd (map (Some \<circ> cd_encode_server cd) (dn_sent ?con)) = ([?msg], Ok ())"
    using conn_recv_all [OF assms(6), of "written_to i sv'" "[]"] srv_recv_all [OF assms(6), of "dn_sent ?con" "[]"] written
    by simp_all
  show ?thesis using p(1) written wire param r d [folded ok] by blast
qed

section \<open>A small world\<close>

text \<open>A database with a configuration row beside the peers, and messages for frames.\<close>

type_synonym row_db = "string option \<times> peer_model list"

definition row_lib :: "row_db db" where
  "row_lib = \<lparr>find_network = find_network plain_db \<circ> snd, find_network_peers = find_network_peers plain_db \<circ> snd,
     find_token = find_token plain_db \<circ> snd, find_peer = find_peer plain_db \<circ> snd, find_transports = find_transports plain_db \<circ> snd,
     update_peer_ip = (\<lambda>d i ip. rbind (update_peer_ip plain_db (snd d) i ip) (\<lambda>ps. Ok (fst d, ps)))\<rparr>"

definition row_table :: "row_db config_table" where
  "row_table = \<lparr>ct_find = (\<lambda>d k. Ok (if k = SECRET_KEY then fst d else None)),
     ct_insert = (\<lambda>d k v. if k = SECRET_KEY then Ok (Some v, snd d) else Err ''no such row''), ct_to_json = (\<lambda>s. s), ct_of_json = Some\<rparr>"

lemma row_laws: "config_laws row_table row_lib"
  by (auto simp: config_laws_def row_table_def row_lib_def stored_def plain_db_def split: if_splits)

definition plain_codec :: "(to_server + server_text to_client, server_text) abi_codec" where
  "plain_codec = \<lparr>cd_encode_server = Inl, cd_decode_server = case_sum Some (\<lambda>_. None),
     cd_encode_client = Inr, cd_decode_client = case_sum (\<lambda>_. None) Some\<rparr>"

lemma plain_codec_laws: "codec_laws plain_codec"
  by (simp add: codec_laws_def plain_codec_def)

definition row_start :: "(u32, row_db) server" where
  "row_start = server_new (base64_pub plain_core plain_keys) (Some (secret_serialize plain_core plain_keys), [])"

theorem server_identity_kept_witness:
  "vlink_server_new plain_core row_table (replicate 32 1) (None, []) = Ok (plain_keys, row_start) \<and>
   vlink_server_new plain_core row_table (replicate 32 2) (sv_db (client_accept ''A'' 0 row_start)) = Ok (plain_keys, row_start)"
proof -
  have new: "vlink_server_new plain_core row_table (replicate 32 1) (None, []) = Ok (plain_keys, row_start)"
    by (simp add: vlink_server_new_def row_table_def secret_generate_def plain_keys_def row_start_def Let_def)
  have step: "(srv_step row_lib plain_net4)\<^sup>*\<^sup>* (row_start, Map.empty)
      (client_accept ''A'' 0 row_start, [0 \<mapsto> (\<lparr>co_addr = ''A'', co_id = 0\<rparr>, None)])"
    by (rule r_into_rtranclp, rule srv_step.accept) (simp_all add: row_start_def server_new_def rw.get_empty)
  have find: "ct_find row_table d SECRET_KEY = Ok (fst d)" for d by (simp add: row_table_def)
  have db: "server_new (sv_key row_start) (sv_db (client_accept ''A'' 0 row_start)) = row_start"
    by (simp add: row_start_def server_new_def client_accept_def insert_client_def)
  have len: "length (replicate 32 (1 :: u8)) = 32" by simp
  show ?thesis
    using server_identity_kept [OF plain_core_laws row_laws len new step find, of "replicate 32 2"] new unfolding db by blast
qed

definition login_server :: "(u32, peer_model list) server" where
  "login_server = server_new (base64_pub plain_core plain_keys) [plain_peer 1 (base64_pub plain_core plain_keys) None]"

lemma login_server_admits: "admits plain_db plain_net4 (base64_pub plain_core plain_keys) login_server 1"
proof -
  let ?k = "base64_pub plain_core plain_keys"
  have f: "find_peer plain_db (sv_db login_server) ?k = Ok (Some (plain_peer 1 ?k None))"
    by (simp add: plain_db_def login_server_def server_new_def plain_peer_def)
  let ?nw = "\<lparr>nw_id = 1, nw_cidr = 0, nw_peers = peers_new [peer_from_model (plain_peer 1 ?k None)], nw_connects = rw_new\<rparr>"
  have g: "snd (get_network plain_db plain_net4 1 login_server) = Ok ?nw"
    by (simp add: get_network_def login_server_def server_new_def rw.get_empty load_network_def plain_db_def plain_net4_def
        db_result_def plain_peer_def)
  have "rw_get (nw_peers ?nw) j = Some p \<Longrightarrow> \<not> is_online p" for j p
    by (auto simp: peers_new_def rw_from_def peer_from_model_def plain_peer_def rw.get_insert rw.get_empty is_online_def split: if_splits)
  moreover have "pm_network_id (plain_peer 1 ?k None) = 1" by (simp add: plain_peer_def)
  ultimately show ?thesis unfolding admits_def using f g by metis
qed

theorem login_agreed_witness:
  "\<exists>login sv' (con :: daemon_conn). process_login plain_db plain_net4 \<lparr>co_addr = ''A'', co_id = 0\<rparr> (FirstMsg login) (client_accept ''A'' 0 login_server) =
      (sv', Ok \<lparr>id_pub_key = base64_pub plain_core plain_keys, id_network = 1\<rparr>) \<and> length (written_to 0 sv') = 2 \<and>
    srv_recv_handler plain_codec (map (Some \<circ> cd_encode_server plain_codec) (dn_sent con)) = ([login], Ok ())"
proof -
  have key: "sv_key login_server = base64_pub plain_core (secret_of plain_core (replicate 32 1))"
    by (simp add: login_server_def server_new_def plain_keys_def)
  obtain sign where sign: "hello_sign plain_core (secret_pub plain_core (replicate 32 1)) plain_keys = Ok sign"
    by (simp add: hello_sign_def plain_core_def)
  have len: "length (replicate 32 (1 :: u8)) = 32" by simp
  have new: "rw_get (sv_ids login_server) 0 = None" "\<forall>x \<in> set (sv_out login_server). fst x \<noteq> 0"
    by (simp_all add: login_server_def server_new_def rw.get_empty)
  from login_agreed [OF plain_core_laws len key sign plain_db_safe plain_codec_laws new, of plain_net4 "''A''" RecvTimeout reconnect_new]
  obtain login sv' r greeting reply and con :: daemon_conn where w:
    "process_login plain_db plain_net4 \<lparr>co_addr = ''A'', co_id = 0\<rparr> (FirstMsg login) (client_accept ''A'' 0 login_server) = (sv', r)"
    "written_to 0 sv' = [greeting, reply]"
    "srv_recv_handler plain_codec (map (Some \<circ> cd_encode_server plain_codec) (dn_sent con)) = ([login], Ok ())"
    "\<forall>n. r = Ok \<lparr>id_pub_key = base64_pub plain_core plain_keys, id_network = n\<rparr> \<longleftrightarrow>
       admits plain_db plain_net4 (base64_pub plain_core plain_keys) login_server n" by blast
  then have "r = Ok \<lparr>id_pub_key = base64_pub plain_core plain_keys, id_network = 1\<rparr>" using login_server_admits by blast
  moreover have "length (written_to 0 sv') = 2" using w(2) by simp
  ultimately show ?thesis using w(1,3) by blast
qed

end
