(* ===== verification/Headlink_Addresses.thy ===== *)
theory Headlink_Addresses
  imports Headlink_Steps
begin

text \<open>
  The addresses the coordination server hands out (\<open>handler/req_config.rs\<close>): which address a peer gets,
  that peers keep different addresses as long as requests are served one after the other, and what
  happens when two of them are served at the same time.
\<close>

section \<open>The choice of an address\<close>

lemma find_Some_split:
  "List.find P xs = Some x \<Longrightarrow> \<exists>ys zs. xs = ys @ x # zs \<and> P x \<and> (\<forall>y \<in> set ys. \<not> P y)"
proof (induction xs)
  case (Cons a xs)
  show ?case
  proof (cases "P a")
    case True
    then have "a # xs = [] @ x # xs" "P x" using Cons.prems by simp_all
    then show ?thesis by (metis empty_iff empty_set)
  next
    case False
    then obtain ys zs where "xs = ys @ x # zs" "P x" "\<forall>y \<in> set ys. \<not> P y" using Cons by auto
    then have "a # xs = (a # ys) @ x # zs" "P x" "\<forall>y \<in> set (a # ys). \<not> P y" using False by simp_all
    then show ?thesis by blast
  qed
qed simp

lemma generate_ip_Ok:
  assumes "generate_ip nl cidr peers = Ok ip"
  obtains ys zs where "drop 2 (net4_hosts nl cidr) = ys @ ip # zs" "ipv4_text ip \<notin> set (peer_ips peers)"
    "\<forall>y \<in> set ys. ipv4_text y \<in> set (peer_ips peers)"
proof -
  have "List.find (\<lambda>ip. \<forall>p \<in> set (peer_ips peers). p \<noteq> ipv4_text ip) (drop 2 (net4_hosts nl cidr)) = Some ip"
    using assms
    by (cases "List.find (\<lambda>ip. \<forall>p \<in> set (peer_ips peers). p \<noteq> ipv4_text ip) (drop 2 (net4_hosts nl cidr))")
      (simp_all add: generate_ip_def)
  from find_Some_split [OF this] show ?thesis using that by auto
qed

lemma generate_ip_free:
  assumes "ip \<in> set (drop 2 (net4_hosts nl cidr))" "ipv4_text ip \<notin> set (peer_ips peers)"
  shows "\<exists>ip'. generate_ip nl cidr peers = Ok ip'"
proof -
  have "List.find (\<lambda>ip. \<forall>p \<in> set (peer_ips peers). p \<noteq> ipv4_text ip) (drop 2 (net4_hosts nl cidr)) \<noteq> None"
    unfolding find_None_iff using assms by blast
  then show ?thesis by (auto simp: generate_ip_def)
qed

lemma generate_ip_not_Panic [simp]: "generate_ip nl cidr peers \<noteq> Panic"
  by (simp add: generate_ip_def)

section \<open>Addresses stay different\<close>

definition net_ips_ok :: "'n vlink_network \<Rightarrow> bool" where
  "net_ips_ok nw \<longleftrightarrow> rw_wf (nw_peers nw) \<and> distinct (peer_ips (nw_peers nw)) \<and>
     (\<forall>k p. rw_get (nw_peers nw) k = Some p \<longrightarrow> pm_pub_key (vp_model p) = k)"

definition ips_ok :: "('n, 'd) server \<Rightarrow> bool" where
  "ips_ok sv \<longleftrightarrow> (\<forall>n nw. rw_get (sv_networks sv) n = Some nw \<longrightarrow> net_ips_ok nw)"

lemma peer_ips_simps [simp]:
  "peer_ips [] = []"
  "peer_ips ((k, p) # ps) = (case pm_ip (vp_model p) of Some ip \<Rightarrow> [ip] | None \<Rightarrow> []) @ peer_ips ps"
  by (simp_all add: peer_ips_def)

lemma peer_ips_modify_same:
  assumes "\<And>p. vp_model (f p) = vp_model p"
  shows "peer_ips (rw_modify k f ps) = peer_ips ps"
  using assms by (induction ps) (auto simp: rw_modify_def)

lemma peer_ips_mem: "(k, p) \<in> set ps \<Longrightarrow> pm_ip (vp_model p) = Some ip \<Longrightarrow> ip \<in> set (peer_ips ps)"
  by (force simp: peer_ips_def)

lemma peer_ips_distinctD:
  assumes "rw_wf ps" "distinct (peer_ips ps)" "rw_get ps j = Some p" "rw_get ps k = Some q" "j \<noteq> k"
    "pm_ip (vp_model p) = Some ip"
  shows "pm_ip (vp_model q) \<noteq> Some ip"
proof -
  have "(j, p) \<in> set ps" "(k, q) \<in> set ps" using assms(3,4) by (simp_all add: rw_get_in)
  with assms(2,5,6) show ?thesis
  proof (induction ps)
    case (Cons a ps)
    then show ?case by (cases a) (auto dest: peer_ips_mem)
  qed simp
qed

lemma net_ips_ok_modify:
  assumes "net_ips_ok nw" "\<And>p. vp_model (f p) = vp_model p"
  shows "net_ips_ok (nw\<lparr>nw_peers := rw_modify k f (nw_peers nw)\<rparr>)"
  using assms by (auto simp: net_ips_ok_def peer_ips_modify_same)

lemma peer_ips_other:
  "k \<notin> fst ` set ps \<Longrightarrow> peer_ips (rw_modify k f ps) = peer_ips ps"
  by (induction ps) (auto simp: rw_modify_def)

text \<open>Giving a peer without an address a new one.\<close>

lemma peer_ips_assign:
  assumes "distinct (map fst ps)" "distinct (peer_ips ps)" "ip \<notin> set (peer_ips ps)" "pm_ip m = Some ip"
    and "\<And>p. (k, p) \<in> set ps \<Longrightarrow> pm_ip (vp_model p) = None"
  shows "distinct (peer_ips (rw_modify k (\<lambda>p. p\<lparr>vp_model := m\<rparr>) ps))
    \<and> set (peer_ips (rw_modify k (\<lambda>p. p\<lparr>vp_model := m\<rparr>) ps)) \<subseteq> insert ip (set (peer_ips ps))"
  using assms
proof (induction ps)
  case (Cons a ps)
  obtain j p where a: "a = (j, p)" by (cases a)
  have unfold: "rw_modify k f (a # ps) = (j, if j = k then f p else p) # rw_modify k f ps" for f
    by (simp add: rw_modify_def a)
  show ?case
  proof (cases "j = k")
    case True
    have "peer_ips (rw_modify k (\<lambda>p. p\<lparr>vp_model := m\<rparr>) ps) = peer_ips ps"
      using Cons.prems(1) True a by (intro peer_ips_other) auto
    then show ?thesis using Cons.prems True a unfolding unfold by (auto split: option.splits)
  next
    case False
    have "distinct (peer_ips (rw_modify k (\<lambda>p. p\<lparr>vp_model := m\<rparr>) ps))
        \<and> set (peer_ips (rw_modify k (\<lambda>p. p\<lparr>vp_model := m\<rparr>) ps)) \<subseteq> insert ip (set (peer_ips ps))"
      using Cons.prems a by (intro Cons.IH) auto
    then show ?thesis using Cons.prems False a unfolding unfold by (auto split: option.splits)
  qed
qed (simp add: rw_modify_def)

lemma ips_ok_on_network:
  assumes "ips_ok sv" "\<And>nw. rw_get (sv_networks sv) n = Some nw \<Longrightarrow> net_ips_ok (f nw)"
  shows "ips_ok (on_network n f sv)"
  using assms by (auto simp: ips_ok_def on_network_def)

lemma ips_ok_same_networks: "sv_networks sv' = sv_networks sv \<Longrightarrow> ips_ok sv' \<longleftrightarrow> ips_ok sv"
  by (simp add: ips_ok_def)

lemma ips_ok_modify:
  assumes "ips_ok sv" "\<And>p. vp_model (f p) = vp_model p"
  shows "ips_ok (on_peers n (rw_modify k f) sv)"
  unfolding on_peers_def
  by (rule ips_ok_on_network [OF assms(1)], rule net_ips_ok_modify) (use assms in \<open>auto simp: ips_ok_def\<close>)

lemma ips_ok_store:
  assumes "ips_ok sv" "rw_get (sv_networks sv) n = Some nw" "rw_get (nw_peers nw) k = Some self"
    and "plan_ip nl nw self = Ok (ip, True)"
  shows "ips_ok (fst (store_ip lib n self ip sv))"
proof (cases "update_peer_ip lib (sv_db sv) (pm_id (vp_model self)) (ipv4_text ip)")
  case (Ok d)
  let ?m = "(vp_model self)\<lparr>pm_ip := Some (ipv4_text ip)\<rparr>"
  have nw: "net_ips_ok nw" using assms(1,2) by (simp add: ips_ok_def)
  then have key: "pm_pub_key (vp_model self) = k" using assms(3) by (simp add: net_ips_ok_def)
  have none: "pm_ip (vp_model self) = None" and fresh: "ipv4_text ip \<notin> set (peer_ips (nw_peers nw))"
    using assms(4) by (auto simp: plan_ip_def result_simps split: option.splits elim: generate_ip_Ok)
  have "net_ips_ok (nw\<lparr>nw_peers := refresh_model ?m (nw_peers nw)\<rparr>)"
  proof -
    have wf: "rw_wf (nw_peers nw)" using nw by (simp add: net_ips_ok_def)
    have "distinct (peer_ips (rw_modify k (\<lambda>p. p\<lparr>vp_model := ?m\<rparr>) (nw_peers nw)))"
      using peer_ips_assign [of "nw_peers nw" "ipv4_text ip" ?m k] nw fresh none assms(3)
      by (simp add: net_ips_ok_def rw_wf_def rw_in_iff [OF wf])
    then show ?thesis using nw key by (auto simp: net_ips_ok_def refresh_model_def)
  qed
  then have "ips_ok (on_peers n (refresh_model ?m) (sv\<lparr>sv_db := d\<rparr>))"
    unfolding on_peers_def using assms(1,2) by (intro ips_ok_on_network) (simp_all add: ips_ok_def)
  then show ?thesis using Ok by (simp add: store_ip_def)
qed (use assms(1) in \<open>simp_all add: store_ip_def\<close>)

text \<open>Every request keeps the addresses in order and keeps loaded networks loaded.\<close>

definition ips_kept :: "('n, 'd) server \<Rightarrow> ('n, 'd) server \<Rightarrow> bool" where
  "ips_kept sv sv' \<longleftrightarrow> (ips_ok sv \<longrightarrow> ips_ok sv') \<and>
     (\<forall>n. rw_get (sv_networks sv') n = None \<longrightarrow> rw_get (sv_networks sv) n = None)"

lemma ips_kept_trans: "ips_kept a b \<Longrightarrow> ips_kept b c \<Longrightarrow> ips_kept a c"
  by (simp add: ips_kept_def)

lemma ips_kept_same: "sv_networks sv' = sv_networks sv \<Longrightarrow> ips_kept sv sv'"
  using ips_ok_same_networks [of sv' sv] by (simp add: ips_kept_def)

lemma ips_kept_via: "sv_networks c = sv_networks b \<Longrightarrow> ips_kept a b \<Longrightarrow> ips_kept a c"
  by (rule ips_kept_trans [OF _ ips_kept_same])

lemma on_network_loaded:
  "rw_get (sv_networks (on_network m f sv)) n = None \<longleftrightarrow> rw_get (sv_networks sv) n = None"
  by (cases "n = m") (simp_all add: on_network_def)

lemma ips_kept_modify:
  assumes "\<And>p. vp_model (f p) = vp_model p"
  shows "ips_kept sv (on_peers n (rw_modify k f) sv)"
  unfolding ips_kept_def
  by (intro conjI impI ips_ok_modify assms) (simp_all add: on_peers_def on_network_loaded)

lemma with_network_loaded:
  "rw_get (sv_networks sv) (id_network (rx_client_id ctx)) = Some nw \<Longrightarrow> with_network lib nl ctx sv f = f nw sv"
  by (simp add: with_network_def get_network_def)

lemma ips_kept_offline: "ips_kept sv (network_offline n k sv)"
proof -
  have "ips_kept sv (on_peers n (peers_offline k) sv)" by (simp add: peers_offline_def ips_kept_modify)
  moreover have "sv_networks (network_offline n k sv) = sv_networks (on_peers n (peers_offline k) sv)"
    by (simp add: network_offline_def broadcast_def Let_def split: option.split)
  ultimately show ?thesis by (blast intro: ips_kept_via)
qed

lemma ips_kept_store:
  assumes "rw_get (sv_networks sv) n = Some nw" "rw_get (nw_peers nw) k = Some self" "plan_ip nl nw self = Ok (ip, True)"
  shows "ips_kept sv (fst (store_ip lib n self ip sv))"
  unfolding ips_kept_def
proof
  show "ips_ok sv \<longrightarrow> ips_ok (fst (store_ip lib n self ip sv))" using ips_ok_store [OF _ assms] by blast
qed (simp add: store_ip_def on_peers_def on_network_loaded split: result.split)

lemma send_resp_networks [simp]: "sv_networks (fst (send_resp ctx m sv)) = sv_networks sv"
  by (simp add: send_resp_def split_beta)

lemma config_answer_networks [simp]: "sv_networks (fst (config_answer lib nl ctx self peers ip sv)) = sv_networks sv"
  by (simp add: config_answer_def split: result.split option.split)

lemma ips_kept_req_config:
  assumes "rw_get (sv_networks sv) (id_network (rx_client_id ctx)) = Some nw"
  shows "ips_kept sv (fst (req_config_exec lib nl ctx sv))"
proof (cases "rw_get (nw_peers nw) (id_pub_key (rx_client_id ctx))")
  case None
  then show ?thesis using assms by (simp add: req_config_exec_def with_network_loaded ips_kept_same)
next
  case (Some self)
  let ?n = "id_network (rx_client_id ctx)"
  show ?thesis
  proof (cases "plan_ip nl nw self")
    case (Ok a)
    obtain ip fresh where a: "a = (ip, fresh)" by (cases a)
    let ?st = "if fresh then store_ip lib ?n self ip sv else (sv, Ok ())"
    have st: "ips_kept sv (fst ?st)"
      using ips_kept_store [OF assms Some, of nl ip lib] Ok a by (cases fresh) (simp_all add: ips_kept_same)
    have "sv_networks (fst (req_config_exec lib nl ctx sv)) = sv_networks (fst ?st)"
      using assms Some Ok a
      by (simp add: req_config_exec_def with_network_loaded split_beta split: result.split)
    then show ?thesis using st by (rule ips_kept_via)
  qed (use assms Some in \<open>simp_all add: req_config_exec_def with_network_loaded ips_kept_same\<close>)
qed

lemma ips_kept_peer_enter:
  assumes "rw_get (sv_networks sv) (id_network (rx_client_id ctx)) = Some nw"
  shows "ips_kept sv (fst (peer_enter_exec lib nl ctx data sv))"
proof (cases "rw_get (nw_peers nw) (id_pub_key (rx_client_id ctx))")
  case (Some p)
  let ?k = "id_pub_key (rx_client_id ctx)" and ?n = "id_network (rx_client_id ctx)"
  let ?info = "\<lparr>on_connect = rx_client ctx, on_port = en_port data, on_endpoint_addr = en_endpoint_addr data,
      on_extra_endpoints = rw_from (map (\<lambda>x. (ee_proto x, ee_endpoint x)) (en_extra_endpoints data))\<rparr>"
  let ?sv = "on_peers ?n (rw_modify ?k (\<lambda>p. p\<lparr>vp_online := Some ?info\<rparr>)) sv"
  have kept: "ips_kept sv ?sv" by (rule ips_kept_modify) simp
  have "sv_networks (fst (peer_enter_exec lib nl ctx data sv)) =
      sv_networks (if en_ip data \<noteq> (case pm_ip (vp_model p) of Some ip \<Rightarrow> ip | None \<Rightarrow> []) then sv else ?sv)"
    using assms Some
    by (simp add: peer_enter_exec_def with_network_loaded Let_def broadcast_def split: option.split)
  then consider "sv_networks (fst (peer_enter_exec lib nl ctx data sv)) = sv_networks sv"
    | "sv_networks (fst (peer_enter_exec lib nl ctx data sv)) = sv_networks ?sv" by presburger
  then show ?thesis by cases (rule ips_kept_same, assumption, rule ips_kept_via [OF _ kept], assumption)
qed (use assms in \<open>simp add: peer_enter_exec_def with_network_loaded ips_kept_same\<close>)

lemma ips_kept_extra_endpoint:
  assumes "rw_get (sv_networks sv) (id_network (rx_client_id ctx)) = Some nw"
  shows "ips_kept sv (fst (extra_endpoint_exec lib nl ctx data sv))"
proof (cases "rw_get (nw_peers nw) (id_pub_key (rx_client_id ctx))")
  case (Some p)
  let ?f = "\<lambda>p. p\<lparr>vp_online := map_option (\<lambda>e. e\<lparr>on_extra_endpoints :=
      rw_insert (ee_proto data) (ee_endpoint data) (on_extra_endpoints e)\<rparr>) (vp_online p)\<rparr>"
  let ?sv = "on_peers (id_network (rx_client_id ctx)) (rw_modify (id_pub_key (rx_client_id ctx)) ?f) sv"
  have "sv_networks (fst (extra_endpoint_exec lib nl ctx data sv)) = sv_networks ?sv"
    using assms Some by (simp add: extra_endpoint_exec_def with_network_loaded Let_def broadcast_to_def)
  moreover have "ips_kept sv ?sv" by (rule ips_kept_modify) simp
  ultimately show ?thesis by (rule ips_kept_via)
qed (use assms in \<open>simp add: extra_endpoint_exec_def with_network_loaded ips_kept_same\<close>)

lemma ips_kept_connects:
  "ips_kept sv (on_network n (\<lambda>nw. nw\<lparr>nw_connects := f (nw_connects nw)\<rparr>) sv)"
proof -
  have "ips_ok (on_network n (\<lambda>nw. nw\<lparr>nw_connects := f (nw_connects nw)\<rparr>) sv)" if "ips_ok sv"
    using that by (intro ips_ok_on_network) (simp_all add: ips_ok_def net_ips_ok_def)
  then show ?thesis by (simp add: ips_kept_def on_network_loaded)
qed

lemma ips_kept_dispatch:
  assumes "rw_get (sv_networks sv) (id_network (rx_client_id ctx)) = Some nw"
  shows "ips_kept sv (fst (dispatch lib nl ctx data sv))"
proof (cases data)
  case (PeerForward d)
  then show ?thesis using assms
    by (intro ips_kept_same)
      (simp add: dispatch_def peer_forward_exec_def with_network_loaded broadcast_to_def split: option.split)
next
  case (DevHandshakeComplete d)
  then show ?thesis using assms
    by (simp add: dispatch_def dev_handshake_complete_exec_def with_network_loaded split_beta ips_kept_connects)
qed (use assms in \<open>simp_all add: dispatch_def ips_kept_same ips_kept_peer_enter ips_kept_req_config
  ips_kept_extra_endpoint peer_leave_exec_def with_network_loaded ips_kept_offline\<close>)

lemma ips_kept_process_request:
  assumes "rw_get (sv_networks sv) (id_network cid) \<noteq> None"
  shows "ips_kept sv (fst (process_request lib nl cid c msg sv))"
proof (cases "ts_data msg")
  case (Some data)
  let ?ctx = "\<lparr>rx_id = ts_id msg, rx_client_id = cid, rx_client = c\<rparr>"
  obtain nw where "rw_get (sv_networks sv) (id_network (rx_client_id ?ctx)) = Some nw" using assms by auto
  note kept = ips_kept_dispatch [OF this, of lib nl data]
  have "sv_networks (fst (process_request lib nl cid c msg sv)) = sv_networks (fst (dispatch lib nl ?ctx data sv))"
    using Some by (simp add: process_request_def split_beta split: result.split)
  then show ?thesis using kept by (rule ips_kept_via)
qed (simp add: process_request_def ips_kept_same)

text \<open>Requests of logged-in connections, served one after the other.\<close>

fun serve_all ::
    "'d db \<Rightarrow> 'n net4 \<Rightarrow> (client_id \<times> client_connect \<times> to_server) list \<Rightarrow> ('n, 'd) server \<Rightarrow> ('n, 'd) server" where
  "serve_all lib nl [] sv = sv"
| "serve_all lib nl ((cid, c, msg) # rest) sv = serve_all lib nl rest (fst (process_request lib nl cid c msg sv))"

lemma serve_all_kept:
  "\<forall>r \<in> set reqs. rw_get (sv_networks sv) (id_network (fst r)) \<noteq> None \<Longrightarrow> ips_kept sv (serve_all lib nl reqs sv)"
proof (induction reqs arbitrary: sv)
  case (Cons r reqs)
  obtain cid c msg where r: "r = (cid, c, msg)" by (cases r)
  have kept: "ips_kept sv (fst (process_request lib nl cid c msg sv))"
    using Cons.prems r by (intro ips_kept_process_request) simp
  then have "\<forall>q \<in> set reqs. rw_get (sv_networks (fst (process_request lib nl cid c msg sv))) (id_network (fst q)) \<noteq> None"
    using Cons.prems unfolding ips_kept_def by (metis list.set_intros(2))
  from ips_kept_trans [OF kept Cons.IH [OF this]] show ?case by (simp add: r)
qed (simp add: ips_kept_def)

text \<open>C22: Addresses stay different.  Whatever requests logged-in connections send, as long as the server
  serves them one after the other, no two peers of a network come to have the same address.\<close>

theorem addresses_stay_distinct:
  assumes "ips_ok sv" "\<forall>r \<in> set reqs. rw_get (sv_networks sv) (id_network (fst r)) \<noteq> None"
    and "rw_get (sv_networks (serve_all lib nl reqs sv)) n = Some nw"
    and "rw_get (nw_peers nw) j = Some p" "rw_get (nw_peers nw) k = Some q" "j \<noteq> k" "pm_ip (vp_model p) = Some ip"
  shows "pm_ip (vp_model q) \<noteq> Some ip"
proof -
  have "net_ips_ok nw" using serve_all_kept [OF assms(2), of lib nl] assms(1,3) by (simp add: ips_kept_def ips_ok_def)
  then show ?thesis using peer_ips_distinctD [of "nw_peers nw" j p k q] assms(4-7) by (auto simp: net_ips_ok_def)
qed

definition peer_address :: "('n, 'd) server \<Rightarrow> int \<Rightarrow> string \<Rightarrow> string option" where
  "peer_address sv n k =
     Option.bind (rw_get (sv_networks sv) n) (\<lambda>nw.
     Option.bind (rw_get (nw_peers nw) k) (\<lambda>p. pm_ip (vp_model p)))"

definition run_two :: "(u32, peer_model list) server" where
  "run_two = fst (get_network plain_db plain_net4 1 (server_new ''K'' [plain_peer 1 ''j'' None, plain_peer 2 ''k'' None]))
     \<lparr>sv_open := [0, 1]\<rparr>"

definition ask :: "string \<Rightarrow> nat \<Rightarrow> client_id \<times> client_connect \<times> to_server" where
  "ask k i = (\<lparr>id_pub_key = k, id_network = 1\<rparr>, conn i, \<lparr>ts_id = 7, ts_data = Some ReqConfig\<rparr>)"

lemma run_two_networks:
  "sv_networks run_two = [(1, \<lparr>nw_id = 1, nw_cidr = 0,
     nw_peers = peers_new (map peer_from_model [plain_peer 1 ''j'' None, plain_peer 2 ''k'' None]), nw_connects = rw_new\<rparr>)]"
  by code_simp

lemma run_two_ips_ok: "ips_ok run_two"
proof -
  let ?j = "plain_peer 1 ''j'' None" and ?k = "plain_peer 2 ''k'' None"
  have ps: "peers_new (map peer_from_model [?j, ?k]) = [(''j'', peer_from_model ?j), (''k'', peer_from_model ?k)]"
    by code_simp
  have "net_ips_ok (\<lparr>nw_id = 1, nw_cidr = 0, nw_peers = [(''j'', peer_from_model ?j), (''k'', peer_from_model ?k)],
      nw_connects = rw_new\<rparr> :: u32 vlink_network)"
    by (auto simp: net_ips_ok_def rw_get_def rw_wf_def peer_from_model_def plain_peer_def split: if_splits)
  then show ?thesis unfolding ips_ok_def run_two_networks ps by (auto simp: rw_get_def split: if_splits)
qed

theorem addresses_stay_distinct_witness:
  "peer_address (serve_all plain_db plain_net4 [ask ''j'' 0, ask ''k'' 1] run_two) 1 ''j'' = Some ''0.0.0.2''
   \<and> peer_address (serve_all plain_db plain_net4 [ask ''j'' 0, ask ''k'' 1] run_two) 1 ''k'' \<noteq> Some ''0.0.0.2''"
proof -
  let ?sv = "serve_all plain_db plain_net4 [ask ''j'' 0, ask ''k'' 1] run_two"
  have j: "peer_address ?sv 1 ''j'' = Some ''0.0.0.2''" by code_simp
  then obtain nw p where nw: "rw_get (sv_networks ?sv) 1 = Some nw" "rw_get (nw_peers nw) ''j'' = Some p"
    "pm_ip (vp_model p) = Some ''0.0.0.2''" by (auto simp: peer_address_def Option.bind_eq_Some_conv)
  have "peer_address ?sv 1 ''k'' \<noteq> None" by code_simp
  then obtain q where q: "rw_get (nw_peers nw) ''k'' = Some q"
    using nw(1) by (cases "rw_get (nw_peers nw) ''k''") (simp_all add: peer_address_def)
  have "\<forall>r \<in> set [ask ''j'' 0, ask ''k'' 1]. rw_get (sv_networks run_two) (id_network (fst r)) \<noteq> None" by code_simp
  from addresses_stay_distinct [OF run_two_ips_ok this nw(1,2) q _ nw(3)]
  have "pm_ip (vp_model q) \<noteq> Some ''0.0.0.2''" by simp
  then show ?thesis using j nw(1) q by (simp add: peer_address_def)
qed

section \<open>What a configuration request does\<close>

lemma store_ip_Ok:
  assumes "update_peer_ip lib (sv_db sv) (pm_id (vp_model self)) (ipv4_text ip) = Ok d"
  shows "store_ip lib n self ip sv =
    (on_peers n (refresh_model ((vp_model self)\<lparr>pm_ip := Some (ipv4_text ip)\<rparr>)) (sv\<lparr>sv_db := d\<rparr>), Ok ())"
  using assms by (simp add: store_ip_def)

lemma peer_address_store:
  assumes "rw_get (sv_networks sv) n = Some nw" "rw_get (nw_peers nw) k = Some p" "pm_pub_key (vp_model self) = j"
    and "update_peer_ip lib (sv_db sv) (pm_id (vp_model self)) (ipv4_text ip) = Ok d"
  shows "peer_address (fst (store_ip lib n self ip sv)) n k =
    (if k = j then Some (ipv4_text ip) else pm_ip (vp_model p))"
  using assms by (cases "k = j") (auto simp: store_ip_Ok peer_address_def on_peers_def on_network_def refresh_model_def)

lemma req_config_fresh:
  assumes "net_ips_ok nw" "rw_get (sv_networks sv) n = Some nw" "rw_get (nw_peers nw) k = Some p" "pm_ip (vp_model p) = None"
    and "rx_client_id ctx = \<lparr>id_pub_key = k, id_network = n\<rparr>" "co_id (rx_client ctx) \<in> set (sv_open sv)"
    and "free \<in> set (drop 2 (net4_hosts nl (nw_cidr nw)))" "ipv4_text free \<notin> set (peer_ips (nw_peers nw))"
    and "\<And>ip. update_peer_ip lib (sv_db sv) (pm_id (vp_model p)) ip = Ok (db' ip)"
    and "\<And>d. find_transports lib d (pm_id (vp_model p)) = Ok ts"
  shows "\<exists>ip ys zs sv' rc. drop 2 (net4_hosts nl (nw_cidr nw)) = ys @ ip # zs
    \<and> ipv4_text ip \<notin> set (peer_ips (nw_peers nw)) \<and> (\<forall>y \<in> set ys. ipv4_text y \<in> set (peer_ips (nw_peers nw)))
    \<and> req_config_exec lib nl ctx sv = (sv', Ok ()) \<and> sv_db sv' = db' (ipv4_text ip)
    \<and> peer_address sv' n k = Some (ipv4_text ip) \<and> (\<forall>j. j \<noteq> k \<longrightarrow> peer_address sv' n j = peer_address sv n j)
    \<and> sv_out sv' = sv_out sv @ [(co_id (rx_client ctx), Some (rx_id ctx), RespConfig rc)]
    \<and> rc_address rc = ip \<and> rc_mask rc = ucast (net4_mask nl (nw_cidr nw))
    \<and> rc_network rc = net4_address nl (nw_cidr nw) \<and> rc_peers rc = config_peers (nw_peers nw)"
proof -
  obtain ip where gen: "generate_ip nl (nw_cidr nw) (nw_peers nw) = Ok ip" using generate_ip_free [OF assms(7,8)] by blast
  then obtain ys zs where first: "drop 2 (net4_hosts nl (nw_cidr nw)) = ys @ ip # zs"
    "ipv4_text ip \<notin> set (peer_ips (nw_peers nw))" "\<forall>y \<in> set ys. ipv4_text y \<in> set (peer_ips (nw_peers nw))"
    by (rule generate_ip_Ok)
  have key: "pm_pub_key (vp_model p) = k" using assms(1,3) by (simp add: net_ips_ok_def)
  let ?m = "(vp_model p)\<lparr>pm_ip := Some (ipv4_text ip)\<rparr>"
  let ?sv = "on_peers n (refresh_model ?m) (sv\<lparr>sv_db := db' (ipv4_text ip)\<rparr>)"
  let ?nw = "nw\<lparr>nw_peers := refresh_model ?m (nw_peers nw)\<rparr>"
  have net: "rw_get (sv_networks ?sv) n = Some ?nw" using assms(2) by (simp add: on_peers_def on_network_def)
  have plan: "plan_ip nl nw p = Ok (ip, True)" using assms(4) gen by (simp add: plan_ip_def)
  have same: "sv_out ?sv = sv_out sv" "sv_open ?sv = sv_open sv" "sv_db ?sv = db' (ipv4_text ip)"
    by (simp_all add: on_peers_def)
  obtain rc where rc: "config_answer lib nl ctx p (config_peers (nw_peers nw)) ip ?sv =
      (?sv\<lparr>sv_out := sv_out sv @ [(co_id (rx_client ctx), Some (rx_id ctx), RespConfig rc)]\<rparr>, Ok ())"
    "rc_address rc = ip" "rc_mask rc = ucast (net4_mask nl (nw_cidr nw))" "rc_network rc = net4_address nl (nw_cidr nw)"
    "rc_peers rc = config_peers (nw_peers nw)"
    using assms(5,6,10) net same by (simp add: config_answer_def send_resp_def client_send_def)
  let ?sv' = "?sv\<lparr>sv_out := sv_out sv @ [(co_id (rx_client ctx), Some (rx_id ctx), RespConfig rc)]\<rparr>"
  have "req_config_exec lib nl ctx sv = (?sv', Ok ())"
    using assms(2,3,5,9) plan rc(1) by (simp add: req_config_exec_def with_network_loaded store_ip_Ok)
  moreover have "peer_address ?sv' n j = (if j = k then Some (ipv4_text ip) else peer_address sv n j)" for j
    using net assms(2,3) key by (simp add: peer_address_def refresh_model_def)
  moreover have "sv_db ?sv' = db' (ipv4_text ip)" by (simp add: same)
  ultimately show ?thesis using first rc(2-) by (intro exI [of _ ip] exI [of _ ys] exI [of _ zs] exI [of _ ?sv'] exI [of _ rc]) simp
qed

text \<open>C23: A configuration request of a peer without an address.  It gets the first address of the network
  after the first two that no peer has; the address is written to the database and to the network, no
  other peer's address changes, and the answer, under the number of the request, carries it with the mask
  and the network of the prefix.\<close>

theorem req_config_assigns:
  assumes "net_ips_ok nw" "rw_get (sv_networks sv) n = Some nw" "rw_get (nw_peers nw) k = Some p" "pm_ip (vp_model p) = None"
    and "rx_client_id ctx = \<lparr>id_pub_key = k, id_network = n\<rparr>" "co_id (rx_client ctx) \<in> set (sv_open sv)"
    and "free \<in> set (drop 2 (net4_hosts nl (nw_cidr nw)))" "ipv4_text free \<notin> set (peer_ips (nw_peers nw))"
    and "\<And>ip. update_peer_ip lib (sv_db sv) (pm_id (vp_model p)) ip = Ok (db' ip)"
    and "\<And>d. find_transports lib d (pm_id (vp_model p)) = Ok ts"
  shows "\<exists>ip ys zs sv' rc. drop 2 (net4_hosts nl (nw_cidr nw)) = ys @ ip # zs
    \<and> ipv4_text ip \<notin> set (peer_ips (nw_peers nw)) \<and> (\<forall>y \<in> set ys. ipv4_text y \<in> set (peer_ips (nw_peers nw)))
    \<and> req_config_exec lib nl ctx sv = (sv', Ok ()) \<and> sv_db sv' = db' (ipv4_text ip)
    \<and> peer_address sv' n k = Some (ipv4_text ip) \<and> (\<forall>j. j \<noteq> k \<longrightarrow> peer_address sv' n j = peer_address sv n j)
    \<and> sv_out sv' = sv_out sv @ [(co_id (rx_client ctx), Some (rx_id ctx), RespConfig rc)]
    \<and> rc_address rc = ip \<and> rc_mask rc = ucast (net4_mask nl (nw_cidr nw))
    \<and> rc_network rc = net4_address nl (nw_cidr nw) \<and> rc_peers rc = config_peers (nw_peers nw)"
  using assms by (rule req_config_fresh)

theorem req_config_assigns_witness:
  "peer_address (fst (req_config_exec plain_db plain_net4
     \<lparr>rx_id = 7, rx_client_id = \<lparr>id_pub_key = ''k'', id_network = 1\<rparr>, rx_client = conn 1\<rparr> run_two)) 1 ''j'' =
   peer_address run_two 1 ''j''"
proof -
  let ?ctx = "\<lparr>rx_id = 7, rx_client_id = \<lparr>id_pub_key = ''k'', id_network = 1\<rparr>, rx_client = conn 1\<rparr>"
  let ?p = "peer_from_model (plain_peer 2 ''k'' None)"
  obtain nw where nw: "rw_get (sv_networks run_two) 1 = Some nw" unfolding run_two_networks by (simp add: rw_get_def)
  have ok: "net_ips_ok nw" using run_two_ips_ok nw by (simp add: ips_ok_def)
  have "map_option (\<lambda>nw. (nw_cidr nw, rw_get (nw_peers nw) ''k'', peer_ips (nw_peers nw)))
      (rw_get (sv_networks run_two) 1) = Some (0, Some ?p, [])" by code_simp
  then have p: "nw_cidr nw = 0" "rw_get (nw_peers nw) ''k'' = Some ?p" "peer_ips (nw_peers nw) = []"
    using nw by simp_all
  have free: "3 \<in> set (drop 2 (net4_hosts plain_net4 (nw_cidr nw)))" unfolding p(1) by code_simp
  have up: "update_peer_ip plain_db (sv_db run_two) (pm_id (vp_model ?p)) ip =
      Ok ((\<lambda>ip. map (\<lambda>m. if pm_id m = pm_id (vp_model ?p) then m\<lparr>pm_ip := Some ip\<rparr> else m) (sv_db run_two)) ip)" for ip
    by (simp add: plain_db_def)
  have "co_id (rx_client ?ctx) \<in> set (sv_open run_two)" by code_simp
  from req_config_assigns [OF ok nw p(2) _ _ this free _ up, of "[]"]
  show ?thesis by (auto simp: p(3) peer_from_model_def plain_peer_def plain_db_def)
qed

section \<open>Two requests at the same time\<close>

text \<open>C39: Two peers can get the same address.  The address is chosen before the database is asked and
  stored afterwards; when the requests of two peers without an address both reach the choice before either
  has stored its own, both choose the same address, and both come to have it.\<close>

theorem concurrent_requests_share_address:
  assumes "net_ips_ok nw" "rw_get (sv_networks sv) n = Some nw" "rw_get (nw_peers nw) j = Some p" "rw_get (nw_peers nw) k = Some q"
    and "j \<noteq> k" "pm_ip (vp_model p) = None" "pm_ip (vp_model q) = None"
    and "update_peer_ip lib (sv_db sv) (pm_id (vp_model p)) (ipv4_text ip) = Ok d"
    and "update_peer_ip lib d (pm_id (vp_model q)) (ipv4_text ip) = Ok d'"
    and "plan_ip nl nw p = Ok (ip, True)"
  shows "plan_ip nl nw q = Ok (ip, True)
    \<and> (let sv' = fst (store_ip lib n q ip (fst (store_ip lib n p ip sv)))
       in peer_address sv' n j = Some (ipv4_text ip) \<and> peer_address sv' n k = Some (ipv4_text ip))"
proof -
  have keys: "pm_pub_key (vp_model p) = j" "pm_pub_key (vp_model q) = k"
    using assms(1,3,4) by (simp_all add: net_ips_ok_def)
  let ?sv = "fst (store_ip lib n p ip sv)"
  let ?f = "\<lambda>r. r\<lparr>vp_model := (vp_model p)\<lparr>pm_ip := Some (ipv4_text ip)\<rparr>\<rparr>"
  let ?nw = "nw\<lparr>nw_peers := rw_modify j ?f (nw_peers nw)\<rparr>"
  have net: "rw_get (sv_networks ?sv) n = Some ?nw" and db: "sv_db ?sv = d"
    using assms(2,8) keys by (simp_all add: store_ip_Ok on_peers_def on_network_def refresh_model_def)
  have peers: "rw_get (nw_peers ?nw) j = Some (?f p)" "rw_get (nw_peers ?nw) k = Some q" using assms(3-5) by simp_all
  note addr = peer_address_store [OF net _ keys(2), of _ _ lib ip d']
  have "peer_address (fst (store_ip lib n q ip ?sv)) n j = Some (ipv4_text ip)"
    using addr [OF peers(1)] assms(5,9) db by simp
  moreover have "peer_address (fst (store_ip lib n q ip ?sv)) n k = Some (ipv4_text ip)"
    using addr [OF peers(2)] assms(9) db by simp
  moreover have "plan_ip nl nw q = Ok (ip, True)" using assms(6,7,10) by (simp add: plan_ip_def)
  ultimately show ?thesis by (simp add: Let_def)
qed

theorem concurrent_requests_share_address_witness:
  "let p = peer_from_model (plain_peer 1 ''j'' None); q = peer_from_model (plain_peer 2 ''k'' None);
       sv' = fst (store_ip plain_db 1 q 2 (fst (store_ip plain_db 1 p 2 run_two)))
   in peer_address sv' 1 ''j'' = Some ''0.0.0.2'' \<and> peer_address sv' 1 ''k'' = Some ''0.0.0.2''"
proof -
  let ?p = "peer_from_model (plain_peer 1 ''j'' None)" and ?q = "peer_from_model (plain_peer 2 ''k'' None)"
  obtain nw where nw: "rw_get (sv_networks run_two) 1 = Some nw" unfolding run_two_networks by (simp add: rw_get_def)
  have ok: "net_ips_ok nw" using run_two_ips_ok nw by (simp add: ips_ok_def)
  have "map_option (\<lambda>nw. (rw_get (nw_peers nw) ''j'', rw_get (nw_peers nw) ''k'', plan_ip plain_net4 nw ?p))
      (rw_get (sv_networks run_two) 1) = Some (Some ?p, Some ?q, Ok (2, True))" by code_simp
  then have f: "rw_get (nw_peers nw) ''j'' = Some ?p" "rw_get (nw_peers nw) ''k'' = Some ?q"
    "plan_ip plain_net4 nw ?p = Ok (2, True)" using nw by simp_all
  have ip: "ipv4_text 2 = ''0.0.0.2''" by code_simp
  have "update_peer_ip plain_db d i ip = Ok (map (\<lambda>m. if pm_id m = i then m\<lparr>pm_ip := Some ip\<rparr> else m) d)" for d i ip
    by (simp add: plain_db_def)
  from concurrent_requests_share_address [OF ok nw f(1,2) _ _ _ this this f(3)]
  show ?thesis by (simp add: ip peer_from_model_def plain_peer_def)
qed

end
