(* ===== verification/Nonce_Filter.thy ===== *)
theory Nonce_Filter
  imports Prelude
begin

text \<open>
  The anti-replay window of a transport session: \<open>NonceFilter\<close> of
  \<open>vlink-tun/src/device/peer/session.rs\<close>.  A ring of 1024 bits (16 words of 64 bits and a start
  position) remembers which of the last 1024 counters were received.  The model keeps every
  integer at its width, with the wrap-around of the release profile, and makes the bounds check of
  the array access a panic.  The section \<open>Abstraction\<close> relates the ring to the set of counters
  received so far; \<open>replay_filter\<close> is the interface a session relies on, and its interpretation on
  the ring gives that no counter is ever delivered twice.
\<close>

unbundle bit_operations_syntax

section \<open>The ring\<close>

definition MAX_REPLAY_SIZE :: nat where
  "MAX_REPLAY_SIZE = 1024"

record nonce_filter =
  nf_next :: u64
  nf_accepted :: u64
  nf_words :: "u64 list"
  nf_idx :: u64

definition nonce_filter_new :: nonce_filter where
  "nonce_filter_new = \<lparr>nf_next = 0, nf_accepted = 0,
     nf_words = replicate (MAX_REPLAY_SIZE div 64) 0, nf_idx = 0\<rparr>"

definition bitmap_index :: "nonce_filter \<Rightarrow> u64 \<Rightarrow> u64 \<times> u64" where
  "bitmap_index f i =
     (let offset = nf_next f - i;
          j = (if nf_idx f \<ge> offset then nf_idx f - offset
               else of_nat MAX_REPLAY_SIZE + nf_idx f - offset);
          word_idx = j div 64;
          bit_idx = j - word_idx * 64
      in (word_idx, bit_idx))"

definition is_set :: "nonce_filter \<Rightarrow> u64 \<Rightarrow> ('e, bool) result" where
  "is_set f i =
     (let (word_idx, bit_idx) = bitmap_index f i
      in rbind (nth_checked (nf_words f) (unat word_idx))
           (\<lambda>w. Ok (w AND push_bit (unat bit_idx) 1 \<noteq> 0)))"

definition nf_set :: "nonce_filter \<Rightarrow> u64 \<Rightarrow> ('e, nonce_filter) result" where
  "nf_set f i =
     (let (word_idx, bit_idx) = bitmap_index f i
      in rbind (nth_checked (nf_words f) (unat word_idx))
           (\<lambda>w. Ok (f\<lparr>nf_words := (nf_words f)[unat word_idx := w OR push_bit (unat bit_idx) 1]\<rparr>)))"

definition nf_unset :: "nonce_filter \<Rightarrow> u64 \<Rightarrow> ('e, nonce_filter) result" where
  "nf_unset f i =
     (let (word_idx, bit_idx) = bitmap_index f i
      in rbind (nth_checked (nf_words f) (unat word_idx))
           (\<lambda>w. Ok (f\<lparr>nf_words :=
              (nf_words f)[unat word_idx := w AND NOT (push_bit (unat bit_idx) 1)]\<rparr>)))"

definition nf_advance :: "nonce_filter \<Rightarrow> ('e, nonce_filter) result" where
  "nf_advance f =
     rbind (if nf_next f > of_nat MAX_REPLAY_SIZE
            then nf_unset f (nf_next f - of_nat MAX_REPLAY_SIZE) else Ok f)
       (\<lambda>g. Ok (g\<lparr>nf_next := nf_next g + 1,
                  nf_idx := (nf_idx g + 1) mod of_nat MAX_REPLAY_SIZE\<rparr>))"

definition nf_can_accept :: "nonce_filter \<Rightarrow> u64 \<Rightarrow> ('e, bool) result" where
  "nf_can_accept f counter =
     (if counter \<ge> nf_next f then Ok True
      else if counter + of_nat MAX_REPLAY_SIZE \<le> nf_next f then Ok False
      else rbind (is_set f counter) (\<lambda>b. Ok (\<not> b)))"

lemma nf_advance_next:
  assumes "nf_advance f = Ok g"
  shows "nf_next g = nf_next f + 1"
  using assms
  by (auto simp: nf_advance_def nf_unset_def Let_def result_simps split: if_splits prod.splits)

text \<open>The loop \<open>while self.next < counter { self.advance(); }\<close>.\<close>

function nf_advance_to :: "nonce_filter \<Rightarrow> u64 \<Rightarrow> ('e, nonce_filter) result" where
  "nf_advance_to f counter =
     (if nf_next f < counter
      then (case (nf_advance f :: ('e, nonce_filter) result) of
              Ok g \<Rightarrow> nf_advance_to g counter
            | Err e \<Rightarrow> Err e
            | Panic \<Rightarrow> Panic)
      else Ok f)"
  by pat_completeness auto
termination
proof (relation "measure (\<lambda>(f, c). unat c - unat (nf_next f))", goal_cases)
  case 1
  show ?case by simp
next
  case (2 f counter g)
  have "nf_next g = nf_next f + 1"
    using nf_advance_next [OF 2(2)] .
  moreover have "unat (nf_next f + 1) = unat (nf_next f) + 1"
    using 2(1) by (rule unat_succ_less)
  moreover have "unat (nf_next f) < unat counter"
    using 2(1) by (simp add: word_less_nat_alt)
  ultimately show ?case by simp
qed

declare nf_advance_to.simps [simp del]

definition nf_accept :: "nonce_filter \<Rightarrow> u64 \<Rightarrow> ('e, nonce_filter) result" where
  "nf_accept f0 counter =
     (let f = f0\<lparr>nf_accepted := nf_accepted f0 + 1\<rparr>
      in if counter < nf_next f then nf_set f counter
         else if counter > nf_next f \<and> unat (counter - nf_next f) \<ge> MAX_REPLAY_SIZE
         then nf_set (f\<lparr>nf_words := replicate (MAX_REPLAY_SIZE div 64) 0, nf_idx := 0,
                        nf_next := counter + 1\<rparr>) counter
         else rbind (nf_advance_to f counter)
                (\<lambda>g. rbind (nf_advance g) (\<lambda>h. nf_set h counter)))"

section \<open>Slots\<close>

text \<open>
  \<open>slot f c\<close> is the position in the ring of a counter \<open>c\<close> of the last 1024, \<open>ring_bit f j\<close> the bit at
  position \<open>j\<close>.  Everything below is stated on natural numbers; \<open>nf_wf\<close> and the bounds give that no
  operation wraps.
\<close>

definition nf_wf :: "nonce_filter \<Rightarrow> bool" where
  "nf_wf f \<longleftrightarrow> length (nf_words f) = 16 \<and> unat (nf_idx f) < 1024"

definition slot :: "nonce_filter \<Rightarrow> nat \<Rightarrow> nat" where
  "slot f c = (unat (nf_idx f) + 1024 - (unat (nf_next f) - c)) mod 1024"

definition ring_bit :: "nonce_filter \<Rightarrow> nat \<Rightarrow> bool" where
  "ring_bit f j \<longleftrightarrow> bit (nf_words f ! (j div 64)) (j mod 64)"

definition in_ring :: "nonce_filter \<Rightarrow> u64 \<Rightarrow> bool" where
  "in_ring f c \<longleftrightarrow> unat c < unat (nf_next f) \<and> unat (nf_next f) \<le> unat c + 1024"

lemma slot_less [simp]: "slot f c < 1024"
  by (simp add: slot_def)

lemma ring_mod_eq:
  "off \<le> 1024 \<Longrightarrow> 0 < off \<Longrightarrow> i < (1024::nat) \<Longrightarrow>
    (i + 1024 - off) mod 1024 = (if off \<le> i then i - off else 1024 + i - off)"
  by (auto simp: mod_if)

lemma bitmap_index_eq:
  assumes "nf_wf f" "in_ring f i"
  shows "unat (fst (bitmap_index f i)) = slot f (unat i) div 64"
    and "unat (snd (bitmap_index f i)) = slot f (unat i) mod 64"
proof -
  define off where "off = nf_next f - i"
  define j where "j = (if nf_idx f \<ge> off then nf_idx f - off else 1024 + nf_idx f - off)"
  have le: "i \<le> nf_next f" using assms(2) by (simp add: in_ring_def word_le_nat_alt)
  have off: "unat off = unat (nf_next f) - unat i"
    unfolding off_def using le by (rule unat_sub_le)
  have bounds: "0 < unat off" "unat off \<le> 1024" "unat (nf_idx f) < 1024"
    using assms by (auto simp: off in_ring_def nf_wf_def)
  have sum: "unat (1024 + nf_idx f) = 1024 + unat (nf_idx f)"
    using bounds by (subst unat_add_nowrap) auto
  have j: "unat j = slot f (unat i)"
  proof (cases "off \<le> nf_idx f")
    case True
    then have "unat j = unat (nf_idx f) - unat off"
      by (simp add: j_def unat_sub_le)
    moreover have "unat off \<le> unat (nf_idx f)" using True by (simp add: word_le_nat_alt)
    ultimately show ?thesis
      using ring_mod_eq [of "unat off" "unat (nf_idx f)"] bounds by (simp add: slot_def off)
  next
    case False
    then have lt: "unat (nf_idx f) < unat off" by (simp add: word_le_nat_alt)
    have "off \<le> 1024 + nf_idx f" using bounds by (simp add: word_le_nat_alt sum)
    then have "unat (1024 + nf_idx f - off) = 1024 + unat (nf_idx f) - unat off"
      by (simp add: unat_sub_le sum)
    then have "unat j = 1024 + unat (nf_idx f) - unat off"
      using False by (simp add: j_def)
    then show ?thesis
      using ring_mod_eq [of "unat off" "unat (nf_idx f)"] bounds lt by (simp add: slot_def off)
  qed
  have pair: "bitmap_index f i = (j div 64, j mod 64)"
    by (simp add: bitmap_index_def Let_def off_def j_def MAX_REPLAY_SIZE_def
        minus_div_mult_eq_mod)
  show "unat (fst (bitmap_index f i)) = slot f (unat i) div 64"
    by (simp add: pair unat_div j)
  show "unat (snd (bitmap_index f i)) = slot f (unat i) mod 64"
    by (simp add: pair unat_mod j)
qed

lemma slot_word_less: "nf_wf f \<Longrightarrow> slot f c div 64 < length (nf_words f)"
  by (simp add: nf_wf_def less_mult_imp_div_less)

lemma is_set_eq:
  assumes "nf_wf f" "in_ring f i"
  shows "is_set f i = Ok (ring_bit f (slot f (unat i)))"
  using bitmap_index_eq [OF assms] slot_word_less [OF assms(1)]
  by (auto simp: is_set_def Let_def split_beta ring_bit_def bit_iff_and_push_bit_not_eq_0)

lemma bit_two_power: "n < 64 \<Longrightarrow> bit (2 ^ n :: u64) m \<longleftrightarrow> m = n"
  by (auto simp: bit_simps)

lemma slot_neq_iff: "j \<noteq> (k::nat) \<longleftrightarrow> j div 64 \<noteq> k div 64 \<or> j mod 64 \<noteq> k mod 64"
  by (metis div_mult_mod_eq)

lemma nf_set_eq:
  assumes "nf_wf f" "in_ring f i"
  obtains g where "nf_set f i = Ok g" "nf_wf g" "nf_next g = nf_next f" "nf_idx g = nf_idx f"
    "nf_accepted g = nf_accepted f"
    "\<And>j. j < 1024 \<Longrightarrow> ring_bit g j \<longleftrightarrow> j = slot f (unat i) \<or> ring_bit f j"
proof -
  define k where "k = slot f (unat i)"
  define g where "g = f\<lparr>nf_words := (nf_words f)[k div 64 :=
    nf_words f ! (k div 64) OR push_bit (k mod 64) 1]\<rparr>"
  have k: "k div 64 < length (nf_words f)"
    unfolding k_def using assms(1) by (rule slot_word_less)
  have "nf_set f i = Ok g"
    using bitmap_index_eq [OF assms] k
    by (auto simp: nf_set_def Let_def split_beta g_def k_def)
  moreover have "ring_bit g j \<longleftrightarrow> j = k \<or> ring_bit f j" if "j < 1024" for j
    using that k assms(1) slot_neq_iff [of j k]
    by (auto simp: ring_bit_def g_def nth_list_update bit_or_iff bit_two_power nf_wf_def)
  ultimately show ?thesis
    using assms(1) by (intro that [of g]) (auto simp: g_def nf_wf_def k_def)
qed

lemma nf_unset_eq:
  assumes "nf_wf f" "in_ring f i"
  obtains g where "nf_unset f i = Ok g" "nf_wf g" "nf_next g = nf_next f" "nf_idx g = nf_idx f"
    "nf_accepted g = nf_accepted f"
    "\<And>j. j < 1024 \<Longrightarrow> ring_bit g j \<longleftrightarrow> j \<noteq> slot f (unat i) \<and> ring_bit f j"
proof -
  define k where "k = slot f (unat i)"
  define g where "g = f\<lparr>nf_words := (nf_words f)[k div 64 :=
    nf_words f ! (k div 64) AND NOT (push_bit (k mod 64) 1)]\<rparr>"
  have k: "k div 64 < length (nf_words f)"
    unfolding k_def using assms(1) by (rule slot_word_less)
  have "nf_unset f i = Ok g"
    using bitmap_index_eq [OF assms] k
    by (auto simp: nf_unset_def Let_def split_beta g_def k_def)
  moreover have "ring_bit g j \<longleftrightarrow> j \<noteq> k \<and> ring_bit f j" if "j < 1024" for j
    using that k assms(1) slot_neq_iff [of j k]
    by (auto simp: ring_bit_def g_def nth_list_update bit_and_iff bit_not_iff bit_two_power
        nf_wf_def)
  ultimately show ?thesis
    using assms(1) by (intro that [of g]) (auto simp: g_def nf_wf_def k_def)
qed

section \<open>Abstraction: the set of counters received\<close>

text \<open>
  \<open>nf_rel f S\<close>: the ring \<open>f\<close> represents the set \<open>S\<close> of counters received so far.  Every counter of
  \<open>S\<close> inside the window has its bit set.  The converse holds for every counter but 1024: when the
  window moves from 1024 to 1025 the test \<open>self.next > MAX_REPLAY_SIZE\<close> of \<open>advance\<close> fails and the
  bit that counter 0 left behind is not cleared.
\<close>

definition in_window :: "nat \<Rightarrow> nat \<Rightarrow> bool" where
  "in_window n c \<longleftrightarrow> c < n \<and> n < c + 1024"

definition in_range :: "nat \<Rightarrow> nat \<Rightarrow> bool" where
  "in_range n c \<longleftrightarrow> c < n \<and> n \<le> c + 1024"

definition nf_rel :: "nonce_filter \<Rightarrow> nat set \<Rightarrow> bool" where
  "nf_rel f S \<longleftrightarrow> nf_wf f \<and> (\<forall>c\<in>S. c < unat (nf_next f)) \<and>
     (\<forall>c\<in>S. in_range (unat (nf_next f)) c \<longrightarrow> ring_bit f (slot f c)) \<and>
     (\<forall>c. in_window (unat (nf_next f)) c \<longrightarrow> ring_bit f (slot f c) \<longrightarrow> c \<noteq> 1024 \<longrightarrow> c \<in> S) \<and>
     (unat (nf_next f) \<le> 1024 \<longrightarrow> unat (nf_idx f) = unat (nf_next f) mod 1024 \<and>
        (\<forall>j. unat (nf_next f) \<le> j \<longrightarrow> j < 1024 \<longrightarrow> \<not> ring_bit f j))"

lemma nf_relD:
  assumes "nf_rel f S"
  shows "nf_wf f" "c \<in> S \<Longrightarrow> c < unat (nf_next f)"
    "in_range (unat (nf_next f)) c \<Longrightarrow> c \<in> S \<Longrightarrow> ring_bit f (slot f c)"
    "in_window (unat (nf_next f)) c \<Longrightarrow> ring_bit f (slot f c) \<Longrightarrow> c \<noteq> 1024 \<Longrightarrow> c \<in> S"
    "unat (nf_next f) \<le> 1024 \<Longrightarrow> unat (nf_idx f) = unat (nf_next f) mod 1024"
    "unat (nf_next f) \<le> j \<Longrightarrow> j < 1024 \<Longrightarrow> \<not> ring_bit f j"
  using assms by (auto simp: nf_rel_def)

lemma nf_rel_new: "nf_rel nonce_filter_new {}"
  by (auto simp: nf_rel_def nonce_filter_new_def nf_wf_def MAX_REPLAY_SIZE_def in_window_def
      in_range_def ring_bit_def less_mult_imp_div_less)

lemma nf_rel_accepted: "nf_rel (f\<lparr>nf_accepted := a\<rparr>) S \<longleftrightarrow> nf_rel f S"
  by (simp add: nf_rel_def nf_wf_def slot_def ring_bit_def)

lemma slot_inj:
  assumes "unat (nf_idx f) < 1024" "c < unat (nf_next f)" "unat (nf_next f) \<le> c + 1024"
    and "c' < unat (nf_next f)" "unat (nf_next f) \<le> c' + 1024" "slot f c = slot f c'"
  shows "c = c'"
proof -
  have "slot f d = (if unat (nf_next f) - d \<le> unat (nf_idx f)
      then unat (nf_idx f) - (unat (nf_next f) - d)
      else 1024 + unat (nf_idx f) - (unat (nf_next f) - d))"
    if "d < unat (nf_next f)" "unat (nf_next f) \<le> d + 1024" for d
    unfolding slot_def using that assms(1) by (intro ring_mod_eq) auto
  from this [of c] this [of c'] assms show ?thesis by (auto split: if_splits)
qed

lemma slot_early:
  assumes "unat (nf_next f) \<le> 1024" "unat (nf_idx f) = unat (nf_next f) mod 1024"
    and "c < unat (nf_next f)"
  shows "slot f c = c"
  using assms by (cases "unat (nf_next f) = 1024") (auto simp: slot_def mod_if)

lemma nf_rel_set:
  assumes rel: "nf_rel f S" and ring: "in_ring f i"
  obtains g where "nf_set f i = (Ok g :: ('e, nonce_filter) result)" "nf_rel g (insert (unat i) S)" "nf_next g = nf_next f"
proof -
  note relD = nf_relD [OF rel]
  from relD(1) ring obtain g where g: "nf_set f i = (Ok g :: ('e, nonce_filter) result)"
      "nf_wf g" "nf_next g = nf_next f"
      "nf_idx g = nf_idx f"
      "\<And>j. j < 1024 \<Longrightarrow> ring_bit g j \<longleftrightarrow> j = slot f (unat i) \<or> ring_bit f j"
    by (rule nf_set_eq) auto
  have slot: "slot g c = slot f c" for c by (simp add: slot_def g)
  have inj: "c = unat i" if "in_window (unat (nf_next f)) c" "slot f c = slot f (unat i)" for c
    using slot_inj [of f c "unat i"] that ring relD(1)
    by (auto simp: in_window_def in_ring_def nf_wf_def)
  have early: "slot f (unat i) < unat (nf_next f)" if "unat (nf_next f) \<le> 1024"
    using slot_early [OF that relD(5) [OF that]] ring by (auto simp: in_ring_def)
  have "nf_rel g (insert (unat i) S)"
    unfolding nf_rel_def
  proof (intro conjI allI impI ballI)
    show "nf_wf g" by (rule g)
    show "c < unat (nf_next g)" if "c \<in> insert (unat i) S" for c
      using that relD(2) ring by (auto simp: g in_ring_def)
    show "ring_bit g (slot g c)" if "c \<in> insert (unat i) S" "in_range (unat (nf_next g)) c" for c
      using that relD(3) [of c] by (auto simp: slot g)
    show "c \<in> insert (unat i) S"
      if "in_window (unat (nf_next g)) c" "ring_bit g (slot g c)" "c \<noteq> 1024" for c
      using that relD(4) [of c] inj [of c] by (auto simp: slot g)
  next
    assume "unat (nf_next g) \<le> 1024"
    then have n: "unat (nf_next f) \<le> 1024" by (simp add: g)
    show "unat (nf_idx g) = unat (nf_next g) mod 1024" using relD(5) [OF n] by (simp add: g)
    show "\<not> ring_bit g j" if "unat (nf_next g) \<le> j" "j < 1024" for j
      using that relD(6) early [OF n] by (auto simp: g)
  qed
  with g(1,3) show ?thesis by (intro that)
qed

lemma nf_advance_eq:
  assumes rel: "nf_rel f S" and bound: "unat (nf_next f) + 1 < 2 ^ 64"
  obtains g where "nf_advance f = (Ok g :: ('e, nonce_filter) result)" "nf_wf g"
    "unat (nf_next g) = unat (nf_next f) + 1"
    "unat (nf_idx g) = (unat (nf_idx f) + 1) mod 1024"
    "\<And>j. j < 1024 \<Longrightarrow> ring_bit g j \<longleftrightarrow>
       ring_bit f j \<and> (1024 < unat (nf_next f) \<longrightarrow> j \<noteq> unat (nf_idx f))"
proof -
  define n where "n = unat (nf_next f)"
  have wf: "nf_wf f" using rel by (rule nf_relD)
  have big: "1024 < nf_next f \<longleftrightarrow> 1024 < n" by (simp add: word_less_nat_alt n_def)
  obtain h where h: "(if nf_next f > 1024 then nf_unset f (nf_next f - 1024) else Ok f) =
        (Ok h :: ('e, nonce_filter) result)"
      "nf_wf h" "nf_next h = nf_next f" "nf_idx h = nf_idx f"
      "\<And>j. j < 1024 \<Longrightarrow> ring_bit h j \<longleftrightarrow> ring_bit f j \<and> (1024 < n \<longrightarrow> j \<noteq> unat (nf_idx f))"
  proof (cases "1024 < n")
    case True
    have sub: "unat (nf_next f - 1024) = n - 1024"
      using True by (subst unat_sub_le) (auto simp: word_le_nat_alt n_def)
    have ring: "in_ring f (nf_next f - 1024)"
      using True by (auto simp: in_ring_def sub simp flip: n_def)
    have "slot f (n - 1024) = unat (nf_idx f)"
      using True wf by (simp add: slot_def nf_wf_def flip: n_def)
    then show ?thesis
      using nf_unset_eq [OF wf ring] that True big by (metis sub)
  next
    case False
    then show ?thesis using that wf big by auto
  qed
  define g where "g = h\<lparr>nf_next := nf_next h + 1, nf_idx := (nf_idx h + 1) mod 1024\<rparr>"
  have idx: "unat (nf_idx h + 1) = unat (nf_idx f) + 1"
    using h(2,4) by (subst unat_add_nowrap) (auto simp: nf_wf_def)
  have "unat (nf_next h + 1) = n + 1"
    using bound h(3) by (subst unat_add_nowrap) (auto simp: n_def)
  then have "unat (nf_next g) = n + 1" by (simp add: g_def)
  moreover have "unat (nf_idx g) = (unat (nf_idx f) + 1) mod 1024"
    using idx by (simp add: g_def unat_mod)
  moreover have "nf_advance f = (Ok g :: ('e, nonce_filter) result)"
    using h(1) by (auto simp: nf_advance_def MAX_REPLAY_SIZE_def g_def)
  moreover have "nf_wf g" using h(2) by (simp add: nf_wf_def g_def unat_mod)
  moreover have "ring_bit g j = ring_bit h j" for j by (simp add: ring_bit_def g_def)
  ultimately show ?thesis using h(5) by (intro that [of g]) (auto simp: n_def)
qed

lemma nf_rel_advance:
  assumes rel: "nf_rel f S" and bound: "unat (nf_next f) + 1 < 2 ^ 64"
  obtains g where "nf_advance f = (Ok g :: ('e, nonce_filter) result)" "nf_rel g S"
    "unat (nf_next g) = unat (nf_next f) + 1"
proof -
  note relD = nf_relD [OF rel]
  define n where "n = unat (nf_next f)"
  define k where "k = unat (nf_idx f)"
  obtain g where g: "nf_advance f = (Ok g :: ('e, nonce_filter) result)" "nf_wf g"
      "unat (nf_next g) = n + 1" "unat (nf_idx g) = (k + 1) mod 1024"
      "\<And>j. j < 1024 \<Longrightarrow> ring_bit g j \<longleftrightarrow> ring_bit f j \<and> (1024 < n \<longrightarrow> j \<noteq> k)"
    using nf_advance_eq [OF rel bound] unfolding n_def k_def by metis
  have k: "k < 1024" using relD(1) by (simp add: nf_wf_def k_def)
  have slot_old: "slot g c = slot f c" if "c < n" "n < c + 1024" for c
    using that k by (auto simp: slot_def g(3,4) mod_if simp flip: n_def k_def)
  have slot_new: "slot g n = k"
    using k by (simp add: slot_def g(3,4) mod_if)
  have slot_neq: "slot f c \<noteq> k" if "c < n" "n < c + 1024" for c
    using that k by (auto simp: slot_def mod_if simp flip: n_def k_def)
  have stale: "\<not> ring_bit g k" if "n \<noteq> 1024"
  proof (cases "1024 < n")
    case True
    then show ?thesis using g(5) [OF k] by simp
  next
    case False
    with that have "k = n" "n < 1024" using relD(5) by (auto simp flip: n_def k_def)
    then show ?thesis using relD(6) [of k] g(5) [OF k] by (simp flip: n_def)
  qed
  have "nf_rel g S"
    unfolding nf_rel_def g(3)
  proof (intro conjI allI impI ballI)
    show "nf_wf g" by (rule g)
    show "c < n + 1" if "c \<in> S" for c using relD(2) [OF that] by (simp add: n_def)
    show "ring_bit g (slot g c)" if "c \<in> S" "in_range (n + 1) c" for c
      using that relD(2,3) [of c] slot_old [of c] slot_neq [of c] g(5)
      by (auto simp: in_range_def simp flip: n_def)
    show "c \<in> S" if "in_window (n + 1) c" "ring_bit g (slot g c)" "c \<noteq> 1024" for c
    proof (cases "c = n")
      case True
      then show ?thesis using that slot_new stale by simp
    next
      case False
      then have "c < n" "n < c + 1024" using that by (auto simp: in_window_def)
      then show ?thesis using that relD(4) [of c] slot_old [of c] g(5)
        by (simp add: in_window_def flip: n_def)
    qed
  next
    assume n: "n + 1 \<le> 1024"
    show "unat (nf_idx g) = (n + 1) mod 1024"
      using relD(5) n by (simp add: g(4) flip: n_def k_def)
    show "\<not> ring_bit g j" if "n + 1 \<le> j" "j < 1024" for j
      using that relD(6) [of j] g(5) by (simp flip: n_def)
  qed
  with g show ?thesis by (intro that [of g]) (auto simp: n_def)
qed

lemma nf_rel_advance_to:
  assumes "nf_rel f S" "nf_next f \<le> c"
  shows "\<exists>g. nf_advance_to f c = (Ok g :: ('e, nonce_filter) result) \<and> nf_rel g S \<and> nf_next g = c"
  using assms
proof (induction "unat c - unat (nf_next f)" arbitrary: f)
  case 0
  then have "nf_next f = c" by (simp add: word_le_nat_alt word_unat_eq_iff)
  with 0 show ?case by (simp add: nf_advance_to.simps)
next
  case (Suc d)
  then have less: "nf_next f < c" by (auto simp: word_less_nat_alt)
  then have lt: "unat (nf_next f) < unat c" by (simp add: word_less_nat_alt)
  then have "unat (nf_next f) + 1 < 2 ^ 64"
    using unsigned_less [of c, where ?'a = nat] by simp
  with Suc.prems(1) obtain g where g: "nf_advance f = (Ok g :: ('e, nonce_filter) result)"
      "nf_rel g S" "unat (nf_next g) = unat (nf_next f) + 1"
    by (rule nf_rel_advance) blast
  have "d = unat c - unat (nf_next g)" using Suc.hyps(2) g(3) by simp
  moreover have "nf_next g \<le> c" using g(3) lt by (simp add: word_le_nat_alt)
  ultimately show ?case
    using Suc.hyps(1) [of g] g less by (auto simp: nf_advance_to.simps [of f c])
qed

lemma nf_can_accept_eq:
  assumes rel: "nf_rel f S" and bound: "unat c + 1024 < 2 ^ 64"
  shows "nf_can_accept f c =
    Ok (unat (nf_next f) \<le> unat c \<or>
        in_window (unat (nf_next f)) (unat c) \<and> \<not> ring_bit f (slot f (unat c)))"
proof -
  have sum: "unat (c + 1024) = unat c + 1024"
    using bound by (subst unat_add_nowrap) auto
  show ?thesis
  proof (cases "in_window (unat (nf_next f)) (unat c)")
    case True
    then have "in_ring f c" by (auto simp: in_window_def in_ring_def)
    with True nf_relD(1) [OF rel] show ?thesis
      by (auto simp: nf_can_accept_def is_set_eq in_window_def word_le_nat_alt sum
          MAX_REPLAY_SIZE_def)
  next
    case False
    then show ?thesis
      by (auto simp: nf_can_accept_def in_window_def word_le_nat_alt sum MAX_REPLAY_SIZE_def)
  qed
qed

text \<open>A jump past the whole window starts from an empty ring.\<close>

lemma nf_rel_jump:
  assumes rel: "nf_rel f S" and far: "unat (nf_next f) + 1024 \<le> unat c"
    and bound: "unat c + 1 < 2 ^ 64"
  shows "nf_rel (f\<lparr>nf_words := replicate 16 0, nf_idx := 0, nf_next := c + 1\<rparr>) S"
    and "in_ring (f\<lparr>nf_words := replicate 16 0, nf_idx := 0, nf_next := c + 1\<rparr>) c"
proof -
  have n: "unat (c + 1) = unat c + 1" using bound by (subst unat_add_nowrap) auto
  have old: "d < unat (nf_next f)" if "d \<in> S" for d using nf_relD(2) [OF rel that] .
  show "nf_rel (f\<lparr>nf_words := replicate 16 0, nf_idx := 0, nf_next := c + 1\<rparr>) S"
    using far old by (fastforce simp: nf_rel_def nf_wf_def n in_window_def in_range_def ring_bit_def
        slot_def less_mult_imp_div_less)
  show "in_ring (f\<lparr>nf_words := replicate 16 0, nf_idx := 0, nf_next := c + 1\<rparr>) c"
    by (simp add: in_ring_def n)
qed

lemma nf_rel_accept:
  assumes rel: "nf_rel f S" and bound: "unat c + 1024 < 2 ^ 64"
    and fresh: "unat (nf_next f) \<le> unat c \<or> in_window (unat (nf_next f)) (unat c)"
  obtains g where "nf_accept f c = (Ok g :: ('e, nonce_filter) result)"
    "nf_rel g (insert (unat c) S)" "unat (nf_next g) = max (unat (nf_next f)) (unat c + 1)"
proof -
  define f1 where "f1 = f\<lparr>nf_accepted := nf_accepted f + 1\<rparr>"
  have rel1: "nf_rel f1 S" using rel by (simp add: f1_def nf_rel_accepted)
  have next1: "nf_next f1 = nf_next f" by (simp add: f1_def)
  have succ: "unat (c + 1) = unat c + 1" using bound by (subst unat_add_nowrap) auto
  consider (inside) "unat c < unat (nf_next f)"
    | (jump) "unat (nf_next f) + 1024 \<le> unat c"
    | (near) "unat (nf_next f) \<le> unat c" "unat c < unat (nf_next f) + 1024" by linarith
  then show ?thesis
  proof cases
    case inside
    then have "in_ring f1 c" using fresh by (auto simp: in_ring_def in_window_def next1)
    with rel1 obtain g where "nf_set f1 c = (Ok g :: ('e, nonce_filter) result)"
        "nf_rel g (insert (unat c) S)" "nf_next g = nf_next f1" by (rule nf_rel_set)
    with inside show ?thesis
      by (intro that [of g])
        (auto simp: nf_accept_def Let_def f1_def [symmetric] next1 word_less_nat_alt)
  next
    case jump
    let ?f2 = "f1\<lparr>nf_words := replicate 16 0, nf_idx := 0, nf_next := c + 1\<rparr>"
    have "nf_rel ?f2 S" "in_ring ?f2 c"
      using nf_rel_jump [OF rel1, of c] jump bound by (auto simp: next1)
    then obtain g where g: "nf_set ?f2 c = (Ok g :: ('e, nonce_filter) result)"
        "nf_rel g (insert (unat c) S)" "nf_next g = nf_next ?f2" by (rule nf_rel_set)
    have "unat (c - nf_next f) = unat c - unat (nf_next f)"
      using jump by (intro unat_sub_le) (simp add: word_le_nat_alt)
    with jump g show ?thesis
      by (intro that [of g])
        (auto simp: nf_accept_def Let_def f1_def [symmetric] next1 word_less_nat_alt
          MAX_REPLAY_SIZE_def succ)
  next
    case near
    then have "nf_next f1 \<le> c" by (simp add: next1 word_le_nat_alt)
    with rel1 obtain g where g: "nf_advance_to f1 c = (Ok g :: ('e, nonce_filter) result)"
        "nf_rel g S" "nf_next g = c" using nf_rel_advance_to by blast
    then obtain h where h: "nf_advance g = (Ok h :: ('e, nonce_filter) result)" "nf_rel h S"
        "unat (nf_next h) = unat c + 1"
      using nf_rel_advance [OF g(2)] bound by auto
    then have "in_ring h c" by (simp add: in_ring_def)
    with h(2) obtain r where r: "nf_set h c = (Ok r :: ('e, nonce_filter) result)"
        "nf_rel r (insert (unat c) S)" "nf_next r = nf_next h" by (rule nf_rel_set)
    have "unat (c - nf_next f) = unat c - unat (nf_next f)"
      using near by (intro unat_sub_le) (simp add: word_le_nat_alt)
    with near g h r show ?thesis
      by (intro that [of r])
        (auto simp: nf_accept_def Let_def f1_def [symmetric] next1 word_less_nat_alt
          MAX_REPLAY_SIZE_def)
  qed
qed

section \<open>The interface of an anti-replay filter\<close>

text \<open>
  What a session needs of its filter: a filter represents the set of counters received; a counter
  of that set is refused; a counter the filter admits can be recorded, and is then in the set.
  \<open>deliver\<close> is the use a session makes of it: each counter is tested and, when admitted, recorded.
\<close>

fun deliver :: "('f \<Rightarrow> u64 \<Rightarrow> ('e, bool) result) \<Rightarrow> ('f \<Rightarrow> u64 \<Rightarrow> ('e, 'f) result) \<Rightarrow>
    'f \<Rightarrow> u64 list \<Rightarrow> ('e, u64 list \<times> 'f) result" where
  "deliver can acc f [] = Ok ([], f)"
| "deliver can acc f (c # cs) =
     rbind (can f c) (\<lambda>ok.
       if ok then rbind (acc f c) (\<lambda>g. rbind (deliver can acc g cs) (\<lambda>(ds, h). Ok (c # ds, h)))
       else deliver can acc f cs)"

locale replay_filter =
  fixes new :: 'f
    and can :: "'f \<Rightarrow> u64 \<Rightarrow> ('e, bool) result"
    and acc :: "'f \<Rightarrow> u64 \<Rightarrow> ('e, 'f) result"
    and repr :: "'f \<Rightarrow> nat set \<Rightarrow> bool"
    and limit :: nat
  assumes repr_new: "repr new {}"
    and can_total: "repr f S \<Longrightarrow> unat c \<le> limit \<Longrightarrow> \<exists>b. can f c = Ok b"
    and can_seen: "repr f S \<Longrightarrow> unat c \<le> limit \<Longrightarrow> unat c \<in> S \<Longrightarrow> can f c = Ok False"
    and acc_repr: "repr f S \<Longrightarrow> unat c \<le> limit \<Longrightarrow> can f c = Ok True \<Longrightarrow>
      \<exists>g. acc f c = Ok g \<and> repr g (insert (unat c) S)"
begin

lemma admitted_fresh:
  "repr f S \<Longrightarrow> unat c \<le> limit \<Longrightarrow> can f c = Ok True \<Longrightarrow> unat c \<notin> S"
  using can_seen by fastforce

lemma deliver_correct:
  assumes "repr f S" "\<forall>c\<in>set cs. unat c \<le> limit"
  shows "\<exists>ds g. deliver can acc f cs = Ok (ds, g) \<and> distinct ds \<and> set ds \<subseteq> set cs \<and>
    (\<forall>d\<in>set ds. unat d \<notin> S) \<and> repr g (S \<union> unat ` set ds)"
  using assms
proof (induction cs arbitrary: f S)
  case Nil
  then show ?case by simp
next
  case (Cons c cs)
  from Cons.prems obtain b where b: "can f c = Ok b" using can_total by fastforce
  show ?case
  proof (cases b)
    case True
    with b Cons.prems obtain g where g: "acc f c = Ok g" "repr g (insert (unat c) S)"
      using acc_repr [of f S c] by auto
    have "unat c \<notin> S" using admitted_fresh Cons.prems b True by auto
    moreover obtain ds h where "deliver can acc g cs = Ok (ds, h)" "distinct ds"
        "set ds \<subseteq> set cs"
        "\<forall>d\<in>set ds. unat d \<notin> insert (unat c) S" "repr h (insert (unat c) S \<union> unat ` set ds)"
      using Cons.IH [OF g(2)] Cons.prems(2) by auto
    ultimately show ?thesis using b True g by (auto simp: insert_commute)
  next
    case False
    with b have "deliver can acc f (c # cs) = deliver can acc f cs" by simp
    then show ?thesis using Cons.IH [OF Cons.prems(1)] Cons.prems(2) by fastforce
  qed
qed

end

text \<open>
  The ring of \<open>NonceFilter\<close> is such a filter, for every counter whose sum with the window size
  fits in 64 bits; the counters a device passes on are below that bound.  The window ends just
  after the largest counter received.
\<close>

definition window_top :: "nat set \<Rightarrow> nat" where
  "window_top S = Max (insert 0 (Suc ` S))"

definition nf_repr :: "nonce_filter \<Rightarrow> nat set \<Rightarrow> bool" where
  "nf_repr f S \<longleftrightarrow> nf_rel f S \<and> finite S \<and> unat (nf_next f) = window_top S"

lemma window_top_insert: "finite S \<Longrightarrow> window_top (insert c S) = max (window_top S) (Suc c)"
  by (simp only: window_top_def image_insert insert_commute [of 0] Max_insert finite_insert
      finite_imageI insert_not_empty not_False_eq_True max.commute)

interpretation nonce_ring: replay_filter nonce_filter_new nf_can_accept nf_accept nf_repr
    "2 ^ 64 - 1025"
proof (unfold_locales, goal_cases)
  case 1
  show ?case using nf_rel_new by (simp add: nf_repr_def window_top_def nonce_filter_new_def)
next
  case (2 f S c)
  then show ?case by (auto simp: nf_repr_def nf_can_accept_eq)
next
  case (3 f S c)
  then have rel: "nf_rel f S" by (simp add: nf_repr_def)
  show ?case
    using nf_relD(2,3) [OF rel, of "unat c"] 3(2,3)
    by (auto simp: nf_can_accept_eq [OF rel] in_window_def in_range_def)
next
  case (4 f S c)
  then have rel: "nf_rel f S" by (simp add: nf_repr_def)
  then have "unat (nf_next f) \<le> unat c \<or> in_window (unat (nf_next f)) (unat c)"
    using 4(2,3) by (auto simp: nf_can_accept_eq)
  then show ?case
    by (rule nf_rel_accept [OF rel, of c, rotated])
      (use 4(1,2) in \<open>auto simp: nf_repr_def window_top_insert\<close>)
qed

section \<open>The bit left behind by counter 0\<close>

lemma nf_stale_1024:
  assumes rel: "nf_rel g S" and at: "unat (nf_next g) = 1024" and zero: "0 \<in> S"
  shows "\<exists>h. nf_accept g 1025 = (Ok h :: ('e, nonce_filter) result) \<and>
    nf_can_accept h 1024 = (Ok False :: ('e, bool) result)"
proof -
  define g0 where "g0 = g\<lparr>nf_accepted := nf_accepted g + 1\<rparr>"
  have rel0: "nf_rel g0 S" using rel by (simp add: g0_def nf_rel_accepted)
  have next0: "unat (nf_next g0) = 1024" using at by (simp add: g0_def)
  have idx0: "unat (nf_idx g0) = 0" using nf_relD(5) [OF rel0] next0 by simp
  have bit0: "ring_bit g0 0"
    using nf_relD(3) [OF rel0 _ zero] by (simp add: in_range_def next0 slot_def idx0)
  obtain g1 where g1: "nf_advance g0 = (Ok g1 :: ('e, nonce_filter) result)"
      "unat (nf_next g1) = 1025" "unat (nf_idx g1) = 1"
      "\<And>j. j < 1024 \<Longrightarrow> ring_bit g1 j = ring_bit g0 j"
    by (rule nf_advance_eq [OF rel0]) (auto simp: next0 idx0)
  have rel1: "nf_rel g1 S"
    by (rule nf_rel_advance [where ?'e = 'e, OF rel0]) (use g1(1) in \<open>auto simp: next0\<close>)
  have n1: "nf_next g1 = 1025" using g1(2) by (simp add: word_unat_eq_iff)
  obtain g2 where g2: "nf_advance g1 = (Ok g2 :: ('e, nonce_filter) result)" "nf_wf g2"
      "unat (nf_next g2) = 1026" "unat (nf_idx g2) = Suc (Suc 0)"
      "\<And>j. j < 1024 \<Longrightarrow> ring_bit g2 j \<longleftrightarrow> ring_bit g1 j \<and> j \<noteq> 1"
    by (rule nf_advance_eq [OF rel1]) (auto simp: g1(2,3))
  have rel2: "nf_rel g2 S"
    by (rule nf_rel_advance [where ?'e = 'e, OF rel1]) (use g2(1) in \<open>auto simp: g1(2)\<close>)
  have bit2: "ring_bit g2 0" using bit0 g1(4) [of 0] g2(5) [of 0] by simp
  obtain h where h: "nf_set g2 1025 = (Ok h :: ('e, nonce_filter) result)"
      "nf_next h = nf_next g2" "nf_idx h = nf_idx g2"
      "\<And>j. j < 1024 \<Longrightarrow> ring_bit h j \<longleftrightarrow> j = slot g2 (unat (1025 :: u64)) \<or> ring_bit g2 j"
    by (rule nf_set_eq [OF g2(2), of 1025]) (auto simp: in_ring_def g2(3))
  have relh: "nf_rel h (insert 1025 S)"
    by (rule nf_rel_set [where ?'e = 'e, OF rel2, of 1025]) (use h(1) in \<open>auto simp: in_ring_def g2(3)\<close>)
  have ng: "nf_next g = 1024" "nf_next g0 = 1024" "nf_next h = 1026"
    using at next0 g2(3) h(2) by (simp_all add: word_unat_eq_iff)
  have "nf_advance_to g0 1025 = (Ok g1 :: ('e, nonce_filter) result)"
    by (simp add: nf_advance_to.simps ng g1(1) n1)
  then have "nf_accept g 1025 = (Ok h :: ('e, nonce_filter) result)"
    using g2(1) h(1) by (simp add: nf_accept_def Let_def ng MAX_REPLAY_SIZE_def flip: g0_def)
  moreover have "nf_can_accept h 1024 = (Ok False :: ('e, bool) result)"
    using h(4) [of 0] bit2 by (simp add: nf_can_accept_eq [OF relh] ng in_window_def slot_def h(3) g2(4))
  ultimately show ?thesis by blast
qed

section \<open>Properties\<close>



text \<open>C12: The ring implements the sliding window.  After any sequence of arrivals that delivered
  \<open>ds\<close>, with the window ending after the largest delivered counter, \<open>can_accept\<close> answers exactly
  what the abstract window answers: yes above the window, no below it, and inside it yes exactly
  for the counters not delivered yet.  Counter 1024 is the one exception.\<close>

theorem nonce_filter_refines_window:
  assumes "\<forall>c\<in>set cs. unat c \<le> 2 ^ 64 - 1025"
    and "deliver nf_can_accept nf_accept nonce_filter_new cs =
      (Ok (ds, f) :: (unit, u64 list \<times> nonce_filter) result)"
    and "unat c \<le> 2 ^ 64 - 1025" "c \<noteq> 1024"
  shows "nf_can_accept f c =
    (Ok (window_top (unat ` set ds) \<le> unat c \<or>
         window_top (unat ` set ds) < unat c + 1024 \<and> c \<notin> set ds) :: (unit, bool) result)"
proof -
  obtain ds' g where "deliver nf_can_accept nf_accept nonce_filter_new cs =
      (Ok (ds', g) :: (unit, u64 list \<times> nonce_filter) result)" "nf_repr g (unat ` set ds')"
    using nonce_ring.deliver_correct [OF nonce_ring.repr_new assms(1)] by auto
  with assms(2) have repr: "nf_repr f (unat ` set ds)" by simp
  then have rel: "nf_rel f (unat ` set ds)" and top: "unat (nf_next f) = window_top (unat ` set ds)"
    by (auto simp: nf_repr_def)
  have mem: "unat c \<in> unat ` set ds \<longleftrightarrow> c \<in> set ds"
    by (auto dest: word_unat_eq_iff [THEN iffD2])
  have "unat c \<noteq> 1024" using assms(4) by (auto simp: word_unat_eq_iff)
  then show ?thesis
    using assms(3) nf_relD(3,4) [OF rel, of "unat c"]
    by (auto simp: nf_can_accept_eq [OF rel] top mem in_window_def in_range_def)
qed

theorem nonce_filter_refines_window_witness:
  "nf_can_accept nonce_filter_new 7 = (Ok True :: (unit, bool) result)"
  using nonce_filter_refines_window [of "[]" "[]" nonce_filter_new 7]
  by (simp add: window_top_def)

text \<open>The exception is real.  After counters 0, 1023 and 1025, counter 1024 has never been
  received and lies inside the window, and \<open>can_accept\<close> refuses it: \<open>advance\<close> compares with \<open>>\<close> where
  the bit of the counter that leaves the window has to be cleared from \<open>next = 1024\<close> on.\<close>

theorem nonce_filter_1024_refused:
  "\<exists>f g h. nf_accept nonce_filter_new 0 = (Ok f :: (unit, nonce_filter) result) \<and>
     nf_accept f 1023 = (Ok g :: (unit, nonce_filter) result) \<and>
     nf_accept g 1025 = (Ok h :: (unit, nonce_filter) result) \<and>
     unat (nf_next h) = 1026 \<and> nf_can_accept h 1024 = (Ok False :: (unit, bool) result)"
proof -
  obtain f where f: "nf_accept nonce_filter_new 0 = (Ok f :: (unit, nonce_filter) result)"
      "nf_rel f {0}" "unat (nf_next f) = 1"
    by (rule nf_rel_accept [OF nf_rel_new, of 0]) (auto simp: nonce_filter_new_def)
  obtain g where g: "nf_accept f 1023 = (Ok g :: (unit, nonce_filter) result)"
      "nf_rel g {1023, 0}" "unat (nf_next g) = 1024"
    by (rule nf_rel_accept [OF f(2), of 1023]) (auto simp: f(3))
  obtain h where h: "nf_accept g 1025 = (Ok h :: (unit, nonce_filter) result)"
      "unat (nf_next h) = 1026"
    by (rule nf_rel_accept [OF g(2), of 1025]) (auto simp: g(3))
  then show ?thesis using f(1) g(1) nf_stale_1024 [where ?'e = unit, OF g(2,3)] by auto
qed

end
