(* ===== verification/Session.thy ===== *)
theory Session
  imports Nonce_Filter Noise_Handshake
begin

text \<open>
  Sessions, the session index of the device and the session slots of a peer:
  \<open>vlink-tun/src/device/peer/session.rs\<close>.  A \<open>Session\<close> is cloned freely and its clones share the
  nonce counter and the replay filter through \<open>Arc\<close>s, so both live in a store of cells and a session
  holds the address of its cell.  The session index is shared by all peers of a device; the
  operations of \<open>ActiveSession\<close> take it and return it.
\<close>

section \<open>Sessions\<close>

datatype device_error = IO string | Noise noise_error | TunError string

record session =
  ss_secret :: peer_static_secret
  ss_sender_index :: u32
  ss_sender_key :: bytes
  ss_receiver_index :: u32
  ss_receiver_key :: bytes
  ss_created_at :: instant
  ss_encrypt_cipher :: chacha_cipher
  ss_decrypt_cipher :: chacha_cipher
  ss_cell :: nat

record session_cell =
  sc_sender_nonce :: u64
  sc_nonce_filter :: nonce_filter

type_synonym cells = "session_cell list"

definition session_key :: "session \<Rightarrow> bytes" where
  "session_key s = ps_public (ss_secret s)"

definition session_new ::
    "instant \<Rightarrow> peer_static_secret \<Rightarrow> u32 \<Rightarrow> bytes \<Rightarrow> u32 \<Rightarrow> bytes \<Rightarrow> cells \<Rightarrow>
     ('e, session \<times> cells) result" where
  "session_new now secret sender_index sender_key receiver_index receiver_key h =
     rbind (unwrap (chacha_cipher_new sender_key)) (\<lambda>enc.
     rbind (unwrap (chacha_cipher_new receiver_key)) (\<lambda>dec.
       Ok (\<lparr>ss_secret = secret, ss_sender_index = sender_index, ss_sender_key = sender_key,
            ss_receiver_index = receiver_index, ss_receiver_key = receiver_key,
            ss_created_at = now, ss_encrypt_cipher = enc, ss_decrypt_cipher = dec,
            ss_cell = length h\<rparr>,
           h @ [\<lparr>sc_sender_nonce = 0, sc_nonce_filter = nonce_filter_new\<rparr>])))"

definition session_can_accept :: "cells \<Rightarrow> session \<Rightarrow> u64 \<Rightarrow> ('e, bool) result" where
  "session_can_accept h s nonce =
     rbind (nth_checked h (ss_cell s)) (\<lambda>c. nf_can_accept (sc_nonce_filter c) nonce)"

definition session_aceept :: "session \<Rightarrow> u64 \<Rightarrow> cells \<Rightarrow> ('e, cells) result" where
  "session_aceept s nonce h =
     rbind (nth_checked h (ss_cell s)) (\<lambda>c.
     rbind (nf_accept (sc_nonce_filter c) nonce) (\<lambda>f.
       Ok (h[ss_cell s := c\<lparr>sc_nonce_filter := f\<rparr>])))"

text \<open>\<open>fetch_add\<close> returns the old value and wraps around.\<close>

definition next_nonce :: "session \<Rightarrow> cells \<Rightarrow> ('e, u64 \<times> cells) result" where
  "next_nonce s h =
     rbind (nth_checked h (ss_cell s)) (\<lambda>c.
       Ok (sc_sender_nonce c, h[ss_cell s := c\<lparr>sc_sender_nonce := sc_sender_nonce c + 1\<rparr>]))"

text \<open>An error of the cipher leaves the counter advanced: the nonce is spent.\<close>

definition encrypt_data ::
    "crypto \<Rightarrow> session \<Rightarrow> bytes \<Rightarrow> cells \<Rightarrow> ('e, (device_error + transport_data) \<times> cells) result" where
  "encrypt_data cr s data h =
     rbind (next_nonce s h) (\<lambda>(nonce, h').
       case cipher_encrypt cr (ss_encrypt_cipher s) nonce data [] of
         Ok payload \<Rightarrow> Ok (Inr \<lparr>td_receiver_index = ss_receiver_index s, td_counter = nonce,
                               td_payload = payload\<rparr>, h')
       | Err e \<Rightarrow> Ok (Inl (Noise e), h')
       | Panic \<Rightarrow> Panic)"

definition decrypt_data :: "crypto \<Rightarrow> session \<Rightarrow> transport_data \<Rightarrow> (device_error, bytes) result" where
  "decrypt_data cr s packet =
     (if ss_sender_index s \<noteq> td_receiver_index packet then Err (Noise ReceiverIndexNotMatch)
      else map_err Noise
        (cipher_decrypt cr (ss_decrypt_cipher s) (td_counter packet) (td_payload packet) []))"

section \<open>The session index\<close>

record session_index =
  si_index :: u32
  si_indexes :: "u32 \<rightharpoonup> session"
  si_keys :: "bytes \<rightharpoonup> u32 set"

definition session_index_new :: "u32 \<Rightarrow> session_index" where
  "session_index_new rnd = \<lparr>si_index = rnd, si_indexes = (\<lambda>_. None), si_keys = (\<lambda>_. None)\<rparr>"

definition next_index :: "session_index \<Rightarrow> u32 \<times> session_index" where
  "next_index t = (si_index t, t\<lparr>si_index := si_index t + 1\<rparr>)"

definition index_insert :: "session \<Rightarrow> session_index \<Rightarrow> session_index" where
  "index_insert s t =
     (let index = ss_sender_index s;
          old = (case si_keys t (session_key s) of None \<Rightarrow> {} | Some S \<Rightarrow> S)
      in t\<lparr>si_keys := (si_keys t)(session_key s \<mapsto> insert index old),
           si_indexes := (si_indexes t)(index \<mapsto> s)\<rparr>)"

definition get_by_index :: "session_index \<Rightarrow> u32 \<Rightarrow> session option" where
  "get_by_index t i = si_indexes t i"

text \<open>The \<open>unwrap\<close> on \<open>keys.get_mut\<close> panics when the key has no entry.\<close>

definition index_remove :: "session \<Rightarrow> session_index \<Rightarrow> ('e, session option \<times> session_index) result" where
  "index_remove s t =
     (case si_indexes t (ss_sender_index s) of
        Some s' \<Rightarrow>
          (case si_keys t (session_key s') of
             None \<Rightarrow> Panic
           | Some S \<Rightarrow> Ok (Some s', t\<lparr>
               si_indexes := (si_indexes t)(ss_sender_index s := None),
               si_keys := (si_keys t)(session_key s' \<mapsto> S - {ss_sender_index s'})\<rparr>))
      | None \<Rightarrow> Ok (None, t))"

definition index_remove_by_key :: "bytes \<Rightarrow> session_index \<Rightarrow> session_index" where
  "index_remove_by_key key t =
     (case si_keys t key of
        None \<Rightarrow> t
      | Some indices \<Rightarrow> t\<lparr>si_keys := (si_keys t)(key := None),
          si_indexes := (\<lambda>i. if i \<in> indices then None else si_indexes t i)\<rparr>)"

definition index_clear :: "session_index \<Rightarrow> session_index" where
  "index_clear t = t\<lparr>si_indexes := (\<lambda>_. None), si_keys := (\<lambda>_. None)\<rparr>"

section \<open>The slots of a peer\<close>

record active_session =
  as_uninit :: "session option"
  as_previous :: "session option"
  as_current :: "session option"
  as_next :: "session option"

definition active_session_new :: active_session where
  "active_session_new = \<lparr>as_uninit = None, as_previous = None, as_current = None, as_next = None\<rparr>"

type_synonym slots = "active_session \<times> session_index"

definition activate :: "session \<Rightarrow> slots \<Rightarrow> slots" where
  "activate s = (\<lambda>(a, t). (a, index_insert s t))"

definition deactivate :: "session \<Rightarrow> slots \<Rightarrow> ('e, slots) result" where
  "deactivate s = (\<lambda>(a, t). rbind (index_remove s t) (\<lambda>(_, t'). Ok (a, t')))"

definition deactivate_opt :: "session option \<Rightarrow> slots \<Rightarrow> ('e, slots) result" where
  "deactivate_opt x st = (case x of None \<Rightarrow> Ok st | Some s \<Rightarrow> deactivate s st)"

definition deactivate_uninit :: "slots \<Rightarrow> ('e, slots) result" where
  "deactivate_uninit = (\<lambda>(a, t). deactivate_opt (as_uninit a) (a\<lparr>as_uninit := None\<rparr>, t))"

definition deactivate_previous :: "slots \<Rightarrow> ('e, slots) result" where
  "deactivate_previous = (\<lambda>(a, t). deactivate_opt (as_previous a) (a\<lparr>as_previous := None\<rparr>, t))"

definition deactivate_next :: "slots \<Rightarrow> ('e, slots) result" where
  "deactivate_next = (\<lambda>(a, t). deactivate_opt (as_next a) (a\<lparr>as_next := None\<rparr>, t))"

definition prepare_uninit :: "session \<Rightarrow> slots \<Rightarrow> ('e, slots) result" where
  "prepare_uninit s st =
     rbind (deactivate_uninit st) (\<lambda>st.
       let (a, t) = activate s st in Ok (a\<lparr>as_uninit := Some s\<rparr>, t))"

definition complete_uninit :: "session \<Rightarrow> slots \<Rightarrow> ('e, bool \<times> slots) result" where
  "complete_uninit s st =
     (case as_uninit (fst st) of
        Some u \<Rightarrow>
          if ss_sender_index u = ss_sender_index s then
            rbind (deactivate_uninit st) (\<lambda>st.
            rbind (deactivate_previous (activate s st)) (\<lambda>(a, t).
              Ok (True, a\<lparr>as_previous := as_current a, as_current := Some s\<rparr>, t)))
          else Ok (False, st)
      | None \<Rightarrow> Ok (False, st))"

definition prepare_next :: "session \<Rightarrow> slots \<Rightarrow> ('e, slots) result" where
  "prepare_next s st =
     rbind (case as_next (fst st) of
              Some n \<Rightarrow> rbind (deactivate_previous (fst st\<lparr>as_next := None\<rparr>, snd st))
                (\<lambda>(a, t). Ok (a\<lparr>as_previous := Some n\<rparr>, t))
            | None \<Rightarrow> Ok st)
       (\<lambda>st. let (a, t) = activate s st in Ok (a\<lparr>as_next := Some s\<rparr>, t))"

definition complete_next :: "session \<Rightarrow> slots \<Rightarrow> ('e, bool \<times> slots) result" where
  "complete_next s st =
     (case as_next (fst st) of
        Some n \<Rightarrow>
          if ss_sender_index n = ss_sender_index s then
            rbind (deactivate_next st) (\<lambda>st.
            rbind (deactivate_previous st) (\<lambda>st.
              let (a, t) = activate s st
              in Ok (True, a\<lparr>as_previous := as_current a, as_current := Some s\<rparr>, t)))
          else Ok (False, st)
      | None \<Rightarrow> Ok (False, st))"

section \<open>The index as a set of sessions\<close>

definition index_elems :: "session_index \<Rightarrow> session set" where
  "index_elems t = {s. si_indexes t (ss_sender_index s) = Some s}"

text \<open>Both maps agree: an indexed session is filed under its own index and listed under its key,
  and every listed index holds a session of that key.\<close>

definition index_inv :: "session_index \<Rightarrow> bool" where
  "index_inv t \<longleftrightarrow>
     (\<forall>i s. si_indexes t i = Some s \<longrightarrow>
        ss_sender_index s = i \<and> (\<exists>S. si_keys t (session_key s) = Some S \<and> i \<in> S)) \<and>
     (\<forall>k S i. si_keys t k = Some S \<longrightarrow> i \<in> S \<longrightarrow> (\<exists>s. si_indexes t i = Some s \<and> session_key s = k))"

lemma index_invD:
  assumes "index_inv t"
  shows "si_indexes t i = Some s \<Longrightarrow> ss_sender_index s = i"
    and "si_indexes t i = Some s \<Longrightarrow> \<exists>S. si_keys t (session_key s) = Some S \<and> i \<in> S"
    and "si_keys t k = Some S \<Longrightarrow> i \<in> S \<Longrightarrow> \<exists>s. si_indexes t i = Some s \<and> session_key s = k"
  using assms unfolding index_inv_def by blast+

text \<open>What a client of a session table relies on: it holds a set of sessions with distinct indices,
  removal of a held session succeeds, and an insertion under an unused index adds one session.\<close>

locale session_table =
  fixes elems :: "'t \<Rightarrow> 's set" and inv :: "'t \<Rightarrow> bool" and sid :: "'s \<Rightarrow> u32"
    and get :: "'t \<Rightarrow> u32 \<Rightarrow> 's option" and ins :: "'s \<Rightarrow> 't \<Rightarrow> 't"
    and rem :: "'s \<Rightarrow> 't \<Rightarrow> ('e, 's option \<times> 't) result"
  assumes get_iff: "inv t \<Longrightarrow> get t i = Some s \<longleftrightarrow> s \<in> elems t \<and> sid s = i"
    and ins_fresh: "inv t \<Longrightarrow> get t (sid s) = None \<Longrightarrow>
      inv (ins s t) \<and> elems (ins s t) = insert s (elems t)"
    and rem_held: "inv t \<Longrightarrow> s \<in> elems t \<Longrightarrow>
      \<exists>t'. rem s t = Ok (Some s, t') \<and> inv t' \<and> elems t' = elems t - {s}"
begin

lemma sid_inj: "inv t \<Longrightarrow> s \<in> elems t \<Longrightarrow> s' \<in> elems t \<Longrightarrow> sid s = sid s' \<Longrightarrow> s = s'"
  using get_iff [of t "sid s"] by (metis option.inject)

lemma get_None: "inv t \<Longrightarrow> get t i = None \<longleftrightarrow> (\<forall>s\<in>elems t. sid s \<noteq> i)"
  using get_iff [of t i] by (metis not_None_eq)

lemma renew:
  assumes "inv t" "u \<in> elems t" "sid s = sid u"
  obtains t' where "rem u t = Ok (Some u, t')" "inv t'" "elems t' = elems t - {u}"
    "inv (ins s t')" "elems (ins s t') = insert s (elems t - {u})"
proof -
  obtain t' where t': "rem u t = Ok (Some u, t')" "inv t'" "elems t' = elems t - {u}"
    using rem_held [OF assms(1,2)] by blast
  have "get t' (sid s) = None"
    unfolding get_None [OF t'(2)] using t'(3) sid_inj [OF assms(1) _ assms(2)] assms(3) by auto
  from ins_fresh [OF t'(2) this] t' show ?thesis using that by simp
qed

end

lemma index_elems_iff: "index_inv t \<Longrightarrow>
    get_by_index t i = Some s \<longleftrightarrow> s \<in> index_elems t \<and> ss_sender_index s = i"
  by (auto simp: get_by_index_def index_elems_def dest: index_invD(1))

lemma index_insert_fresh:
  assumes inv: "index_inv t" and new: "get_by_index t (ss_sender_index s) = None"
  shows "index_inv (index_insert s t) \<and> index_elems (index_insert s t) = insert s (index_elems t)"
proof
  have upd: "si_indexes (index_insert s t) = (si_indexes t)(ss_sender_index s \<mapsto> s)"
      "si_keys (index_insert s t) = (si_keys t)(session_key s \<mapsto>
        insert (ss_sender_index s) (case si_keys t (session_key s) of None \<Rightarrow> {} | Some S \<Rightarrow> S))"
    by (simp_all add: index_insert_def Let_def)
  show "index_inv (index_insert s t)"
    using index_invD [OF inv] new
    by (auto simp: index_inv_def upd get_by_index_def split: option.splits) fastforce+
  show "index_elems (index_insert s t) = insert s (index_elems t)"
    using new by (auto simp: index_elems_def upd get_by_index_def)
qed

lemma index_remove_held:
  assumes inv: "index_inv t" and held: "s \<in> index_elems t"
  shows "\<exists>t'. index_remove s t = (Ok (Some s, t') :: ('e, session option \<times> session_index) result) \<and>
     index_inv t' \<and> index_elems t' = index_elems t - {s}"
proof -
  have at: "si_indexes t (ss_sender_index s) = Some s" using held by (simp add: index_elems_def)
  obtain S where S: "si_keys t (session_key s) = Some S" "ss_sender_index s \<in> S"
    using index_invD(2) [OF inv at] by blast
  let ?t = "t\<lparr>si_indexes := (si_indexes t)(ss_sender_index s := None),
      si_keys := (si_keys t)(session_key s \<mapsto> S - {ss_sender_index s})\<rparr>"
  have "index_inv ?t"
    unfolding index_inv_def
  proof (intro conjI allI impI, goal_cases)
    case (1 i u)
    then show ?case using index_invD(1) [OF inv, of i u] by (simp split: if_splits)
  next
    case (2 i u)
    then show ?case using index_invD(2) [OF inv, of i u] S by (auto split: if_splits)
  next
    case (3 k K i)
    then show ?case using index_invD(3) [OF inv, of k _ i] S at by (auto split: if_splits)
  qed
  moreover have "index_elems ?t = index_elems t - {s}"
    using at by (auto simp: index_elems_def)
  ultimately show ?thesis using at S by (auto simp: index_remove_def)
qed

interpretation si: session_table index_elems index_inv ss_sender_index get_by_index index_insert
    "index_remove :: session \<Rightarrow> session_index \<Rightarrow> ('e, session option \<times> session_index) result"
  by unfold_locales (use index_elems_iff index_insert_fresh index_remove_held in blast)+

section \<open>Slots and index together\<close>

fun opt_list :: "'a option \<Rightarrow> 'a list" where
  "opt_list None = []"
| "opt_list (Some x) = [x]"

definition slot_list :: "active_session \<Rightarrow> session list" where
  "slot_list a = opt_list (as_uninit a) @ opt_list (as_previous a) @ opt_list (as_current a) @
     opt_list (as_next a)"

lemma set_opt_list [simp]: "set (opt_list x) = set_option x"
  by (cases x) auto

lemma distinct_opt_list [simp]: "distinct (map f (opt_list x))"
  by (cases x) auto

text \<open>The sessions of the peer's key in the index are exactly those in its slots, under distinct
  indices.\<close>

definition slots_inv :: "bytes \<Rightarrow> slots \<Rightarrow> bool" where
  "slots_inv k = (\<lambda>(a, t). index_inv t \<and> {s \<in> index_elems t. session_key s = k} = set (slot_list a) \<and>
     distinct (map ss_sender_index (slot_list a)))"

lemma set_slot_list: "set (slot_list a) = set_option (as_uninit a) \<union> set_option (as_previous a) \<union>
    set_option (as_current a) \<union> set_option (as_next a)"
  by (auto simp: slot_list_def)

lemma slots_invD:
  assumes "slots_inv k (a, t)"
  shows "index_inv t" "set_option (as_uninit a) \<subseteq> index_elems t"
    "set_option (as_previous a) \<subseteq> index_elems t" "set_option (as_current a) \<subseteq> index_elems t"
    "set_option (as_next a) \<subseteq> index_elems t"
    "{s \<in> index_elems t. session_key s = k} = set (slot_list a)"
    "distinct (map ss_sender_index (slot_list a))"
  using assms by (auto simp: slots_inv_def set_slot_list)

text \<open>Two sessions in different slots have different indices.\<close>

lemma slots_apart:
  assumes "distinct (map ss_sender_index (slot_list a))"
  shows "as_uninit a = Some u \<Longrightarrow> as_previous a = Some p \<Longrightarrow> ss_sender_index u \<noteq> ss_sender_index p"
    "as_uninit a = Some u \<Longrightarrow> as_current a = Some c \<Longrightarrow> ss_sender_index u \<noteq> ss_sender_index c"
    "as_uninit a = Some u \<Longrightarrow> as_next a = Some n \<Longrightarrow> ss_sender_index u \<noteq> ss_sender_index n"
    "as_previous a = Some p \<Longrightarrow> as_current a = Some c \<Longrightarrow> ss_sender_index p \<noteq> ss_sender_index c"
    "as_previous a = Some p \<Longrightarrow> as_next a = Some n \<Longrightarrow> ss_sender_index p \<noteq> ss_sender_index n"
    "as_current a = Some c \<Longrightarrow> as_next a = Some n \<Longrightarrow> ss_sender_index c \<noteq> ss_sender_index n"
  using assms by (auto simp: slot_list_def)

lemma distinct_slots:
  assumes "\<And>u p. as_uninit a = Some u \<Longrightarrow> as_previous a = Some p \<Longrightarrow> ss_sender_index u \<noteq> ss_sender_index p"
    "\<And>u c. as_uninit a = Some u \<Longrightarrow> as_current a = Some c \<Longrightarrow> ss_sender_index u \<noteq> ss_sender_index c"
    "\<And>u n. as_uninit a = Some u \<Longrightarrow> as_next a = Some n \<Longrightarrow> ss_sender_index u \<noteq> ss_sender_index n"
    "\<And>p c. as_previous a = Some p \<Longrightarrow> as_current a = Some c \<Longrightarrow> ss_sender_index p \<noteq> ss_sender_index c"
    "\<And>p n. as_previous a = Some p \<Longrightarrow> as_next a = Some n \<Longrightarrow> ss_sender_index p \<noteq> ss_sender_index n"
    "\<And>c n. as_current a = Some c \<Longrightarrow> as_next a = Some n \<Longrightarrow> ss_sender_index c \<noteq> ss_sender_index n"
  shows "distinct (map ss_sender_index (slot_list a))"
  using assms by (auto simp: slot_list_def elem_set)

lemma deactivate_opt_held:
  assumes "index_inv t" "set_option x \<subseteq> index_elems t"
  obtains t' where "deactivate_opt x (a, t) = (Ok (a, t') :: ('e, slots) result)" "index_inv t'"
    "index_elems t' = index_elems t - set_option x"
proof (cases x)
  case None
  then show ?thesis using that assms by (simp add: deactivate_opt_def)
next
  case (Some s)
  then obtain t' where "index_remove s t = (Ok (Some s, t') :: ('e, session option \<times> session_index) result)"
      "index_inv t'" "index_elems t' = index_elems t - {s}"
    using index_remove_held [OF assms(1), of s, where ?'e = 'e] assms(2) by auto
  then show ?thesis using that Some by (simp add: deactivate_opt_def deactivate_def)
qed

lemma fresh_apart: "index_inv t \<Longrightarrow> get_by_index t (ss_sender_index s) = None \<Longrightarrow>
    s' \<in> index_elems t \<Longrightarrow> ss_sender_index s' \<noteq> ss_sender_index s"
  using si.get_None by blast

lemmas slot_op_defs = prepare_uninit_def complete_uninit_def prepare_next_def complete_next_def
  deactivate_uninit_def deactivate_previous_def deactivate_next_def activate_def

lemma prepare_uninit_effect:
  assumes inv: "slots_inv k (a, t)" and new: "get_by_index t (ss_sender_index s) = None"
  obtains t' where "prepare_uninit s (a, t) = (Ok (a\<lparr>as_uninit := Some s\<rparr>, t') :: ('e, slots) result)"
    "index_inv t'" "index_elems t' = insert s (index_elems t - set_option (as_uninit a))"
proof -
  obtain t1 where t1: "deactivate_opt (as_uninit a) (a\<lparr>as_uninit := None\<rparr>, t) =
      (Ok (a\<lparr>as_uninit := None\<rparr>, t1) :: ('e, slots) result)" "index_inv t1"
      "index_elems t1 = index_elems t - set_option (as_uninit a)"
    by (rule deactivate_opt_held [OF slots_invD(1,2) [OF inv]])
  have "get_by_index t1 (ss_sender_index s) = None"
    using fresh_apart [OF slots_invD(1) [OF inv] new] t1 by (auto simp: si.get_None)
  from index_insert_fresh [OF t1(2) this] that t1 show ?thesis by (simp add: slot_op_defs)
qed

lemma complete_uninit_effect:
  assumes inv: "slots_inv k (a, t)" and u: "as_uninit a = Some u" "ss_sender_index u = ss_sender_index s"
  obtains t' where "complete_uninit s (a, t) = (Ok (True, \<lparr>as_uninit = None, as_previous = as_current a,
      as_current = Some s, as_next = as_next a\<rparr>, t') :: ('e, bool \<times> slots) result)"
    "index_inv t'" "index_elems t' = insert s (index_elems t - {u} - set_option (as_previous a))"
proof -
  let ?a = "a\<lparr>as_uninit := None\<rparr>"
  obtain t1 where t1: "index_remove u t = (Ok (Some u, t1) :: ('e, session option \<times> session_index) result)"
      "index_inv (index_insert s t1)" "index_elems (index_insert s t1) = insert s (index_elems t - {u})"
    by (rule si.renew [OF slots_invD(1) [OF inv], of u s, where ?'e = 'e])
      (use slots_invD(2) [OF inv] u in auto)
  have p: "set_option (as_previous a) \<subseteq> index_elems t - {u}" "s \<notin> set_option (as_previous a)"
    using slots_invD(3,7) [OF inv] slots_apart(1) [OF slots_invD(7) [OF inv] u(1)] u(2) by auto
  obtain t2 where "deactivate_opt (as_previous a) (?a\<lparr>as_previous := None\<rparr>, index_insert s t1) =
      (Ok (?a\<lparr>as_previous := None\<rparr>, t2) :: ('e, slots) result)" "index_inv t2"
      "index_elems t2 = index_elems (index_insert s t1) - set_option (as_previous a)"
    by (rule deactivate_opt_held [OF t1(2), of "as_previous a"]) (use t1(3) p in auto)
  then show ?thesis
    using that t1 u p
    by (auto simp: slot_op_defs deactivate_opt_def [of "Some u"] deactivate_def)
qed

lemma prepare_next_effect:
  assumes inv: "slots_inv k (a, t)" and new: "get_by_index t (ss_sender_index s) = None"
  obtains t' where "prepare_next s (a, t) = (Ok (a\<lparr>as_next := Some s,
      as_previous := (case as_next a of None \<Rightarrow> as_previous a | Some n \<Rightarrow> Some n)\<rparr>, t') :: ('e, slots) result)"
    "index_inv t'" "index_elems t' = insert s (index_elems t -
       (if as_next a = None then {} else set_option (as_previous a)))"
proof (cases "as_next a")
  case None
  from index_insert_fresh [OF slots_invD(1) [OF inv] new] None that show ?thesis
    by (simp add: slot_op_defs)
next
  case (Some n)
  let ?a = "a\<lparr>as_next := None, as_previous := None\<rparr>"
  obtain t1 where t1: "deactivate_opt (as_previous a) (?a, t) = (Ok (?a, t1) :: ('e, slots) result)"
      "index_inv t1" "index_elems t1 = index_elems t - set_option (as_previous a)"
    by (rule deactivate_opt_held [OF slots_invD(1,3) [OF inv]])
  have "get_by_index t1 (ss_sender_index s) = None"
    using fresh_apart [OF slots_invD(1) [OF inv] new] t1 by (auto simp: si.get_None)
  from index_insert_fresh [OF t1(2) this] that t1 Some show ?thesis by (simp add: slot_op_defs)
qed

lemma complete_next_effect:
  assumes inv: "slots_inv k (a, t)" and n: "as_next a = Some n" "ss_sender_index n = ss_sender_index s"
  obtains t' where "complete_next s (a, t) = (Ok (True, \<lparr>as_uninit = as_uninit a,
      as_previous = as_current a, as_current = Some s, as_next = None\<rparr>, t') :: ('e, bool \<times> slots) result)"
    "index_inv t'" "index_elems t' = insert s (index_elems t - {n} - set_option (as_previous a))"
proof -
  let ?a = "a\<lparr>as_next := None\<rparr>"
  obtain t1 where t1: "deactivate_opt (Some n) (?a, t) = (Ok (?a, t1) :: ('e, slots) result)"
      "index_inv t1" "index_elems t1 = index_elems t - {n}"
    by (rule deactivate_opt_held [OF slots_invD(1) [OF inv], of "Some n"])
      (use slots_invD(5) [OF inv] n in auto)
  have p: "set_option (as_previous a) \<subseteq> index_elems t1"
    using slots_invD(3) [OF inv] slots_apart(5) [OF slots_invD(7) [OF inv]] n t1(3) by auto
  obtain t2 where t2: "deactivate_opt (as_previous a) (?a\<lparr>as_previous := None\<rparr>, t1) =
      (Ok (?a\<lparr>as_previous := None\<rparr>, t2) :: ('e, slots) result)" "index_inv t2"
      "index_elems t2 = index_elems t1 - set_option (as_previous a)"
    by (rule deactivate_opt_held [OF t1(2) p])
  have "get_by_index t2 (ss_sender_index s) = None"
    unfolding si.get_None [OF t2(2)] t2(3) t1(3)
    using si.sid_inj [OF slots_invD(1) [OF inv], of _ n] slots_invD(5) [OF inv] n by fastforce
  from index_insert_fresh [OF t2(2) this] that t1 t2 n show ?thesis
    by (simp add: slot_op_defs)
qed

section \<open>Rotation keeps slots and index in step\<close>

lemma slots_invI:
  assumes "index_inv t'" "index_elems t' = insert s (index_elems t - D)"
    "{s \<in> index_elems t. session_key s = k} = set (slot_list a)" "session_key s = k"
    "set (slot_list a') = insert s (set (slot_list a) - D)" "distinct (map ss_sender_index (slot_list a'))"
  shows "slots_inv k (a', t')"
  using assms unfolding slots_inv_def by auto

lemma not_in_slots: "slots_inv k (a, t) \<Longrightarrow> get_by_index t (ss_sender_index s) = None \<Longrightarrow>
    u \<in> set (slot_list a) \<Longrightarrow> ss_sender_index u \<noteq> ss_sender_index s"
  using fresh_apart slots_invD(1,6) by blast

lemma prepare_uninit_inv:
  assumes inv: "slots_inv k (a, t)" and new: "get_by_index t (ss_sender_index s) = None"
    and key: "session_key s = k"
    and eff: "index_inv t'" "index_elems t' = insert s (index_elems t - set_option (as_uninit a))"
  shows "slots_inv k (a\<lparr>as_uninit := Some s\<rparr>, t')"
proof (rule slots_invI [OF eff slots_invD(6) [OF inv] key])
  note apart = slots_apart [OF slots_invD(7) [OF inv]] not_in_slots [OF inv new]
  show "distinct (map ss_sender_index (slot_list (a\<lparr>as_uninit := Some s\<rparr>)))"
    by (rule distinct_slots; use apart in \<open>fastforce simp: set_slot_list\<close>)
  show "set (slot_list (a\<lparr>as_uninit := Some s\<rparr>)) = insert s (set (slot_list a) - set_option (as_uninit a))"
    using apart by (fastforce simp: set_slot_list)
qed

lemma prepare_next_inv:
  assumes inv: "slots_inv k (a, t)" and new: "get_by_index t (ss_sender_index s) = None"
    and key: "session_key s = k"
    and eff: "index_inv t'" "index_elems t' = insert s (index_elems t -
       (if as_next a = None then {} else set_option (as_previous a)))"
  shows "slots_inv k (a\<lparr>as_next := Some s,
      as_previous := (case as_next a of None \<Rightarrow> as_previous a | Some n \<Rightarrow> Some n)\<rparr>, t')" (is "slots_inv k (?a, t')")
proof (rule slots_invI [OF eff slots_invD(6) [OF inv] key])
  note apart = slots_apart [OF slots_invD(7) [OF inv]] not_in_slots [OF inv new]
  show "distinct (map ss_sender_index (slot_list ?a))"
    by (rule distinct_slots; use apart in \<open>fastforce simp: set_slot_list split: option.splits\<close>)
  show "set (slot_list ?a) =
      insert s (set (slot_list a) - (if as_next a = None then {} else set_option (as_previous a)))"
    using apart by (fastforce simp: set_slot_list split: option.splits)
qed

lemma complete_uninit_inv:
  assumes inv: "slots_inv k (a, t)" and u: "as_uninit a = Some u" "ss_sender_index u = ss_sender_index s"
    and key: "session_key s = k"
    and eff: "index_inv t'" "index_elems t' = insert s (index_elems t - {u} - set_option (as_previous a))"
  shows "slots_inv k (\<lparr>as_uninit = None, as_previous = as_current a,
      as_current = Some s, as_next = as_next a\<rparr>, t')" (is "slots_inv k (?a, t')")
proof (rule slots_invI [OF eff(1) _ slots_invD(6) [OF inv] key])
  note apart = slots_apart [OF slots_invD(7) [OF inv]]
  show "index_elems t' = insert s (index_elems t - ({u} \<union> set_option (as_previous a)))"
    using eff(2) by blast
  show "distinct (map ss_sender_index (slot_list ?a))"
    by (rule distinct_slots; use apart u in \<open>fastforce\<close>)
  show "set (slot_list ?a) = insert s (set (slot_list a) - ({u} \<union> set_option (as_previous a)))"
    using apart u by (fastforce simp: set_slot_list)
qed

lemma complete_next_inv:
  assumes inv: "slots_inv k (a, t)" and n: "as_next a = Some n" "ss_sender_index n = ss_sender_index s"
    and key: "session_key s = k"
    and eff: "index_inv t'" "index_elems t' = insert s (index_elems t - {n} - set_option (as_previous a))"
  shows "slots_inv k (\<lparr>as_uninit = as_uninit a, as_previous = as_current a,
      as_current = Some s, as_next = None\<rparr>, t')" (is "slots_inv k (?a, t')")
proof (rule slots_invI [OF eff(1) _ slots_invD(6) [OF inv] key])
  note apart = slots_apart [OF slots_invD(7) [OF inv]]
  show "index_elems t' = insert s (index_elems t - ({n} \<union> set_option (as_previous a)))"
    using eff(2) by blast
  show "distinct (map ss_sender_index (slot_list ?a))"
    by (rule distinct_slots; use apart n in \<open>fastforce\<close>)
  show "set (slot_list ?a) = insert s (set (slot_list a) - ({n} \<union> set_option (as_previous a)))"
    using apart n by (fastforce simp: set_slot_list)
qed

section \<open>Runs of a device\<close>

datatype slot_op =
    PrepareUninit session | CompleteUninit session | PrepareNext session | CompleteNext session

fun op_session :: "slot_op \<Rightarrow> session" where
  "op_session (PrepareUninit s) = s"
| "op_session (CompleteUninit s) = s"
| "op_session (PrepareNext s) = s"
| "op_session (CompleteNext s) = s"

fun slot_step :: "slot_op \<Rightarrow> slots \<Rightarrow> ('e, slots) result" where
  "slot_step (PrepareUninit s) st = prepare_uninit s st"
| "slot_step (CompleteUninit s) st = rbind (complete_uninit s st) (\<lambda>(_, st'). Ok st')"
| "slot_step (PrepareNext s) st = prepare_next s st"
| "slot_step (CompleteNext s) st = rbind (complete_next s st) (\<lambda>(_, st'). Ok st')"

text \<open>A session prepared by a handshake has an index that is not in use; a session that completes
  one has the key of the peer.\<close>

fun op_admissible :: "bytes \<Rightarrow> session_index \<Rightarrow> slot_op \<Rightarrow> bool" where
  "op_admissible k t (PrepareUninit s) \<longleftrightarrow> session_key s = k \<and> get_by_index t (ss_sender_index s) = None"
| "op_admissible k t (PrepareNext s) \<longleftrightarrow> session_key s = k \<and> get_by_index t (ss_sender_index s) = None"
| "op_admissible k t (CompleteUninit s) \<longleftrightarrow> session_key s = k"
| "op_admissible k t (CompleteNext s) \<longleftrightarrow> session_key s = k"

lemma slots_key: "slots_inv k (a, t) \<Longrightarrow> u \<in> set (slot_list a) \<Longrightarrow> session_key u = k"
  using slots_invD(6) by blast

lemma slot_step_inv:
  assumes inv: "slots_inv k (a, t)" and adm: "op_admissible k t op"
  shows "\<exists>a' t'. slot_step op (a, t) = (Ok (a', t') :: ('e, slots) result) \<and> slots_inv k (a', t') \<and>
    (\<forall>s. session_key s \<noteq> k \<longrightarrow> (s \<in> index_elems t' \<longleftrightarrow> s \<in> index_elems t))"
proof (cases op)
  case (PrepareUninit s)
  with adm have s: "session_key s = k" "get_by_index t (ss_sender_index s) = None" by auto
  obtain t' where t': "prepare_uninit s (a, t) = (Ok (a\<lparr>as_uninit := Some s\<rparr>, t') :: ('e, slots) result)"
    "index_inv t'" "index_elems t' = insert s (index_elems t - set_option (as_uninit a))"
    by (rule prepare_uninit_effect [OF inv s(2)])
  show ?thesis
    using t' PrepareUninit s prepare_uninit_inv [OF inv s(2,1) t'(2,3)] slots_key [OF inv]
    by (auto simp: set_slot_list)
next
  case (PrepareNext s)
  with adm have s: "session_key s = k" "get_by_index t (ss_sender_index s) = None" by auto
  obtain t' where t': "prepare_next s (a, t) = (Ok (a\<lparr>as_next := Some s,
      as_previous := (case as_next a of None \<Rightarrow> as_previous a | Some n \<Rightarrow> Some n)\<rparr>, t') :: ('e, slots) result)"
    "index_inv t'" "index_elems t' = insert s (index_elems t -
       (if as_next a = None then {} else set_option (as_previous a)))"
    by (rule prepare_next_effect [OF inv s(2)])
  show ?thesis
    using t' PrepareNext s prepare_next_inv [OF inv s(2,1) t'(2,3)] slots_key [OF inv]
    by (auto simp: set_slot_list)
next
  case (CompleteUninit s)
  with adm have s: "session_key s = k" by auto
  show ?thesis
  proof (cases "\<exists>u. as_uninit a = Some u \<and> ss_sender_index u = ss_sender_index s")
    case True
    then obtain u where u: "as_uninit a = Some u" "ss_sender_index u = ss_sender_index s" by blast
    obtain t' where t': "complete_uninit s (a, t) = (Ok (True, \<lparr>as_uninit = None,
        as_previous = as_current a, as_current = Some s, as_next = as_next a\<rparr>, t') :: ('e, bool \<times> slots) result)"
      "index_inv t'" "index_elems t' = insert s (index_elems t - {u} - set_option (as_previous a))"
      by (rule complete_uninit_effect [OF inv u])
    show ?thesis
      using t' CompleteUninit s u complete_uninit_inv [OF inv u s t'(2,3)] slots_key [OF inv]
      by (auto simp: set_slot_list)
  next
    case False
    then show ?thesis using CompleteUninit inv
      by (auto simp: complete_uninit_def split: option.splits)
  qed
next
  case (CompleteNext s)
  with adm have s: "session_key s = k" by auto
  show ?thesis
  proof (cases "\<exists>n. as_next a = Some n \<and> ss_sender_index n = ss_sender_index s")
    case True
    then obtain n where n: "as_next a = Some n" "ss_sender_index n = ss_sender_index s" by blast
    obtain t' where t': "complete_next s (a, t) = (Ok (True, \<lparr>as_uninit = as_uninit a,
        as_previous = as_current a, as_current = Some s, as_next = None\<rparr>, t') :: ('e, bool \<times> slots) result)"
      "index_inv t'" "index_elems t' = insert s (index_elems t - {n} - set_option (as_previous a))"
      by (rule complete_next_effect [OF inv n])
    show ?thesis
      using t' CompleteNext s n complete_next_inv [OF inv n s t'(2,3)] slots_key [OF inv]
      by (auto simp: set_slot_list)
  next
    case False
    then show ?thesis using CompleteNext inv
      by (auto simp: complete_next_def split: option.splits)
  qed
qed

text \<open>The states a device can reach: every peer starts with empty slots over an empty index, and any
  peer may take the next step.\<close>

inductive slot_run :: "(bytes \<Rightarrow> active_session) \<Rightarrow> session_index \<Rightarrow> bool" where
  start: "slot_run (\<lambda>_. active_session_new) (session_index_new r)"
| draw: "slot_run as t \<Longrightarrow> slot_run as (snd (next_index t))"
| step: "slot_run as t \<Longrightarrow> op_admissible k t op \<Longrightarrow>
    slot_step op (as k, t) = (Ok (a, t') :: (unit, slots) result) \<Longrightarrow> slot_run (as(k := a)) t'"

lemma slots_inv_new: "slots_inv k (active_session_new, session_index_new r)"
  by (simp add: slots_inv_def index_inv_def index_elems_def session_index_new_def slot_list_def
      active_session_new_def)

lemma slots_inv_draw: "slots_inv k (a, snd (next_index t)) = slots_inv k (a, t)"
  by (simp add: slots_inv_def index_inv_def index_elems_def next_index_def)

lemma slot_run_inv: "slot_run as t \<Longrightarrow> slots_inv k (as k, t)"
proof (induction arbitrary: k rule: slot_run.induct)
  case (start r)
  show ?case by (rule slots_inv_new)
next
  case (draw as t)
  then show ?case by (simp add: slots_inv_draw)
next
  case (step as t k' op a t')
  have "slots_inv k' (a, t')"
      "\<forall>s. session_key s \<noteq> k' \<longrightarrow> (s \<in> index_elems t' \<longleftrightarrow> s \<in> index_elems t)"
    using slot_step_inv [OF step.IH [of k'] step.hyps(2), where ?'e = unit] step.hyps(3) by auto
  then show ?case using step.IH [of k] by (auto simp: slots_inv_def)
qed

lemma index_remove_by_key_elems:
  assumes inv: "index_inv t"
  shows "index_inv (index_remove_by_key k t)"
    "index_elems (index_remove_by_key k t) = {s \<in> index_elems t. session_key s \<noteq> k}"
proof -
  have *: "si_indexes (index_remove_by_key k t) i =
      (case si_indexes t i of Some s \<Rightarrow> if session_key s = k then None else Some s | None \<Rightarrow> None)" for i
  proof (cases "si_indexes t i")
    case None
    then show ?thesis by (simp add: index_remove_by_key_def split: option.splits)
  next
    case (Some s)
    then show ?thesis using index_invD(2) [OF inv Some] index_invD(3) [OF inv, of k _ i]
      by (auto simp: index_remove_by_key_def split: option.splits)
  qed
  have keys: "si_keys (index_remove_by_key k t) = (si_keys t)(k := None)"
    by (auto simp: index_remove_by_key_def split: option.splits)
  show "index_inv (index_remove_by_key k t)"
    unfolding index_inv_def * keys
    using index_invD [OF inv] by (auto split: option.splits if_splits) (metis option.distinct(1) option.inject)+
  show "index_elems (index_remove_by_key k t) = {s \<in> index_elems t. session_key s \<noteq> k}"
    by (auto simp: index_elems_def * split: option.splits if_splits)
qed

section \<open>Nonces\<close>

text \<open>\<open>n\<close> encryptions in a row, through any clones of the session.\<close>

fun encrypt_all ::
    "crypto \<Rightarrow> session \<Rightarrow> bytes list \<Rightarrow> cells \<Rightarrow> ('e, u64 list \<times> cells) result" where
  "encrypt_all cr s [] h = Ok ([], h)"
| "encrypt_all cr s (d # ds) h =
     rbind (encrypt_data cr s d h) (\<lambda>(p, h').
     rbind (encrypt_all cr s ds h') (\<lambda>(ns, h'').
       Ok (case p of Inl _ \<Rightarrow> ns | Inr q \<Rightarrow> td_counter q # ns, h'')))"

lemma encrypt_data_cell:
  assumes "ss_cell s < length h"
  obtains p where "encrypt_data cr s d h = (Ok (p, h[ss_cell s := (h ! ss_cell s)
      \<lparr>sc_sender_nonce := sc_sender_nonce (h ! ss_cell s) + 1\<rparr>]) :: ('e, _) result)"
    "\<And>q. p = Inr q \<Longrightarrow> td_counter q = sc_sender_nonce (h ! ss_cell s) \<and>
       td_receiver_index q = ss_receiver_index s"
proof (cases "cipher_encrypt cr (ss_encrypt_cipher s) (sc_sender_nonce (h ! ss_cell s)) d []")
  case (Ok x)
  then show ?thesis using assms that by (simp add: encrypt_data_def next_nonce_def)
next
  case (Err e)
  then show ?thesis using assms that by (simp add: encrypt_data_def next_nonce_def)
next
  case Panic
  then show ?thesis by (cases "ss_encrypt_cipher s") (auto elim: ok_or.elims)
qed

lemma encrypt_all_counters:
  assumes "ss_cell s < length h"
    "unat (sc_sender_nonce (h ! ss_cell s)) + length ds < 2 ^ 64"
  shows "\<exists>ns h'. encrypt_all cr s ds h = (Ok (ns, h') :: ('e, _) result) \<and> sorted_wrt (<) ns \<and>
    (\<forall>n\<in>set ns. sc_sender_nonce (h ! ss_cell s) \<le> n)"
  using assms
proof (induction ds arbitrary: h)
  case Nil
  then show ?case by simp
next
  case (Cons d ds)
  let ?n = "sc_sender_nonce (h ! ss_cell s)"
  define h' where "h' = h[ss_cell s := (h ! ss_cell s)\<lparr>sc_sender_nonce := ?n + 1\<rparr>]"
  obtain p where p: "encrypt_data cr s d h = (Ok (p, h') :: ('e, _) result)"
      "\<And>q. p = Inr q \<Longrightarrow> td_counter q = ?n"
    unfolding h'_def by (rule encrypt_data_cell [OF Cons.prems(1), of cr d, where ?'e = 'e]) blast
  have succ: "unat (?n + 1) = unat ?n + 1"
    using Cons.prems(2) unat_add_nowrap [of ?n 1] by simp
  have n': "sc_sender_nonce (h' ! ss_cell s) = ?n + 1" "ss_cell s < length h'"
    using Cons.prems(1) by (simp_all add: h'_def)
  obtain ns h'' where ns: "encrypt_all cr s ds h' = (Ok (ns, h'') :: ('e, _) result)"
      "sorted_wrt (<) ns" "\<forall>n\<in>set ns. ?n + 1 \<le> n"
    using Cons.IH [OF n'(2)] Cons.prems(2) succ n'(1) by auto
  have above: "?n < n" if "n \<in> set ns" for n
    using ns(3) that succ by (auto simp: word_less_nat_alt word_le_nat_alt)
  show ?case using p ns above
    by (cases p) (auto simp: less_imp_le)
qed

section \<open>Properties\<close>

text \<open>C14: The session index and the session slots of every peer stay in step.  Whatever handshakes
  the peers of a device start and complete, in any interleaving, a lookup by index finds a session
  of a peer exactly when it sits in one of the four slots of that peer, so at most four are live and
  none leaks; and the next slot operation does not panic.\<close>

theorem session_slots_in_step:
  assumes "slot_run as t"
  shows "(get_by_index t i = Some s \<and> session_key s = k \<longleftrightarrow>
      s \<in> set (slot_list (as k)) \<and> ss_sender_index s = i) \<and>
    distinct (map ss_sender_index (slot_list (as k))) \<and> length (slot_list (as k)) \<le> 4 \<and>
    (op_admissible k t op \<longrightarrow> (\<exists>st. slot_step op (as k, t) = (Ok st :: (unit, slots) result)))"
proof -
  note inv = slot_run_inv [OF assms, of k]
  have "length (opt_list x) \<le> 1" for x :: "session option" by (cases x) auto
  from this [of "as_uninit (as k)"] this [of "as_previous (as k)"] this [of "as_current (as k)"]
    this [of "as_next (as k)"]
  have "length (slot_list (as k)) \<le> 4" by (simp add: slot_list_def)
  moreover have "get_by_index t i = Some s \<and> session_key s = k \<longleftrightarrow>
      s \<in> set (slot_list (as k)) \<and> ss_sender_index s = i"
    using slots_invD(6) [OF inv] index_elems_iff [OF slots_invD(1) [OF inv]] by blast
  ultimately show ?thesis
    using slots_invD(7) [OF inv] slot_step_inv [OF inv, where ?'e = unit] by blast
qed

theorem session_slots_in_step_witness:
  "get_by_index (session_index_new 5) 5 = None \<and>
   (\<exists>st. slot_step (CompleteNext \<lparr>ss_secret = \<lparr>ps_local = \<lparr>ls_private = [], ls_public = []\<rparr>,
        ps_public = [], ps_psk = []\<rparr>, ss_sender_index = 5, ss_sender_key = [], ss_receiver_index = 0,
      ss_receiver_key = [], ss_created_at = 0, ss_encrypt_cipher = ChachaCipher [],
      ss_decrypt_cipher = ChachaCipher [], ss_cell = 0\<rparr>) (active_session_new, session_index_new 5) =
    (Ok st :: (unit, slots) result))"
  using session_slots_in_step [OF slot_run.start [of 5], of 5 _ "[]" "CompleteNext _"]
  by (auto simp: session_key_def get_by_index_def session_index_new_def)



end
