(* ===== verification/Peer_Handshake.thy ===== *)
theory Peer_Handshake
  imports Session
begin

text \<open>
  The handshake state of a peer, \<open>vlink-tun/src/device/peer/handshake.rs\<close>.  It draws session
  indices from the index the device shares and allocates the cells of the sessions it makes; both
  are threaded through.  Randomness, the timestamp and the clock are arguments.
\<close>

datatype handshake_state = Uninit | Initiation outgoing_initiation

record handshake =
  hs_state :: handshake_state
  hs_secret :: peer_static_secret
  hs_macs :: mac_generator

definition handshake_new :: "crypto \<Rightarrow> peer_static_secret \<Rightarrow> handshake" where
  "handshake_new cr secret =
     (let cookie = mac_generator_new cr secret
      in \<lparr>hs_state = Uninit, hs_secret = secret, hs_macs = cookie\<rparr>)"

definition initiate ::
    "crypto \<Rightarrow> bytes \<Rightarrow> bytes \<Rightarrow> instant \<Rightarrow> handshake \<Rightarrow> session_index \<Rightarrow> cells \<Rightarrow>
     (noise_error, (session \<times> bytes) \<times> handshake \<times> session_index \<times> cells) result" where
  "initiate cr rand ts now hs t h =
     (let (sender_index, t) = next_index t
      in rbind (outgoing_initiation_new cr rand ts now sender_index (hs_secret hs) (hs_macs hs))
         (\<lambda>(state, payload).
         rbind (session_new now (hs_secret hs) sender_index (replicate 32 0) 0 (replicate 32 0) h)
         (\<lambda>(pre, h).
           Ok ((pre, payload), hs\<lparr>hs_state := Initiation state\<rparr>, t, h))))"

definition respond ::
    "crypto \<Rightarrow> bytes \<Rightarrow> instant \<Rightarrow> incoming_initiation \<Rightarrow> handshake \<Rightarrow> session_index \<Rightarrow> cells \<Rightarrow>
     (noise_error, (session \<times> bytes) \<times> session_index \<times> cells) result" where
  "respond cr rand now initiation hs t h =
     (let (local_index, t) = next_index t
      in rbind (outgoing_response_new cr rand now initiation local_index (hs_secret hs) (hs_macs hs))
         (\<lambda>(state, payload).
         let (sender_index, receiver_index) = (local_index, ii_index initiation);
             (receiver_key, sender_key) = kdf2 cr (or_chaining_key state) []
         in rbind (session_new now (hs_secret hs) sender_index sender_key receiver_index receiver_key h)
            (\<lambda>(sess, h). Ok ((sess, payload), t, h))))"

definition finalize ::
    "crypto \<Rightarrow> instant \<Rightarrow> handshake_response \<Rightarrow> handshake \<Rightarrow> cells \<Rightarrow>
     (noise_error, session \<times> cells) result" where
  "finalize cr now packet hs h =
     (case hs_state hs of
        Initiation initiation \<Rightarrow>
          rbind (incoming_response_parse cr initiation (hs_secret hs) packet) (\<lambda>state.
            let (sender_index, receiver_index) = (oi_index initiation, ir_index state);
                (sender_key, receiver_key) = kdf2 cr (ir_chaining_key state) []
            in session_new now (hs_secret hs) sender_index sender_key receiver_index receiver_key h)
      | Uninit \<Rightarrow> Err InvalidHandshakeState)"

section \<open>Matching sessions\<close>

definition fresh_cell :: session_cell where
  "fresh_cell = \<lparr>sc_sender_nonce = 0, sc_nonce_filter = nonce_filter_new\<rparr>"

lemma session_new_Ok:
  assumes "length sk = 32" "length rk = 32"
  shows "session_new now sec i sk r rk h = Ok (\<lparr>ss_secret = sec, ss_sender_index = i, ss_sender_key = sk,
      ss_receiver_index = r, ss_receiver_key = rk, ss_created_at = now,
      ss_encrypt_cipher = ChachaCipher sk, ss_decrypt_cipher = ChachaCipher rk, ss_cell = length h\<rparr>,
    h @ [fresh_cell])"
  using assms by (simp add: session_new_def chacha_cipher_new_def fresh_cell_def)

text \<open>The ends of a tunnel: what one sends with, the other receives with.\<close>

definition session_match :: "session \<Rightarrow> session \<Rightarrow> bool" where
  "session_match a b \<longleftrightarrow> ss_sender_index a = ss_receiver_index b \<and> ss_receiver_index a = ss_sender_index b \<and>
     ss_encrypt_cipher a = ss_decrypt_cipher b \<and> ss_decrypt_cipher a = ss_encrypt_cipher b \<and>
     length (cipher_key (ss_encrypt_cipher a)) = 32 \<and> length (cipher_key (ss_decrypt_cipher a)) = 32"

lemma session_match_sym: "session_match a b \<Longrightarrow> session_match b a"
  by (auto simp: session_match_def)

lemma session_match_transfer:
  assumes laws: "crypto_laws cr" and m: "session_match a b"
    and cell: "ss_cell a < length h" and data: "length data < 2 ^ 32"
  obtains p h' where "encrypt_data cr a data h = (Ok (Inr p, h') :: ('e, _) result)"
    "decrypt_data cr b p = Ok data" "td_counter p = sc_sender_nonce (h ! ss_cell a)"
    "td_receiver_index p = ss_receiver_index a"
proof -
  obtain key where key: "ss_encrypt_cipher a = ChachaCipher key" "ss_decrypt_cipher b = ChachaCipher key"
      "length key = 32"
    using m by (cases "ss_encrypt_cipher a") (auto simp: session_match_def)
  let ?n = "sc_sender_nonce (h ! ss_cell a)"
  obtain c where "chacha_seal cr key (counter_nonce ?n) data [] = Some c"
      "chacha_open cr key (counter_nonce ?n) c [] = Some data"
    using crypto_lawsD(4) [OF laws key(3) length_counter_nonce data] by blast
  then show ?thesis
    using that cell m key
    by (simp add: encrypt_data_def next_nonce_def decrypt_data_def session_match_def)
qed

lemma next_index_fst: "next_index t = (si_index t, t\<lparr>si_index := si_index t + 1\<rparr>)"
  by (simp add: next_index_def)

lemma handshake_exchange:
  assumes laws: "crypto_laws cr"
    and len: "length a = 32" "length b = 32" "length ri = 32" "length rr = 32" "length ts = 12"
    and si: "si = set_psk psk (with_peer (local_secret_new cr a) (x25519_pub cr b))"
    and sr: "sr = set_psk psk (with_peer (local_secret_new cr b) (x25519_pub cr a))"
  obtains pre init hs' ti' hi' p inc sessR resp tr' hr' q sessI hi'' where
    "initiate cr ri ts now (handshake_new cr si) ti hi = Ok ((pre, init), hs', ti', hi')"
    "message_parse init = Ok (HandshakeInitiation p)"
    "incoming_initiation_parse cr (ps_local sr) p = Ok inc"
    "ii_static_public_key inc = ls_public (ps_local si)"
    "respond cr rr now1 inc (handshake_new cr sr) tr hr = Ok ((sessR, resp), tr', hr')"
    "message_parse resp = Ok (HandshakeResponse q)"
    "hr_receiver_index q = ss_sender_index pre"
    "finalize cr now2 q hs' hi' = Ok (sessI, hi'')"
    "ss_sender_index sessI = ss_sender_index pre"
    "session_match sessI sessR"
    "ss_cell sessI < length hi''" "ss_cell sessR < length hr'"
    "hi'' ! ss_cell sessI = fresh_cell" "hr' ! ss_cell sessR = fresh_cell"
    "session_key pre = ps_public si" "session_key sessI = ps_public si" "session_key sessR = ps_public sr"
    "ss_sender_index pre = si_index ti" "ss_sender_index sessR = si_index tr"
    "hs_secret hs' = si" "ti' = snd (next_index ti)" "tr' = snd (next_index tr)"
proof -
  have s: "ps_local si = local_secret_new cr a" "ps_public si = x25519_pub cr b" "ps_psk si = psk"
      "ps_local sr = local_secret_new cr b" "ps_public sr = x25519_pub cr a" "ps_psk sr = psk"
    using si sr by (simp_all add: set_psk_def with_peer_def peer_secret_new_def)
  obtain st init p inc where 1: "outgoing_initiation_new cr ri ts now (si_index ti) si
        (mac_generator_new cr si) = Ok (st, init)"
    "length init = 148" "initiation_try_from init = Ok p"
    "validate_mac1 cr (cookie_new cr (local_secret_new cr b)) init = (Ok True :: (noise_error, bool) result)"
    "incoming_initiation_parse cr (local_secret_new cr b) p = Ok inc"
    "oi_index st = si_index ti" "oi_ephemeral_private_key st = ri"
    "inc = \<lparr>ii_index = si_index ti, ii_hash = oi_hash st, ii_chaining_key = oi_chaining_key st,
       ii_timestamp = ts, ii_ephemeral_public_key = x25519_pub cr ri,
       ii_static_public_key = x25519_pub cr a\<rparr>"
    by (rule initiation_exchange [OF laws len(1,2,3,5) s(1,2) macs_for_new, where ?'e = noise_error])
  obtain rst resp q fin where 2: "outgoing_response_new cr rr now1 inc (si_index tr) sr
        (mac_generator_new cr sr) = Ok (rst, resp)"
    "length resp = 92" "response_try_from resp = Ok q"
    "validate_mac1 cr (cookie_new cr (local_secret_new cr a)) resp = (Ok True :: (noise_error, bool) result)"
    "hr_receiver_index q = ii_index inc" "incoming_response_parse cr st si q = Ok fin"
    "ir_index fin = si_index tr" "ir_hash fin = or_hash rst" "ir_chaining_key fin = or_chaining_key rst"
    by (rule response_exchange [OF laws len(4) s(1,3) s(5,6) _ _ _ macs_for_new, of inc st, where ?'e = noise_error])
      (use 1 in simp_all)
  obtain k1 k2 where k: "kdf2 cr (or_chaining_key rst) [] = (k1, k2)" "length k1 = 32" "length k2 = 32"
    using crypto_lengths(5,6) [OF laws, of "or_chaining_key rst" "[]"] by (cases "kdf2 cr (or_chaining_key rst) []") auto
  define mk where "mk now sec i sk r rk n = \<lparr>ss_secret = sec, ss_sender_index = i, ss_sender_key = sk,
      ss_receiver_index = r, ss_receiver_key = rk, ss_created_at = now,
      ss_encrypt_cipher = ChachaCipher sk, ss_decrypt_cipher = ChachaCipher rk, ss_cell = n\<rparr>"
    for now sec i sk r rk n
  note new = session_new_Ok [folded mk_def]
  have A: "initiate cr ri ts now (handshake_new cr si) ti hi =
      Ok ((mk now si (si_index ti) (replicate 32 0) 0 (replicate 32 0) (length hi), init),
        \<lparr>hs_state = Initiation st, hs_secret = si, hs_macs = mac_generator_new cr si\<rparr>,
        ti\<lparr>si_index := si_index ti + 1\<rparr>, hi @ [fresh_cell])"
    using 1(1) by (simp add: initiate_def next_index_fst handshake_new_def new Let_def)
  have B: "respond cr rr now1 inc (handshake_new cr sr) tr hr =
      Ok ((mk now1 sr (si_index tr) k2 (si_index ti) k1 (length hr), resp),
        tr\<lparr>si_index := si_index tr + 1\<rparr>, hr @ [fresh_cell])"
    using 1(8) 2(1) k by (simp add: respond_def next_index_fst handshake_new_def new Let_def)
  have C: "finalize cr now2 q
      \<lparr>hs_state = Initiation st, hs_secret = si, hs_macs = mac_generator_new cr si\<rparr> (hi @ [fresh_cell]) =
      Ok (mk now2 si (si_index ti) k1 (si_index tr) k2 (length (hi @ [fresh_cell])), hi @ [fresh_cell] @ [fresh_cell])"
    using 1(6) 2(6,7,9) k by (simp add: finalize_def new Let_def)
  show ?thesis
    by (rule that [OF A message_parse_initiation [OF 1(3)] _ _ B message_parse_response [OF 2(3)] _ C])
      (use 1 2 k s in \<open>simp_all add: mk_def session_match_def local_secret_new_def nth_append session_key_def next_index_fst\<close>)
qed

section \<open>Properties\<close>

text \<open>C13: A completed handshake yields a working tunnel.  Take two peers that configured each other's
  public keys and the same pre-shared key.  Whatever the randomness, the indices already drawn and
  the sessions already made: \<open>initiate\<close>, \<open>respond\<close> and \<open>finalize\<close> succeed, the response is
  addressed to the initiator's prepared session, each side's session sends to the other's index, and
  what either side encrypts the other decrypts to the same data, starting at counter 0.\<close>

theorem handshake_gives_tunnel:
  assumes "crypto_laws cr"
    and "length a = 32" "length b = 32" "length ri = 32" "length rr = 32" "length ts = 12"
    and "si = set_psk psk (with_peer (local_secret_new cr a) (x25519_pub cr b))"
    and "sr = set_psk psk (with_peer (local_secret_new cr b) (x25519_pub cr a))"
    and "length d < 2 ^ 32" "length e < 2 ^ 32"
  shows "\<exists>pre init hs' ti' hi' p inc sR resp tr' hr' q sI hi''.
    initiate cr ri ts now (handshake_new cr si) ti hi = Ok ((pre, init), hs', ti', hi') \<and>
    message_parse init = Ok (HandshakeInitiation p) \<and>
    incoming_initiation_parse cr (ps_local sr) p = Ok inc \<and>
    respond cr rr now1 inc (handshake_new cr sr) tr hr = Ok ((sR, resp), tr', hr') \<and>
    message_parse resp = Ok (HandshakeResponse q) \<and> hr_receiver_index q = ss_sender_index pre \<and>
    finalize cr now2 q hs' hi' = Ok (sI, hi'') \<and> ss_sender_index sI = ss_sender_index pre \<and>
    (\<exists>pk h. encrypt_data cr sI d hi'' = (Ok (Inr pk, h) :: (unit, _) result) \<and> decrypt_data cr sR pk = Ok d \<and>
       td_counter pk = 0 \<and> td_receiver_index pk = ss_sender_index sR) \<and>
    (\<exists>pk h. encrypt_data cr sR e hr' = (Ok (Inr pk, h) :: (unit, _) result) \<and> decrypt_data cr sI pk = Ok e \<and>
       td_counter pk = 0 \<and> td_receiver_index pk = ss_sender_index sI)"
proof -
  obtain pre init hs' ti' hi' p inc sR resp tr' hr' q sI hi'' where x:
    "initiate cr ri ts now (handshake_new cr si) ti hi = Ok ((pre, init), hs', ti', hi')"
    "message_parse init = Ok (HandshakeInitiation p)"
    "incoming_initiation_parse cr (ps_local sr) p = Ok inc"
    "ii_static_public_key inc = ls_public (ps_local si)"
    "respond cr rr now1 inc (handshake_new cr sr) tr hr = Ok ((sR, resp), tr', hr')"
    "message_parse resp = Ok (HandshakeResponse q)" "hr_receiver_index q = ss_sender_index pre"
    "finalize cr now2 q hs' hi' = Ok (sI, hi'')" "ss_sender_index sI = ss_sender_index pre"
    "session_match sI sR" "ss_cell sI < length hi''" "ss_cell sR < length hr'"
    "hi'' ! ss_cell sI = fresh_cell" "hr' ! ss_cell sR = fresh_cell"
    by (rule handshake_exchange [OF assms(1-8)])
  obtain pk h where "encrypt_data cr sI d hi'' = (Ok (Inr pk, h) :: (unit, _) result)"
    "decrypt_data cr sR pk = Ok d" "td_counter pk = 0" "td_receiver_index pk = ss_receiver_index sI"
    by (rule session_match_transfer [OF assms(1) x(10,11) assms(9), where ?'e = unit]) (use x(13) in \<open>simp add: fresh_cell_def\<close>)
  moreover obtain pk' h' where "encrypt_data cr sR e hr' = (Ok (Inr pk', h') :: (unit, _) result)"
    "decrypt_data cr sI pk' = Ok e" "td_counter pk' = 0" "td_receiver_index pk' = ss_receiver_index sR"
    by (rule session_match_transfer [OF assms(1) session_match_sym [OF x(10)] x(12) assms(10), where ?'e = unit])
      (use x(14) in \<open>simp add: fresh_cell_def\<close>)
  moreover have "ss_receiver_index sI = ss_sender_index sR" "ss_receiver_index sR = ss_sender_index sI"
    using x(10) by (simp_all add: session_match_def)
  ultimately show ?thesis using x(1-9) by metis
qed

theorem handshake_gives_tunnel_witness:
  "\<exists>pre init hs' ti' hi'.
    initiate plain_crypto (replicate 32 3) (replicate 12 9) 0 (handshake_new plain_crypto
      (set_psk (replicate 32 5) (with_peer (local_secret_new plain_crypto (replicate 32 1))
        (x25519_pub plain_crypto (replicate 32 2))))) (session_index_new 7) [] =
      Ok ((pre, init), hs', ti', hi')"
  using handshake_gives_tunnel [OF plain_crypto_laws _ _ _ _ _ refl refl,
      of "replicate 32 1" "replicate 32 2" "replicate 32 3" "replicate 32 4" "replicate 12 9"
        "[]" "[]" 0 "replicate 32 5" "session_index_new 7" "[]" 0 "session_index_new 8" "[]" 0]
  by auto

end
