(* ===== verification/Monitor.thy ===== *)
theory Monitor
  imports Noise_Handshake
begin

text \<open>
  The clocks and monitors of a peer: \<open>device/time.rs\<close>, \<open>device/peer/monitor.rs\<close> and
  \<open>device/rate_limiter.rs\<close> of \<open>vlink-tun\<close>.  The current time is an argument: instants of the
  monotonic clock and system times are nanoseconds, a system time counted from the Unix epoch.  An
  \<open>AtomicInstant\<close> stores whole milliseconds since its epoch, so what it returns lags by less than
  one millisecond; the bounds below say so.
\<close>

section \<open>Clocks (device/time.rs)\<close>

definition millis :: "duration \<Rightarrow> int" where
  "millis d = d div 10 ^ 6"

record atomic_timestamp =
  at_secs :: u64
  at_nanos :: u32

definition timestamp_zeroed :: atomic_timestamp where
  "timestamp_zeroed = \<lparr>at_secs = 0, at_nanos = 0\<rparr>"

text \<open>\<open>duration_since(UNIX_EPOCH).unwrap()\<close> panics before 1970.\<close>

definition timestamp_from_std :: "int \<Rightarrow> ('e, atomic_timestamp) result" where
  "timestamp_from_std t =
     (if t < 0 then Panic
      else Ok \<lparr>at_secs = word_of_int (t div 10 ^ 9), at_nanos = word_of_int (t mod 10 ^ 9)\<rparr>)"

definition timestamp_set_now :: "int \<Rightarrow> atomic_timestamp \<Rightarrow> ('e, atomic_timestamp) result" where
  "timestamp_set_now sys ts =
     (if sys < 0 then Panic
      else Ok \<lparr>at_secs = word_of_int (sys div 10 ^ 9), at_nanos = word_of_int (sys mod 10 ^ 9)\<rparr>)"

definition timestamp_pair :: "atomic_timestamp \<Rightarrow> u64 \<times> u32" where
  "timestamp_pair ts = (at_secs ts, at_nanos ts)"

definition timestamp_to_std :: "atomic_timestamp \<Rightarrow> int" where
  "timestamp_to_std ts = (let (s, n) = timestamp_pair ts in uint s * 10 ^ 9 + uint n)"

record atomic_instant =
  ai_epoch :: instant
  ai_d :: u64

definition instant_from_std :: "instant \<Rightarrow> atomic_instant" where
  "instant_from_std epoch = \<lparr>ai_epoch = epoch, ai_d = 0\<rparr>"

definition instant_now :: "instant \<Rightarrow> atomic_instant" where
  "instant_now now = instant_from_std now"

definition instant_set_now :: "instant \<Rightarrow> atomic_instant \<Rightarrow> atomic_instant" where
  "instant_set_now now a = a\<lparr>ai_d := word_of_int (millis (elapsed now (ai_epoch a)))\<rparr>"

definition add_duration :: "duration \<Rightarrow> atomic_instant \<Rightarrow> atomic_instant" where
  "add_duration d a = a\<lparr>ai_d := ai_d a + word_of_int (millis d)\<rparr>"

definition instant_to_std :: "atomic_instant \<Rightarrow> instant" where
  "instant_to_std a = ai_epoch a + uint (ai_d a) * 10 ^ 6"

definition instant_elapsed :: "instant \<Rightarrow> atomic_instant \<Rightarrow> duration" where
  "instant_elapsed now a = elapsed now (instant_to_std a)"

definition instant_add :: "atomic_instant \<Rightarrow> duration \<Rightarrow> atomic_instant" where
  "instant_add a d = add_duration d a"

definition instant_le :: "atomic_instant \<Rightarrow> atomic_instant \<Rightarrow> bool" where
  "instant_le a b \<longleftrightarrow> instant_to_std a \<le> instant_to_std b"

section \<open>Rate limiter (device/rate_limiter.rs)\<close>

record rate_limiter =
  rl_tokens :: u16
  rl_bucket :: "16 word"
  rl_last_at :: atomic_instant

definition rate_limiter_new :: "instant \<Rightarrow> u16 \<Rightarrow> rate_limiter" where
  "rate_limiter_new now tokens =
     \<lparr>rl_tokens = tokens, rl_bucket = tokens, rl_last_at = instant_now now\<rparr>"

text \<open>The token bucket is commented out in the source: every request gets a token.\<close>

definition fetch_token :: "rate_limiter \<Rightarrow> bool" where
  "fetch_token rl = True"

section \<open>Handshake, traffic and keepalive monitors (device/peer/monitor.rs)\<close>

definition REKEY_AFTER_MESSAGES :: u64 where "REKEY_AFTER_MESSAGES = 2 ^ 60"
definition REKEY_AFTER_TIME :: duration where "REKEY_AFTER_TIME = secs 120"
definition REJECT_AFTER_TIME :: duration where "REJECT_AFTER_TIME = secs 180"
definition REKEY_ATTEMPT_TIME :: duration where "REKEY_ATTEMPT_TIME = secs 90"
definition REKEY_TIMEOUT :: duration where "REKEY_TIMEOUT = secs 5"
definition KEEPALIVE_TIMEOUT :: duration where "KEEPALIVE_TIMEOUT = secs 10"

record handshake_monitor =
  hm_last_attempt_at :: atomic_instant
  hm_last_complete_at :: atomic_instant
  hm_last_complete_ts :: atomic_timestamp
  hm_attempt_before :: atomic_instant

definition handshake_monitor_new :: "instant \<Rightarrow> handshake_monitor" where
  "handshake_monitor_new now =
     \<lparr>hm_last_attempt_at = instant_from_std (now - REKEY_TIMEOUT),
      hm_last_complete_at = instant_from_std (now - REJECT_AFTER_TIME),
      hm_last_complete_ts = timestamp_zeroed,
      hm_attempt_before = instant_add (instant_now now) REKEY_ATTEMPT_TIME\<rparr>"

definition initiated :: "instant \<Rightarrow> handshake_monitor \<Rightarrow> handshake_monitor" where
  "initiated now m = m\<lparr>hm_last_attempt_at := instant_set_now now (hm_last_attempt_at m)\<rparr>"

definition is_max_attempt :: "instant \<Rightarrow> handshake_monitor \<Rightarrow> bool" where
  "is_max_attempt now m \<longleftrightarrow> instant_to_std (hm_attempt_before m) < now"

definition will_initiate_in :: "instant \<Rightarrow> handshake_monitor \<Rightarrow> instant" where
  "will_initiate_in now m =
     (if is_max_attempt now m \<or> instant_elapsed now (hm_last_complete_at m) < REKEY_AFTER_TIME
      then now + REKEY_TIMEOUT
      else instant_to_std (hm_last_attempt_at m) + REKEY_TIMEOUT)"

definition reset_attempt :: "instant \<Rightarrow> handshake_monitor \<Rightarrow> handshake_monitor" where
  "reset_attempt now m =
     m\<lparr>hm_attempt_before := add_duration REKEY_ATTEMPT_TIME (instant_set_now now (hm_attempt_before m))\<rparr>"

definition completed :: "instant \<Rightarrow> int \<Rightarrow> handshake_monitor \<Rightarrow> ('e, handshake_monitor) result" where
  "completed now sys m =
     rbind (timestamp_set_now sys (hm_last_complete_ts m)) (\<lambda>ts.
       Ok (reset_attempt now (m\<lparr>hm_last_complete_at := instant_set_now now (hm_last_complete_at m),
                                hm_last_complete_ts := ts\<rparr>)))"

record traffic_monitor =
  tm_last_sent_at :: atomic_instant
  tm_last_recv_at :: atomic_instant
  tm_tx_messages :: u64
  tm_rx_messages :: u64
  tm_tx_bytes :: u64
  tm_rx_bytes :: u64

definition traffic_monitor_new :: "instant \<Rightarrow> traffic_monitor" where
  "traffic_monitor_new now =
     \<lparr>tm_last_sent_at = instant_from_std now, tm_last_recv_at = instant_from_std (now - REKEY_TIMEOUT),
      tm_tx_messages = 0, tm_rx_messages = 0, tm_tx_bytes = 0, tm_rx_bytes = 0\<rparr>"

definition traffic_outbound :: "instant \<Rightarrow> nat \<Rightarrow> traffic_monitor \<Rightarrow> traffic_monitor" where
  "traffic_outbound now n m =
     m\<lparr>tm_last_sent_at := instant_set_now now (tm_last_sent_at m),
       tm_tx_messages := tm_tx_messages m + 1, tm_tx_bytes := tm_tx_bytes m + of_nat n\<rparr>"

definition traffic_inbound :: "nat \<Rightarrow> traffic_monitor \<Rightarrow> traffic_monitor" where
  "traffic_inbound n m =
     m\<lparr>tm_rx_messages := tm_rx_messages m + 1, tm_rx_bytes := tm_rx_bytes m + of_nat n\<rparr>"

record keepalive_monitor =
  km_last_attempt_at :: atomic_instant
  km_interval :: "duration option"

definition keepalive_monitor_new :: "instant \<Rightarrow> duration option \<Rightarrow> keepalive_monitor" where
  "keepalive_monitor_new now interval = \<lparr>km_last_attempt_at = instant_now now, km_interval = interval\<rparr>"

definition next_attempt_in :: "instant \<Rightarrow> keepalive_monitor \<Rightarrow> traffic_monitor \<Rightarrow> instant" where
  "next_attempt_in now k traffic =
     (if instant_elapsed now (km_last_attempt_at k) \<ge> KEEPALIVE_TIMEOUT \<and>
         instant_to_std (tm_last_recv_at traffic) > instant_to_std (tm_last_sent_at traffic)
      then if instant_elapsed now (tm_last_recv_at traffic) > KEEPALIVE_TIMEOUT then now
           else now + KEEPALIVE_TIMEOUT - instant_elapsed now (tm_last_recv_at traffic)
      else case km_interval k of
             Some v \<Rightarrow> instant_to_std (km_last_attempt_at k) + v
           | None \<Rightarrow> now + REKEY_AFTER_TIME)"

definition keepalive_can :: "instant \<Rightarrow> keepalive_monitor \<Rightarrow> traffic_monitor \<Rightarrow> bool" where
  "keepalive_can now k traffic \<longleftrightarrow> next_attempt_in now k traffic \<le> now"

definition keepalive_attempt :: "instant \<Rightarrow> keepalive_monitor \<Rightarrow> keepalive_monitor" where
  "keepalive_attempt now k = k\<lparr>km_last_attempt_at := instant_set_now now (km_last_attempt_at k)\<rparr>"

record peer_monitor =
  pm_handshake :: handshake_monitor
  pm_traffic :: traffic_monitor
  pm_keepalive :: keepalive_monitor

definition peer_monitor_new :: "instant \<Rightarrow> duration option \<Rightarrow> peer_monitor" where
  "peer_monitor_new now interval =
     \<lparr>pm_handshake = handshake_monitor_new now, pm_traffic = traffic_monitor_new now,
      pm_keepalive = keepalive_monitor_new now interval\<rparr>"

text \<open>\<open>can_handshake\<close> may extend the attempt window, so it returns the monitor as well.\<close>

definition can_handshake :: "instant \<Rightarrow> peer_monitor \<Rightarrow> bool \<times> peer_monitor" where
  "can_handshake now m =
     (if tm_tx_messages (pm_traffic m) \<ge> REKEY_AFTER_MESSAGES then (True, m)
      else let h = pm_handshake m in
        if instant_elapsed now (hm_last_complete_at h) < REKEY_AFTER_TIME then (False, m)
        else let h' = (if instant_to_std (hm_attempt_before h) <
                          instant_to_std (hm_last_complete_at h) + REKEY_AFTER_TIME
                       then reset_attempt now h else h)
             in (instant_elapsed now (hm_last_attempt_at h') \<ge> REKEY_TIMEOUT, m\<lparr>pm_handshake := h'\<rparr>))"

record peer_metrics =
  mx_tx_messages :: u64
  mx_rx_messages :: u64
  mx_tx_bytes :: u64
  mx_rx_bytes :: u64
  mx_last_handshake_at :: int

definition monitor_metrics :: "peer_monitor \<Rightarrow> peer_metrics" where
  "monitor_metrics m =
     \<lparr>mx_tx_messages = tm_tx_messages (pm_traffic m), mx_rx_messages = tm_rx_messages (pm_traffic m),
      mx_tx_bytes = tm_tx_bytes (pm_traffic m), mx_rx_bytes = tm_rx_bytes (pm_traffic m),
      mx_last_handshake_at = timestamp_to_std (hm_last_complete_ts (pm_handshake m))\<rparr>"

section \<open>What the clocks return\<close>

lemmas rekey_consts = REKEY_AFTER_TIME_def REJECT_AFTER_TIME_def REKEY_ATTEMPT_TIME_def
  REKEY_TIMEOUT_def KEEPALIVE_TIMEOUT_def secs_def

lemma uint_word_of_int_small: "0 \<le> k \<Longrightarrow> k < 2 ^ LENGTH('a) \<Longrightarrow> uint (word_of_int k :: 'a::len word) = k"
  by (simp add: unsigned_of_int take_bit_int_eq_self)

lemma div_less_mult: "0 < m \<Longrightarrow> e < b * m \<Longrightarrow> e div m < (b :: int)"
proof (rule ccontr)
  assume m: "0 < m" and e: "e < b * m" and "\<not> e div m < b"
  then have "b * m \<le> e div m * m" by (intro mult_right_mono) auto
  also have "\<dots> = e - e mod m" by (simp add: minus_mod_eq_div_mult)
  finally show False using e pos_mod_sign [OF m, of e] by linarith
qed

text \<open>\<open>clock_ok now a\<close>: the epoch of \<open>a\<close> has passed and fewer than \<open>2^64\<close> milliseconds ago.\<close>

definition clock_ok :: "instant \<Rightarrow> atomic_instant \<Rightarrow> bool" where
  "clock_ok now a \<longleftrightarrow> ai_epoch a \<le> now \<and> now - ai_epoch a < 2 ^ 64 * 10 ^ 6"

lemma instant_set_now_bounds:
  assumes "clock_ok now a"
  shows "now - 10 ^ 6 < instant_to_std (instant_set_now now a)" "instant_to_std (instant_set_now now a) \<le> now"
proof -
  let ?e = "now - ai_epoch a"
  have e: "0 \<le> ?e" "elapsed now (ai_epoch a) = ?e" using assms by (auto simp: clock_ok_def elapsed_def)
  have dm: "?e div 10 ^ 6 * 10 ^ 6 = ?e - ?e mod 10 ^ 6" by (simp add: minus_mod_eq_div_mult [symmetric])
  have rest: "0 \<le> ?e mod 10 ^ 6" "?e mod 10 ^ 6 < 10 ^ 6" by simp_all
  have "?e < 2 ^ 64 * 10 ^ 6" using assms by (simp only: clock_ok_def)
  then have "?e div 10 ^ 6 < 2 ^ 64" by (intro div_less_mult) simp_all
  then have "uint (word_of_int (?e div 10 ^ 6) :: u64) = ?e div 10 ^ 6"
    using e by (intro uint_word_of_int_small) (auto simp: pos_imp_zdiv_nonneg_iff)
  then have std: "instant_to_std (instant_set_now now a) = ai_epoch a + ?e div 10 ^ 6 * 10 ^ 6"
    using e by (simp add: instant_to_std_def instant_set_now_def millis_def)
  show "now - 10 ^ 6 < instant_to_std (instant_set_now now a)"
      "instant_to_std (instant_set_now now a) \<le> now"
    unfolding std using dm rest by linarith+
qed

lemma instant_epoch_le: "ai_epoch a \<le> instant_to_std a"
  by (simp add: instant_to_std_def)

lemma ai_epoch_set [simp]: "ai_epoch (instant_set_now now a) = ai_epoch a" "ai_epoch (add_duration d a) = ai_epoch a"
  by (simp_all add: instant_set_now_def add_duration_def)

section \<open>Properties\<close>

text \<open>A system time survives the pair of atomics it is stored in: for every time from the Unix
  epoch on (up to \<open>2^64\<close> seconds), \<open>to_std\<close> after \<open>from_std\<close> or \<open>set_now\<close> returns it exactly.\<close>

theorem timestamp_store_roundtrip:
  assumes "0 \<le> t" "t < 2 ^ 64 * 10 ^ 9"
  shows "\<exists>ts. timestamp_from_std t = (Ok ts :: (unit, atomic_timestamp) result) \<and>
    timestamp_set_now t old = (Ok ts :: (unit, atomic_timestamp) result) \<and> timestamp_to_std ts = t"
proof -
  have dm: "t div 10 ^ 9 * 10 ^ 9 = t - t mod 10 ^ 9" by (simp add: minus_mod_eq_div_mult [symmetric])
  have r: "0 \<le> t mod 10 ^ 9" "t mod 10 ^ 9 < 10 ^ 9" by simp_all
  have "t div 10 ^ 9 < 2 ^ 64" using assms by (intro div_less_mult) simp_all
  then have "uint (word_of_int (t div 10 ^ 9) :: u64) = t div 10 ^ 9"
    using assms by (intro uint_word_of_int_small) (auto simp: pos_imp_zdiv_nonneg_iff)
  moreover have "uint (word_of_int (t mod 10 ^ 9) :: u32) = t mod 10 ^ 9"
    using r by (intro uint_word_of_int_small) (auto intro: less_trans)
  ultimately show ?thesis
    using assms dm by (simp add: timestamp_from_std_def timestamp_set_now_def timestamp_to_std_def
        timestamp_pair_def)
qed

theorem timestamp_store_roundtrip_witness:
  "\<exists>ts. timestamp_from_std 1700000000000000007 = (Ok ts :: (unit, atomic_timestamp) result) \<and>
    timestamp_to_std ts = 1700000000000000007"
  using timestamp_store_roundtrip [of 1700000000000000007 timestamp_zeroed] by auto



text \<open>The passive keepalive never fires.  \<open>inbound\<close> does not record when data arrived, so in every
  history of a peer \<open>last_recv_at\<close> stays before \<open>last_sent_at\<close> and the next keepalive is the
  persistent interval after the last one, or two minutes from now when none is configured.\<close>

inductive traffic_run :: "traffic_monitor \<Rightarrow> bool" where
  new: "traffic_run (traffic_monitor_new now)"
| sent: "traffic_run m \<Longrightarrow> traffic_run (traffic_outbound now n m)"
| received: "traffic_run m \<Longrightarrow> traffic_run (traffic_inbound n m)"

lemma traffic_run_recv: "traffic_run m \<Longrightarrow>
    instant_to_std (tm_last_recv_at m) < ai_epoch (tm_last_sent_at m)"
  by (induction rule: traffic_run.induct)
    (simp_all add: traffic_monitor_new_def traffic_outbound_def traffic_inbound_def instant_from_std_def
      instant_to_std_def rekey_consts)

theorem passive_keepalive_dead:
  assumes "traffic_run m"
  shows "next_attempt_in now k m = (case km_interval k of
      Some v \<Rightarrow> instant_to_std (km_last_attempt_at k) + v | None \<Rightarrow> now + REKEY_AFTER_TIME)"
  using traffic_run_recv [OF assms] instant_epoch_le [of "tm_last_sent_at m"]
  by (simp add: next_attempt_in_def)

theorem passive_keepalive_dead_witness:
  "next_attempt_in (secs 60) (keepalive_monitor_new 0 None) (traffic_inbound 100 (traffic_monitor_new 0)) =
    secs 180"
  using passive_keepalive_dead [OF traffic_run.received [OF traffic_run.new],
      of "secs 60" "keepalive_monitor_new 0 None" 100 0]
  by (simp add: keepalive_monitor_new_def rekey_consts)

end
