(* ===== verification/Peer.thy ===== *)
theory Peer
  imports Peer_Handshake Monitor
begin

text \<open>
  A peer and its tasks: \<open>device/peer/mod.rs\<close>, \<open>device/peer/inbound.rs\<close>, \<open>device/peer/handler.rs\<close> and
  \<open>device/event/mod.rs\<close> of \<open>vlink-tun\<close>.  A handler takes the peer, the state the device shares
  (session index, session cells, what has been sent so far) and an environment that fixes the time, the
  randomness and the outcome of I/O; it returns both states, or panics where the code unwraps.  The two
  channels of a peer are queues in arrival order (their bound of 32, which only delays a sender, is not
  modelled), and one turn of a task loop takes the front of its queue.
\<close>

section \<open>Data\<close>

text \<open>An endpoint is the sender packets are written to: a socket with its destination and protocol, or the
  connection to a relay, by its name, with the key of the peer behind it; a relay reports no address.\<close>

datatype endpoint = Endpoint socket_addr string | RelayEndpoint bytes string

fun ep_dst :: "endpoint \<Rightarrow> socket_addr" where
  "ep_dst (Endpoint addr proto) = addr"
| "ep_dst (RelayEndpoint dst server) = V4 [0, 0, 0, 0] 0"

fun ep_protocol :: "endpoint \<Rightarrow> string" where
  "ep_protocol (Endpoint addr proto) = proto"
| "ep_protocol (RelayEndpoint dst server) = ''Reply''"

datatype device_event =
    HandshakeCompleteEv (ev_pub_key: bytes) (ev_proto: string)
  | ExtraEndpointSuccess string string
  | NoEndpoint bytes string
  | SessionFailed bytes
  | TransportFailed string string
  | PeerEndpointFailed bytes

datatype inbound_event =
    HanshakeInitiationEv endpoint incoming_initiation
  | HandshakeResponseEv endpoint handshake_response session
  | CookieReplyEv endpoint cookie_reply session
  | TransportDataEv endpoint transport_data session

datatype effect = SendTo endpoint bytes | TunSend bytes | Publish device_event

record peer =
  pr_pub_key :: bytes
  pr_online :: bool
  pr_monitor :: peer_monitor
  pr_handshake :: handshake
  pr_sessions :: active_session
  pr_endpoint :: "endpoint option"
  pr_inbound :: "inbound_event list"
  pr_outbound :: "bytes list"
  pr_ip_addr :: string

record shared =
  sh_index :: session_index
  sh_cells :: cells
  sh_log :: "effect list"

record env =
  en_crypto :: crypto
  en_now :: instant
  en_sys :: int
  en_rand :: bytes
  en_ts :: bytes
  en_send_ok :: "endpoint \<Rightarrow> bytes \<Rightarrow> bool"
  en_tun_ok :: "bytes \<Rightarrow> bool"

section \<open>Operations of a peer (peer/mod.rs)\<close>

definition peer_new ::
    "env \<Rightarrow> peer_static_secret \<Rightarrow> endpoint option \<Rightarrow> duration option \<Rightarrow> bool \<Rightarrow> string \<Rightarrow> peer" where
  "peer_new en secret ep interval is_online ip_addr =
     \<lparr>pr_pub_key = ps_public secret, pr_online = is_online,
      pr_monitor = peer_monitor_new (en_now en) interval,
      pr_handshake = handshake_new (en_crypto en) secret, pr_sessions = active_session_new,
      pr_endpoint = ep, pr_inbound = [], pr_outbound = [], pr_ip_addr = ip_addr\<rparr>"

definition set_online :: "bool \<Rightarrow> peer \<Rightarrow> peer" where
  "set_online v p = p\<lparr>pr_online := v\<rparr>"

definition stage_inbound :: "inbound_event \<Rightarrow> peer \<Rightarrow> peer" where
  "stage_inbound e p = p\<lparr>pr_inbound := pr_inbound p @ [e]\<rparr>"

definition stage_outbound :: "bytes \<Rightarrow> peer \<Rightarrow> peer" where
  "stage_outbound buf p = p\<lparr>pr_outbound := pr_outbound p @ [buf]\<rparr>"

definition pub_event :: "device_event \<Rightarrow> shared \<Rightarrow> shared" where
  "pub_event e sh = sh\<lparr>sh_log := sh_log sh @ [Publish e]\<rparr>"

definition update_endpoint :: "endpoint \<Rightarrow> peer \<Rightarrow> peer" where
  "update_endpoint e p = p\<lparr>pr_endpoint := Some e\<rparr>"

definition clear_endpoint :: "peer \<Rightarrow> peer" where
  "clear_endpoint p = p\<lparr>pr_endpoint := None\<rparr>"

definition peer_metrics_of :: "peer \<Rightarrow> peer_metrics" where
  "peer_metrics_of p = monitor_metrics (pr_monitor p)"

definition keepalive :: "env \<Rightarrow> peer \<Rightarrow> peer" where
  "keepalive en p =
     (let m = pr_monitor p in
      if \<not> keepalive_can (en_now en) (pm_keepalive m) (pm_traffic m) then p
      else if \<not> pr_online p then p
      else stage_outbound []
        (p\<lparr>pr_monitor := m\<lparr>pm_keepalive := keepalive_attempt (en_now en) (pm_keepalive m)\<rparr>\<rparr>))"

text \<open>A failed send is only logged.\<close>

definition send_outbound :: "env \<Rightarrow> bytes \<Rightarrow> peer \<Rightarrow> shared \<Rightarrow> shared" where
  "send_outbound en buf p sh =
     (case pr_endpoint p of
        Some e \<Rightarrow> if en_send_ok en e buf then sh\<lparr>sh_log := sh_log sh @ [SendTo e buf]\<rparr> else sh
      | None \<Rightarrow> pub_event (NoEndpoint (pr_pub_key p) (pr_ip_addr p)) sh)"

definition count_inbound :: "nat \<Rightarrow> peer \<Rightarrow> peer" where
  "count_inbound n p =
     p\<lparr>pr_monitor := (pr_monitor p)\<lparr>pm_traffic := traffic_inbound n (pm_traffic (pr_monitor p))\<rparr>\<rparr>"

definition mark_initiated :: "env \<Rightarrow> peer \<Rightarrow> peer" where
  "mark_initiated en p =
     p\<lparr>pr_monitor := (pr_monitor p)\<lparr>pm_handshake := initiated (en_now en) (pm_handshake (pr_monitor p))\<rparr>\<rparr>"

definition mark_completed :: "env \<Rightarrow> peer \<Rightarrow> ('e, peer) result" where
  "mark_completed en p =
     rbind (completed (en_now en) (en_sys en) (pm_handshake (pr_monitor p))) (\<lambda>h.
       Ok (p\<lparr>pr_monitor := (pr_monitor p)\<lparr>pm_handshake := h\<rparr>\<rparr>))"

section \<open>Inbound packets (peer/inbound.rs)\<close>

text \<open>The response is sent with \<open>unwrap\<close>: a failing socket panics the task.\<close>

definition handle_handshake_initiation ::
    "env \<Rightarrow> endpoint \<Rightarrow> incoming_initiation \<Rightarrow> peer \<Rightarrow> shared \<Rightarrow> (unit, peer \<times> shared) result" where
  "handle_handshake_initiation en ep initiation p sh =
     (let p = count_inbound HANDSHAKE_INITIATION_PACKET_SIZE p in
      case respond (en_crypto en) (en_rand en) (en_now en) initiation (pr_handshake p)
             (sh_index sh) (sh_cells sh) of
        Ok ((session, packet), t, h) \<Rightarrow>
          rbind (prepare_next session (pr_sessions p, t)) (\<lambda>(a, t).
            let p = update_endpoint ep (p\<lparr>pr_sessions := a\<rparr>);
                sh = sh\<lparr>sh_index := t, sh_cells := h\<rparr>
            in if en_send_ok en ep packet
               then Ok (mark_initiated en p, sh\<lparr>sh_log := sh_log sh @ [SendTo ep packet]\<rparr>)
               else Panic)
      | Err e \<Rightarrow> Ok (p, sh)
      | Panic \<Rightarrow> Panic)"

definition handle_handshake_response ::
    "env \<Rightarrow> endpoint \<Rightarrow> handshake_response \<Rightarrow> session \<Rightarrow> peer \<Rightarrow> shared \<Rightarrow>
     (unit, peer \<times> shared) result" where
  "handle_handshake_response en ep packet session p sh =
     (let p = count_inbound HANDSHAKE_RESPONSE_PACKET_SIZE p in
      case finalize (en_crypto en) (en_now en) packet (pr_handshake p) (sh_cells sh) of
        Ok (session, h) \<Rightarrow>
          rbind (complete_uninit session (pr_sessions p, sh_index sh)) (\<lambda>(ret, a, t).
            let p = p\<lparr>pr_sessions := a\<rparr>;
                sh = sh\<lparr>sh_index := t, sh_cells := h\<rparr>
            in if \<not> ret then Ok (p, sh)
               else rbind (mark_completed en p) (\<lambda>p.
                 Ok (stage_outbound [] (update_endpoint ep p),
                     pub_event (HandshakeCompleteEv (pr_pub_key p) (ep_protocol ep)) sh)))
      | Err e \<Rightarrow> Ok (p, sh)
      | Panic \<Rightarrow> Panic)"

definition handle_cookie_reply ::
    "endpoint \<Rightarrow> cookie_reply \<Rightarrow> session \<Rightarrow> peer \<Rightarrow> shared \<Rightarrow> (unit, peer \<times> shared) result" where
  "handle_cookie_reply ep packet session p sh = Ok (count_inbound COOKIE_REPLY_PACKET_SIZE p, sh)"

definition handle_transport_data ::
    "env \<Rightarrow> endpoint \<Rightarrow> transport_data \<Rightarrow> session \<Rightarrow> peer \<Rightarrow> shared \<Rightarrow> (unit, peer \<times> shared) result" where
  "handle_transport_data en ep packet session p sh =
     (let p = count_inbound (packet_len packet) p in
      rbind (complete_next session (pr_sessions p, sh_index sh)) (\<lambda>(ret, a, t).
        let p = p\<lparr>pr_sessions := a\<rparr>; sh = sh\<lparr>sh_index := t\<rparr> in
        rbind (if ret then mark_completed en p else Ok p) (\<lambda>p.
        rbind (session_can_accept (sh_cells sh) session (td_counter packet)) (\<lambda>can.
          if \<not> can then Ok (p, sh)
          else let p = update_endpoint ep p in
            case decrypt_data (en_crypto en) session packet of
              Ok data \<Rightarrow>
                if data = [] then Ok (p, sh)
                else let sh = (if en_tun_ok en data then sh\<lparr>sh_log := sh_log sh @ [TunSend data]\<rparr> else sh)
                  in rbind (session_aceept session (td_counter packet) (sh_cells sh)) (\<lambda>h.
                       Ok (p, sh\<lparr>sh_cells := h\<rparr>))
            | Err e \<Rightarrow> Ok (p, sh)
            | Panic \<Rightarrow> Panic))))"

section \<open>Tasks (peer/handler.rs)\<close>

definition peer_tick_inbound ::
    "env \<Rightarrow> inbound_event \<Rightarrow> peer \<Rightarrow> shared \<Rightarrow> (unit, peer \<times> shared) result" where
  "peer_tick_inbound en event p sh =
     (case event of
        HanshakeInitiationEv ep initiation \<Rightarrow> handle_handshake_initiation en ep initiation p sh
      | HandshakeResponseEv ep packet session \<Rightarrow> handle_handshake_response en ep packet session p sh
      | CookieReplyEv ep packet session \<Rightarrow> handle_cookie_reply ep packet session p sh
      | TransportDataEv ep packet session \<Rightarrow> handle_transport_data en ep packet session p sh)"

definition peer_tick_outbound :: "env \<Rightarrow> bytes \<Rightarrow> peer \<Rightarrow> shared \<Rightarrow> (unit, peer \<times> shared) result" where
  "peer_tick_outbound en data p sh =
     (case as_current (pr_sessions p) of
        None \<Rightarrow> Ok (p, pub_event (SessionFailed (pr_pub_key p)) sh)
      | Some s \<Rightarrow>
          rbind (encrypt_data (en_crypto en) s data (sh_cells sh)) (\<lambda>(r, h).
            let sh = sh\<lparr>sh_cells := h\<rparr> in
            case r of
              Inr packet \<Rightarrow>
                let buf = transport_to_bytes packet; m = pr_monitor p
                in Ok (p\<lparr>pr_monitor := m\<lparr>pm_traffic :=
                           traffic_outbound (en_now en) (length buf) (pm_traffic m)\<rparr>\<rparr>,
                       send_outbound en buf p sh)
            | Inl e \<Rightarrow> Ok (p, sh)))"

text \<open>One turn of each loop.  An offline peer waits in \<open>await_online\<close>; an empty queue waits in \<open>recv\<close>.\<close>

definition handshake_turn :: "env \<Rightarrow> peer \<Rightarrow> shared \<Rightarrow> (unit, peer \<times> shared) result" where
  "handshake_turn en p sh =
     (if \<not> pr_online p then Ok (p, sh)
      else let (can, m) = can_handshake (en_now en) (pr_monitor p); p = p\<lparr>pr_monitor := m\<rparr> in
        if \<not> can then Ok (p, sh)
        else rbind (unwrap (initiate (en_crypto en) (en_rand en) (en_ts en) (en_now en) (pr_handshake p)
                              (sh_index sh) (sh_cells sh)))
          (\<lambda>((pre, packet), hs, t, h).
            rbind (prepare_uninit pre (pr_sessions p, t)) (\<lambda>(a, t).
              let p = p\<lparr>pr_handshake := hs, pr_sessions := a\<rparr>;
                  sh = send_outbound en packet p (sh\<lparr>sh_index := t, sh_cells := h\<rparr>)
              in Ok (mark_initiated en p, sh))))"

definition inbound_turn :: "env \<Rightarrow> peer \<Rightarrow> shared \<Rightarrow> (unit, peer \<times> shared) result" where
  "inbound_turn en p sh =
     (case pr_inbound p of
        [] \<Rightarrow> Ok (p, sh)
      | e # es \<Rightarrow> peer_tick_inbound en e (p\<lparr>pr_inbound := es\<rparr>) sh)"

definition outbound_turn :: "env \<Rightarrow> bool \<Rightarrow> peer \<Rightarrow> shared \<Rightarrow> (unit, peer \<times> shared) result" where
  "outbound_turn en timer p sh =
     (if timer then Ok (keepalive en p, sh)
      else case pr_outbound p of
             [] \<Rightarrow> Ok (p, sh)
           | d # ds \<Rightarrow> peer_tick_outbound en d (p\<lparr>pr_outbound := ds\<rparr>) sh)"

section \<open>Transport data\<close>

lemma complete_next_total:
  assumes "slots_inv k (a, t)" "session_key s = k"
  obtains ret a' t' where "complete_next s (a, t) = (Ok (ret, a', t') :: (unit, bool \<times> slots) result)"
    "slots_inv k (a', t')"
  using slot_step_inv [OF assms(1), of "CompleteNext s", where ?'e = unit] assms(2)
  by (auto simp: result_simps split: prod.splits)

lemma complete_uninit_total:
  assumes "slots_inv k (a, t)" "session_key s = k"
  obtains ret a' t' where "complete_uninit s (a, t) = (Ok (ret, a', t') :: (unit, bool \<times> slots) result)"
    "slots_inv k (a', t')"
  using slot_step_inv [OF assms(1), of "CompleteUninit s", where ?'e = unit] assms(2)
  by (auto simp: result_simps split: prod.splits)

lemma mark_completed_Ok:
  assumes "0 \<le> en_sys en"
  obtains p' where "mark_completed en p = (Ok p' :: ('e, peer) result)" "pr_sessions p' = pr_sessions p"
    "pr_pub_key p' = pr_pub_key p" "pr_endpoint p' = pr_endpoint p"
  using assms by (auto simp: mark_completed_def completed_def timestamp_set_now_def)

text \<open>The state a session's packets are handled in: its peer's slots and the index are in step, and its
  filter holds the counters \<open>S\<close>.\<close>

definition session_state :: "session \<Rightarrow> peer \<Rightarrow> shared \<Rightarrow> nat set \<Rightarrow> bool" where
  "session_state s p sh S \<longleftrightarrow> slots_inv (pr_pub_key p) (pr_sessions p, sh_index sh) \<and>
     session_key s = pr_pub_key p \<and> ss_cell s < length (sh_cells sh) \<and>
     nf_repr (sc_nonce_filter (sh_cells sh ! ss_cell s)) S"

text \<open>A packet either leaves the filter and the log alone, or it opens to data that was not seen before,
  is recorded, and is the only thing that may be written to the tunnel device.\<close>

lemma decrypt_data_not_Panic: "decrypt_data cr s pk \<noteq> Panic"
  by (cases "ss_decrypt_cipher s") (auto simp: decrypt_data_def result_simps elim: ok_or.elims)

text \<open>Accepting a counter that may be accepted adds it to those the cell of the session has seen.\<close>

lemma session_accept_cell:
  assumes repr: "nf_repr (sc_nonce_filter (cs ! ss_cell s)) S" and c: "unat n \<le> 2 ^ 64 - 1025" and cell: "ss_cell s < length cs"
    and acc: "nf_can_accept (sc_nonce_filter (cs ! ss_cell s)) n = (Ok True :: (unit, bool) result)"
  obtains g where "session_aceept s n cs = (Ok (cs[ss_cell s := (cs ! ss_cell s)\<lparr>sc_nonce_filter := g\<rparr>]) :: (unit, cells) result)"
    "nf_repr g (insert (unat n) S)" "unat n \<notin> S"
proof -
  obtain g where g: "nf_accept (sc_nonce_filter (cs ! ss_cell s)) n = (Ok g :: (unit, nonce_filter) result)"
      "nf_repr g (insert (unat n) S)"
    using nonce_ring.acc_repr [OF repr c acc] by blast
  show ?thesis
    by (rule that [OF _ g(2) nonce_ring.admitted_fresh [OF repr c acc]]) (use g cell in \<open>simp add: session_aceept_def\<close>)
qed

text \<open>The handler once its steps up to the replay check are known.\<close>

lemma handle_transport_data_eq:
  assumes cn: "complete_next s (pr_sessions p, sh_index sh) = (Ok (ret, a, t) :: (unit, bool \<times> slots) result)"
    and q: "(if ret then mark_completed en ((count_inbound (packet_len pk) p)\<lparr>pr_sessions := a\<rparr>)
      else Ok ((count_inbound (packet_len pk) p)\<lparr>pr_sessions := a\<rparr>)) = (Ok q :: (unit, peer) result)"
    and b: "nf_can_accept (sc_nonce_filter (sh_cells sh ! ss_cell s)) (td_counter pk) = (Ok b :: (unit, bool) result)"
    and cell: "ss_cell s < length (sh_cells sh)"
  shows "handle_transport_data en ep pk s p sh =
    (if \<not> b then Ok (q, sh\<lparr>sh_index := t\<rparr>)
     else case decrypt_data (en_crypto en) s pk of
       Ok d \<Rightarrow> if d = [] then Ok (update_endpoint ep q, sh\<lparr>sh_index := t\<rparr>)
         else rbind (session_aceept s (td_counter pk) (sh_cells sh)) (\<lambda>h. Ok (update_endpoint ep q,
           (if en_tun_ok en d then sh\<lparr>sh_index := t, sh_log := sh_log sh @ [TunSend d]\<rparr> else sh\<lparr>sh_index := t\<rparr>)\<lparr>sh_cells := h\<rparr>))
     | Err e \<Rightarrow> Ok (update_endpoint ep q, sh\<lparr>sh_index := t\<rparr>)
     | Panic \<Rightarrow> Panic)"
proof -
  have "pr_sessions (count_inbound (packet_len pk) p) = pr_sessions p" by (simp add: count_inbound_def)
  then show ?thesis
    using cell q cn b
    by (cases "decrypt_data (en_crypto en) s pk"; cases ret) (auto simp: handle_transport_data_def Let_def session_can_accept_def)
qed

lemma handle_transport_data_cases:
  assumes st: "session_state s p sh S" and sys: "0 \<le> en_sys en"
    and c: "unat (td_counter pk) \<le> 2 ^ 64 - 1025"
  obtains p' sh' where "handle_transport_data en ep pk s p sh = Ok (p', sh')"
      "session_state s p' sh' S" "sh_log sh' = sh_log sh"
  | p' sh' d where "handle_transport_data en ep pk s p sh = Ok (p', sh')"
      "decrypt_data (en_crypto en) s pk = Ok d" "d \<noteq> []" "unat (td_counter pk) \<notin> S"
      "session_state s p' sh' (insert (unat (td_counter pk)) S)"
      "sh_log sh' = sh_log sh @ (if en_tun_ok en d then [TunSend d] else [])"
proof -
  let ?f = "sc_nonce_filter (sh_cells sh ! ss_cell s)"
  let ?p = "count_inbound (packet_len pk) p"
  have inv: "slots_inv (pr_pub_key p) (pr_sessions p, sh_index sh)" and key: "session_key s = pr_pub_key p"
    and cell: "ss_cell s < length (sh_cells sh)" and repr: "nf_repr ?f S"
    using st by (simp_all add: session_state_def)
  obtain ret a t where cn: "complete_next s (pr_sessions p, sh_index sh) =
      (Ok (ret, a, t) :: (unit, bool \<times> slots) result)" "slots_inv (pr_pub_key p) (a, t)"
    by (rule complete_next_total [OF inv key])
  obtain q where q: "(if ret then mark_completed en (?p\<lparr>pr_sessions := a\<rparr>) else Ok (?p\<lparr>pr_sessions := a\<rparr>)) = (Ok q :: (unit, peer) result)"
      "pr_sessions q = a" "pr_pub_key q = pr_pub_key p"
    by (rule mark_completed_Ok [OF sys, of "?p\<lparr>pr_sessions := a\<rparr>", where ?'e = unit]; cases ret) (auto simp: count_inbound_def)
  obtain b where b: "nf_can_accept ?f (td_counter pk) = (Ok b :: (unit, bool) result)"
    using nonce_ring.can_total [OF repr c] by blast
  note run = handle_transport_data_eq [OF cn(1) q(1) b cell, of ep]
  have state: "session_state s q' (sh\<lparr>sh_index := t, sh_log := l\<rparr>) S" if "q' = q \<or> q' = update_endpoint ep q" for q' l
    using that cn(2) key cell repr q by (auto simp: session_state_def update_endpoint_def)
  show ?thesis
  proof (cases "b \<and> (\<exists>d. decrypt_data (en_crypto en) s pk = Ok d \<and> d \<noteq> [])")
    case True
    then obtain d where d: "b" "decrypt_data (en_crypto en) s pk = Ok d" "d \<noteq> []" by blast
    obtain g where g: "session_aceept s (td_counter pk) (sh_cells sh) =
        (Ok ((sh_cells sh)[ss_cell s := (sh_cells sh ! ss_cell s)\<lparr>sc_nonce_filter := g\<rparr>]) :: (unit, cells) result)"
        "nf_repr g (insert (unat (td_counter pk)) S)" "unat (td_counter pk) \<notin> S"
      by (rule session_accept_cell [OF repr c cell]) (use b d(1) in simp)
    show ?thesis
      by (rule that(2) [OF _ d(2,3) g(3)])
        (use run d g(1,2) state [of "update_endpoint ep q" "sh_log sh"] cell in \<open>auto simp: session_state_def\<close>)
  next
    case False
    then have "\<exists>q'. handle_transport_data en ep pk s p sh = Ok (q', sh\<lparr>sh_index := t\<rparr>) \<and> (q' = q \<or> q' = update_endpoint ep q)"
      using decrypt_data_not_Panic [of "en_crypto en" s pk]
      by (cases b; cases "decrypt_data (en_crypto en) s pk") (simp_all add: run)
    then obtain q' where "handle_transport_data en ep pk s p sh = Ok (q', sh\<lparr>sh_index := t\<rparr>)" "q' = q \<or> q' = update_endpoint ep q"
      by blast
    then show ?thesis using that(1) state [of q' "sh_log sh"] by simp
  qed
qed

text \<open>A run of transport packets through one session; those that were written to the tunnel.\<close>

fun transport_run ::
    "session \<Rightarrow> (env \<times> endpoint \<times> transport_data) list \<Rightarrow> peer \<Rightarrow> shared \<Rightarrow>
     (unit, transport_data list \<times> peer \<times> shared) result" where
  "transport_run s [] p sh = Ok ([], p, sh)"
| "transport_run s ((en, ep, pk) # rest) p sh =
     rbind (handle_transport_data en ep pk s p sh) (\<lambda>(p', sh').
     rbind (transport_run s rest p' sh') (\<lambda>(ds, p'', sh'').
       Ok (if sh_log sh' = sh_log sh then ds else pk # ds, p'', sh'')))"

definition opened_by :: "crypto \<Rightarrow> session \<Rightarrow> effect \<Rightarrow> transport_data \<Rightarrow> bool" where
  "opened_by cr s w pk \<longleftrightarrow> (\<exists>d. w = TunSend d \<and> d \<noteq> [] \<and> decrypt_data cr s pk = Ok d)"

lemma transport_run_fresh:
  assumes "session_state s p sh S"
    "\<forall>(en, ep, pk)\<in>set ps. en_crypto en = cr \<and> 0 \<le> en_sys en \<and> unat (td_counter pk) \<le> 2 ^ 64 - 1025"
  shows "\<exists>ds p' sh' ws. transport_run s ps p sh = Ok (ds, p', sh') \<and> distinct (map td_counter ds) \<and>
    (\<forall>d\<in>set ds. unat (td_counter d) \<notin> S) \<and> sh_log sh' = sh_log sh @ ws \<and> list_all2 (opened_by cr s) ws ds"
  using assms
proof (induction ps arbitrary: p sh S)
  case Nil
  then show ?case by simp
next
  case (Cons x rest)
  obtain en ep pk where x: "x = (en, ep, pk)" by (cases x)
  have en: "0 \<le> en_sys en" "unat (td_counter pk) \<le> 2 ^ 64 - 1025" "en_crypto en = cr"
    using Cons.prems(2) x by auto
  show ?case
  proof (rule handle_transport_data_cases [OF Cons.prems(1) en(1,2), of ep], goal_cases)
    case (1 p' sh')
    then show ?case using Cons.IH [OF 1(2)] Cons.prems(2) x by auto
  next
    case (2 p' sh' d)
    obtain ds p'' sh'' ws where r: "transport_run s rest p' sh' = Ok (ds, p'', sh'')"
        "distinct (map td_counter ds)" "\<forall>d\<in>set ds. unat (td_counter d) \<notin> insert (unat (td_counter pk)) S"
        "sh_log sh'' = sh_log sh' @ ws" "list_all2 (opened_by cr s) ws ds"
      using Cons.IH [OF 2(5)] Cons.prems(2) by auto
    show ?case
    proof (cases "en_tun_ok en d")
      case True
      have "opened_by cr s (TunSend d) pk" using 2 en by (simp add: opened_by_def)
      then show ?thesis using 2 x r True
        by (auto simp: image_iff intro!: exI [of _ "TunSend d # ws"])
    next
      case False
      then show ?thesis using 2 x r by auto
    qed
  qed
qed

section \<open>A first handshake\<close>

lemma can_handshake_new: "t \<le> now \<Longrightarrow> fst (can_handshake now (peer_monitor_new t i))"
  by (auto simp: can_handshake_def Let_def peer_monitor_new_def handshake_monitor_new_def traffic_monitor_new_def
      REKEY_AFTER_MESSAGES_def instant_elapsed_def instant_to_std_def instant_from_std_def elapsed_def
      reset_attempt_def rekey_consts)

text \<open>The device state in which a peer has no session yet and the next index is not in use.\<close>

definition idle :: "bytes \<Rightarrow> shared \<Rightarrow> bool" where
  "idle k sh \<longleftrightarrow> index_inv (sh_index sh) \<and> (\<forall>s\<in>index_elems (sh_index sh). session_key s \<noteq> k) \<and>
     get_by_index (sh_index sh) (si_index (sh_index sh)) = None"

lemma idle_slots: "idle k sh \<Longrightarrow> slots_inv k (active_session_new, snd (next_index (sh_index sh)))"
  by (auto simp: slots_inv_draw) (auto simp: idle_def slots_inv_def slot_list_def active_session_new_def)

lemma get_by_index_draw [simp]: "get_by_index (snd (next_index t)) i = get_by_index t i"
  by (simp add: get_by_index_def next_index_def)

lemma handshake_turn_first:
  assumes init: "initiate (en_crypto en) (en_rand en) (en_ts en) (en_now en)
        (handshake_new (en_crypto en0) sec) (sh_index sh) (sh_cells sh) =
      Ok ((pre, packet), hs, snd (next_index (sh_index sh)), h)"
    and pre: "session_key pre = ps_public sec" "ss_sender_index pre = si_index (sh_index sh)"
    and idle: "idle (ps_public sec) sh" and now: "en_now en0 \<le> en_now en"
    and send: "en_send_ok en e packet"
  obtains p sh' where "handshake_turn en (peer_new en0 sec (Some e) iv True ip) sh = Ok (p, sh')"
    "slots_inv (ps_public sec) (pr_sessions p, sh_index sh')" "as_uninit (pr_sessions p) = Some pre"
    "get_by_index (sh_index sh') (ss_sender_index pre) = Some pre" "sh_cells sh' = h"
    "sh_log sh' = sh_log sh @ [SendTo e packet]" "pr_handshake p = hs" "pr_pub_key p = ps_public sec"
    "pr_endpoint p = Some e"
proof -
  let ?t = "snd (next_index (sh_index sh))"
  have new: "get_by_index ?t (ss_sender_index pre) = None" using idle pre by (simp add: idle_def)
  note inv = idle_slots [OF idle]
  obtain t where t: "prepare_uninit pre (active_session_new, ?t) =
      (Ok (active_session_new\<lparr>as_uninit := Some pre\<rparr>, t) :: (unit, slots) result)" "index_inv t"
      "index_elems t = insert pre (index_elems ?t - set_option (as_uninit active_session_new))"
    by (rule prepare_uninit_effect [OF inv new, where ?'e = unit])
  obtain m where m: "can_handshake (en_now en) (peer_monitor_new (en_now en0) iv) = (True, m)"
    using can_handshake_new [OF now] by (metis prod.collapse)
  have get: "get_by_index t (ss_sender_index pre) = Some pre" using index_elems_iff [OF t(2)] t(3) by simp
  define sh1 where "sh1 = sh\<lparr>sh_index := t, sh_cells := h, sh_log := sh_log sh @ [SendTo e packet]\<rparr>"
  show ?thesis
    by (rule that [of "mark_initiated en ((peer_new en0 sec (Some e) iv True ip)\<lparr>pr_monitor := m,
        pr_handshake := hs, pr_sessions := active_session_new\<lparr>as_uninit := Some pre\<rparr>\<rparr>)" sh1])
      (use init t(1) m send get prepare_uninit_inv [OF inv new pre(1) t(2,3)] in
        \<open>simp_all add: handshake_turn_def peer_new_def send_outbound_def sh1_def mark_initiated_def\<close>)
qed

lemma handle_initiation_first:
  assumes resp: "respond (en_crypto en) (en_rand en) (en_now en) inc (handshake_new (en_crypto en0) sec)
        (sh_index sh) (sh_cells sh) = Ok ((s, packet), snd (next_index (sh_index sh)), h)"
    and s: "session_key s = ps_public sec" "ss_sender_index s = si_index (sh_index sh)"
    and idle: "idle (ps_public sec) sh" and send: "en_send_ok en e packet"
  obtains p sh' where "handle_handshake_initiation en e inc (peer_new en0 sec e0 iv on ip) sh = Ok (p, sh')"
    "slots_inv (ps_public sec) (pr_sessions p, sh_index sh')" "as_next (pr_sessions p) = Some s"
    "get_by_index (sh_index sh') (ss_sender_index s) = Some s" "sh_cells sh' = h"
    "sh_log sh' = sh_log sh @ [SendTo e packet]" "pr_pub_key p = ps_public sec" "pr_endpoint p = Some e"
proof -
  let ?t = "snd (next_index (sh_index sh))"
  have new: "get_by_index ?t (ss_sender_index s) = None" using idle s by (simp add: idle_def)
  note inv = idle_slots [OF idle]
  let ?a = "active_session_new\<lparr>as_next := Some s, as_previous := None\<rparr>"
  obtain t where t: "prepare_next s (active_session_new, ?t) = (Ok (?a, t) :: (unit, slots) result)"
      "index_inv t" "index_elems t = insert s (index_elems ?t - (if as_next active_session_new = None then {}
         else set_option (as_previous active_session_new)))"
    by (rule prepare_next_effect [OF inv new, where ?'e = unit]) (simp add: active_session_new_def)
  have inv': "slots_inv (ps_public sec) (?a, t)"
    using prepare_next_inv [OF inv new s(1) t(2,3)] by (simp add: active_session_new_def)
  have get: "get_by_index t (ss_sender_index s) = Some s" using index_elems_iff [OF t(2)] t(3) by simp
  define sh1 where "sh1 = sh\<lparr>sh_index := t, sh_cells := h, sh_log := sh_log sh @ [SendTo e packet]\<rparr>"
  show ?thesis
    by (rule that [of "mark_initiated en (update_endpoint e ((count_inbound HANDSHAKE_INITIATION_PACKET_SIZE
        (peer_new en0 sec e0 iv on ip))\<lparr>pr_sessions := ?a\<rparr>))" sh1])
      (use resp t(1) send get inv' in \<open>simp_all add: handle_handshake_initiation_def peer_new_def
          sh1_def mark_initiated_def update_endpoint_def count_inbound_def Let_def\<close>)
qed

lemma handle_response_first:
  assumes inv: "slots_inv (pr_pub_key p) (pr_sessions p, sh_index sh)"
    and fin: "finalize (en_crypto en) (en_now en) q (pr_handshake p) (sh_cells sh) = Ok (s, h)"
    and u: "as_uninit (pr_sessions p) = Some pre" "ss_sender_index pre = ss_sender_index s"
    and key: "session_key s = pr_pub_key p" and sys: "0 \<le> en_sys en"
  obtains p' sh' where "handle_handshake_response en e q pre p sh = Ok (p', sh')"
    "as_current (pr_sessions p') = Some s" "sh_cells sh' = h" "pr_endpoint p' = Some e"
    "sh_log sh' = sh_log sh @ [Publish (HandshakeCompleteEv (pr_pub_key p) (ep_protocol e))]"
    "pr_outbound p' = pr_outbound p @ [[]]"
proof -
  let ?a = "\<lparr>as_uninit = None, as_previous = as_current (pr_sessions p), as_current = Some s,
      as_next = as_next (pr_sessions p)\<rparr>"
  obtain t where t: "complete_uninit s (pr_sessions p, sh_index sh) =
      (Ok (True, ?a, t) :: (unit, bool \<times> slots) result)"
    by (rule complete_uninit_effect [OF inv u, where ?'e = unit])
  obtain m where m: "completed (en_now en) (en_sys en) (pm_handshake (pr_monitor
      (count_inbound HANDSHAKE_RESPONSE_PACKET_SIZE p))) = (Ok m :: (unit, handshake_monitor) result)"
    using sys by (simp add: completed_def timestamp_set_now_def)
  show ?thesis using that fin t m
    by (simp add: handle_handshake_response_def Let_def mark_completed_def stage_outbound_def update_endpoint_def
        pub_event_def count_inbound_def)
qed

text \<open>A concrete environment, session and peer, in which witnesses evaluate.\<close>

definition plain_env :: env where
  "plain_env = \<lparr>en_crypto = plain_crypto, en_now = 0, en_sys = 0, en_rand = replicate 32 3,
     en_ts = replicate 12 9, en_send_ok = (\<lambda>_ _. True), en_tun_ok = (\<lambda>_. True)\<rparr>"

definition plain_secret :: "u8 \<Rightarrow> u8 \<Rightarrow> peer_static_secret" where
  "plain_secret a b = set_psk (replicate 32 5)
     (with_peer (local_secret_new plain_crypto (replicate 32 a)) (x25519_pub plain_crypto (replicate 32 b)))"

definition plain_endpoint :: endpoint where
  "plain_endpoint = Endpoint (V4 [10, 0, 0, 1] 7777) ''Udp''"

definition plain_session :: session where
  "plain_session = \<lparr>ss_secret = plain_secret 1 2, ss_sender_index = 5, ss_sender_key = replicate 32 0,
     ss_receiver_index = 7, ss_receiver_key = replicate 32 0, ss_created_at = 0,
     ss_encrypt_cipher = ChachaCipher (replicate 32 0), ss_decrypt_cipher = ChachaCipher (replicate 32 0),
     ss_cell = 0\<rparr>"

definition plain_shared :: shared where
  "plain_shared = \<lparr>sh_index = session_index_new 5, sh_cells = [fresh_cell], sh_log = []\<rparr>"

section \<open>Properties\<close>

text \<open>Only fresh, authentic data reaches the tunnel.  Take a session in its initial state and any
  sequence of transport packets, from any endpoints and at any times.  The handlers do not panic; the
  packets written to the tunnel device carry pairwise different counters; and what is written for
  each of them is what the session's key opens it to.\<close>

theorem tunnel_writes_fresh_authentic:
  assumes "slot_run as (sh_index sh)" "pr_sessions p = as (pr_pub_key p)" "session_key s = pr_pub_key p"
    and "ss_cell s < length (sh_cells sh)" "sc_nonce_filter (sh_cells sh ! ss_cell s) = nonce_filter_new"
    and "\<forall>(en, ep, pk)\<in>set ps. en_crypto en = cr \<and> 0 \<le> en_sys en \<and> td_counter pk \<le> REJECT_AFTER_MESSAGES"
  shows "\<exists>ds p' sh' ws. transport_run s ps p sh = Ok (ds, p', sh') \<and> distinct (map td_counter ds) \<and>
    sh_log sh' = sh_log sh @ ws \<and> list_all2 (opened_by cr s) ws ds"
proof -
  have "session_state s p sh {}"
    using assms slot_run_inv [OF assms(1), of "pr_pub_key p"] nonce_ring.repr_new by (simp add: session_state_def)
  moreover have "unat c \<le> 2 ^ 64 - 1025" if "c \<le> REJECT_AFTER_MESSAGES" for c
    using that by (simp add: REJECT_AFTER_MESSAGES_def word_le_nat_alt)
  ultimately show ?thesis using transport_run_fresh [of s p sh "{}" ps cr] assms(6) by fast
qed

theorem tunnel_writes_fresh_authentic_witness:
  "\<exists>ds p' sh' ws. transport_run plain_session
      [(plain_env, plain_endpoint, \<lparr>td_receiver_index = 5, td_counter = 0, td_payload = [9] @ replicate 16 0\<rparr>)]
      (peer_new plain_env (plain_secret 1 2) None None True ''10.0.0.2'') plain_shared = Ok (ds, p', sh') \<and>
    distinct (map td_counter ds) \<and> sh_log sh' = sh_log plain_shared @ ws \<and>
    list_all2 (opened_by plain_crypto plain_session) ws ds"
  by (rule tunnel_writes_fresh_authentic [where as = "\<lambda>_. active_session_new"])
    (simp_all add: plain_shared_def slot_run.start peer_new_def plain_session_def session_key_def
      fresh_cell_def plain_env_def)

text \<open>C36: The endpoint of a peer follows packets that were never authenticated.  Whoever sends a packet
  with the receiver index of a live session and an admissible counter, but a payload the session
  cannot open, makes the peer answer to the sender's address from then on.\<close>

theorem endpoint_moved_unauthenticated:
  assumes "session_state s p sh S" "0 \<le> en_sys en" "unat (td_counter pk) \<le> 2 ^ 64 - 1025"
    and "session_can_accept (sh_cells sh) s (td_counter pk) = (Ok True :: (unit, bool) result)"
    and "decrypt_data (en_crypto en) s pk = Err e"
  shows "\<exists>p' sh'. handle_transport_data en ep pk s p sh = Ok (p', sh') \<and> pr_endpoint p' = Some ep \<and>
    sh_log sh' = sh_log sh \<and> sh_cells sh' = sh_cells sh"
proof -
  have st: "slots_inv (pr_pub_key p) (pr_sessions p, sh_index sh)" "session_key s = pr_pub_key p"
    using assms(1) by (simp_all add: session_state_def)
  obtain ret a t where cn: "complete_next s (pr_sessions p, sh_index sh) =
      (Ok (ret, a, t) :: (unit, bool \<times> slots) result)"
    by (rule complete_next_total [OF st])
  define q where "q = (count_inbound (packet_len pk) p)\<lparr>pr_sessions := a\<rparr>"
  obtain q' where "mark_completed en q = (Ok q' :: (unit, peer) result)"
    by (rule mark_completed_Ok [OF assms(2)])
  moreover have "pr_sessions (count_inbound (packet_len pk) p) = pr_sessions p" by (simp add: count_inbound_def)
  ultimately show ?thesis using cn assms(4,5)
    by (cases ret) (simp_all add: handle_transport_data_def Let_def update_endpoint_def flip: q_def)
qed

theorem endpoint_moved_unauthenticated_witness:
  "\<exists>p' sh'. handle_transport_data plain_env (Endpoint (V4 [6, 6, 6, 6] 666) ''Udp'')
      \<lparr>td_receiver_index = 5, td_counter = 0, td_payload = []\<rparr> plain_session
      (peer_new plain_env (plain_secret 1 2) (Some plain_endpoint) None True ''10.0.0.2'') plain_shared =
      Ok (p', sh') \<and> pr_endpoint p' = Some (Endpoint (V4 [6, 6, 6, 6] 666) ''Udp'')"
proof -
  let ?p = "peer_new plain_env (plain_secret 1 2) (Some plain_endpoint) None True ''10.0.0.2''"
  let ?pk = "\<lparr>td_receiver_index = 5, td_counter = 0, td_payload = []\<rparr> :: transport_data"
  have "session_state plain_session ?p plain_shared {}"
    using nonce_ring.repr_new slots_inv_new
    by (simp add: session_state_def plain_shared_def plain_session_def peer_new_def session_key_def fresh_cell_def)
  moreover have "session_can_accept (sh_cells plain_shared) plain_session (td_counter ?pk) =
      (Ok True :: (unit, bool) result)"
    by (simp add: session_can_accept_def plain_shared_def plain_session_def fresh_cell_def nf_can_accept_def
        nonce_filter_new_def)
  moreover have "decrypt_data (en_crypto plain_env) plain_session ?pk = Err (Noise Decryption)"
    by (simp add: decrypt_data_def plain_session_def plain_env_def plain_crypto_def)
  moreover have "0 \<le> en_sys plain_env" "unat (td_counter ?pk) \<le> 2 ^ 64 - 1025" by (simp_all add: plain_env_def)
  ultimately show ?thesis
    using endpoint_moved_unauthenticated [of plain_session ?p plain_shared "{}" plain_env ?pk "Noise Decryption"]
    by blast
qed

end
