(* ===== verification/Peer_List.thy ===== *)
theory Peer_List
  imports Peer Cidr
begin

text \<open>
  The peers of a device and the routing of packets to them: \<open>vlink-tun/src/device/peer/peers.rs\<close>.
  \<open>Arc<Peer>\<close> is an address in the store of peers; the prefix table maps networks to such addresses.
  A \<open>HashSet<Cidr>\<close> is the list of its elements in iteration order.  The session index the peers share
  is passed in.
\<close>

record 'n peer_entry =
  pe_peer :: nat
  pe_allowed_ips :: "'n list"

record ('n, 't) peer_list =
  pl_ips :: 't
  pl_peers :: "bytes \<rightharpoonup> 'n peer_entry"
  pl_store :: "peer list"

definition peer_list_new :: "('n, 't, nat) netlib \<Rightarrow> ('n, 't) peer_list" where
  "peer_list_new nl = \<lparr>pl_ips = cidr_table_new nl, pl_peers = (\<lambda>_. None), pl_store = []\<rparr>"

definition list_metrics :: "('n, 't) peer_list \<Rightarrow> bytes \<Rightarrow> peer_metrics option" where
  "list_metrics l k = map_option (\<lambda>e. peer_metrics_of (pl_store l ! pe_peer e)) (pl_peers l k)"

definition get_by_key :: "('n, 't) peer_list \<Rightarrow> bytes \<Rightarrow> nat option" where
  "get_by_key l public_key = map_option pe_peer (pl_peers l public_key)"

definition get_by_ip :: "('n, 't, nat) netlib \<Rightarrow> ('n, 't) peer_list \<Rightarrow> ip_addr \<Rightarrow> nat option" where
  "get_by_ip nl l ip = cidr_get_by_ip nl ip (pl_ips l)"

definition get_session_by_index ::
    "('n, 't) peer_list \<Rightarrow> session_index \<Rightarrow> u32 \<Rightarrow> (session \<times> nat) option" where
  "get_session_by_index l t i =
     (case get_by_index t i of
        Some session \<Rightarrow> map_option (\<lambda>peer. (session, peer)) (get_by_key l (session_key session))
      | None \<Rightarrow> None)"

text \<open>\<open>all\<close> collects the peers, in the order \<open>keys\<close> in which the map is iterated.\<close>

definition all_peers :: "bytes list \<Rightarrow> ('n, 't) peer_list \<Rightarrow> nat list" where
  "all_peers keys l = List.map_filter (get_by_key l) keys"

text \<open>\<open>clear\<close> drops the entries, the table and the sessions; the tasks of the dropped peers are cancelled.\<close>

definition list_clear ::
    "('n, 't, nat) netlib \<Rightarrow> ('n, 't) peer_list \<Rightarrow> session_index \<Rightarrow> ('n, 't) peer_list \<times> session_index" where
  "list_clear nl l t = (l\<lparr>pl_peers := (\<lambda>_. None), pl_ips := cidr_clear nl (pl_ips l)\<rparr>, index_clear t)"

text \<open>\<open>entry(key).or_insert_with(..)\<close>: an existing entry is kept as it is, the new settings are dropped.\<close>

definition list_insert ::
    "('n, 't, nat) netlib \<Rightarrow> env \<Rightarrow> peer_static_secret \<Rightarrow> 'n list \<Rightarrow> endpoint option \<Rightarrow> duration option \<Rightarrow>
     bool \<Rightarrow> string \<Rightarrow> ('n, 't) peer_list \<Rightarrow> nat \<times> ('n, 't) peer_list" where
  "list_insert nl en secret allowed_ips ep interval is_online ip_addr l =
     (let (entry, l) =
        (case pl_peers l (ps_public secret) of
           Some e \<Rightarrow> (e, l)
         | None \<Rightarrow>
             let e = \<lparr>pe_peer = length (pl_store l), pe_allowed_ips = allowed_ips\<rparr>
             in (e, l\<lparr>pl_peers := (pl_peers l)(ps_public secret \<mapsto> e),
                      pl_store := pl_store l @ [peer_new en secret ep interval is_online ip_addr]\<rparr>))
      in (pe_peer entry,
          l\<lparr>pl_ips := fold (\<lambda>cidr t. cidr_insert nl cidr (pe_peer entry) t) (pe_allowed_ips entry) (pl_ips l)\<rparr>))"

section \<open>Table and entries agree\<close>

text \<open>Every entry is a live peer under its own key; every route leads to a peer that lists the network;
  every listed network has a route.\<close>

definition list_inv :: "('t \<Rightarrow> 'n \<rightharpoonup> nat) \<Rightarrow> ('n, 't) peer_list \<Rightarrow> bool" where
  "list_inv entries l \<longleftrightarrow>
     (\<forall>k e. pl_peers l k = Some e \<longrightarrow>
        pe_peer e < length (pl_store l) \<and> pr_pub_key (pl_store l ! pe_peer e) = k) \<and>
     (\<forall>n v. entries (pl_ips l) n = Some v \<longrightarrow>
        (\<exists>k e. pl_peers l k = Some e \<and> pe_peer e = v \<and> n \<in> set (pe_allowed_ips e))) \<and>
     (\<forall>k e n. pl_peers l k = Some e \<longrightarrow> n \<in> set (pe_allowed_ips e) \<longrightarrow> entries (pl_ips l) n \<noteq> None)"

lemma list_invD:
  assumes "list_inv entries l"
  shows "pl_peers l k = Some e \<Longrightarrow> pe_peer e < length (pl_store l)"
    and "pl_peers l k = Some e \<Longrightarrow> pr_pub_key (pl_store l ! pe_peer e) = k"
    and "entries (pl_ips l) n = Some v \<Longrightarrow>
      \<exists>k e. pl_peers l k = Some e \<and> pe_peer e = v \<and> n \<in> set (pe_allowed_ips e)"
    and "pl_peers l k = Some e \<Longrightarrow> n \<in> set (pe_allowed_ips e) \<Longrightarrow> entries (pl_ips l) n \<noteq> None"
  using assms unfolding list_inv_def by blast+

lemma fold_cidr_insert_entries:
  assumes "netlib_laws nl entries"
  shows "entries (fold (\<lambda>cidr t. cidr_insert nl cidr v t) ns t) n = (if n \<in> set ns then Some v else entries t n)"
  by (induction ns arbitrary: t) (auto simp: cidr_insert_def netlib_lawsD(3) [OF assms])

lemma list_inv_new: "netlib_laws nl entries \<Longrightarrow> list_inv entries (peer_list_new nl)"
  by (simp add: list_inv_def peer_list_new_def cidr_table_new_def netlib_lawsD(2))

lemma list_inv_clear: "netlib_laws nl entries \<Longrightarrow> list_inv entries (fst (list_clear nl l t))"
  by (simp add: list_inv_def list_clear_def cidr_clear_def netlib_lawsD(2))

lemma pr_pub_key_peer_new [simp]: "pr_pub_key (peer_new en secret ep iv on ip) = ps_public secret"
  by (simp add: peer_new_def)

lemma list_inv_insert:
  assumes laws: "netlib_laws nl entries" and inv: "list_inv entries l"
  shows "list_inv entries (snd (list_insert nl en secret ips ep iv on ip l))"
proof (cases "pl_peers l (ps_public secret)")
  case (Some e)
  have upd: "list_insert nl en secret ips ep iv on ip l =
      (pe_peer e, l\<lparr>pl_ips := fold (\<lambda>cidr t. cidr_insert nl cidr (pe_peer e) t) (pe_allowed_ips e) (pl_ips l)\<rparr>)"
    by (simp add: list_insert_def Some)
  show ?thesis
    unfolding list_inv_def upd
    using list_invD [OF inv] Some
    by (auto simp: fold_cidr_insert_entries [OF laws])
next
  case None
  let ?e = "\<lparr>pe_peer = length (pl_store l), pe_allowed_ips = ips\<rparr>"
  have upd: "snd (list_insert nl en secret ips ep iv on ip l) =
      l\<lparr>pl_peers := (pl_peers l)(ps_public secret \<mapsto> ?e),
        pl_store := pl_store l @ [peer_new en secret ep iv on ip],
        pl_ips := fold (\<lambda>cidr t. cidr_insert nl cidr (length (pl_store l)) t) ips (pl_ips l)\<rparr>"
    by (simp add: list_insert_def None Let_def)
  show ?thesis
    unfolding list_inv_def upd
  proof (intro conjI allI impI, goal_cases)
    case (1 k e)
    then show ?case using list_invD(1) [OF inv, of k e] by (auto split: if_splits)
  next
    case (2 k e)
    then show ?case using list_invD(1,2) [OF inv, of k e]
      by (auto simp: nth_append split: if_splits)
  next
    case (3 n v)
    show ?case
    proof (cases "n \<in> set ips")
      case True
      then show ?thesis using 3 by (auto simp: fold_cidr_insert_entries [OF laws] intro!: exI [of _ "ps_public secret"])
    next
      case False
      then obtain k e where "pl_peers l k = Some e" "pe_peer e = v" "n \<in> set (pe_allowed_ips e)"
        using 3 list_invD(3) [OF inv, of n v] by (auto simp: fold_cidr_insert_entries [OF laws])
      then show ?thesis using None by (intro exI [of _ k] exI [of _ e]) auto
    qed
  next
    case (4 k e n)
    then show ?case using list_invD(4) [OF inv, of k e n]
      by (auto simp: fold_cidr_insert_entries [OF laws] split: if_splits)
  qed
qed

text \<open>The peer lists a device builds.\<close>

inductive list_run :: "('n, 't, nat) netlib \<Rightarrow> ('n, 't) peer_list \<Rightarrow> bool" for nl where
  new: "list_run nl (peer_list_new nl)"
| insert: "list_run nl l \<Longrightarrow> list_run nl (snd (list_insert nl en secret ips ep iv on ip l))"
| clear: "list_run nl l \<Longrightarrow> list_run nl (fst (list_clear nl l t))"

lemma list_run_inv: "list_run nl l \<Longrightarrow> netlib_laws nl entries \<Longrightarrow> list_inv entries l"
  by (induction rule: list_run.induct) (simp_all add: list_inv_new list_inv_insert list_inv_clear)

section \<open>Properties\<close>

text \<open>C17: Packets are routed by the longest allowed prefix.  In every peer list a device builds, a
  lookup by address returns a configured peer that allows a network containing the address, no peer
  allows a longer one, and when it returns nothing no peer allows the address at all.\<close>

theorem route_longest_prefix:
  assumes "netlib_laws nl entries" "list_run nl l"
  shows "(get_by_ip nl l ip = Some v \<longrightarrow>
      (\<exists>k e n. pl_peers l k = Some e \<and> pe_peer e = v \<and> n \<in> set (pe_allowed_ips e) \<and> net_contains nl n ip \<and>
        (\<forall>k' e' n'. pl_peers l k' = Some e' \<longrightarrow> n' \<in> set (pe_allowed_ips e') \<longrightarrow> net_contains nl n' ip \<longrightarrow>
           netmask nl n' \<le> netmask nl n))) \<and>
    (get_by_ip nl l ip = None \<longrightarrow>
      (\<forall>k e n. pl_peers l k = Some e \<longrightarrow> n \<in> set (pe_allowed_ips e) \<longrightarrow> \<not> net_contains nl n ip))"
proof (intro conjI impI)
  note inv = list_invD [OF list_run_inv [OF assms(2,1)]] and laws = netlib_lawsD [OF assms(1)]
  {
    assume "get_by_ip nl l ip = Some v"
    then obtain n where n: "longest_match nl ip (pl_ips l) = Some (n, v)"
      by (auto simp: get_by_ip_def cidr_get_by_ip_def)
    obtain k e where "pl_peers l k = Some e" "pe_peer e = v" "n \<in> set (pe_allowed_ips e)"
      using inv(3) laws(5) [OF n] by blast
    moreover have "netmask nl n' \<le> netmask nl n"
      if "pl_peers l k' = Some e'" "n' \<in> set (pe_allowed_ips e')" "net_contains nl n' ip" for k' e' n'
      using laws(6) [OF n] inv(4) [OF that(1,2)] that(3) by blast
    ultimately show "\<exists>k e n. pl_peers l k = Some e \<and> pe_peer e = v \<and> n \<in> set (pe_allowed_ips e) \<and>
        net_contains nl n ip \<and> (\<forall>k' e' n'. pl_peers l k' = Some e' \<longrightarrow> n' \<in> set (pe_allowed_ips e') \<longrightarrow>
          net_contains nl n' ip \<longrightarrow> netmask nl n' \<le> netmask nl n)"
      using laws(5) [OF n] by blast
  next
    assume "get_by_ip nl l ip = None"
    then have "longest_match nl ip (pl_ips l) = None" by (simp add: get_by_ip_def cidr_get_by_ip_def)
    then show "\<forall>k e n. pl_peers l k = Some e \<longrightarrow> n \<in> set (pe_allowed_ips e) \<longrightarrow> \<not> net_contains nl n ip"
      using laws(7) inv(4) by blast
  }
qed

theorem route_longest_prefix_witness:
  "get_by_ip list_netlib (snd (list_insert list_netlib plain_env (plain_secret 1 2)
      [(False, replicate 8 False, 8)] None None True [] (peer_list_new list_netlib))) (Ipv4 [0, 1, 2, 3]) = Some 0 \<and>
   (\<exists>k e n. pl_peers (snd (list_insert list_netlib plain_env (plain_secret 1 2)
      [(False, replicate 8 False, 8)] None None True [] (peer_list_new list_netlib))) k = Some e \<and> pe_peer e = 0 \<and>
     n \<in> set (pe_allowed_ips e) \<and> net_contains (list_netlib :: (list_net, (list_net \<times> nat) list, nat) netlib) n (Ipv4 [0, 1, 2, 3]))"
proof -
  let ?l = "snd (list_insert list_netlib plain_env (plain_secret 1 2)
      [(False, replicate 8 False, 8)] None None True [] (peer_list_new list_netlib))"
  have "list_contains (False, replicate 8 False, 8) (Ipv4 [0, 1, 2, 3])" by code_simp
  then have "get_by_ip list_netlib ?l (Ipv4 [0, 1, 2, 3]) = Some 0"
    by (simp add: list_insert_def peer_list_new_def get_by_ip_def cidr_get_by_ip_def list_netlib_def
        cidr_insert_def cidr_table_new_def Let_def)
  moreover have "list_run list_netlib ?l" by (intro list_run.intros)
  ultimately show ?thesis using route_longest_prefix [OF list_netlib_laws, of ?l "Ipv4 [0, 1, 2, 3]" 0] by blast
qed

text \<open>Configuring a known peer again changes nothing about it: its secret, allowed addresses,
  endpoint and keepalive stay, whatever the new settings say, and no peer is created.\<close>

theorem insert_known_peer_ignored:
  assumes "pl_peers l (ps_public secret) = Some e"
  shows "fst (list_insert nl en secret ips ep iv on ip l) = pe_peer e \<and>
    pl_peers (snd (list_insert nl en secret ips ep iv on ip l)) = pl_peers l \<and>
    pl_store (snd (list_insert nl en secret ips ep iv on ip l)) = pl_store l"
  using assms by (simp add: list_insert_def)

theorem insert_known_peer_ignored_witness:
  "pl_store (snd (list_insert list_netlib plain_env (plain_secret 1 2) [] (Some plain_endpoint) None True []
     (snd (list_insert list_netlib plain_env (plain_secret 1 2) [] None None True [] (peer_list_new list_netlib))))) =
   [peer_new plain_env (plain_secret 1 2) None None True []]"
  using insert_known_peer_ignored [of "snd (list_insert list_netlib plain_env (plain_secret 1 2) [] None None True []
      (peer_list_new list_netlib))" "plain_secret 1 2" "\<lparr>pe_peer = 0, pe_allowed_ips = []\<rparr>" list_netlib plain_env "[]"
      "Some plain_endpoint" None True "[]"]
  by (simp add: list_insert_def peer_list_new_def Let_def)

end
