(* ===== verification/Device.thy ===== *)
theory Device
  imports Peer_List
begin

unbundle bit_operations_syntax

text \<open>
  The device: \<open>device/mod.rs\<close>, \<open>device/config.rs\<close>, \<open>device/inbound.rs\<close>, \<open>device/handle.rs\<close> and
  \<open>device/transport/udp.rs\<close> of \<open>vlink-tun\<close>.  A tick takes one packet from the tunnel device or from a
  transport and hands it to the peer it concerns.  The macOS branch that writes packets addressed to
  the device itself back to the tunnel is not part of the model (other platforms do not compile it).
\<close>

section \<open>Configuration and state\<close>

record 'n peer_config =
  pc_public_key :: bytes
  pc_allowed_ips :: "'n list"
  pc_endpoint :: "socket_addr option"
  pc_preshared_key :: "bytes option"
  pc_lazy :: bool
  pc_is_online :: bool
  pc_no_encrypt :: bool
  pc_persistent_keepalive :: "duration option"
  pc_ip_addr :: string

record 'n device_config =
  dc_private_key :: bytes
  dc_fwmark :: u32
  dc_port :: u16
  dc_peers :: "bytes \<rightharpoonup> 'n peer_config"
  dc_address :: bytes
  dc_network :: 'n

definition config_private_key :: "bytes \<Rightarrow> 'n device_config \<Rightarrow> 'n device_config" where
  "config_private_key key c = c\<lparr>dc_private_key := key\<rparr>"

definition config_peer :: "'n peer_config \<Rightarrow> 'n device_config \<Rightarrow> 'n device_config" where
  "config_peer p c = c\<lparr>dc_peers := (dc_peers c)(pc_public_key p \<mapsto> p)\<rparr>"

definition config_local_secret :: "crypto \<Rightarrow> 'n device_config \<Rightarrow> local_static_secret" where
  "config_local_secret cr c = local_secret_new cr (dc_private_key c)"

record settings =
  st_secret :: local_static_secret
  st_fwmark :: u32
  st_cookie :: cookie

definition settings_new :: "crypto \<Rightarrow> bytes \<Rightarrow> u32 \<Rightarrow> settings" where
  "settings_new cr private_key fwmark =
     (let secret = local_secret_new cr private_key
      in \<lparr>st_secret = secret, st_fwmark = fwmark, st_cookie = cookie_new cr secret\<rparr>)"

definition secret_and_cookie :: "settings \<Rightarrow> local_static_secret \<times> cookie" where
  "secret_and_cookie s = (st_secret s, st_cookie s)"

record ('n, 't) device =
  dv_settings :: settings
  dv_peers :: "('n, 't) peer_list"
  dv_shared :: shared
  dv_rate_limiter :: rate_limiter

definition PROTO_NAME :: string where "PROTO_NAME = ''Udp''"

definition endpoint_for :: "socket_addr \<Rightarrow> endpoint" where
  "endpoint_for addr = Endpoint addr PROTO_NAME"

definition get_peer_by_key :: "('n, 't) device \<Rightarrow> bytes \<Rightarrow> nat option" where
  "get_peer_by_key d k = get_by_key (dv_peers d) k"

definition device_session_by_index :: "('n, 't) device \<Rightarrow> u32 \<Rightarrow> (session \<times> nat) option" where
  "device_session_by_index d i = get_session_by_index (dv_peers d) (sh_index (dv_shared d)) i"

definition insert_peer ::
    "('n, 't, nat) netlib \<Rightarrow> env \<Rightarrow> 'n peer_config \<Rightarrow> ('n, 't) device \<Rightarrow> ('n, 't) device" where
  "insert_peer nl en cfg d =
     (let secret = with_peer (st_secret (dv_settings d)) (pc_public_key cfg);
          secret = (case pc_preshared_key cfg of Some psk \<Rightarrow> set_psk psk secret | None \<Rightarrow> secret);
          ep = map_option endpoint_for (pc_endpoint cfg)
      in d\<lparr>dv_peers := snd (list_insert nl en secret (pc_allowed_ips cfg) ep (pc_persistent_keepalive cfg)
                               (pc_is_online cfg) (pc_ip_addr cfg) (dv_peers d))\<rparr>)"

definition reset_peers ::
    "('n, 't, nat) netlib \<Rightarrow> env \<Rightarrow> 'n peer_config list \<Rightarrow> ('n, 't) device \<Rightarrow> ('n, 't) device" where
  "reset_peers nl en peers d =
     (let (l, t) = list_clear nl (dv_peers d) (sh_index (dv_shared d))
      in fold (insert_peer nl en) peers
           (d\<lparr>dv_peers := l, dv_shared := (dv_shared d)\<lparr>sh_index := t\<rparr>\<rparr>))"

text \<open>\<open>peers\<close> is an enumeration of the values of the configured map, in the order of its iterator.\<close>

definition device_new ::
    "('n, 't, nat) netlib \<Rightarrow> env \<Rightarrow> u32 \<Rightarrow> 'n device_config \<Rightarrow> 'n peer_config list \<Rightarrow> ('n, 't) device" where
  "device_new nl en rnd cfg peers =
     reset_peers nl en peers
       \<lparr>dv_settings = settings_new (en_crypto en) (dc_private_key cfg) (dc_fwmark cfg),
        dv_peers = peer_list_new nl,
        dv_shared = \<lparr>sh_index = session_index_new rnd, sh_cells = [], sh_log = []\<rparr>,
        dv_rate_limiter = rate_limiter_new (en_now en) (- 1)\<rparr>"

text \<open>Apply an operation to the peer at an address.\<close>

definition at_peer :: "nat \<Rightarrow> (peer \<Rightarrow> peer) \<Rightarrow> ('n, 't) device \<Rightarrow> ('n, 't) device" where
  "at_peer i f d =
     d\<lparr>dv_peers := (dv_peers d)\<lparr>pl_store := (pl_store (dv_peers d))[i := f (pl_store (dv_peers d) ! i)]\<rparr>\<rparr>"

section \<open>Outbound (handle.rs, tick_outbound)\<close>

definition IPV4_HEADER_LEN :: nat where "IPV4_HEADER_LEN = 20"
definition IPV6_HEADER_LEN :: nat where "IPV6_HEADER_LEN = 40"

definition packet_dst :: "bytes \<Rightarrow> (unit, ip_addr option) result" where
  "packet_dst buf =
     rbind (nth_checked buf 0) (\<lambda>b.
       if b AND 0xF0 = 0x40 then
         if length buf < IPV4_HEADER_LEN then Ok None
         else rbind (slice 16 20 buf) (\<lambda>a. Ok (Some (Ipv4 a)))
       else if b AND 0xF0 = 0x60 then
         if length buf < IPV6_HEADER_LEN then Ok None
         else rbind (slice 24 40 buf) (\<lambda>a. Ok (Some (Ipv6 a)))
       else Ok None)"

definition device_tick_outbound ::
    "('n, 't, nat) netlib \<Rightarrow> bytes \<Rightarrow> ('n, 't) device \<Rightarrow> (unit, ('n, 't) device) result" where
  "device_tick_outbound nl buf d =
     rbind (packet_dst buf) (\<lambda>dst.
       case dst of
         None \<Rightarrow> Ok d
       | Some ip \<Rightarrow>
           (case get_by_ip nl (dv_peers d) ip of
              Some peer \<Rightarrow> Ok (at_peer peer (stage_outbound buf) d)
            | None \<Rightarrow> Ok d))"

section \<open>Inbound (handle.rs, tick_inbound)\<close>

text \<open>The guard on handshake packets: \<open>None\<close> means the packet goes on to the parser.\<close>

definition inbound_guard ::
    "env \<Rightarrow> endpoint \<Rightarrow> bytes \<Rightarrow> bytes \<Rightarrow> bytes \<Rightarrow> ('n, 't) device \<Rightarrow> (unit, ('n, 't) device option) result" where
  "inbound_guard en ep nonce rv payload d =
     (let ck = st_cookie (dv_settings d) in
      rbind (unwrap (is_handshake payload)) (\<lambda>hs.
        if \<not> hs then Ok None
        else rbind (validate_mac1 (en_crypto en) ck payload) (\<lambda>ok.
          if \<not> ok then Ok (Some d)
          else if \<not> fetch_token (dv_rate_limiter d) then
            rbind (validate_mac2 (en_crypto en) ck payload) (\<lambda>ok2.
              if \<not> ok2 then Ok (Some d)
              else rbind (unwrap (generate_cookie_reply (en_crypto en) (en_now en) nonce rv ck payload (ep_dst ep)))
                (\<lambda>(reply, ck').
                  if en_send_ok en ep reply
                  then Ok (Some (d\<lparr>dv_settings := (dv_settings d)\<lparr>st_cookie := ck'\<rparr>,
                     dv_shared := (dv_shared d)\<lparr>sh_log := sh_log (dv_shared d) @ [SendTo ep reply]\<rparr>\<rparr>))
                  else Panic))
          else Ok None)))"

fun message_receiver :: "message \<Rightarrow> u32" where
  "message_receiver (HandshakeResponse p) = hr_receiver_index p"
| "message_receiver (CookieReply p) = cr_receiver_index p"
| "message_receiver (TransportData p) = td_receiver_index p"
| "message_receiver (HandshakeInitiation p) = 0"

text \<open>An initiation that does not open runs into \<open>todo!()\<close>.\<close>

definition dispatch_message ::
    "env \<Rightarrow> endpoint \<Rightarrow> message \<Rightarrow> ('n, 't) device \<Rightarrow> (unit, ('n, 't) device) result" where
  "dispatch_message en ep msg d =
     (case msg of
        HandshakeInitiation p \<Rightarrow>
          rbind (unwrap (incoming_initiation_parse (en_crypto en) (st_secret (dv_settings d)) p)) (\<lambda>initiation.
            case get_peer_by_key d (ii_static_public_key initiation) of
              Some peer \<Rightarrow> Ok (at_peer peer (stage_inbound (HanshakeInitiationEv ep initiation)) d)
            | None \<Rightarrow> Ok d)
      | _ \<Rightarrow>
          (case device_session_by_index d (message_receiver msg) of
             None \<Rightarrow> Ok d
           | Some (session, peer) \<Rightarrow>
               (case msg of
                  HandshakeResponse p \<Rightarrow> Ok (at_peer peer (stage_inbound (HandshakeResponseEv ep p session)) d)
                | CookieReply p \<Rightarrow> Ok (at_peer peer (stage_inbound (CookieReplyEv ep p session)) d)
                | TransportData p \<Rightarrow>
                    if td_counter p > REJECT_AFTER_MESSAGES then Ok d
                    else Ok (at_peer peer (stage_inbound (TransportDataEv ep p session)) d)
                | HandshakeInitiation p \<Rightarrow> Panic)))"

definition device_tick_inbound ::
    "env \<Rightarrow> endpoint \<Rightarrow> bytes \<Rightarrow> bytes \<Rightarrow> bytes \<Rightarrow> ('n, 't) device \<Rightarrow> (unit, ('n, 't) device) result" where
  "device_tick_inbound en ep nonce rv payload d =
     rbind (inbound_guard en ep nonce rv payload d) (\<lambda>g.
       case g of
         Some d' \<Rightarrow> Ok d'
       | None \<Rightarrow>
           (case message_parse payload of
              Ok msg \<Rightarrow> dispatch_message en ep msg d
            | Err e \<Rightarrow> Ok d
            | Panic \<Rightarrow> Panic))"

text \<open>The two loops, over what they wait for in turn: a cancellation, or a packet and the environment it
  is handled in.  A packet is handled to the end before the next one is taken.\<close>

datatype 'a loop_item = Cancelled | Received 'a

fun device_loop_outbound ::
    "('n, 't, nat) netlib \<Rightarrow> bytes loop_item list \<Rightarrow> ('n, 't) device \<Rightarrow> (unit, ('n, 't) device) result" where
  "device_loop_outbound nl [] d = Ok d"
| "device_loop_outbound nl (Cancelled # _) d = Ok d"
| "device_loop_outbound nl (Received buf # rest) d =
     rbind (device_tick_outbound nl buf d) (device_loop_outbound nl rest)"

fun device_loop_inbound ::
    "(env \<times> endpoint \<times> bytes \<times> bytes \<times> bytes) loop_item list \<Rightarrow> ('n, 't) device \<Rightarrow> (unit, ('n, 't) device) result" where
  "device_loop_inbound [] d = Ok d"
| "device_loop_inbound (Cancelled # _) d = Ok d"
| "device_loop_inbound (Received (en, ep, nonce, rv, payload) # rest) d =
     rbind (device_tick_inbound en ep nonce rv payload d) (device_loop_inbound rest)"

section \<open>The UDP transport (transport/udp.rs)\<close>

record udp_transport =
  ut_port :: u16
  ut_ipv4_buf :: bytes
  ut_ipv6_buf :: bytes

text \<open>The input of a device: a queue whose reading end is taken once, by the inbound loop.\<close>

record 'm inbound =
  ib_rx :: "'m list option"

definition inbound_new :: "'m list \<Rightarrow> 'm inbound" where
  "inbound_new rx = \<lparr>ib_rx = Some rx\<rparr>"

definition inbound_take_rx :: "'m inbound \<Rightarrow> 'm list option \<times> 'm inbound" where
  "inbound_take_rx i = (ib_rx i, i\<lparr>ib_rx := None\<rparr>)"

text \<open>How a socket is made: calls of the operating system one after the other, the first error ends it.\<close>

datatype sock_call = SockNew bool | OnlyV6 | Nonblocking | ReuseAddress | BindTo ip_addr u16 | FromStd

fun sock_seq :: "(sock_call \<Rightarrow> string option) \<Rightarrow> sock_call list \<Rightarrow> string + unit" where
  "sock_seq os [] = Inr ()"
| "sock_seq os (c # cs) = (case os c of Some e \<Rightarrow> Inl e | None \<Rightarrow> sock_seq os cs)"

definition bind_socket_v4 :: "(sock_call \<Rightarrow> string option) \<Rightarrow> bytes \<Rightarrow> u16 \<Rightarrow> string + unit" where
  "bind_socket_v4 os addr port = sock_seq os [SockNew False, Nonblocking, ReuseAddress, BindTo (Ipv4 addr) port, FromStd]"

definition bind_socket_v6 :: "(sock_call \<Rightarrow> string option) \<Rightarrow> bytes \<Rightarrow> u16 \<Rightarrow> string + unit" where
  "bind_socket_v6 os addr port = sock_seq os [SockNew True, OnlyV6, Nonblocking, ReuseAddress, BindTo (Ipv6 addr) port, FromStd]"

text \<open>A bind attempt: the port the IPv4 socket got, or its error, and whether the IPv6 socket bound.
  \<open>local_addr\<close> of a bound socket does not fail.\<close>

type_synonym bind_attempt = "(string + u16) \<times> (string + unit)"

fun bind_loop :: "nat \<Rightarrow> bind_attempt list \<Rightarrow> string option \<Rightarrow> (string option, u16) result" where
  "bind_loop 0 as err = Err err"
| "bind_loop (Suc n) [] err = Err err"
| "bind_loop (Suc n) ((Inl e, _) # as) err = bind_loop n as (Some e)"
| "bind_loop (Suc n) ((Inr port, Inl e) # as) err = bind_loop n as (Some e)"
| "bind_loop (Suc n) ((Inr port, Inr ()) # as) err = Ok port"

definition bind_socket :: "u16 \<Rightarrow> bind_attempt list \<Rightarrow> (string, u16) result" where
  "bind_socket port as =
     (case bind_loop (if port = 0 then 10 else 1) as None of
        Ok p \<Rightarrow> Ok p
      | Err (Some e) \<Rightarrow> Err e
      | Err None \<Rightarrow> Panic
      | Panic \<Rightarrow> Panic)"

text \<open>One attempt, from the calls it makes: \<open>given\<close> is the port a socket bound to port 0 gets.\<close>

definition attempt_of :: "(sock_call \<Rightarrow> string option) \<Rightarrow> (u16 \<Rightarrow> u16) \<Rightarrow> u16 \<Rightarrow> bind_attempt" where
  "attempt_of os given port =
     (case bind_socket_v4 os [0, 0, 0, 0] port of
        Inl e \<Rightarrow> (Inl e, Inr ())
      | Inr () \<Rightarrow> (Inr (given port), bind_socket_v6 os (replicate 16 0) (given port)))"

definition udp_bind :: "u16 \<Rightarrow> bind_attempt list \<Rightarrow> (string, udp_transport) result" where
  "udp_bind port as =
     rbind (bind_socket port as) (\<lambda>port. Ok \<lparr>ut_port = port, ut_ipv4_buf = [], ut_ipv6_buf = []\<rparr>)"

text \<open>\<open>spawn\<close> returns the port it was asked for, not the one that was bound.\<close>

definition udp_spawn :: "u16 \<Rightarrow> bind_attempt list \<Rightarrow> (string, u16 \<times> udp_transport) result" where
  "udp_spawn port as = rbind (udp_bind port as) (\<lambda>udp. Ok (port, udp))"

datatype datagram = Dgram4 socket_addr bytes | Dgram6 socket_addr bytes

text \<open>A datagram longer than the buffer is cut off.\<close>

definition fill_buf :: "bytes \<Rightarrow> bytes \<Rightarrow> nat \<times> bytes" where
  "fill_buf buf dat =
     (let n = min (length buf) (length dat) in (n, take n dat @ drop n buf))"

definition udp_recv_from :: "datagram \<Rightarrow> udp_transport \<Rightarrow> (socket_addr \<times> bytes) \<times> udp_transport" where
  "udp_recv_from dg u =
     (let u = (if ut_ipv4_buf u = [] then u\<lparr>ut_ipv4_buf := replicate 2048 0\<rparr> else u);
          u = (if ut_ipv6_buf u = [] then u\<lparr>ut_ipv4_buf := replicate 2048 0\<rparr> else u)
      in case dg of
           Dgram4 addr dat \<Rightarrow> let (n, b) = fill_buf (ut_ipv4_buf u) dat in ((addr, take n b), u\<lparr>ut_ipv4_buf := b\<rparr>)
         | Dgram6 addr dat \<Rightarrow> let (n, b) = fill_buf (ut_ipv6_buf u) dat in ((addr, take n b), u\<lparr>ut_ipv6_buf := b\<rparr>))"

text \<open>\<open>UdpOutboundSender::send\<close> picks the socket by the family of the destination.\<close>

datatype udp_socket = SocketV4 | SocketV6

definition udp_sender_socket :: "socket_addr \<Rightarrow> udp_socket" where
  "udp_sender_socket dst = (case dst of V4 _ _ \<Rightarrow> SocketV4 | V6 _ _ \<Rightarrow> SocketV6)"

section \<open>Guards and dispatch\<close>

text \<open>A configuration without peers, for witnesses.\<close>

definition plain_config :: "bytes \<Rightarrow> list_net device_config" where
  "plain_config sk = \<lparr>dc_private_key = sk, dc_fwmark = 0, dc_port = 0, dc_peers = (\<lambda>_. None),
     dc_address = [10, 0, 0, 1], dc_network = (False, replicate 8 False, 8)\<rparr>"

lemma is_handshake_cases:
  "payload = [] \<Longrightarrow> is_handshake payload = Panic"
  "payload \<noteq> [] \<Longrightarrow> \<exists>b. is_handshake payload = Ok b"
  "is_handshake payload = Ok True \<Longrightarrow> 32 \<le> length payload"
  by (auto simp: is_handshake_def nth_checked_def protocol_consts split: if_splits)

lemma validate_mac1_total:
  assumes "crypto_laws cr" "32 \<le> length payload"
  obtains b where "validate_mac1 cr (cookie_new cr s) payload = (Ok b :: ('e, bool) result)"
proof -
  obtain m m1 m2 where m: "split_macs payload = (Ok (m, m1, m2) :: ('e, _) result)"
    using assms(2) by (simp add: split_macs_def Let_def)
  obtain t where "mac cr (hash cr LABEL_MAC1 (ls_public s)) m = (Ok t :: ('e, bytes) result)"
    using mac_Ok [OF assms(1) crypto_lengths(1) [OF assms(1)], of LABEL_MAC1 "ls_public s" m, where ?'a = 'e] by blast
  then show ?thesis using that m by (simp add: validate_mac1_def cookie_new_def)
qed

lemma inbound_guard_cases:
  assumes laws: "crypto_laws (en_crypto en)" and st: "dv_settings d = settings_new (en_crypto en) sk fw"
    and ne: "payload \<noteq> []"
  obtains "is_handshake payload = Ok False" "inbound_guard en ep nonce rv payload d = Ok None"
  | "is_handshake payload = Ok True"
    "validate_mac1 (en_crypto en) (st_cookie (dv_settings d)) payload = (Ok False :: (unit, bool) result)"
    "inbound_guard en ep nonce rv payload d = Ok (Some d)"
  | "is_handshake payload = Ok True"
    "validate_mac1 (en_crypto en) (st_cookie (dv_settings d)) payload = (Ok True :: (unit, bool) result)"
    "inbound_guard en ep nonce rv payload d = Ok None"
proof -
  obtain b where b: "is_handshake payload = Ok b" using is_handshake_cases(2) [OF ne] by blast
  show ?thesis
  proof (cases b)
    case True
    obtain v where v: "validate_mac1 (en_crypto en) (st_cookie (dv_settings d)) payload = (Ok v :: (unit, bool) result)"
      using validate_mac1_total [OF laws is_handshake_cases(3) [OF b [unfolded True [THEN eqTrueI]]],
          of "local_secret_new (en_crypto en) sk", where ?'e = unit] st
      by (auto simp: settings_new_def Let_def)
    show ?thesis using that b True v by (cases v) (auto simp: inbound_guard_def Let_def fetch_token_def)
  next
    case False
    then show ?thesis using that(1) b by (simp add: inbound_guard_def Let_def)
  qed
qed

lemma dispatch_message_Panic:
  "dispatch_message en ep msg d = Panic \<longleftrightarrow> (\<exists>p. msg = HandshakeInitiation p \<and>
     (\<nexists>i. incoming_initiation_parse (en_crypto en) (st_secret (dv_settings d)) p = Ok i))"
proof (cases msg)
  case (HandshakeInitiation p)
  then show ?thesis
    by (cases "incoming_initiation_parse (en_crypto en) (st_secret (dv_settings d)) p")
      (auto simp: dispatch_message_def split: option.splits)
qed (auto simp: dispatch_message_def split: option.splits)

lemma parsed_initiation_wf:
  "message_parse v = Ok (HandshakeInitiation p) \<Longrightarrow> initiation_wf p \<and> is_handshake v = Ok True"
proof -
  assume "message_parse v = Ok (HandshakeInitiation p)"
  then have i: "initiation_try_from v = Ok p" by (auto simp: message_parse_def result_simps split: if_splits)
  note wf = initiation_try_from_Ok [OF i]
  then have "nth_checked v 0 = (Ok 1 :: (noise_error, u8) result)" by (simp add: nth_checked_def)
  then show ?thesis using wf by (simp add: is_handshake_def protocol_consts)
qed

text \<open>When the inbound tick panics.\<close>

lemma inbound_Panic:
  assumes "crypto_laws (en_crypto en)" "dv_settings d = settings_new (en_crypto en) sk fw"
  shows "device_tick_inbound en ep nonce rv payload d = Panic \<longleftrightarrow>
    payload = [] \<or>
    4 \<le> length payload \<and> length payload < 16 \<and> take 4 payload = [4, 0, 0, 0] \<or>
    (\<exists>p e. message_parse payload = Ok (HandshakeInitiation p) \<and>
       validate_mac1 (en_crypto en) (st_cookie (dv_settings d)) payload = (Ok True :: (unit, bool) result) \<and>
       incoming_initiation_parse (en_crypto en) (st_secret (dv_settings d)) p = Err e)"
    (is "_ \<longleftrightarrow> ?E \<or> ?S \<or> ?I")
proof (cases "payload = []")
  case True
  then show ?thesis by (simp add: device_tick_inbound_def inbound_guard_def is_handshake_cases Let_def)
next
  case False
  have parse: "message_parse payload = Panic \<longleftrightarrow> ?S" by (rule message_parse_Panic)
  have short: "\<not> ?S" if "is_handshake payload = Ok True" using is_handshake_cases(3) [OF that] by auto
  have disp: "dispatch_message en ep msg d = Panic \<longleftrightarrow> (\<exists>p e. msg = HandshakeInitiation p \<and>
      incoming_initiation_parse (en_crypto en) (st_secret (dv_settings d)) p = Err e)"
    if "message_parse payload = Ok msg" for msg
    using that incoming_no_panic(1) [OF assms(1)] parsed_initiation_wf [of payload]
    by (auto simp: dispatch_message_Panic) (metis result.exhaust)
  from assms(1,2) False show ?thesis
  proof (cases rule: inbound_guard_cases [of _ _ _ _ _ ep nonce rv])
    case 1
    then show ?thesis
      using parse disp parsed_initiation_wf [of payload] False
      by (auto simp: device_tick_inbound_def split: result.splits)
  next
    case 2
    then show ?thesis using short False by (auto simp: device_tick_inbound_def)
  next
    case 3
    then show ?thesis using parse disp short False
      by (auto simp: device_tick_inbound_def split: result.splits)
  qed
qed

section \<open>Receive buffers\<close>

definition udp_inv :: "udp_transport \<Rightarrow> bool" where
  "udp_inv u \<longleftrightarrow> ut_ipv6_buf u = []"

lemma udp_recv_inv: "udp_inv u \<Longrightarrow> udp_inv (snd (udp_recv_from dg u))"
  by (cases dg) (auto simp: udp_inv_def udp_recv_from_def fill_buf_def Let_def)

inductive udp_run :: "udp_transport \<Rightarrow> bool" where
  bound: "udp_bind port as = Ok u \<Longrightarrow> udp_run u"
| recv: "udp_run u \<Longrightarrow> udp_run (snd (udp_recv_from dg u))"

lemma udp_run_inv: "udp_run u \<Longrightarrow> udp_inv u"
proof (induction rule: udp_run.induct)
  case (bound port as u)
  then show ?case by (auto simp: udp_bind_def udp_inv_def result_simps)
next
  case (recv u dg)
  then show ?case by (simp add: udp_recv_inv)
qed

section \<open>Properties\<close>

text \<open>C16: What a remote packet can do to the inbound task.  Whatever bytes arrive, and whatever the
  sessions and peers, the task panics in exactly three cases: an empty packet; a packet of 4 to 15
  bytes with a transport header; an initiation with a valid mac1 that does not open.  All other
  packets are handled.\<close>

theorem inbound_panics_iff:
  assumes "crypto_laws (en_crypto en)" "dv_settings d = settings_new (en_crypto en) sk fw"
  shows "device_tick_inbound en ep nonce rv payload d = Panic \<longleftrightarrow>
    payload = [] \<or>
    4 \<le> length payload \<and> length payload < 16 \<and> take 4 payload = [4, 0, 0, 0] \<or>
    (\<exists>p e. message_parse payload = Ok (HandshakeInitiation p) \<and>
       validate_mac1 (en_crypto en) (st_cookie (dv_settings d)) payload = (Ok True :: (unit, bool) result) \<and>
       incoming_initiation_parse (en_crypto en) (st_secret (dv_settings d)) p = Err e)"
  by (rule inbound_Panic [OF assms])

theorem inbound_panics_iff_witness:
  "device_tick_inbound plain_env plain_endpoint [] [] [4, 0, 0, 0, 1]
     (device_new list_netlib plain_env 5 (plain_config (replicate 32 1)) []) = Panic"
  using inbound_panics_iff [of plain_env "device_new list_netlib plain_env 5 (plain_config (replicate 32 1)) []"
      "replicate 32 1" 0 plain_endpoint "[]" "[]" "[4, 0, 0, 0, 1]"] plain_crypto_laws
  by (simp add: device_new_def reset_peers_def list_clear_def plain_env_def plain_config_def)





text \<open>C24: A handshake packet without a valid mac1 has no effect on the device at all.\<close>

theorem bad_mac1_ignored:
  assumes "crypto_laws (en_crypto en)" "dv_settings d = settings_new (en_crypto en) sk fw"
    and "is_handshake payload = Ok True"
    and "validate_mac1 (en_crypto en) (st_cookie (dv_settings d)) payload \<noteq> (Ok True :: (unit, bool) result)"
  shows "device_tick_inbound en ep nonce rv payload d = Ok d"
proof -
  have "payload \<noteq> []" using assms(3) by (auto simp: is_handshake_cases)
  from assms(1,2) this show ?thesis
    by (cases rule: inbound_guard_cases [of _ _ _ _ _ ep nonce rv])
      (use assms(3,4) in \<open>auto simp: device_tick_inbound_def\<close>)
qed

theorem bad_mac1_ignored_witness:
  "device_tick_inbound plain_env plain_endpoint [] [] (1 # replicate 147 0)
     (device_new list_netlib plain_env 5 (plain_config (replicate 32 1)) []) =
   Ok (device_new list_netlib plain_env 5 (plain_config (replicate 32 1)) [])"
proof -
  let ?d = "device_new list_netlib plain_env 5 (plain_config (replicate 32 1)) []"
  have d: "dv_settings ?d = settings_new (en_crypto plain_env) (replicate 32 1) 0"
    by (simp add: device_new_def reset_peers_def list_clear_def plain_config_def)
  have "is_handshake (1 # replicate 147 0) = Ok True"
    by (simp add: is_handshake_def protocol_consts nth_checked_def)
  moreover have "replicate 16 (0 :: u8) \<noteq> 1 # replicate 15 0" by code_simp
  then have "validate_mac1 (en_crypto plain_env) (st_cookie (dv_settings ?d)) (1 # replicate 147 0) \<noteq>
      (Ok True :: (unit, bool) result)"
    by (simp add: d settings_new_def validate_mac1_def split_macs_def mac_def plain_env_def plain_crypto_def
        Let_def drop_Cons' take_Cons')
  ultimately show ?thesis
    using bad_mac1_ignored [OF _ d, of "1 # replicate 147 0" plain_endpoint "[]" "[]"] plain_crypto_laws
    by (simp add: plain_env_def)
qed

end
