(* ===== verification/Daemon.thy ===== *)
theory Daemon
  imports Daemon_Client Device Rw_Map
begin

text \<open>
  The daemon \<open>vlinkd\<close>: the configuration it builds from the server's answer (\<open>handler/first_connected.rs\<close>,
  \<open>handler/common.rs\<close>, \<open>config.rs\<close>), the manager that runs the device by the server's commands
  (\<open>network/mod.rs\<close>, \<open>cmd_handler.rs\<close>, \<open>handler/connected.rs\<close>) and by the device's events
  (\<open>network/device_handler.rs\<close>).  \<open>IpNetwork::new\<close> of the crate \<open>ip_network\<close> is the argument \<open>net_new\<close>.
\<close>

section \<open>Configuration\<close>

record arg_config =
  ag_endpoint_addr :: "string option"
  ag_port :: "u16 option"

record transport_config =
  tf_proto :: string
  tf_params :: string

record 'n network_config =
  nc_tun_name :: "string option"
  nc_device_config :: "'n device_config"
  nc_arg_config :: arg_config
  nc_transports :: "transport_config list"
  nc_stun_servers :: "string list"
  nc_peer_extra_transports :: "peer_extra_transport list"

definition DEFAULT_PORT :: u16 where
  "DEFAULT_PORT = 51820"

datatype 'm daemon_error =
    ClientFailed "'m client_error" | BadBase64 | BadIp | BadNetwork | BadAnswer | BadKeyLength | UnknownProto string

fun socket_of :: "ip_addr \<Rightarrow> u16 \<Rightarrow> socket_addr" where
  "socket_of (Ipv4 b) port = V4 b port"
| "socket_of (Ipv6 b) port = V6 b port"

text \<open>A peer of the answer as a peer of the device: only its own address is routed to it.\<close>

definition bc_peer_enter2peer_config ::
    "core_lib \<Rightarrow> ('n, 't, 'v) netlib \<Rightarrow> bc_peer_enter \<Rightarrow> ('m daemon_error, 'n peer_config) result" where
  "bc_peer_enter2peer_config lib nl p =
     rbind (ok_or BadBase64 (decode_base64 lib (be_pub_key p))) (\<lambda>pk.
     case ip_from_str (be_ip p) of
       None \<Rightarrow> Panic
     | Some ip \<Rightarrow>
         rbind (cidr_new nl ip 32) (\<lambda>cidr.
         case try_into_key pk of
           None \<Rightarrow> Panic
         | Some key \<Rightarrow>
             rbind (case be_endpoint_addr p of
                      None \<Rightarrow> Ok None
                    | Some addr \<Rightarrow> rbind (ok_or BadIp (ip_from_str addr)) (\<lambda>a. Ok (Some (socket_of a (ucast (be_port p)))))) (\<lambda>ep.
             Ok \<lparr>pc_public_key = key, pc_allowed_ips = [cidr], pc_endpoint = ep, pc_preshared_key = None,
                 pc_lazy = False, pc_is_online = be_is_online p, pc_no_encrypt = False,
                 pc_persistent_keepalive = None, pc_ip_addr = be_ip p\<rparr>)))"

fun config_peers_of ::
    "core_lib \<Rightarrow> ('n, 't, 'v) netlib \<Rightarrow> bc_peer_enter list \<Rightarrow> 'n device_config \<Rightarrow> ('m daemon_error, 'n device_config) result" where
  "config_peers_of lib nl [] cfg = Ok cfg"
| "config_peers_of lib nl (p # ps) cfg =
     rbind (bc_peer_enter2peer_config lib nl p) (\<lambda>c. config_peers_of lib nl ps (config_peer c cfg))"

definition config_of_answer ::
    "core_lib \<Rightarrow> ('n, 't, 'v) netlib \<Rightarrow> (ip_addr \<Rightarrow> u8 \<Rightarrow> 'n option) \<Rightarrow> bytes \<Rightarrow> arg_config \<Rightarrow> resp_config \<Rightarrow>
     ('m daemon_error, 'n network_config) result" where
  "config_of_answer lib nl net_new private_key args rc =
     rbind (ok_or BadNetwork (net_new (Ipv4 (to_be_bytes 4 (rc_network rc))) (ucast (rc_mask rc)))) (\<lambda>network.
     rbind (config_peers_of lib nl (rc_peers rc)
              \<lparr>dc_private_key = private_key, dc_fwmark = 0,
               dc_port = (if rc_port rc > 0 then ucast (rc_port rc)
                          else case ag_port args of Some p \<Rightarrow> p | None \<Rightarrow> DEFAULT_PORT),
               dc_peers = (\<lambda>_. None), dc_address = to_be_bytes 4 (rc_address rc), dc_network = network\<rparr>) (\<lambda>dc.
       Ok \<lparr>nc_tun_name = None, nc_device_config = dc, nc_arg_config = args,
           nc_transports = map (\<lambda>t. \<lparr>tf_proto = et_proto t, tf_params = et_params t\<rparr>) (rc_extra_transports rc),
           nc_stun_servers = [], nc_peer_extra_transports = rc_peer_extra_transports rc\<rparr>))"

definition request_for_config ::
    "core_lib \<Rightarrow> ('n, 't, 'v) netlib \<Rightarrow> (ip_addr \<Rightarrow> u8 \<Rightarrow> 'n option) \<Rightarrow> delivery \<Rightarrow> 'm to_client list \<Rightarrow> recv_end \<Rightarrow>
     bytes \<Rightarrow> arg_config \<Rightarrow> daemon_conn option \<Rightarrow>
     daemon_conn option \<times> ('m daemon_error, 'n network_config) result" where
  "request_for_config lib nl net_new dl ms e private_key args conn =
     (let (conn, r) = client_request dl ms e ReqConfig conn
      in (conn, rbind (map_err ClientFailed r) (\<lambda>resp.
           case resp of
             RespConfig rc \<Rightarrow> config_of_answer lib nl net_new private_key args rc
           | _ \<Rightarrow> Err BadAnswer)))"

section \<open>The state of the manager\<close>

datatype extra_proto = NatUdp | NatTcp | Dip

fun proto_name :: "extra_proto \<Rightarrow> string" where
  "proto_name NatUdp = ''NatUdp''"
| "proto_name NatTcp = ''NatTcp''"
| "proto_name Dip = ''Dip''"

definition proto_from_str :: "string \<Rightarrow> extra_proto option" where
  "proto_from_str s = List.find (\<lambda>p. proto_name p = s) [NatUdp, NatTcp, Dip]"

lemma proto_from_str_name [simp]: "proto_from_str (proto_name p) = Some p"
  by (cases p) (simp_all add: proto_from_str_def)

lemma proto_from_str_Some: "proto_from_str s = Some p \<longleftrightarrow> s = proto_name p"
  by (cases p) (auto simp: proto_from_str_def split: if_splits)

record extra_proto_status =
  es_endpoint :: "string option"
  es_running :: bool
  es_error :: "string option"

text \<open>The manager's state: the connection, the device with its own address and port, the running extra protocols,
  the selector of each peer with the transports it may use, and the relays it is connected to.\<close>

record selector =
  sl_peer :: nat
  sl_transports :: "peer_extra_transport list"

record ('n, 't) daemon =
  dm_secret :: vlink_static_secret
  dm_conn :: "daemon_conn option"
  dm_device :: "('n, 't) device"
  dm_tun_addr :: bytes
  dm_port :: u16
  dm_status :: "(extra_proto, extra_proto_status) rw_map"
  dm_selectors :: "(bytes, selector) rw_map"
  dm_relays :: "string list"
  dm_started :: "(extra_proto \<times> transport_config) list"

section \<open>Commands of the server (cmd_handler.rs, connected.rs)\<close>

definition mark_online ::
    "core_lib \<Rightarrow> string \<Rightarrow> bool \<Rightarrow> ('n, 't) device \<Rightarrow> ('m daemon_error, ('n, 't) device) result" where
  "mark_online lib pub_key v d =
     rbind (ok_or BadBase64 (decode_base64 lib pub_key)) (\<lambda>b.
     case try_into_key b of
       None \<Rightarrow> Panic
     | Some k \<Rightarrow> (case get_peer_by_key d k of None \<Rightarrow> Ok d | Some i \<Rightarrow> Ok (at_peer i (set_online v) d)))"

definition handle_to_client_data ::
    "core_lib \<Rightarrow> 'm to_client_data \<Rightarrow> ('n, 't) device \<Rightarrow> ('m daemon_error, ('n, 't) device) result" where
  "handle_to_client_data lib data d =
     (case data of
        PeerEnterTC e \<Rightarrow> mark_online lib (be_pub_key e) True d
      | PeerLeaveTC pub_key \<Rightarrow> mark_online lib pub_key False d
      | _ \<Rightarrow> Ok d)"

definition handler_connected ::
    "delivery \<Rightarrow> arg_config \<Rightarrow> ('n, 't) daemon \<Rightarrow> ('n, 't) daemon \<times> ('m daemon_error, unit) result" where
  "handler_connected dl args dm =
     (let enter = \<lparr>en_ip = ipv4_to_string (dm_tun_addr dm), en_endpoint_addr = ag_endpoint_addr args,
            en_port = ucast (dm_port dm),
            en_extra_endpoints = concat (map (\<lambda>(proto, v). case es_endpoint v of
                Some en \<Rightarrow> [\<lparr>ee_proto = proto_name proto, ee_endpoint = en\<rparr>] | None \<Rightarrow> []) (dm_status dm))\<rparr>;
          (conn, r) = daemon_send dl (PeerEnter enter) (dm_conn dm)
      in (dm\<lparr>dm_conn := conn\<rparr>, rbind (map_err ClientFailed r) (\<lambda>_. Ok ())))"

section \<open>Events of the device (device_handler.rs)\<close>

definition send_ignored :: "delivery \<Rightarrow> to_server_data \<Rightarrow> ('n, 't) daemon \<Rightarrow> ('n, 't) daemon" where
  "send_ignored dl data dm =
     dm\<lparr>dm_conn := fst (daemon_send dl data (dm_conn dm) :: _ \<times> (unit client_error, u64) result)\<rparr>"

definition handle_device_event ::
    "core_lib \<Rightarrow> delivery \<Rightarrow> device_event \<Rightarrow> ('n, 't) daemon \<Rightarrow> ('m daemon_error, ('n, 't) daemon) result" where
  "handle_device_event lib dl ev dm =
     (case ev of
        HandshakeCompleteEv pub_key proto \<Rightarrow>
          Ok (send_ignored dl (DevHandshakeComplete
                \<lparr>dh_target_pub_key = encode_base64 lib pub_key, dh_proto = proto\<rparr>) dm)
      | ExtraEndpointSuccess proto en \<Rightarrow>
          rbind (ok_or (UnknownProto proto) (proto_from_str proto)) (\<lambda>p.
            Ok (send_ignored dl (UpdateExtraEndpoint \<lparr>ee_proto = proto, ee_endpoint = en\<rparr>)
                  (dm\<lparr>dm_status := rw_insert p \<lparr>es_endpoint = Some en, es_running = True, es_error = None\<rparr> (dm_status dm)\<rparr>)))
      | PeerEndpointFailed pub_key \<Rightarrow>
          (case get_peer_by_key (dm_device dm) pub_key of
             None \<Rightarrow> Ok dm
           | Some i \<Rightarrow> Ok (dm\<lparr>dm_device := at_peer i clear_endpoint (dm_device dm)\<rparr>))
      | _ \<Rightarrow> Ok dm)"

section \<open>Selectors (network/mod.rs, start_device)\<close>

fun group_transports ::
    "core_lib \<Rightarrow> peer_extra_transport list \<Rightarrow> (bytes, peer_extra_transport list) rw_map \<Rightarrow>
     ('m daemon_error, (bytes, peer_extra_transport list) rw_map) result" where
  "group_transports lib [] m = Ok m"
| "group_transports lib (t # ts) m =
     rbind (ok_or BadBase64 (decode_base64 lib (px_target_pub_key t))) (\<lambda>b.
     rbind (ok_or BadKeyLength (try_into_key b)) (\<lambda>k.
       group_transports lib ts
         (rw_insert k ((case rw_get m k of Some us \<Rightarrow> us | None \<Rightarrow> []) @ [t]) m)))"

definition or_insert :: "'k \<Rightarrow> 'v \<Rightarrow> ('k, 'v) rw_map \<Rightarrow> ('k, 'v) rw_map" where
  "or_insert k v m = (case rw_get m k of Some _ \<Rightarrow> m | None \<Rightarrow> rw_insert k v m)"

text \<open>\<open>all\<close> is an enumeration of the keys of the device's peers.\<close>

definition start_selectors ::
    "core_lib \<Rightarrow> peer_extra_transport list \<Rightarrow> bytes list \<Rightarrow> ('n, 't) device \<Rightarrow>
     ('m daemon_error, (bytes, selector) rw_map) result" where
  "start_selectors lib ts all d =
     rbind (group_transports lib ts rw_new) (\<lambda>m.
       Ok (fold (\<lambda>(k, us) sel. case get_peer_by_key d k of
                     None \<Rightarrow> sel
                   | Some i \<Rightarrow> or_insert k \<lparr>sl_peer = i, sl_transports = us\<rparr> sel)
             (fold (\<lambda>k m. or_insert k [] m) all m) rw_new))"

text \<open>The extra transports are started one after the other; an unknown protocol is an error, of one that
  fails later only a status already there is marked.\<close>

fun start_transports :: "transport_config list \<Rightarrow> ('m daemon_error, (extra_proto \<times> transport_config) list) result" where
  "start_transports [] = Ok []"
| "start_transports (cfg # cfgs) =
     rbind (ok_or (UnknownProto (tf_proto cfg)) (proto_from_str (tf_proto cfg))) (\<lambda>proto.
     rbind (start_transports cfgs) (\<lambda>rest. Ok ((proto, cfg) # rest)))"

definition transport_failed :: "extra_proto \<Rightarrow> string \<Rightarrow> ('n, 't) daemon \<Rightarrow> ('n, 't) daemon" where
  "transport_failed proto err dm =
     dm\<lparr>dm_status := rw_modify proto (\<lambda>e. e\<lparr>es_running := False, es_endpoint := None, es_error := Some err\<rparr>) (dm_status dm)\<rparr>"

definition start_device ::
    "core_lib \<Rightarrow> ('n, 't, nat) netlib \<Rightarrow> env \<Rightarrow> u32 \<Rightarrow> 'n peer_config list \<Rightarrow> bytes list \<Rightarrow> u16 \<Rightarrow> vlink_static_secret \<Rightarrow>
     daemon_conn option \<Rightarrow> 'n network_config \<Rightarrow> ('m daemon_error, ('n, 't) daemon) result" where
  "start_device lib nl en rnd peers all port secret conn cfg =
     (let d = device_new nl en rnd (nc_device_config cfg) peers
      in rbind (start_selectors lib (nc_peer_extra_transports cfg) all d) (\<lambda>sel.
         rbind (start_transports (nc_transports cfg)) (\<lambda>started.
           Ok \<lparr>dm_secret = secret, dm_conn = conn, dm_device = d, dm_tun_addr = dc_address (nc_device_config cfg),
               dm_port = port, dm_status = rw_new, dm_selectors = sel, dm_relays = [],
               dm_started = started\<rparr>)))"

section \<open>The manager's loop (network/mod.rs, start)\<close>

text \<open>Waiting for the first connection drops every other command; without it in time the code is unfinished.\<close>

fun wait_first :: "'m network_ctrl_cmd list \<Rightarrow> ('e, 'm network_ctrl_cmd list) result" where
  "wait_first [] = Panic"
| "wait_first (FirstConnected # cs) = Ok cs"
| "wait_first (c # cs) = wait_first cs"

definition manager_turn ::
    "core_lib \<Rightarrow> arg_config \<Rightarrow> delivery \<Rightarrow> 'm network_ctrl_cmd \<Rightarrow> ('n, 't) daemon \<Rightarrow>
     ('n, 't) daemon \<times> ('m daemon_error, unit) result" where
  "manager_turn lib args dl cmd dm =
     (case cmd of
        ToClientCmd data \<Rightarrow>
          (case handle_to_client_data lib data (dm_device dm) of
             Ok d \<Rightarrow> (dm\<lparr>dm_device := d\<rparr>, Ok ())
           | Err e \<Rightarrow> (dm, Err e)
           | Panic \<Rightarrow> (dm, Panic))
      | Connected \<Rightarrow> handler_connected dl args dm
      | _ \<Rightarrow> (dm, Ok ()))"

fun manager_loop ::
    "core_lib \<Rightarrow> arg_config \<Rightarrow> (delivery \<times> 'm network_ctrl_cmd) list \<Rightarrow> ('n, 't) daemon \<Rightarrow>
     ('n, 't) daemon \<times> ('m daemon_error, unit) result" where
  "manager_loop lib args [] dm = (dm, Ok ())"
| "manager_loop lib args ((dl, cmd) # cs) dm =
     (case manager_turn lib args dl cmd dm of
        (dm, Ok _) \<Rightarrow> manager_loop lib args cs dm
      | (dm, r) \<Rightarrow> (dm, r))"

section \<open>Which peers have a selector\<close>

definition transports_for :: "core_lib \<Rightarrow> peer_extra_transport list \<Rightarrow> bytes \<Rightarrow> peer_extra_transport list" where
  "transports_for lib ts k = filter (\<lambda>t. decode_base64 lib (px_target_pub_key t) = Some k) ts"

lemma group_transports_wf: "group_transports lib ts m = Ok m' \<Longrightarrow> rw_wf m \<Longrightarrow> rw_wf m'"
  by (induction ts arbitrary: m) (auto simp: result_simps rw.wf_insert)

lemma group_transports_get:
  assumes "group_transports lib ts m = (Ok m' :: ('m daemon_error, _) result)"
  shows "rw_get m' k = (if transports_for lib ts k = [] then rw_get m k
    else Some ((case rw_get m k of Some us \<Rightarrow> us | None \<Rightarrow> []) @ transports_for lib ts k))"
  using assms
proof (induction ts arbitrary: m)
  case (Cons t ts)
  obtain b where b: "decode_base64 lib (px_target_pub_key t) = Some b" "length b = 32"
    and rest: "group_transports lib ts (rw_insert b ((case rw_get m b of Some us \<Rightarrow> us | None \<Rightarrow> []) @ [t]) m) =
      (Ok m' :: ('m daemon_error, _) result)"
    using Cons.prems
    by (cases "decode_base64 lib (px_target_pub_key t)") (auto simp: result_simps try_into_key_def split: if_splits)
  show ?case
    unfolding Cons.IH [OF rest] using b
    by (cases "k = b") (auto simp: transports_for_def rw.get_insert)
qed (simp add: transports_for_def)

lemma group_transports_Ok_iff:
  "(\<exists>m'. group_transports lib ts m = (Ok m' :: ('m daemon_error, _) result)) \<longleftrightarrow>
     (\<forall>t \<in> set ts. \<exists>k. decode_base64 lib (px_target_pub_key t) = Some k \<and> length k = 32)"
proof (induction ts arbitrary: m)
  case (Cons t ts)
  then show ?case
    by (cases "decode_base64 lib (px_target_pub_key t)") (simp_all add: try_into_key_def)
qed simp

lemma group_transports_not_Panic: "group_transports lib ts m \<noteq> Panic"
  by (induction ts arbitrary: m) (auto simp: result_simps)

lemma or_insert_get: "rw_get (or_insert k v m) j = (if j = k \<and> rw_get m k = None then Some v else rw_get m j)"
  by (auto simp: or_insert_def rw.get_insert split: option.split)

lemma or_insert_wf: "rw_wf m \<Longrightarrow> rw_wf (or_insert k v m)"
  by (auto simp: or_insert_def rw.wf_insert split: option.split)

lemma or_insert_all_get:
  "rw_get (fold (\<lambda>k m. or_insert k v m) ks m) j =
     (case rw_get m j of Some w \<Rightarrow> Some w | None \<Rightarrow> if j \<in> set ks then Some v else None)"
  by (induction ks arbitrary: m) (auto simp: or_insert_get split: option.splits)

lemma or_insert_all_wf: "rw_wf m \<Longrightarrow> rw_wf (fold (\<lambda>k m. or_insert k v m) ks m)"
  by (induction ks arbitrary: m) (simp_all add: or_insert_wf)

lemma select_all_get:
  assumes "distinct (map fst ps)"
  shows "rw_get (fold (\<lambda>(k, us) sel. case get_peer_by_key d k of None \<Rightarrow> sel
      | Some i \<Rightarrow> or_insert k \<lparr>sl_peer = i, sl_transports = us\<rparr> sel) ps sel) j =
    (case rw_get sel j of Some s \<Rightarrow> Some s
     | None \<Rightarrow> (case (map_of ps j, get_peer_by_key d j) of
         (Some us, Some i) \<Rightarrow> Some \<lparr>sl_peer = i, sl_transports = us\<rparr> | _ \<Rightarrow> None))"
  using assms
proof (induction ps arbitrary: sel)
  case (Cons a ps)
  obtain k us where a: "a = (k, us)" by (cases a)
  have "map_of ps k = None" using Cons.prems a by (simp add: map_of_eq_None_iff)
  then show ?case
    using Cons a by (cases "get_peer_by_key d k"; cases "j = k") (auto simp: or_insert_get split: option.splits)
qed (simp split: option.split)

text \<open>C27: Every peer gets its selector.  When the extra transports of the configuration name 32-byte keys,
  and only then, the selectors start: each peer of the device has one, with exactly the transports announced for
  its key in their order, and a transport for an unknown key is dropped.\<close>

theorem selectors_match_peers:
  assumes "\<And>k. k \<in> set all \<longleftrightarrow> get_peer_by_key d k \<noteq> None"
  shows "if \<forall>t \<in> set ts. \<exists>k. decode_base64 lib (px_target_pub_key t) = Some k \<and> length k = 32
    then \<exists>sel. start_selectors lib ts all d = (Ok sel :: ('m daemon_error, _) result)
      \<and> (\<forall>k. rw_get sel k =
          map_option (\<lambda>i. \<lparr>sl_peer = i, sl_transports = transports_for lib ts k\<rparr>) (get_peer_by_key d k))
    else \<exists>e. start_selectors lib ts all d = (Err e :: ('m daemon_error, _) result)"
proof (cases "\<forall>t \<in> set ts. \<exists>k. decode_base64 lib (px_target_pub_key t) = Some k \<and> length k = 32")
  case True
  then obtain m where m: "group_transports lib ts rw_new = (Ok m :: ('m daemon_error, _) result)"
    using group_transports_Ok_iff [of lib ts rw_new] by blast
  let ?m = "fold (\<lambda>k m. or_insert k [] m) all m"
  have wf: "rw_wf ?m" using group_transports_wf [OF m rw.wf_empty] by (rule or_insert_all_wf)
  have m_get: "rw_get m k = (if transports_for lib ts k = [] then None else Some (transports_for lib ts k))" for k
    using group_transports_get [OF m, of k] by (simp add: rw.get_empty)
  have get: "map_of ?m k = (if transports_for lib ts k = [] then if k \<in> set all then Some [] else None
      else Some (transports_for lib ts k))" for k
    using or_insert_all_get [of "[]" all m k] m_get [of k] by (simp add: rw_get_def)
  define sel where "sel = fold (\<lambda>(k, us) sel. case get_peer_by_key d k of None \<Rightarrow> sel
      | Some i \<Rightarrow> or_insert k \<lparr>sl_peer = i, sl_transports = us\<rparr> sel) ?m rw_new"
  have "rw_get sel k = map_option (\<lambda>i. \<lparr>sl_peer = i, sl_transports = transports_for lib ts k\<rparr>) (get_peer_by_key d k)" for k
    unfolding sel_def select_all_get [OF wf [unfolded rw_wf_def]] get
    using assms [of k] by (auto simp: rw.get_empty split: option.split)
  moreover have "start_selectors lib ts all d = (Ok sel :: ('m daemon_error, _) result)"
    using m by (simp add: start_selectors_def sel_def)
  ultimately show ?thesis using True by auto
next
  case False
  have "group_transports lib ts rw_new \<noteq> (Panic :: ('m daemon_error, _) result)"
    by (rule group_transports_not_Panic)
  moreover have "\<nexists>m. group_transports lib ts rw_new = (Ok m :: ('m daemon_error, _) result)"
    using False group_transports_Ok_iff [of lib ts rw_new] by blast
  ultimately obtain e where "group_transports lib ts rw_new = (Err e :: ('m daemon_error, _) result)"
    by (cases "group_transports lib ts rw_new :: ('m daemon_error, _) result") auto
  then show ?thesis using False by (auto simp: start_selectors_def)
qed

section \<open>Commands of the server\<close>

lemma mark_online_cases:
  "mark_online lib key v d =
     (case decode_base64 lib key of
        None \<Rightarrow> Err BadBase64
      | Some b \<Rightarrow> if length b \<noteq> 32 then Panic
          else Ok (case get_peer_by_key d b of None \<Rightarrow> d | Some i \<Rightarrow> at_peer i (set_online v) d))"
  by (simp add: mark_online_def try_into_key_def split: option.split)

text \<open>The key a notification is about.\<close>

fun notice_key :: "'m to_client_data \<Rightarrow> string option" where
  "notice_key (PeerEnterTC e) = Some (be_pub_key e)"
| "notice_key (PeerLeaveTC k) = Some k"
| "notice_key _ = None"

text \<open>C40: What stops the daemon.  A command of the server ends the manager, and with it the process, exactly
  when it is a notification about a peer whose key is not base64 (an error) or not of 32 bytes (a
  panic), or when the daemon has just connected and its own announcement cannot be sent.\<close>

theorem manager_stops_iff:
  fixes cmd :: "'m network_ctrl_cmd"
  shows "snd (manager_turn lib args dl cmd dm) \<noteq> Ok () \<longleftrightarrow>
    (\<exists>data key. cmd = ToClientCmd data \<and> notice_key data = Some key \<and>
       (\<forall>k. length k = 32 \<longrightarrow> decode_base64 lib key \<noteq> Some k)) \<or>
    (cmd = Connected \<and> (\<forall>c. dm_conn dm = Some c \<longrightarrow> \<not> dn_connected c \<or> dl \<noteq> Written))"
proof (cases cmd)
  case (ToClientCmd data)
  have "snd (manager_turn lib args dl cmd dm) = Ok () \<longleftrightarrow>
      (\<exists>d. handle_to_client_data lib data (dm_device dm) = (Ok d :: ('m daemon_error, _) result))"
    by (cases "handle_to_client_data lib data (dm_device dm) :: ('m daemon_error, _) result")
      (simp_all add: manager_turn_def ToClientCmd)
  then show ?thesis
    by (cases data) (auto simp: handle_to_client_data_def mark_online_cases ToClientCmd split: option.splits)
next
  case Connected
  then show ?thesis
    by (cases "dm_conn dm"; cases dl)
      (simp_all add: manager_turn_def handler_connected_def daemon_send_def get_conn_def conn_send_def
        Let_def split_beta)
qed (simp_all add: manager_turn_def)

section \<open>A small daemon\<close>

definition plain_peer_config :: "bytes \<Rightarrow> list_net peer_config" where
  "plain_peer_config k = \<lparr>pc_public_key = k, pc_allowed_ips = [], pc_endpoint = None, pc_preshared_key = None,
     pc_lazy = False, pc_is_online = False, pc_no_encrypt = False, pc_persistent_keepalive = None, pc_ip_addr = ''0.0.0.2''\<rparr>"

definition plain_device :: "(list_net, (list_net \<times> nat) list) device" where
  "plain_device = device_new list_netlib plain_env 7 (plain_config (replicate 32 1)) [plain_peer_config (replicate 32 2)]"

definition plain_daemon :: "(list_net, (list_net \<times> nat) list) daemon" where
  "plain_daemon = \<lparr>dm_secret = plain_keys, dm_conn = Some conn_new, dm_device = plain_device, dm_tun_addr = [0, 0, 0, 3],
     dm_port = 0, dm_status = rw_new, dm_selectors = rw_new, dm_relays = [], dm_started = []\<rparr>"

definition plain_transport :: "bytes \<Rightarrow> peer_extra_transport" where
  "plain_transport k = \<lparr>px_target_pub_key = encode_base64 plain_core k, px_proto = ''NatUdp'', px_endpoint = [], px_index = 0\<rparr>"

lemma plain_device_peer: "get_peer_by_key plain_device k = (if k = replicate 32 2 then Some 0 else None)"
  by (simp add: plain_device_def get_peer_by_key_def get_by_key_def device_new_def reset_peers_def list_clear_def
      insert_peer_def list_insert_def plain_peer_config_def with_peer_def peer_secret_new_def peer_list_new_def Let_def)

theorem selectors_match_peers_witness:
  "\<exists>sel. start_selectors plain_core [plain_transport (replicate 32 2), plain_transport (replicate 32 3)]
        [replicate 32 2] plain_device = (Ok sel :: (unit daemon_error, _) result)
    \<and> rw_get sel (replicate 32 2) = Some \<lparr>sl_peer = 0, sl_transports = [plain_transport (replicate 32 2)]\<rparr>"
proof -
  let ?ts = "[plain_transport (replicate 32 2), plain_transport (replicate 32 3)]"
  have ts: "\<forall>t \<in> set ?ts. \<exists>k. decode_base64 plain_core (px_target_pub_key t) = Some k \<and> length k = 32"
    using plain_core_laws by (simp add: plain_transport_def)
  have all: "k \<in> set [replicate 32 2] \<longleftrightarrow> get_peer_by_key plain_device k \<noteq> None" for k by (simp add: plain_device_peer)
  have for_key: "transports_for plain_core ?ts (replicate 32 2) = [plain_transport (replicate 32 2)]"
    using plain_core_laws by (simp add: transports_for_def plain_transport_def)
  from selectors_match_peers [OF all, of ?ts plain_core, where ?'m = unit, unfolded if_P [OF ts]]
  obtain sel where "start_selectors plain_core ?ts [replicate 32 2] plain_device = (Ok sel :: (unit daemon_error, _) result)"
    "\<forall>k. rw_get sel k = map_option (\<lambda>i. \<lparr>sl_peer = i, sl_transports = transports_for plain_core ?ts k\<rparr>) (get_peer_by_key plain_device k)"
    by blast
  then show ?thesis by (simp add: for_key plain_device_peer)
qed

theorem manager_stops_iff_witness:
  "snd (manager_turn plain_core \<lparr>ag_endpoint_addr = None, ag_port = None\<rparr> Written (ToClientCmd (PeerLeaveTC ''k'' :: unit to_client_data))
      plain_daemon) \<noteq> Ok ()"
proof -
  have "\<forall>k. length k = 32 \<longrightarrow> decode_base64 plain_core ''k'' \<noteq> Some k" by (auto simp: decode_base64_def plain_core_def)
  then show ?thesis unfolding manager_stops_iff by (intro disjI1 exI [of _ "PeerLeaveTC ''k''"] exI [of _ "''k''"]) simp
qed

end
