(* ===== verification/Config_Delivery.thy ===== *)
theory Config_Delivery
  imports Headlink_Addresses Daemon
begin

text \<open>
  From the coordination server to the tunnel: what a configuration request of a daemon, answered by the
  server, makes of its device.  Composes \<open>Headlink_Addresses\<close> (the answer), \<open>Daemon_Client\<close> (request
  and answer), \<open>Daemon\<close> (the configuration) and \<open>Peer_List\<close> (the routes).
\<close>

section \<open>The peers of a configuration\<close>

text \<open>A peer as the server tells it can be configured: a key of 32 bytes, a dotted address, and
  no endpoint or one with an address that parses.\<close>

definition tellable :: "core_lib \<Rightarrow> bc_peer_enter \<Rightarrow> bytes \<Rightarrow> u32 \<Rightarrow> bool" where
  "tellable lib p k a \<longleftrightarrow>
     be_pub_key p = encode_base64 lib k \<and> length k = 32 \<and> be_ip p = ipv4_text a \<and>
     (\<forall>s. be_endpoint_addr p = Some s \<longrightarrow> ip_from_str s \<noteq> None)"

lemma four_bytes: obtains b c d e where "to_be_bytes 4 (a :: u32) = [b, c, d, e]"
proof -
  have "length (to_be_bytes 4 a) = 4" by simp
  then show ?thesis using that [of "to_be_bytes 4 a ! 0" "to_be_bytes 4 a ! 1" "to_be_bytes 4 a ! 2" "to_be_bytes 4 a ! 3"]
    by (intro that nth_equalityI) (auto simp: less_Suc_eq numeral_eq_Suc)
qed

lemma ip_from_ipv4_text [simp]: "ip_from_str (ipv4_text a) = Some (Ipv4 (to_be_bytes 4 a))"
proof -
  obtain b c d e where "to_be_bytes 4 a = [b, c, d, e]" by (rule four_bytes)
  then show ?thesis using ip_from_str_dotted [of b c d e] by (simp only: ipv4_text_def)
qed

lemma ipv4_text_inj: "ipv4_text a = ipv4_text b \<Longrightarrow> to_be_bytes 4 a = to_be_bytes 4 b"
  using ip_from_ipv4_text [of a] ip_from_ipv4_text [of b] by simp

text \<open>A network of all 32 bits holds its own address only.\<close>

definition host_law :: "('n, 't, 'v) netlib \<Rightarrow> bool" where
  "host_law nl \<longleftrightarrow> (\<forall>b n ip. length b = 4 \<longrightarrow> new_truncate nl (Ipv4 b) 32 = Some n \<longrightarrow> net_contains nl n ip \<longrightarrow>
     (\<forall>b'. ip = Ipv4 b' \<longrightarrow> length b' = 4 \<longrightarrow> b' = b))"

lemma tellable_config:
  assumes "core_laws lib" "netlib_laws nl entries" "tellable lib p k a"
  obtains c n where "bc_peer_enter2peer_config lib nl p = (Ok c :: ('m daemon_error, _) result)"
    "pc_public_key c = k" "pc_allowed_ips c = [n]" "new_truncate nl (Ipv4 (to_be_bytes 4 a)) 32 = Some n"
    "pc_is_online c = be_is_online p"
proof -
  obtain n where n: "new_truncate nl (Ipv4 (to_be_bytes 4 a)) 32 = Some n"
    using netlib_lawsD(1) [OF assms(2), of 32 "Ipv4 (to_be_bytes 4 a)"] by auto
  have p: "be_pub_key p = encode_base64 lib k" "length k = 32" "be_ip p = ipv4_text a"
    "\<And>s. be_endpoint_addr p = Some s \<Longrightarrow> \<exists>i. ip_from_str s = Some i"
    using assms(3) by (auto simp: tellable_def)
  obtain ep where "(case be_endpoint_addr p of None \<Rightarrow> Ok None
      | Some addr \<Rightarrow> rbind (ok_or BadIp (ip_from_str addr)) (\<lambda>a. Ok (Some (socket_of a (ucast (be_port p)))))) =
      (Ok ep :: ('m daemon_error, _) result)"
    using p(4) by (cases "be_endpoint_addr p") auto
  then show ?thesis
    using that n p assms(1)
    by (simp add: bc_peer_enter2peer_config_def cidr_new_def try_into_key_def)
qed

lemma config_peers_of_Ok:
  assumes "\<forall>p \<in> set ps. bc_peer_enter2peer_config lib nl p = (Ok (f p) :: ('m daemon_error, _) result)"
  shows "config_peers_of lib nl ps cfg = (Ok (fold config_peer (map f ps) cfg) :: ('m daemon_error, _) result)"
  using assms by (induction ps arbitrary: cfg) simp_all

lemma fold_config_peer:
  "dc_peers (fold config_peer cs cfg) k =
     (case map_of (rev (map (\<lambda>c. (pc_public_key c, c)) cs)) k of Some c \<Rightarrow> Some c | None \<Rightarrow> dc_peers cfg k)"
  "dc_address (fold config_peer cs cfg) = dc_address cfg" "dc_network (fold config_peer cs cfg) = dc_network cfg"
  by (induction cs arbitrary: cfg) (auto simp: config_peer_def map_add_def split: option.splits)

section \<open>The routes of the device\<close>

definition enumerates :: "'n peer_config list \<Rightarrow> 'n device_config \<Rightarrow> bool" where
  "enumerates ps dc \<longleftrightarrow> distinct (map pc_public_key ps) \<and>
     (\<forall>k p. dc_peers dc k = Some p \<longleftrightarrow> p \<in> set ps \<and> pc_public_key p = k)"

definition allowed :: "('n, 't) device \<Rightarrow> bytes \<Rightarrow> 'n list option" where
  "allowed d k = map_option pe_allowed_ips (pl_peers (dv_peers d) k)"

lemma allowed_insert_peer:
  "allowed (insert_peer nl en cfg d) k =
     (if k = pc_public_key cfg \<and> allowed d k = None then Some (pc_allowed_ips cfg) else allowed d k)"
  by (auto simp: allowed_def insert_peer_def list_insert_def with_peer_def peer_secret_new_def set_psk_def Let_def
      split: option.splits)

lemma allowed_fold:
  "allowed (fold (insert_peer nl en) ps d) k =
     (case allowed d k of Some a \<Rightarrow> Some a | None \<Rightarrow> map_of (map (\<lambda>p. (pc_public_key p, pc_allowed_ips p)) ps) k)"
  by (induction ps arbitrary: d) (auto simp: allowed_insert_peer split: option.splits)

lemma list_run_insert_peer: "list_run nl (dv_peers d) \<Longrightarrow> list_run nl (dv_peers (insert_peer nl en p d))"
  by (simp add: insert_peer_def Let_def list_run.insert)

lemma list_run_fold: "list_run nl (dv_peers d) \<Longrightarrow> list_run nl (dv_peers (fold (insert_peer nl en) ps d))"
  by (induction ps arbitrary: d) (simp_all add: list_run_insert_peer)

lemma device_new_peers:
  assumes "enumerates ps cfg"
  shows "list_run nl (dv_peers (device_new nl en rnd cfg ps))"
    "allowed (device_new nl en rnd cfg ps) k = map_option pc_allowed_ips (dc_peers cfg k)"
proof -
  obtain d where d: "device_new nl en rnd cfg ps = fold (insert_peer nl en) ps d"
    "dv_peers d = fst (list_clear nl (peer_list_new nl) (session_index_new rnd))"
    by (simp add: device_new_def reset_peers_def split_beta)
  show "list_run nl (dv_peers (device_new nl en rnd cfg ps))"
    unfolding d(1) by (rule list_run_fold) (simp add: d(2) list_run.intros)
  have "allowed d k = None" by (simp add: allowed_def d(2) list_clear_def)
  then have "allowed (device_new nl en rnd cfg ps) k = map_of (map (\<lambda>p. (pc_public_key p, pc_allowed_ips p)) ps) k"
    by (simp add: d(1) allowed_fold)
  also have "\<dots> = map_option pc_allowed_ips (dc_peers cfg k)"
  proof (cases "dc_peers cfg k")
    case None
    then have "k \<notin> pc_public_key ` set ps" using assms unfolding enumerates_def by (metis imageE option.distinct(1))
    then show ?thesis using None by (simp add: map_of_eq_None_iff image_image)
  next
    case (Some p)
    then have "p \<in> set ps" "pc_public_key p = k" using assms by (auto simp: enumerates_def)
    moreover have "distinct (map fst (map (\<lambda>p. (pc_public_key p, pc_allowed_ips p)) ps))"
      using assms by (simp add: enumerates_def comp_def)
    ultimately show ?thesis using Some by (force intro: map_of_is_SomeI)
  qed
  finally show "allowed (device_new nl en rnd cfg ps) k = map_option pc_allowed_ips (dc_peers cfg k)" .
qed

text \<open>A device whose peers each allow the one address of theirs routes every address to its owner.\<close>

lemma route_to_owner:
  assumes laws: "netlib_laws nl entries" "host_law nl" and run: "list_run nl (dv_peers d)"
    and single: "\<And>k ns. allowed d k = Some ns \<Longrightarrow>
      \<exists>a n. owner k = Some a \<and> length a = 4 \<and> ns = [n] \<and> new_truncate nl (Ipv4 a) 32 = Some n"
    and inj: "\<And>j k a. owner j = Some a \<Longrightarrow> owner k = Some a \<Longrightarrow> allowed d j \<noteq> None \<Longrightarrow> allowed d k \<noteq> None \<Longrightarrow> j = k"
    and k: "allowed d k = Some ns" "owner k = Some a"
  shows "\<exists>i. get_by_ip nl (dv_peers d) (Ipv4 a) = Some i \<and> pr_pub_key (pl_store (dv_peers d) ! i) = k"
proof -
  note inv = list_invD [OF list_run_inv [OF run laws(1)]] and l = netlib_lawsD [OF laws(1)]
  obtain n where n: "length a = 4" "ns = [n]" "new_truncate nl (Ipv4 a) 32 = Some n" using single [OF k(1)] k(2) by auto
  have con: "net_contains nl n (Ipv4 a)" using l(1) [of 32 "Ipv4 a"] n(3) by auto
  obtain e where e: "pl_peers (dv_peers d) k = Some e" "pe_allowed_ips e = [n]" using k(1) n(2) by (auto simp: allowed_def)
  then have "entries (pl_ips (dv_peers d)) n \<noteq> None" using inv(4) by auto
  then obtain m v where m: "longest_match nl (Ipv4 a) (pl_ips (dv_peers d)) = Some (m, v)"
    using l(7) con by (cases "longest_match nl (Ipv4 a) (pl_ips (dv_peers d))") auto
  obtain j f where j: "pl_peers (dv_peers d) j = Some f" "pe_peer f = v" "m \<in> set (pe_allowed_ips f)"
    using inv(3) l(5) [OF m] by blast
  obtain b where b: "owner j = Some b" "length b = 4" "new_truncate nl (Ipv4 b) 32 = Some m"
    using single [of j "pe_allowed_ips f"] j by (auto simp: allowed_def)
  have "a = b" using laws(2) b(2,3) l(5) [OF m] n(1) unfolding host_law_def by blast
  then have "j = k" using inj [of j a k] b(1) k j(1) by (auto simp: allowed_def)
  then have "pr_pub_key (pl_store (dv_peers d) ! v) = k" using inv(2) [OF j(1)] j(2) by simp
  then show ?thesis using m by (simp add: get_by_ip_def cidr_get_by_ip_def)
qed

section \<open>The server's answer as a configuration\<close>

text \<open>What the server knows of a network can be told: keys are base64 of 32 bytes, addresses are
  dotted, and the endpoints that peers have reported parse.\<close>

definition told_ok :: "core_lib \<Rightarrow> (string, vlink_peer) rw_map \<Rightarrow> bool" where
  "told_ok lib ps \<longleftrightarrow> (\<forall>k p ip. (k, p) \<in> set ps \<longrightarrow> pm_ip (vp_model p) = Some ip \<longrightarrow>
     (\<exists>b a. k = encode_base64 lib b \<and> length b = 32 \<and> ip = ipv4_text a) \<and>
     (\<forall>e s. vp_online p = Some e \<longrightarrow> on_endpoint_addr e = Some s \<longrightarrow> ip_from_str s \<noteq> None))"

lemma config_peers_tellable:
  assumes "told_ok lib ps" "m \<in> set (config_peers ps)"
  obtains k p b a where "(k, p) \<in> set ps" "k = encode_base64 lib b" "pm_ip (vp_model p) = Some (ipv4_text a)"
    "tellable lib m b a"
proof -
  let ?msg = "\<lambda>k p ip. \<lparr>be_pub_key = k, be_ip = ip,
             be_endpoint_addr = (case vp_online p of Some e \<Rightarrow> on_endpoint_addr e | None \<Rightarrow> None),
             be_port = (case vp_online p of Some e \<Rightarrow> on_port e | None \<Rightarrow> 0),
             be_last_con_type = None, be_mode = 3, be_is_online = is_online p\<rparr>"
  obtain x where x: "x \<in> set ps" "m \<in> set (case x of (k, p) \<Rightarrow> case pm_ip (vp_model p) of None \<Rightarrow> [] | Some ip \<Rightarrow> [?msg k p ip])"
    using assms(2) unfolding config_peers_def set_concat set_map by blast
  obtain k p where "x = (k, p)" by force
  with x obtain ip where kp: "(k, p) \<in> set ps" "pm_ip (vp_model p) = Some ip" and m: "m = ?msg k p ip"
    by (cases "pm_ip (vp_model p)") simp_all
  obtain b a where ba: "k = encode_base64 lib b" "length b = 32" "ip = ipv4_text a"
    and on: "\<And>e s. vp_online p = Some e \<Longrightarrow> on_endpoint_addr e = Some s \<Longrightarrow> ip_from_str s \<noteq> None"
    using assms(1) kp unfolding told_ok_def by meson
  have "tellable lib m b a" using ba on by (auto simp: tellable_def m split: option.splits)
  then show ?thesis using that kp ba by simp
qed

lemma config_peers_mem:
  "(k, p) \<in> set ps \<Longrightarrow> pm_ip (vp_model p) = Some ip \<Longrightarrow> \<exists>m \<in> set (config_peers ps). be_pub_key m = k \<and> be_ip m = ip"
  by (force simp: config_peers_def)

lemma config_of_told:
  assumes core: "core_laws lib" and net: "netlib_laws nl entries" and told: "told_ok lib ps"
    and new: "net_new (Ipv4 (to_be_bytes 4 (rc_network rc))) (ucast (rc_mask rc)) = Some network"
    and rc: "rc_peers rc = config_peers ps"
  obtains cfg where "config_of_answer lib nl net_new sk args rc = (Ok cfg :: ('m daemon_error, 'n network_config) result)"
    "dc_address (nc_device_config cfg) = to_be_bytes 4 (rc_address rc)" "dc_network (nc_device_config cfg) = network"
    "\<And>b c. dc_peers (nc_device_config cfg) b = Some c \<Longrightarrow>
      \<exists>p a n. (encode_base64 lib b, p) \<in> set ps \<and> pm_ip (vp_model p) = Some (ipv4_text a) \<and> pc_allowed_ips c = [n] \<and>
        new_truncate nl (Ipv4 (to_be_bytes 4 a)) 32 = Some n"
    "\<And>b p ip. (encode_base64 lib b, p) \<in> set ps \<Longrightarrow> pm_ip (vp_model p) = Some ip \<Longrightarrow>
      dc_peers (nc_device_config cfg) b \<noteq> None"
proof -
  define f where "f m = (case bc_peer_enter2peer_config lib nl m :: ('m daemon_error, _) result of Ok c \<Rightarrow> c)" for m
  have f: "bc_peer_enter2peer_config lib nl m = (Ok (f m) :: ('m daemon_error, _) result)"
    "\<exists>k p a n. (k, p) \<in> set ps \<and> k = encode_base64 lib (pc_public_key (f m)) \<and> pm_ip (vp_model p) = Some (ipv4_text a) \<and>
       be_pub_key m = k \<and> pc_allowed_ips (f m) = [n] \<and> new_truncate nl (Ipv4 (to_be_bytes 4 a)) 32 = Some n"
    if m: "m \<in> set (config_peers ps)" for m
  proof -
    obtain k p b a where kp: "(k, p) \<in> set ps" "k = encode_base64 lib b" "pm_ip (vp_model p) = Some (ipv4_text a)"
      and t: "tellable lib m b a" using config_peers_tellable [OF told m] by blast
    obtain c n where c: "bc_peer_enter2peer_config lib nl m = (Ok c :: ('m daemon_error, _) result)" "pc_public_key c = b"
      "pc_allowed_ips c = [n]" "new_truncate nl (Ipv4 (to_be_bytes 4 a)) 32 = Some n"
      using tellable_config [OF core net t] by metis
    then have "f m = c" by (simp add: f_def)
    moreover have "be_pub_key m = k" using t kp(2) by (simp add: tellable_def)
    ultimately show "bc_peer_enter2peer_config lib nl m = (Ok (f m) :: ('m daemon_error, _) result)"
      "\<exists>k p a n. (k, p) \<in> set ps \<and> k = encode_base64 lib (pc_public_key (f m)) \<and> pm_ip (vp_model p) = Some (ipv4_text a) \<and>
       be_pub_key m = k \<and> pc_allowed_ips (f m) = [n] \<and> new_truncate nl (Ipv4 (to_be_bytes 4 a)) 32 = Some n"
      using c kp by blast+
  qed
  let ?dc = "\<lparr>dc_private_key = sk, dc_fwmark = 0,
      dc_port = (if rc_port rc > 0 then ucast (rc_port rc) else case ag_port args of Some p \<Rightarrow> p | None \<Rightarrow> DEFAULT_PORT),
      dc_peers = (\<lambda>_. None), dc_address = to_be_bytes 4 (rc_address rc), dc_network = network\<rparr> :: 'n device_config"
  let ?dc' = "fold config_peer (map f (config_peers ps)) ?dc"
  let ?cfg = "\<lparr>nc_tun_name = None, nc_device_config = ?dc', nc_arg_config = args,
      nc_transports = map (\<lambda>t. \<lparr>tf_proto = et_proto t, tf_params = et_params t\<rparr>) (rc_extra_transports rc),
      nc_stun_servers = [], nc_peer_extra_transports = rc_peer_extra_transports rc\<rparr>"
  have ok: "config_of_answer lib nl net_new sk args rc = (Ok ?cfg :: ('m daemon_error, 'n network_config) result)"
  proof -
    have "config_peers_of lib nl (config_peers ps) ?dc = (Ok ?dc' :: ('m daemon_error, _) result)"
      using f(1) by (intro config_peers_of_Ok) blast
    then show ?thesis using new unfolding config_of_answer_def rc by simp
  qed
  have peers: "dc_peers ?dc' b = map_of (rev (map (\<lambda>c. (pc_public_key c, c)) (map f (config_peers ps)))) b" for b
    by (simp add: fold_config_peer split: option.split)
  show ?thesis
  proof (rule that [OF ok])
    fix b c assume "dc_peers (nc_device_config ?cfg) b = Some c"
    then have "(b, c) \<in> set (rev (map (\<lambda>c. (pc_public_key c, c)) (map f (config_peers ps))))"
      unfolding network_config.select_convs peers by (rule map_of_SomeD)
    then obtain m where "m \<in> set (config_peers ps)" "c = f m" "b = pc_public_key (f m)" by auto
    then show "\<exists>p a n. (encode_base64 lib b, p) \<in> set ps \<and> pm_ip (vp_model p) = Some (ipv4_text a) \<and> pc_allowed_ips c = [n] \<and>
        new_truncate nl (Ipv4 (to_be_bytes 4 a)) 32 = Some n" using f(2) [of m] by blast
  next
    fix b p ip assume "(encode_base64 lib b, p) \<in> set ps" "pm_ip (vp_model p) = Some ip"
    then obtain m where m: "m \<in> set (config_peers ps)" "be_pub_key m = encode_base64 lib b"
      using config_peers_mem by blast
    then have "encode_base64 lib (pc_public_key (f m)) = encode_base64 lib b" using f(2) [of m] by metis
    then have "pc_public_key (f m) = b" using decode_encode_base64 [OF core] by (metis option.inject)
    then have "b \<in> fst ` set (rev (map (\<lambda>c. (pc_public_key c, c)) (map f (config_peers ps))))" using m(1) by force
    then show "dc_peers (nc_device_config ?cfg) b \<noteq> None"
      unfolding network_config.select_convs peers by (simp only: map_of_eq_None_iff not_not)
  qed (simp_all add: fold_config_peer)
qed

lemma ucast_ucast_u8: "ucast (ucast (m :: u8) :: u32) = m"
  by (rule bit_word_eqI) (auto simp: bit_simps)

text \<open>The device built from the answer routes every address the server has given to its owner.\<close>

definition owner_of :: "core_lib \<Rightarrow> (string, vlink_peer) rw_map \<Rightarrow> bytes \<Rightarrow> bytes option" where
  "owner_of lib ps b =
     (case Option.bind (rw_get ps (encode_base64 lib b)) (\<lambda>p. Option.bind (pm_ip (vp_model p)) ip_from_str) of
        Some (Ipv4 a) \<Rightarrow> Some a
      | _ \<Rightarrow> None)"

lemma owner_of_text:
  "rw_get ps (encode_base64 lib b) = Some p \<Longrightarrow> pm_ip (vp_model p) = Some (ipv4_text a) \<Longrightarrow>
    owner_of lib ps b = Some (to_be_bytes 4 a)"
  by (simp add: owner_of_def)

lemma told_device_routes:
  fixes en :: env and rnd :: u32
  assumes core: "core_laws lib" and net: "netlib_laws nl entries" "host_law nl" and ok: "net_ips_ok nw"
    and known: "\<And>b c. dc_peers cfg b = Some c \<Longrightarrow>
      \<exists>p a n. (encode_base64 lib b, p) \<in> set (nw_peers nw) \<and> pm_ip (vp_model p) = Some (ipv4_text a) \<and>
        pc_allowed_ips c = [n] \<and> new_truncate nl (Ipv4 (to_be_bytes 4 a)) 32 = Some n"
    and all: "\<And>b p ip. (encode_base64 lib b, p) \<in> set (nw_peers nw) \<Longrightarrow> pm_ip (vp_model p) = Some ip \<Longrightarrow> dc_peers cfg b \<noteq> None"
    and ps: "enumerates ps cfg" and told: "told_ok lib (nw_peers nw)"
    and q: "rw_get (nw_peers nw) j = Some q" "pm_ip (vp_model q) = Some (ipv4_text a)"
  defines "d \<equiv> device_new nl en rnd cfg ps"
  shows "\<exists>i. get_by_ip nl (dv_peers d) (Ipv4 (to_be_bytes 4 a)) = Some i \<and>
    encode_base64 lib (pr_pub_key (pl_store (dv_peers d) ! i)) = j"
proof -
  have wf: "rw_wf (nw_peers nw)" using ok by (simp add: net_ips_ok_def)
  note in_get = rw_in_iff [OF wf]
  obtain b where b: "j = encode_base64 lib b" using told rw_get_in [OF q(1)] q(2) unfolding told_ok_def by meson
  have allowed_d: "allowed d k = map_option pc_allowed_ips (dc_peers cfg k)" for k
    unfolding d_def by (rule device_new_peers(2) [OF ps])
  have told_peer: "\<exists>p a' n. rw_get (nw_peers nw) (encode_base64 lib k) = Some p \<and> pm_ip (vp_model p) = Some (ipv4_text a') \<and>
      ns = [n] \<and> new_truncate nl (Ipv4 (to_be_bytes 4 a')) 32 = Some n" if "allowed d k = Some ns" for k ns
    using that known [of k] in_get by (auto simp: allowed_d)
  have "\<exists>i. get_by_ip nl (dv_peers d) (Ipv4 (to_be_bytes 4 a)) = Some i \<and> pr_pub_key (pl_store (dv_peers d) ! i) = b"
  proof (rule route_to_owner [where owner = "owner_of lib (nw_peers nw)", OF net])
    show "list_run nl (dv_peers d)" unfolding d_def by (rule device_new_peers(1) [OF ps])
    show "\<exists>a n. owner_of lib (nw_peers nw) k = Some a \<and> length a = 4 \<and> ns = [n] \<and> new_truncate nl (Ipv4 a) 32 = Some n"
      if "allowed d k = Some ns" for k ns
      using told_peer [OF that] by (force simp: owner_of_text)
    show "x = y" if o: "owner_of lib (nw_peers nw) x = Some c" "owner_of lib (nw_peers nw) y = Some c"
      "allowed d x \<noteq> None" "allowed d y \<noteq> None" for x y c
    proof (rule ccontr)
      assume "x \<noteq> y"
      then have ne: "encode_base64 lib x \<noteq> encode_base64 lib y" using decode_encode_base64 [OF core] by (metis option.inject)
      obtain p1 a1 p2 a2 where e: "rw_get (nw_peers nw) (encode_base64 lib x) = Some p1" "pm_ip (vp_model p1) = Some (ipv4_text a1)"
        "rw_get (nw_peers nw) (encode_base64 lib y) = Some p2" "pm_ip (vp_model p2) = Some (ipv4_text a2)"
        using told_peer o(3,4) by (metis not_None_eq)
      have "to_be_bytes 4 a1 = to_be_bytes 4 a2" using o(1,2) owner_of_text [OF e(1,2)] owner_of_text [OF e(3,4)] by simp
      then have "ipv4_text a1 = ipv4_text a2" by (simp add: ipv4_text_def)
      then show False using peer_ips_distinctD [OF wf _ e(1,3) ne e(2)] e(4) ok by (simp add: net_ips_ok_def)
    qed
    have "dc_peers cfg b \<noteq> None" using all rw_get_in [OF q(1)] q(2) b by blast
    then show "allowed d b = Some (the (allowed d b))" by (auto simp: allowed_d)
    show "owner_of lib (nw_peers nw) b = Some (to_be_bytes 4 a)" by (rule owner_of_text [OF q(1) [unfolded b] q(2)])
  qed
  then show ?thesis using b by blast
qed

text \<open>C10: From server to tunnel.  A logged-in daemon without an address asks for its configuration.  The server gives
  it a free address, stores it and answers under the number of the request; the daemon takes that
  answer out of what it receives, and the device it builds has this address and routes the address of every peer of the
  network to the peer with that peer's key, whatever the order in which the peers are configured.\<close>

theorem configured_network_routes:
  fixes ms :: "server_text to_client list"
  assumes laws: "core_laws lib" "netlib_laws nl entries" "host_law nl"
    and server: "net_ips_ok nw" "rw_get (sv_networks sv) n = Some nw" "told_ok lib (nw_peers nw)"
    and self: "rw_get (nw_peers nw) k = Some p" "pm_ip (vp_model p) = None" "co_id cl \<in> set (sv_open sv)"
    and free: "free \<in> set (drop 2 (net4_hosts nl4 (nw_cidr nw)))" "ipv4_text free \<notin> set (peer_ips (nw_peers nw))"
    and db: "\<And>ip. update_peer_ip db (sv_db sv) (pm_id (vp_model p)) ip = Ok (db' ip)"
      "\<And>d. find_transports db d (pm_id (vp_model p)) = Ok ts"
    and conn: "dn_connected c" "\<forall>m \<in> set ms. tc_id m \<noteq> dn_next c + 1"
    and new: "net_new (Ipv4 (to_be_bytes 4 (net4_address nl4 (nw_cidr nw)))) (net4_mask nl4 (nw_cidr nw)) = Some network"
  shows "\<exists>ip sv' rc cfg.
    process_request db nl4 \<lparr>id_pub_key = k, id_network = n\<rparr> cl \<lparr>ts_id = dn_next c + 1, ts_data = Some ReqConfig\<rparr> sv = (sv', Ok ())
    \<and> sv_out sv' = sv_out sv @ [(co_id cl, Some (dn_next c + 1), RespConfig rc)] \<and> peer_address sv' n k = Some (ipv4_text ip)
    \<and> snd (request_for_config lib nl net_new Written
        (ms @ map fst (to_client_handler w [(Some (dn_next c + 1), RespConfig rc)])) e sk args (Some c)) = Ok cfg
    \<and> dc_address (nc_device_config cfg) = to_be_bytes 4 ip
    \<and> (\<forall>ps en rnd j q a. enumerates ps (nc_device_config cfg) \<longrightarrow> rw_get (nw_peers nw) j = Some q \<longrightarrow>
         pm_ip (vp_model q) = Some (ipv4_text a) \<longrightarrow>
         (let l = dv_peers (device_new nl en rnd (nc_device_config cfg) ps)
          in \<exists>i. get_by_ip nl l (Ipv4 (to_be_bytes 4 a)) = Some i \<and> encode_base64 lib (pr_pub_key (pl_store l ! i)) = j))"
proof -
  let ?ctx = "\<lparr>rx_id = dn_next c + 1, rx_client_id = \<lparr>id_pub_key = k, id_network = n\<rparr>, rx_client = cl\<rparr>"
  obtain ip sv' rc where r: "req_config_exec db nl4 ?ctx sv = (sv', Ok ())" "peer_address sv' n k = Some (ipv4_text ip)"
    "sv_out sv' = sv_out sv @ [(co_id cl, Some (dn_next c + 1), RespConfig rc)]" "rc_address rc = ip"
    "rc_mask rc = ucast (net4_mask nl4 (nw_cidr nw))" "rc_network rc = net4_address nl4 (nw_cidr nw)"
    "rc_peers rc = config_peers (nw_peers nw)"
    using req_config_fresh [OF server(1,2) self(1,2) _ _ free db, of ?ctx] self(3) by auto
  have served: "process_request db nl4 \<lparr>id_pub_key = k, id_network = n\<rparr> cl
      \<lparr>ts_id = dn_next c + 1, ts_data = Some ReqConfig\<rparr> sv = (sv', Ok ())"
    using r(1) by (simp add: process_request_def dispatch_def)
  have net: "net_new (Ipv4 (to_be_bytes 4 (rc_network rc))) (ucast (rc_mask rc)) = Some network"
    using new by (simp only: r(5,6) ucast_ucast_u8)
  obtain cfg where cfg: "config_of_answer lib nl net_new sk args rc = (Ok cfg :: (server_text daemon_error, _) result)"
    "dc_address (nc_device_config cfg) = to_be_bytes 4 (rc_address rc)" "dc_network (nc_device_config cfg) = network"
    and known: "\<And>b c. dc_peers (nc_device_config cfg) b = Some c \<Longrightarrow>
      \<exists>p a n. (encode_base64 lib b, p) \<in> set (nw_peers nw) \<and> pm_ip (vp_model p) = Some (ipv4_text a) \<and>
        pc_allowed_ips c = [n] \<and> new_truncate nl (Ipv4 (to_be_bytes 4 a)) 32 = Some n"
    and all: "\<And>b p ip. (encode_base64 lib b, p) \<in> set (nw_peers nw) \<Longrightarrow> pm_ip (vp_model p) = Some ip \<Longrightarrow>
      dc_peers (nc_device_config cfg) b \<noteq> None"
    by (rule config_of_told [where ?'m = server_text and net_new = net_new and rc = rc and sk = sk
          and args = args, OF laws(1,2) server(3) net r(7)]; rule that; assumption)
  have "await_reply (dn_next c + 1) (ms @ map fst (to_client_handler w [(Some (dn_next c + 1), RespConfig rc)])) e =
      Ok (Some (RespConfig rc))"
    using await_reply_first [OF conn(2), of "\<lparr>tc_id = dn_next c + 1, tc_data = Some (RespConfig rc)\<rparr>" "[]" e] by simp
  then have "snd (request_for_config lib nl net_new Written
      (ms @ map fst (to_client_handler w [(Some (dn_next c + 1), RespConfig rc)])) e sk args (Some c)) = Ok cfg"
    using conn(1) cfg(1) by (simp add: request_for_config_def client_request_def get_conn_def conn_request_written)
  moreover have "\<exists>i. get_by_ip nl (dv_peers (device_new nl en rnd (nc_device_config cfg) ps)) (Ipv4 (to_be_bytes 4 a)) = Some i \<and>
      encode_base64 lib (pr_pub_key (pl_store (dv_peers (device_new nl en rnd (nc_device_config cfg) ps)) ! i)) = j"
    if "enumerates ps (nc_device_config cfg)" "rw_get (nw_peers nw) j = Some q" "pm_ip (vp_model q) = Some (ipv4_text a)"
    for ps en rnd j q a
    by (rule told_device_routes [OF laws server(1) known all that(1) server(3) that(2,3)])
  ultimately show ?thesis using served r(2,3,4) cfg(2) unfolding Let_def by blast
qed

section \<open>A concrete network\<close>

lemma byte_bits_inj: "byte_bits a = byte_bits b \<Longrightarrow> a = b"
proof (rule bit_word_eqI)
  fix n assume eq: "byte_bits a = byte_bits b" and "n < LENGTH(8)"
  then have "byte_bits a ! (7 - n) = byte_bits b ! (7 - n)" "7 - n < 8" "7 - (7 - n) = n" by simp_all
  then show "bit a n = bit b n" by (simp add: byte_bits_def)
qed

lemma concat_byte_bits_inj:
  "length xs = length ys \<Longrightarrow> concat (map byte_bits xs) = concat (map byte_bits ys) \<Longrightarrow> xs = ys"
proof (induction xs ys rule: list_induct2)
  case (Cons x xs y ys)
  have "length (byte_bits x) = length (byte_bits y)" by (simp add: byte_bits_def)
  then show ?case using Cons byte_bits_inj by auto
qed simp

lemma length_bits: "length (concat (map byte_bits b)) = 8 * length b"
  by (induction b) (simp_all add: byte_bits_def)

lemma list_host_law: "host_law list_netlib"
  unfolding host_law_def
proof (intro allI impI)
  fix b n ip b'
  assume h: "length b = 4" "new_truncate list_netlib (Ipv4 b) 32 = Some n" "net_contains list_netlib n ip"
    "ip = Ipv4 b'" "length b' = 4"
  then have "concat (map byte_bits b') = concat (map byte_bits b)"
    by (auto simp: list_netlib_def list_contains_def length_bits)
  then show "b' = b" using concat_byte_bits_inj h(1,5) by metis
qed

abbreviation mesh_netlib :: "(list_net, (list_net \<times> nat) list, nat) netlib" where
  "mesh_netlib \<equiv> list_netlib"

definition mesh_key :: bytes where
  "mesh_key = replicate 32 74"

definition mesh_network :: "u32 vlink_network" where
  "mesh_network = \<lparr>nw_id = 1, nw_cidr = 0,
     nw_peers = [(''k'', peer_from_model (plain_peer 1 ''k'' None)),
                 (encode_base64 plain_core mesh_key, peer_from_model (plain_peer 2 (encode_base64 plain_core mesh_key) (Some (ipv4_text 2))))],
     nw_connects = rw_new\<rparr>"

definition mesh_server :: "(u32, peer_model list) server" where
  "mesh_server = (server_new ''K'' [])\<lparr>sv_networks := [(1, mesh_network)], sv_open := [0]\<rparr>"

definition mesh_conn :: daemon_conn where
  "mesh_conn = conn_new\<lparr>dn_next := 1\<rparr>"

lemma mesh_key_text: "encode_base64 plain_core mesh_key \<noteq> ''k''"
proof
  assume "encode_base64 plain_core mesh_key = ''k''"
  then have "length (encode_base64 plain_core mesh_key) = length ''k''" by (rule arg_cong)
  then show False by (simp add: encode_base64_def plain_core_def mesh_key_def)
qed

lemma mesh_ok: "net_ips_ok mesh_network" "told_ok plain_core (nw_peers mesh_network)"
proof -
  show "net_ips_ok mesh_network" using mesh_key_text
    by (auto simp: net_ips_ok_def mesh_network_def rw_wf_def rw_get_def peer_from_model_def plain_peer_def split: if_splits)
  have "(\<exists>b a. encode_base64 plain_core mesh_key = encode_base64 plain_core b \<and> length b = 32 \<and> ipv4_text 2 = ipv4_text a)"
    by (rule exI [of _ mesh_key], rule exI [of _ 2]) (simp add: mesh_key_def)
  then show "told_ok plain_core (nw_peers mesh_network)"
    by (auto simp: told_ok_def mesh_network_def peer_from_model_def plain_peer_def)
qed

theorem configured_network_routes_witness:
  "\<exists>cfg rc. snd (request_for_config plain_core mesh_netlib
        (new_truncate mesh_netlib) Written
        ([] @ map fst (to_client_handler 5 [(Some (dn_next mesh_conn + 1), RespConfig rc :: to_client_msg)])) RecvTimeout []
        \<lparr>ag_endpoint_addr = None, ag_port = None\<rparr> (Some mesh_conn)) = Ok cfg
    \<and> (\<forall>ps. enumerates ps (nc_device_config cfg) \<longrightarrow>
        (let l = dv_peers (device_new list_netlib plain_env 7 (nc_device_config cfg) ps)
         in \<exists>i. get_by_ip list_netlib l (Ipv4 (to_be_bytes 4 (2 :: u32))) = Some i \<and>
              encode_base64 plain_core (pr_pub_key (pl_store l ! i)) = encode_base64 plain_core mesh_key))"
proof -
  let ?k = "peer_from_model (plain_peer 1 ''k'' None)"
  let ?j = "peer_from_model (plain_peer 2 (encode_base64 plain_core mesh_key) (Some (ipv4_text 2)))"
  let ?up = "\<lambda>ip. map (\<lambda>m. if pm_id m = pm_id (vp_model ?k) then m\<lparr>pm_ip := Some ip\<rparr> else m) (sv_db mesh_server)"
  have nw: "rw_get (sv_networks mesh_server) 1 = Some mesh_network" "co_id (conn 0) \<in> set (sv_open mesh_server)"
    by (simp_all add: mesh_server_def rw_get_def conn_def)
  have get: "rw_get (nw_peers mesh_network) ''k'' = Some ?k" "rw_get (nw_peers mesh_network) (encode_base64 plain_core mesh_key) = Some ?j"
    using mesh_key_text by (simp_all add: mesh_network_def rw_get_def)
  have "peer_ips (nw_peers mesh_network) = [ipv4_text 2]"
    by (simp add: mesh_network_def peer_from_model_def plain_peer_def)
  moreover have "ipv4_text 3 \<noteq> ipv4_text 2" by code_simp
  ultimately have free: "ipv4_text 3 \<notin> set (peer_ips (nw_peers mesh_network))" by simp
  have host: "3 \<in> set (drop 2 (net4_hosts plain_net4 (nw_cidr mesh_network)))" by code_simp
  have up: "update_peer_ip plain_db (sv_db mesh_server) (pm_id (vp_model ?k)) ip = Ok (?up ip)" for ip
    by (simp add: plain_db_def)
  have ts: "find_transports plain_db d (pm_id (vp_model ?k)) = Ok []" for d by (simp add: plain_db_def)
  have net: "new_truncate mesh_netlib
      (Ipv4 (to_be_bytes 4 (net4_address plain_net4 (nw_cidr mesh_network)))) (net4_mask plain_net4 (nw_cidr mesh_network)) =
      Some (False, take 29 (concat (map byte_bits (to_be_bytes 4 (0 :: u32)))), 29)"
    by (simp add: list_netlib_def plain_net4_def mesh_network_def)
  have none: "pm_ip (vp_model ?k) = None" by (simp add: peer_from_model_def plain_peer_def)
  have con: "dn_connected mesh_conn" "\<forall>m \<in> set []. tc_id m \<noteq> dn_next mesh_conn + 1" by (simp_all add: mesh_conn_def conn_new_def)
  from configured_network_routes [where db' = ?up and ms = "[]" and w = 5 and e = RecvTimeout and sk = "[]"
      and args = "\<lparr>ag_endpoint_addr = None, ag_port = None\<rparr>"
      and net_new = "new_truncate mesh_netlib", OF plain_core_laws list_netlib_laws list_host_law mesh_ok(1) nw(1) mesh_ok(2) get(1) none nw(2)
      host free up ts con net]
  obtain rc cfg where r: "snd (request_for_config plain_core mesh_netlib
        (new_truncate mesh_netlib) Written
        ([] @ map fst (to_client_handler 5 [(Some (dn_next mesh_conn + 1), RespConfig rc :: to_client_msg)])) RecvTimeout []
        \<lparr>ag_endpoint_addr = None, ag_port = None\<rparr> (Some mesh_conn)) = Ok cfg"
    and route: "\<forall>ps en rnd j q a. enumerates ps (nc_device_config cfg) \<longrightarrow> rw_get (nw_peers mesh_network) j = Some q \<longrightarrow>
         pm_ip (vp_model q) = Some (ipv4_text a) \<longrightarrow>
         (let l = dv_peers (device_new list_netlib en rnd (nc_device_config cfg) ps)
          in \<exists>i. get_by_ip list_netlib l (Ipv4 (to_be_bytes 4 a)) = Some i \<and> encode_base64 plain_core (pr_pub_key (pl_store l ! i)) = j)"
    by blast
  have "pm_ip (vp_model ?j) = Some (ipv4_text 2)" by (simp add: peer_from_model_def plain_peer_def)
  then show ?thesis using r route get(2) by blast
qed

end
