(* ===== verification/Tun.thy ===== *)
theory Tun
  imports Prelude
begin

unbundle bit_operations_syntax

text \<open>
  The tunnel interface of \<open>vlink-tun\<close> on Unix: the trait \<open>Tun\<close> (\<open>tun/mod.rs\<close>), socket addresses as C
  structures (\<open>tun/unix/sockaddr.rs\<close>) and the Linux implementation (\<open>tun/linux/tun.rs\<close>, \<open>tun/linux/sys.rs\<close>).
  The kernel is a parameter: system calls take and return the state of the kernel, requests to a network interface
  are the bytes of a C structure.  A target is little-endian, as the supported ones are.  Waiting for a descriptor is
  a list of what each wait and system call comes back with.
\<close>

section \<open>Errors and system calls\<close>

datatype io_error = OsError int | IoKind string | IoOther string

datatype tun_error = InvalidName | TunIO io_error | Sys int | InvalidIpPacket | Closed | Unsupported string

text \<open>The error type of the crate (\<open>errors.rs\<close>); its variant for noise errors does not occur here.\<close>

datatype start_error = DevIO io_error | DevTun tun_error

type_synonym ('w, 'e, 'a) op = "'w \<Rightarrow> ('e, 'a) result \<times> 'w"

definition op_ret :: "'a \<Rightarrow> ('w, 'e, 'a) op" where
  "op_ret x w = (Ok x, w)"

definition op_bind :: "('w, 'e, 'a) op \<Rightarrow> ('a \<Rightarrow> ('w, 'e, 'b) op) \<Rightarrow> ('w, 'e, 'b) op" where
  "op_bind m f w = (case m w of
      (Ok x, w') \<Rightarrow> f x w'
    | (Err e, w') \<Rightarrow> (Err e, w')
    | (Panic, w') \<Rightarrow> (Panic, w'))"

definition op_lift :: "('e, 'a) result \<Rightarrow> ('w, 'e, 'a) op" where
  "op_lift r w = (r, w)"

definition op_err :: "('e \<Rightarrow> 'f) \<Rightarrow> ('w, 'e, 'a) op \<Rightarrow> ('w, 'f, 'a) op" where
  "op_err g m w = (case m w of (r, w') \<Rightarrow> (map_err g r, w'))"

text \<open>\<open>kn_lossy\<close> is \<open>to_string_lossy\<close> of the standard library; \<open>kn_async\<close> registers a descriptor with the runtime.\<close>

record ('c, 'w) kernel =
  kn_open :: "string \<Rightarrow> ('w, int, nat) op"
  kn_socket :: "('w, int, nat) op"
  kn_ioctl :: "'c \<Rightarrow> nat \<Rightarrow> bytes \<Rightarrow> ('w, int, bytes) op"
  kn_getfl :: "nat \<Rightarrow> ('w, int, u32) op"
  kn_setfl :: "nat \<Rightarrow> u32 \<Rightarrow> ('w, int, unit) op"
  kn_async :: "nat \<Rightarrow> ('w, int, unit) op"
  kn_lossy :: "bytes \<Rightarrow> string"

text \<open>What one wait for a descriptor, and the call after it, come back with.\<close>

datatype 'a io_turn = NotReady io_error | WouldBlock | Failed io_error | Done 'a

section \<open>Socket addresses (unix/sockaddr.rs)\<close>

record sockaddr_in =
  sin_family :: u16
  sin_port :: u16
  sin_addr :: u32

definition AF_INET :: u16 where "AF_INET = 2"

text \<open>How a target lays out a socket address and an interface request.\<close>

record layout =
  ly_ifreq :: nat
  ly_put :: "sockaddr_in \<Rightarrow> bytes"
  ly_get :: "bytes \<Rightarrow> sockaddr_in"

definition linux_layout :: layout where
  "linux_layout = \<lparr>ly_ifreq = 40,
     ly_put = (\<lambda>a. to_le_bytes 2 (sin_family a) @ to_le_bytes 2 (sin_port a) @ to_le_bytes 4 (sin_addr a) @ replicate 8 0),
     ly_get = (\<lambda>bs. \<lparr>sin_family = from_le_bytes (take 2 bs), sin_port = from_le_bytes (take 2 (drop 2 bs)),
       sin_addr = from_le_bytes (take 4 (drop 4 bs))\<rparr>)\<rparr>"

definition sockaddr_from_ip :: "bytes \<Rightarrow> sockaddr_in" where
  "sockaddr_from_ip octets = \<lparr>sin_family = AF_INET, sin_port = 0, sin_addr = from_le_bytes octets\<rparr>"

definition sockaddr_to_ip :: "sockaddr_in \<Rightarrow> bytes" where
  "sockaddr_to_ip a = to_le_bytes 4 (sin_addr a)"

definition sockaddr_new :: "layout \<Rightarrow> bytes \<Rightarrow> (io_error, sockaddr_in) result" where
  "sockaddr_new ly bs =
     (if sin_family (ly_get ly bs) \<noteq> AF_INET then Err (IoOther ''invalid address'') else Ok (ly_get ly bs))"

section \<open>Interface requests\<close>

definition IFNAMSIZ :: nat where "IFNAMSIZ = 16"

definition name_bytes :: "string \<Rightarrow> bytes" where
  "name_bytes s = map of_char s"

text \<open>The request with a payload in its union; the rest of the union is zero.\<close>

definition with_ifru :: "layout \<Rightarrow> bytes \<Rightarrow> bytes \<Rightarrow> bytes" where
  "with_ifru ly payload req = take IFNAMSIZ req @ payload @ replicate (ly_ifreq ly - IFNAMSIZ - length payload) 0"

definition ifru :: "bytes \<Rightarrow> bytes" where
  "ifru req = drop IFNAMSIZ req"

text \<open>\<open>ptr::copy_nonoverlapping\<close> of a name into a zeroed request.  A name longer than the request would be written
  past its end, which has no defined behaviour.\<close>

definition raw_request :: "layout \<Rightarrow> string \<Rightarrow> ('e, bytes) result" where
  "raw_request ly name =
     (if length name \<le> ly_ifreq ly then Ok (name_bytes name @ replicate (ly_ifreq ly - length name) 0) else Panic)"

definition ifru_flags :: "bytes \<Rightarrow> u16" where
  "ifru_flags req = from_le_bytes (take 2 (ifru req))"

definition ifru_mtu :: "bytes \<Rightarrow> u32" where
  "ifru_mtu req = from_le_bytes (take 4 (ifru req))"

definition IFF_UP :: u16 where "IFF_UP = 0x1"
definition IFF_RUNNING :: u16 where "IFF_RUNNING = 0x40"
definition IFF_TUN :: u16 where "IFF_TUN = 0x1"
definition IFF_NO_PI :: u16 where "IFF_NO_PI = 0x1000"
definition O_NONBLOCK :: u32 where "O_NONBLOCK = 0x800"

section \<open>The trait (tun/mod.rs)\<close>

text \<open>The operations of \<open>Tun\<close> as a device uses them; \<open>set_ip\<close> has a default body.\<close>

record ('w, 't) tun_ops =
  to_new :: "string option \<Rightarrow> bool \<Rightarrow> ('w, start_error, 't) op"
  to_enabled :: "'t \<Rightarrow> bool \<Rightarrow> ('w, io_error, unit) op"
  to_name :: "'t \<Rightarrow> string"
  to_mtu :: "'t \<Rightarrow> ('w, tun_error, u16) op"
  to_set_mtu :: "'t \<Rightarrow> u16 \<Rightarrow> ('w, tun_error, unit) op"
  to_address :: "'t \<Rightarrow> ('w, io_error, bytes) op"
  to_set_address :: "'t \<Rightarrow> bytes \<Rightarrow> ('w, io_error, unit) op"
  to_netmask :: "'t \<Rightarrow> ('w, io_error, bytes) op"
  to_set_netmask :: "'t \<Rightarrow> bytes \<Rightarrow> ('w, io_error, unit) op"
  to_set_ip :: "'t \<Rightarrow> bytes \<Rightarrow> bytes \<Rightarrow> ('w, io_error, unit) op"

definition tun_set_ip ::
    "('t \<Rightarrow> bytes \<Rightarrow> ('w, io_error, unit) op) \<Rightarrow> ('t \<Rightarrow> bytes \<Rightarrow> ('w, io_error, unit) op) \<Rightarrow>
     't \<Rightarrow> bytes \<Rightarrow> bytes \<Rightarrow> ('w, io_error, unit) op" where
  "tun_set_ip set_address set_netmask t address m =
     op_bind (set_address t address) (\<lambda>_. set_netmask t m)"

section \<open>Linux (linux/sys.rs, linux/tun.rs)\<close>

datatype linux_request = IoctlTunSetIff | IoctlTunGetIff | IoctlSetMtu | IoctlGetMtu | Siocgifaddr | Siocsifaddr
  | Siocgifnetmask | Siocsifnetmask | Siocgifflags | Siocsifflags

fun linux_code :: "linux_request \<Rightarrow> u32" where
  "linux_code IoctlTunSetIff = 0x400454ca"
| "linux_code IoctlTunGetIff = 0x800454d2"
| "linux_code IoctlSetMtu = 0x8922"
| "linux_code IoctlGetMtu = 0x8921"
| "linux_code Siocgifaddr = 0x8915"
| "linux_code Siocsifaddr = 0x8916"
| "linux_code Siocgifnetmask = 0x891b"
| "linux_code Siocsifnetmask = 0x891c"
| "linux_code Siocgifflags = 0x8913"
| "linux_code Siocsifflags = 0x8914"

type_synonym 'w linux_kernel = "(u32, 'w) kernel"

definition linux_ioctl :: "'w linux_kernel \<Rightarrow> linux_request \<Rightarrow> nat \<Rightarrow> bytes \<Rightarrow> ('w, int, bytes) op" where
  "linux_ioctl k r fd req = kn_ioctl k (linux_code r) fd req"

text \<open>\<open>copy_from_slice\<close> into the 16 bytes of the name panics when the name does not fit.\<close>

definition new_ifreq :: "string \<Rightarrow> ('e, bytes) result" where
  "new_ifreq name =
     (if length name \<le> IFNAMSIZ then Ok (name_bytes name @ replicate (ly_ifreq linux_layout - length name) 0) else Panic)"

definition linux_set_nonblocking :: "('c, 'w) kernel \<Rightarrow> nat \<Rightarrow> ('w, tun_error, unit) op" where
  "linux_set_nonblocking k fd =
     op_bind (op_err Sys (kn_getfl k fd)) (\<lambda>flag. op_err Sys (kn_setfl k fd (O_NONBLOCK OR flag)))"

definition sys_set_mtu :: "'w linux_kernel \<Rightarrow> string \<Rightarrow> u16 \<Rightarrow> ('w, tun_error, unit) op" where
  "sys_set_mtu k name mtu =
     op_bind (op_err Sys (kn_socket k)) (\<lambda>fd.
     op_bind (op_lift (new_ifreq name)) (\<lambda>ifr.
     op_bind (op_err Sys (linux_ioctl k IoctlSetMtu fd (with_ifru linux_layout (to_le_bytes 4 (ucast mtu :: u32)) ifr)))
       (\<lambda>_. op_ret ())))"

definition sys_get_mtu :: "'w linux_kernel \<Rightarrow> string \<Rightarrow> ('w, tun_error, u16) op" where
  "sys_get_mtu k name =
     op_bind (op_err Sys (kn_socket k)) (\<lambda>fd.
     op_bind (op_lift (new_ifreq name)) (\<lambda>ifr.
     op_bind (op_err Sys (linux_ioctl k IoctlGetMtu fd ifr)) (\<lambda>ifr. op_ret (ucast (ifru_mtu ifr)))))"

record native_tun =
  nt_fd :: nat
  nt_ctrl :: nat
  nt_name :: string

definition DEVICE_PATH :: string where "DEVICE_PATH = ''/dev/net/tun''"

text \<open>\<open>CStr::from_ptr\<close> reads up to the first zero byte, past the end of the name when the name has none.\<close>

definition cstr :: "bytes \<Rightarrow> bytes" where
  "cstr bs = takeWhile (\<lambda>b. b \<noteq> 0) bs"

definition linux_new :: "'w linux_kernel \<Rightarrow> string option \<Rightarrow> bool \<Rightarrow> ('w, tun_error, native_tun) op" where
  "linux_new k name is_tap =
     (if (case name of Some n \<Rightarrow> length n > 16 | None \<Rightarrow> False) then op_lift (Err InvalidName)
      else
        op_bind (op_err Sys (kn_open k DEVICE_PATH)) (\<lambda>fd.
        op_bind (op_lift (case name of None \<Rightarrow> Ok (replicate (ly_ifreq linux_layout) 0) | Some n \<Rightarrow> new_ifreq n)) (\<lambda>ifr.
        op_bind (op_err Sys (linux_ioctl k IoctlTunSetIff fd
                   (with_ifru linux_layout (to_le_bytes 2 (IFF_TUN OR IFF_NO_PI)) ifr))) (\<lambda>ifr.
        op_bind (linux_set_nonblocking k fd) (\<lambda>_.
        op_bind (op_err (TunIO \<circ> OsError) (kn_socket k)) (\<lambda>ctrl.
        let name = kn_lossy k (cstr ifr) in
        op_bind (op_err (TunIO \<circ> OsError) (kn_async k fd)) (\<lambda>_.
        op_bind (op_err (TunIO \<circ> OsError) (kn_async k ctrl)) (\<lambda>_.
          op_ret \<lparr>nt_fd = fd, nt_ctrl = ctrl, nt_name = name\<rparr>))))))))"

definition request :: "native_tun \<Rightarrow> ('e, bytes) result" where
  "request t = raw_request linux_layout (nt_name t)"

definition linux_enabled :: "'w linux_kernel \<Rightarrow> native_tun \<Rightarrow> bool \<Rightarrow> ('w, io_error, unit) op" where
  "linux_enabled k t value =
     op_bind (op_lift (request t)) (\<lambda>req.
     op_bind (op_err OsError (linux_ioctl k Siocgifflags (nt_ctrl t) req)) (\<lambda>req.
     let flags = (if value then ifru_flags req OR (IFF_UP OR IFF_RUNNING) else ifru_flags req AND NOT IFF_UP) in
     op_bind (op_err OsError (linux_ioctl k Siocsifflags (nt_ctrl t)
                (take IFNAMSIZ req @ to_le_bytes 2 flags @ drop 18 req))) (\<lambda>_. op_ret ())))"

definition linux_mtu :: "'w linux_kernel \<Rightarrow> native_tun \<Rightarrow> ('w, tun_error, u16) op" where
  "linux_mtu k t = sys_get_mtu k (nt_name t)"

definition linux_set_mtu :: "'w linux_kernel \<Rightarrow> native_tun \<Rightarrow> u16 \<Rightarrow> ('w, tun_error, unit) op" where
  "linux_set_mtu k t mtu = sys_set_mtu k (nt_name t) mtu"

definition linux_address :: "'w linux_kernel \<Rightarrow> native_tun \<Rightarrow> ('w, io_error, bytes) op" where
  "linux_address k t =
     op_bind (op_lift (request t)) (\<lambda>req.
     op_bind (op_err OsError (linux_ioctl k Siocgifaddr (nt_ctrl t) req)) (\<lambda>req.
     op_lift (rbind (sockaddr_new linux_layout (ifru req)) (\<lambda>a. Ok (sockaddr_to_ip a)))))"

definition linux_set_address :: "'w linux_kernel \<Rightarrow> native_tun \<Rightarrow> bytes \<Rightarrow> ('w, io_error, unit) op" where
  "linux_set_address k t value =
     op_bind (op_lift (request t)) (\<lambda>req.
     op_bind (op_err OsError (linux_ioctl k Siocsifaddr (nt_ctrl t)
                (with_ifru linux_layout (ly_put linux_layout (sockaddr_from_ip value)) req))) (\<lambda>_. op_ret ()))"

definition linux_netmask :: "'w linux_kernel \<Rightarrow> native_tun \<Rightarrow> ('w, io_error, bytes) op" where
  "linux_netmask k t =
     op_bind (op_lift (request t)) (\<lambda>req.
     op_bind (op_err OsError (linux_ioctl k Siocgifnetmask (nt_ctrl t) req)) (\<lambda>req.
     op_lift (rbind (sockaddr_new linux_layout (ifru req)) (\<lambda>a. Ok (sockaddr_to_ip a)))))"

definition linux_set_netmask :: "'w linux_kernel \<Rightarrow> native_tun \<Rightarrow> bytes \<Rightarrow> ('w, io_error, unit) op" where
  "linux_set_netmask k t value =
     op_bind (op_lift (request t)) (\<lambda>req.
     op_bind (op_err OsError (linux_ioctl k Siocsifnetmask (nt_ctrl t)
                (with_ifru linux_layout (ly_put linux_layout (sockaddr_from_ip value)) req))) (\<lambda>_. op_ret ()))"

definition linux_ops :: "'w linux_kernel \<Rightarrow> ('w, native_tun) tun_ops" where
  "linux_ops k = \<lparr>to_new = (\<lambda>name is_tap. op_err DevTun (linux_new k name is_tap)), to_enabled = linux_enabled k, to_name = nt_name, to_mtu = linux_mtu k,
     to_set_mtu = linux_set_mtu k, to_address = linux_address k, to_set_address = linux_set_address k,
     to_netmask = linux_netmask k, to_set_netmask = linux_set_netmask k,
     to_set_ip = tun_set_ip (linux_set_address k) (linux_set_netmask k)\<rparr>"

text \<open>Packets: \<open>None\<close> means the call still waits.  A write that would block counts as done.\<close>

fun linux_recv :: "bytes io_turn list \<Rightarrow> (tun_error, bytes) result option" where
  "linux_recv [] = None"
| "linux_recv (NotReady e # _) = Some (Err (TunIO e))"
| "linux_recv (WouldBlock # rest) = linux_recv rest"
| "linux_recv (Failed e # _) = Some (Err (TunIO e))"
| "linux_recv (Done packet # _) = Some (Ok (take 1500 packet))"

fun linux_send :: "unit io_turn \<Rightarrow> bytes \<Rightarrow> bytes list \<times> (tun_error, unit) result" where
  "linux_send (NotReady e) buf = ([], Err (TunIO e))"
| "linux_send WouldBlock buf = ([], Ok ())"
| "linux_send (Failed e) buf = ([], Err (TunIO e))"
| "linux_send (Done _) buf = ([buf], Ok ())"

section \<open>Interfaces with an address\<close>

text \<open>What a device relies on when it configures an interface: an address or mask that was set is read back, and
  setting the mask leaves the address alone.  Nothing is promised of the mask when the address is set (the kernel then puts
  in the default of the address class), so the order of the two matters.\<close>

locale ip_interface =
  fixes lawful :: "'k \<Rightarrow> bool"
    and usable :: "'t \<Rightarrow> bool"
    and set_address :: "'k \<Rightarrow> 't \<Rightarrow> bytes \<Rightarrow> ('w, io_error, unit) op"
    and address :: "'k \<Rightarrow> 't \<Rightarrow> ('w, io_error, bytes) op"
    and set_netmask :: "'k \<Rightarrow> 't \<Rightarrow> bytes \<Rightarrow> ('w, io_error, unit) op"
    and netmask_of :: "'k \<Rightarrow> 't \<Rightarrow> ('w, io_error, bytes) op"
  assumes address_set: "lawful k \<Longrightarrow> usable t \<Longrightarrow> length a = 4 \<Longrightarrow> set_address k t a w = (Ok (), w') \<Longrightarrow> fst (address k t w') = Ok a"
    and netmask_set: "lawful k \<Longrightarrow> usable t \<Longrightarrow> length m = 4 \<Longrightarrow> set_netmask k t m w = (Ok (), w') \<Longrightarrow> fst (netmask_of k t w') = Ok m"
    and netmask_keeps: "lawful k \<Longrightarrow> usable t \<Longrightarrow> set_netmask k t m w = (Ok (), w') \<Longrightarrow> fst (address k t w') = fst (address k t w)"
begin

lemma set_ip_reads_back:
  assumes "lawful k" "usable t" "length a = 4" "length m = 4"
    and "tun_set_ip (set_address k) (set_netmask k) t a m w = (Ok (), w')"
  shows "fst (address k t w') = Ok a" "fst (netmask_of k t w') = Ok m"
proof -
  obtain w1 where w1: "set_address k t a w = (Ok (), w1)" "set_netmask k t m w1 = (Ok (), w')"
    using assms(5) by (auto simp: tun_set_ip_def op_bind_def split: prod.splits result.splits)
  show "fst (address k t w') = Ok a" using netmask_keeps [OF assms(1,2) w1(2)] address_set [OF assms(1-3) w1(1)] by simp
  show "fst (netmask_of k t w') = Ok m" by (rule netmask_set [OF assms(1,2,4) w1(2)])
qed

end

text \<open>The part of the kernel's contract this rests on (\<open>netdevice(7)\<close>), for the four requests of a target; reading an
  address changes nothing.\<close>

definition same_addr :: "layout \<Rightarrow> bytes \<Rightarrow> bytes \<Rightarrow> bool" where
  "same_addr ly a b \<longleftrightarrow> sin_family (ly_get ly a) = sin_family (ly_get ly b) \<and> sin_addr (ly_get ly a) = sin_addr (ly_get ly b)"

definition set_then_get :: "layout \<Rightarrow> ('c, 'w) kernel \<Rightarrow> 'c \<Rightarrow> 'c \<Rightarrow> bool" where
  "set_then_get ly k st gt \<longleftrightarrow> (\<forall>fd fd' req req' w r w'. kn_ioctl k st fd req w = (Ok r, w') \<longrightarrow>
     take IFNAMSIZ req' = take IFNAMSIZ req \<longrightarrow>
     (\<exists>r'. fst (kn_ioctl k gt fd' req' w') = Ok r' \<and> same_addr ly (ifru r') (ifru req)))"

definition ifaddr_laws :: "layout \<Rightarrow> 'c \<Rightarrow> 'c \<Rightarrow> 'c \<Rightarrow> 'c \<Rightarrow> ('c, 'w) kernel \<Rightarrow> bool" where
  "ifaddr_laws ly sa ga sm gm k \<longleftrightarrow> set_then_get ly k sa ga \<and> set_then_get ly k sm gm \<and>
     (\<forall>fd fd' req req' w r w'. kn_ioctl k sm fd req w = (Ok r, w') \<longrightarrow>
        fst (kn_ioctl k ga fd' req' w') = fst (kn_ioctl k ga fd' req' w)) \<and>
     (\<forall>fd req w. snd (kn_ioctl k ga fd req w) = w)"

lemma op_simps [simp]:
  "op_bind (op_lift (Ok x)) f = f x" "fst (op_bind m (\<lambda>x. op_lift (g x)) w) = rbind (fst (m w)) g"
  "fst (op_err h n w) = map_err h (fst (n w))"
  by (auto simp: op_bind_def op_lift_def op_err_def fun_eq_iff split: prod.split result.split)

text \<open>Setting and getting through a request with the same name.\<close>

lemma set_then_getD:
  assumes "set_then_get ly k st gt" "take IFNAMSIZ req' = take IFNAMSIZ req"
    and "op_bind (op_err OsError (kn_ioctl k st fd req)) (\<lambda>_. op_ret ()) w = (Ok (), w')"
  obtains r where "fst (kn_ioctl k gt fd' req' w') = Ok r" "same_addr ly (ifru r) (ifru req)"
proof -
  obtain r0 where "kn_ioctl k st fd req w = (Ok r0, w')"
    using assms(3) by (cases "kn_ioctl k st fd req w"; cases "fst (kn_ioctl k st fd req w)")
      (auto simp: op_bind_def op_err_def op_ret_def)
  then show ?thesis using assms(1,2) that unfolding set_then_get_def by blast
qed

lemma raw_request_Ok:
  "length name \<le> ly_ifreq ly \<Longrightarrow> raw_request ly name = Ok (name_bytes name @ replicate (ly_ifreq ly - length name) 0)"
  by (simp add: raw_request_def)

lemma with_ifru_simps [simp]:
  assumes "IFNAMSIZ \<le> length req"
  shows "take IFNAMSIZ (with_ifru ly p req) = take IFNAMSIZ req" "ifru (with_ifru ly p req) = p @ replicate (ly_ifreq ly - IFNAMSIZ - length p) 0"
  using assms by (simp_all add: with_ifru_def ifru_def)

text \<open>A layout keeps family and address of what it stores, whatever follows.\<close>

definition layout_ok :: "layout \<Rightarrow> bool" where
  "layout_ok ly \<longleftrightarrow> IFNAMSIZ \<le> ly_ifreq ly \<and> (\<forall>ip rest. sin_family (ly_get ly (ly_put ly (sockaddr_from_ip ip) @ rest)) = AF_INET \<and>
     sin_addr (ly_get ly (ly_put ly (sockaddr_from_ip ip) @ rest)) = from_le_bytes ip)"

lemma linux_layout_ok: "layout_ok linux_layout"
  by (simp add: layout_ok_def linux_layout_def sockaddr_from_ip_def IFNAMSIZ_def byte_simps AF_INET_def)

lemma sockaddr_read_back:
  assumes "layout_ok ly" "length ip = 4" "same_addr ly bs (ly_put ly (sockaddr_from_ip ip) @ rest)"
  shows "rbind (sockaddr_new ly bs) (\<lambda>a. Ok (sockaddr_to_ip a)) = Ok ip"
  using assms to_from_le_bytes [of ip, where ?'a = 32]
  by (simp add: layout_ok_def same_addr_def sockaddr_new_def sockaddr_to_ip_def)

text \<open>Reading and writing an address of the interface with a name, as every Unix target does it.\<close>

definition if_read :: "layout \<Rightarrow> ('c, 'w) kernel \<Rightarrow> 'c \<Rightarrow> nat \<Rightarrow> string \<Rightarrow> ('w, io_error, bytes) op" where
  "if_read ly k c fd name =
     op_bind (op_lift (raw_request ly name)) (\<lambda>req.
     op_bind (op_err OsError (kn_ioctl k c fd req)) (\<lambda>req.
     op_lift (rbind (sockaddr_new ly (ifru req)) (\<lambda>a. Ok (sockaddr_to_ip a)))))"

definition if_write :: "layout \<Rightarrow> ('c, 'w) kernel \<Rightarrow> 'c \<Rightarrow> nat \<Rightarrow> string \<Rightarrow> bytes \<Rightarrow> ('w, io_error, unit) op" where
  "if_write ly k c fd name value =
     op_bind (op_lift (raw_request ly name)) (\<lambda>req.
     op_bind (op_err OsError (kn_ioctl k c fd (with_ifru ly (ly_put ly (sockaddr_from_ip value)) req))) (\<lambda>_. op_ret ()))"

lemma if_write_read:
  assumes ly: "layout_ok ly" and law: "set_then_get ly k st gt" and name: "length name \<le> IFNAMSIZ" and ip: "length ip = 4"
    and w: "if_write ly k st fd name ip w = (Ok (), w')"
  shows "fst (if_read ly k gt fd' name w') = Ok ip"
proof -
  have size: "IFNAMSIZ \<le> ly_ifreq ly" using ly by (simp add: layout_ok_def)
  define req where "req = name_bytes name @ replicate (ly_ifreq ly - length name) 0"
  have req: "raw_request ly name = (Ok req :: ('e, bytes) result)" "IFNAMSIZ \<le> length req"
    using name size by (simp_all add: raw_request_Ok req_def name_bytes_def)
  obtain r where r: "fst (kn_ioctl k gt fd' req w') = Ok r"
      "same_addr ly (ifru r) (ifru (with_ifru ly (ly_put ly (sockaddr_from_ip ip)) req))"
  proof (rule set_then_getD [OF law])
    show "op_bind (op_err OsError (kn_ioctl k st fd (with_ifru ly (ly_put ly (sockaddr_from_ip ip)) req))) (\<lambda>_. op_ret ()) w = (Ok (), w')"
      using w by (simp add: if_write_def req(1))
  qed (use req(2) in simp_all)
  have "rbind (sockaddr_new ly (ifru r)) (\<lambda>a. Ok (sockaddr_to_ip a)) = Ok ip"
    using r(2) req(2) by (auto intro: sockaddr_read_back [OF ly ip])
  then show ?thesis by (simp add: if_read_def req(1) r(1))
qed

lemma if_write_keeps:
  assumes "ifaddr_laws ly sa ga sm gm k" and w: "if_write ly k sm fd name m w = (Ok (), w')"
  shows "fst (if_read ly k ga fd' name w') = fst (if_read ly k ga fd' name w)"
proof (cases "raw_request ly name :: (io_error, bytes) result")
  case (Ok req)
  then obtain r where "kn_ioctl k sm fd (with_ifru ly (ly_put ly (sockaddr_from_ip m)) req) w = (Ok r, w')"
    using w by (cases "kn_ioctl k sm fd (with_ifru ly (ly_put ly (sockaddr_from_ip m)) req) w";
        cases "fst (kn_ioctl k sm fd (with_ifru ly (ly_put ly (sockaddr_from_ip m)) req) w)")
      (auto simp: if_write_def op_bind_def op_err_def op_ret_def)
  then have "fst (kn_ioctl k ga fd' req w') = fst (kn_ioctl k ga fd' req w)"
    using assms(1) unfolding ifaddr_laws_def by blast
  then show ?thesis by (simp add: if_read_def Ok)
qed (simp_all add: raw_request_def if_read_def op_bind_def op_lift_def split: if_splits)

definition linux_laws :: "'w linux_kernel \<Rightarrow> bool" where
  "linux_laws = ifaddr_laws linux_layout 0x8916 0x8915 0x891c 0x891b"

definition named :: "native_tun \<Rightarrow> bool" where
  "named t \<longleftrightarrow> length (nt_name t) \<le> IFNAMSIZ"

lemma linux_if:
  "linux_address k t = if_read linux_layout k 0x8915 (nt_ctrl t) (nt_name t)"
  "linux_set_address k t v = if_write linux_layout k 0x8916 (nt_ctrl t) (nt_name t) v"
  "linux_netmask k t = if_read linux_layout k 0x891b (nt_ctrl t) (nt_name t)"
  "linux_set_netmask k t v = if_write linux_layout k 0x891c (nt_ctrl t) (nt_name t) v"
  by (simp_all add: linux_address_def linux_set_address_def linux_netmask_def linux_set_netmask_def if_read_def if_write_def
      linux_ioctl_def request_def)

interpretation linux_if: ip_interface linux_laws named linux_set_address linux_address linux_set_netmask linux_netmask
  by unfold_locales
    (auto simp: linux_if linux_laws_def named_def ifaddr_laws_def intro: if_write_read [OF linux_layout_ok]
      if_write_keeps [of linux_layout "0x8916" _ _ "0x891b"])

text \<open>A kernel for witnesses: it keeps an address and a mask per interface, and forgets the mask when the address is set.\<close>

type_synonym if_table = "bytes \<Rightarrow> bytes \<times> bytes"

definition if_key :: "bytes \<Rightarrow> bytes" where
  "if_key req = take IFNAMSIZ req @ replicate (IFNAMSIZ - length req) 0"

definition plain_ioctl :: "'c \<Rightarrow> 'c \<Rightarrow> 'c \<Rightarrow> 'c \<Rightarrow> 'c \<Rightarrow> nat \<Rightarrow> bytes \<Rightarrow> (if_table, int, bytes) op" where
  "plain_ioctl sa ga sm gm c fd req w =
     (let n = if_key req in
      if c = sa then (Ok req, w(n := (ifru req, replicate 24 255)))
      else if c = sm then (Ok req, w(n := (fst (w n), ifru req)))
      else if c = ga then (Ok (n @ fst (w n)), w)
      else if c = gm then (Ok (n @ snd (w n)), w)
      else (Ok req, w))"

definition plain_kernel :: "'c \<Rightarrow> 'c \<Rightarrow> 'c \<Rightarrow> 'c \<Rightarrow> ('c, if_table) kernel" where
  "plain_kernel sa ga sm gm = \<lparr>kn_open = (\<lambda>_. op_ret 3), kn_socket = op_ret 4, kn_ioctl = plain_ioctl sa ga sm gm,
     kn_getfl = (\<lambda>_. op_ret 2), kn_setfl = (\<lambda>_ _. op_ret ()), kn_async = (\<lambda>_. op_ret ()),
     kn_lossy = map (\<lambda>b. char_of (unat b))\<rparr>"

lemma if_key_eq:
  assumes "take IFNAMSIZ req' = take IFNAMSIZ req"
  shows "if_key req' = if_key req"
proof -
  have "IFNAMSIZ - length r = IFNAMSIZ - length (take IFNAMSIZ r)" for r :: bytes by simp
  then show ?thesis unfolding if_key_def by (metis assms)
qed

lemma ifru_key [simp]: "ifru (if_key req @ x) = x"
  by (simp add: ifru_def if_key_def)

lemma plain_kernel_laws:
  assumes "distinct [sa, ga, sm, gm]"
  shows "ifaddr_laws ly sa ga sm gm (plain_kernel sa ga sm gm)"
proof -
  let ?k = "plain_kernel sa ga sm gm"
  have ne: "ga \<noteq> sa" "ga \<noteq> sm" "gm \<noteq> sa" "gm \<noteq> sm" "gm \<noteq> ga" "sm \<noteq> sa" using assms by auto
  have io: "kn_ioctl ?k sa fd req w = (Ok req, w(if_key req := (ifru req, replicate 24 255)))"
    "kn_ioctl ?k sm fd req w = (Ok req, w(if_key req := (fst (w (if_key req)), ifru req)))"
    "kn_ioctl ?k ga fd req w = (Ok (if_key req @ fst (w (if_key req))), w)"
    "kn_ioctl ?k gm fd req w = (Ok (if_key req @ snd (w (if_key req))), w)" for fd req w
    using ne by (simp_all add: plain_kernel_def plain_ioctl_def Let_def)
  have "set_then_get ly ?k sa ga" "set_then_get ly ?k sm gm"
    unfolding set_then_get_def io by (clarsimp simp: same_addr_def dest!: if_key_eq)+
  then show ?thesis unfolding ifaddr_laws_def io by clarsimp
qed

end
