(* ===== verification/Tun_Macos.thy ===== *)
theory Tun_Macos
  imports Tun Cidr
begin

unbundle bit_operations_syntax

text \<open>
  The macOS implementation of the tunnel interface: \<open>tun/macos/tun.rs\<close> and \<open>tun/macos/sys.rs\<close> of \<open>vlink-tun\<close>.  An
  interface is a kernel control socket; each packet carries a header of four bytes with its address family.
\<close>

section \<open>Requests (macos/sys.rs)\<close>

text \<open>A request of the macros of crate \<open>nix\<close>: direction, group and number.\<close>

datatype mac_ioctl = Readwrite char nat | Write char nat

datatype macos_request = MacGetMtu | MacSetMtu | MacSetAddr | MacGetAddr | MacSetNetmask | MacGetNetmask
  | MacSetFlag | MacGetFlag

fun macos_code :: "macos_request \<Rightarrow> mac_ioctl" where
  "macos_code MacGetMtu = Readwrite CHR ''i'' 51"
| "macos_code MacSetMtu = Write CHR ''i'' 52"
| "macos_code MacSetAddr = Write CHR ''i'' 12"
| "macos_code MacGetAddr = Readwrite CHR ''i'' 33"
| "macos_code MacSetNetmask = Write CHR ''i'' 22"
| "macos_code MacGetNetmask = Readwrite CHR ''i'' 37"
| "macos_code MacSetFlag = Write CHR ''i'' 16"
| "macos_code MacGetFlag = Readwrite CHR ''i'' 17"

text \<open>The socket address starts with its length, which \<open>SockAddr::from\<close> leaves zero; the family is one byte.\<close>

definition macos_layout :: layout where
  "macos_layout = \<lparr>ly_ifreq = 32,
     ly_put = (\<lambda>a. [0, ucast (sin_family a)] @ to_le_bytes 2 (sin_port a) @ to_le_bytes 4 (sin_addr a) @ replicate 8 0),
     ly_get = (\<lambda>bs. \<lparr>sin_family = from_le_bytes (take 1 (drop 1 bs)), sin_port = from_le_bytes (take 2 (drop 2 bs)),
       sin_addr = from_le_bytes (take 4 (drop 4 bs))\<rparr>)\<rparr>"

definition ifreq_new :: "string \<Rightarrow> ('e, bytes) result" where
  "ifreq_new name = raw_request macos_layout name"

definition UTUN_CONTROL_NAME :: string where "UTUN_CONTROL_NAME = ''com.apple.net.utun_control''"

text \<open>The kernel with its control sockets: opening one, finding the id of a control by the 96 bytes of its name,
  connecting to a unit of it, and the name of the interface behind it in a buffer of 256 bytes.\<close>

record 'w utun_kernel =
  uk_base :: "(mac_ioctl, 'w) kernel"
  uk_socket :: "('w, int, nat) op"
  uk_ctl_info :: "nat \<Rightarrow> bytes \<Rightarrow> ('w, int, u32) op"
  uk_connect :: "nat \<Rightarrow> u32 \<Rightarrow> u32 \<Rightarrow> ('w, int, unit) op"
  uk_ifname :: "nat \<Rightarrow> nat \<Rightarrow> ('w, int, bytes) op"

definition macos_ioctl :: "'w utun_kernel \<Rightarrow> macos_request \<Rightarrow> nat \<Rightarrow> bytes \<Rightarrow> ('w, int, bytes) op" where
  "macos_ioctl k r fd req = kn_ioctl (uk_base k) (macos_code r) fd req"

text \<open>Here \<open>O_NONBLOCK\<close> is 4.\<close>

definition macos_set_nonblocking :: "'w utun_kernel \<Rightarrow> nat \<Rightarrow> ('w, tun_error, unit) op" where
  "macos_set_nonblocking k fd =
     op_bind (op_err Sys (kn_getfl (uk_base k) fd)) (\<lambda>flag. op_err Sys (kn_setfl (uk_base k) fd (4 OR flag)))"

definition get_iface_name :: "'w utun_kernel \<Rightarrow> nat \<Rightarrow> ('w, io_error, string) op" where
  "get_iface_name k fd =
     op_bind (op_err OsError (uk_ifname k fd 256)) (\<lambda>name. op_ret (kn_lossy (uk_base k) (cstr name)))"

section \<open>The device (macos/tun.rs)\<close>

text \<open>The regular expression \<open>^utun([1-9]\d*|0)?$\<close>.  A digit of another script, which \<open>\d\<close> admits too, is refused by
  \<open>parse\<close> with the same error.\<close>

definition utun_re :: "string \<Rightarrow> bool" where
  "utun_re name \<longleftrightarrow> take 4 name = ''utun'' \<and>
     (let i = drop 4 name in i = [] \<or> i = ''0'' \<or>
       hd i \<noteq> CHR ''0'' \<and> digit_val 10 (hd i) \<noteq> None \<and> list_all (\<lambda>c. digit_val 10 c \<noteq> None) (tl i))"

definition u32_from_str :: "string \<Rightarrow> u32 option" where
  "u32_from_str s =
     (let body = (case s of c # cs \<Rightarrow> if c = CHR ''+'' then cs else s | [] \<Rightarrow> [])
      in if body = [] then None
         else case dec_value 0 body of Some v \<Rightarrow> if v < 2 ^ 32 then Some (of_nat v) else None | None \<Rightarrow> None)"

definition parse_name :: "string \<Rightarrow> (tun_error, u32) result" where
  "parse_name name =
     (if name = ''utun'' then Ok 0
      else if \<not> utun_re name then Err InvalidName
      else case u32_from_str (drop 4 name) of Some i \<Rightarrow> Ok (i + 1) | None \<Rightarrow> Err InvalidName)"

text \<open>The name of the control in a zeroed buffer of 96 bytes.\<close>

definition ctl_name :: bytes where
  "ctl_name = take 96 (name_bytes UTUN_CONTROL_NAME @ replicate 96 0)"

definition macos_new :: "'w utun_kernel \<Rightarrow> string option \<Rightarrow> bool \<Rightarrow> ('w, tun_error, native_tun) op" where
  "macos_new k name is_tap =
     op_bind (op_lift (case name of
         Some n \<Rightarrow> if length n > IFNAMSIZ then Err (TunIO (IoOther ''name too long'')) else parse_name n
       | None \<Rightarrow> Ok 0)) (\<lambda>idx.
     op_bind (op_err (TunIO \<circ> OsError) (uk_socket k)) (\<lambda>fd.
     op_bind (op_err (TunIO \<circ> OsError) (uk_ctl_info k fd ctl_name)) (\<lambda>ctl_id.
     op_bind (op_err (TunIO \<circ> OsError) (uk_connect k fd ctl_id idx)) (\<lambda>_.
     op_bind (macos_set_nonblocking k fd) (\<lambda>_.
     op_bind (op_err TunIO (get_iface_name k fd)) (\<lambda>name.
     op_bind (op_err (TunIO \<circ> OsError) (kn_socket (uk_base k))) (\<lambda>ctrl.
     op_bind (op_err (TunIO \<circ> OsError) (kn_async (uk_base k) fd)) (\<lambda>_.
     op_bind (op_err (TunIO \<circ> OsError) (kn_async (uk_base k) ctrl)) (\<lambda>_.
       op_ret \<lparr>nt_fd = fd, nt_ctrl = ctrl, nt_name = name\<rparr>)))))))))"

definition macos_enabled :: "'w utun_kernel \<Rightarrow> native_tun \<Rightarrow> bool \<Rightarrow> ('w, io_error, unit) op" where
  "macos_enabled k t value =
     op_bind (op_lift (ifreq_new (nt_name t))) (\<lambda>req.
     op_bind (op_err OsError (macos_ioctl k MacGetFlag (nt_fd t) req)) (\<lambda>req.
     let flags = (if value then ifru_flags req OR (IFF_UP OR IFF_RUNNING) else ifru_flags req AND NOT IFF_UP) in
     op_bind (op_err OsError (macos_ioctl k MacSetFlag (nt_fd t)
                (take IFNAMSIZ req @ to_le_bytes 2 flags @ drop 18 req))) (\<lambda>_. op_ret ())))"

definition macos_mtu :: "'w utun_kernel \<Rightarrow> native_tun \<Rightarrow> ('w, tun_error, u16) op" where
  "macos_mtu k t =
     op_bind (op_lift (ifreq_new (nt_name t))) (\<lambda>req.
     op_bind (op_err Sys (macos_ioctl k MacGetMtu (nt_fd t) req)) (\<lambda>req. op_ret (ucast (ifru_mtu req))))"

definition macos_set_mtu :: "'w utun_kernel \<Rightarrow> native_tun \<Rightarrow> u16 \<Rightarrow> ('w, tun_error, unit) op" where
  "macos_set_mtu k t mtu =
     op_bind (op_lift (ifreq_new (nt_name t))) (\<lambda>req.
     op_bind (op_err Sys (macos_ioctl k MacSetMtu (nt_fd t)
                (with_ifru macos_layout (to_le_bytes 4 (ucast mtu :: u32)) req))) (\<lambda>_. op_ret ()))"

definition macos_address :: "'w utun_kernel \<Rightarrow> native_tun \<Rightarrow> ('w, io_error, bytes) op" where
  "macos_address k t =
     op_bind (op_lift (ifreq_new (nt_name t))) (\<lambda>req.
     op_bind (op_err OsError (macos_ioctl k MacGetAddr (nt_ctrl t) req)) (\<lambda>req.
     op_lift (rbind (sockaddr_new macos_layout (ifru req)) (\<lambda>a. Ok (sockaddr_to_ip a)))))"

definition macos_set_address :: "'w utun_kernel \<Rightarrow> native_tun \<Rightarrow> bytes \<Rightarrow> ('w, io_error, unit) op" where
  "macos_set_address k t value =
     op_bind (op_lift (ifreq_new (nt_name t))) (\<lambda>req.
     op_bind (op_err OsError (macos_ioctl k MacSetAddr (nt_ctrl t)
                (with_ifru macos_layout (ly_put macos_layout (sockaddr_from_ip value)) req))) (\<lambda>_. op_ret ()))"

definition macos_netmask :: "'w utun_kernel \<Rightarrow> native_tun \<Rightarrow> ('w, io_error, bytes) op" where
  "macos_netmask k t =
     op_bind (op_lift (ifreq_new (nt_name t))) (\<lambda>req.
     op_bind (op_err OsError (macos_ioctl k MacGetNetmask (nt_ctrl t) req)) (\<lambda>req.
     op_lift (rbind (sockaddr_new macos_layout (ifru req)) (\<lambda>a. Ok (sockaddr_to_ip a)))))"

definition macos_set_netmask :: "'w utun_kernel \<Rightarrow> native_tun \<Rightarrow> bytes \<Rightarrow> ('w, io_error, unit) op" where
  "macos_set_netmask k t value =
     op_bind (op_lift (ifreq_new (nt_name t))) (\<lambda>req.
     op_bind (op_err OsError (macos_ioctl k MacSetNetmask (nt_ctrl t)
                (with_ifru macos_layout (ly_put macos_layout (sockaddr_from_ip value)) req))) (\<lambda>_. op_ret ()))"

definition macos_ops :: "'w utun_kernel \<Rightarrow> ('w, native_tun) tun_ops" where
  "macos_ops k = \<lparr>to_new = (\<lambda>name is_tap. op_err DevTun (macos_new k name is_tap)), to_enabled = macos_enabled k, to_name = nt_name, to_mtu = macos_mtu k,
     to_set_mtu = macos_set_mtu k, to_address = macos_address k, to_set_address = macos_set_address k,
     to_netmask = macos_netmask k, to_set_netmask = macos_set_netmask k,
     to_set_ip = tun_set_ip (macos_set_address k) (macos_set_netmask k)\<rparr>"

text \<open>The buffer of 1500 bytes takes header and packet; a frame shorter than a header is passed over.\<close>

fun macos_recv :: "bytes io_turn list \<Rightarrow> (tun_error, bytes) result option" where
  "macos_recv [] = None"
| "macos_recv (NotReady e # _) = Some (Err (TunIO e))"
| "macos_recv (WouldBlock # rest) = macos_recv rest"
| "macos_recv (Failed e # _) = Some (Err (TunIO e))"
| "macos_recv (Done frame # rest) =
     (let n = min 1500 (length frame)
      in if n \<ge> 4 then Some (Ok (take (n - 4) (drop 4 (take n frame)))) else macos_recv rest)"

definition macos_frame :: "bytes \<Rightarrow> (tun_error, bytes) result" where
  "macos_frame buf =
     rbind (nth_checked buf 0) (\<lambda>b.
       if drop_bit 4 b = 4 then Ok ([0, 0, 0, 0x2] @ buf)
       else if drop_bit 4 b = 6 then Ok ([0, 0, 0, 0x1e] @ buf)
       else Err InvalidIpPacket)"

definition macos_send :: "unit io_turn \<Rightarrow> bytes \<Rightarrow> bytes list \<times> (tun_error, unit) result" where
  "macos_send turn buf =
     (case macos_frame buf of
        Ok m \<Rightarrow> (case turn of
            NotReady e \<Rightarrow> ([], Err (TunIO e))
          | WouldBlock \<Rightarrow> ([], Ok ())
          | Failed e \<Rightarrow> ([], Err (TunIO e))
          | Done _ \<Rightarrow> ([m], Ok ()))
      | Err e \<Rightarrow> ([], Err e)
      | Panic \<Rightarrow> ([], Panic))"

section \<open>The address of an interface\<close>

lemma macos_layout_ok: "layout_ok macos_layout"
proof -
  have "(from_le_bytes [2] :: u16) = 2" by (simp add: from_le_bytes_def)
  then show ?thesis
    by (simp add: layout_ok_def macos_layout_def sockaddr_from_ip_def IFNAMSIZ_def byte_simps AF_INET_def)
qed

definition macos_laws :: "'w utun_kernel \<Rightarrow> bool" where
  "macos_laws k = ifaddr_laws macos_layout (Write CHR ''i'' 12) (Readwrite CHR ''i'' 33) (Write CHR ''i'' 22)
     (Readwrite CHR ''i'' 37) (uk_base k)"

lemma macos_if:
  "macos_address k t = if_read macos_layout (uk_base k) (Readwrite CHR ''i'' 33) (nt_ctrl t) (nt_name t)"
  "macos_set_address k t v = if_write macos_layout (uk_base k) (Write CHR ''i'' 12) (nt_ctrl t) (nt_name t) v"
  "macos_netmask k t = if_read macos_layout (uk_base k) (Readwrite CHR ''i'' 37) (nt_ctrl t) (nt_name t)"
  "macos_set_netmask k t v = if_write macos_layout (uk_base k) (Write CHR ''i'' 22) (nt_ctrl t) (nt_name t) v"
  by (simp_all add: macos_address_def macos_set_address_def macos_netmask_def macos_set_netmask_def if_read_def if_write_def
      macos_ioctl_def ifreq_new_def)

interpretation macos_if: ip_interface macos_laws named macos_set_address macos_address macos_set_netmask macos_netmask
  by unfold_locales
    (auto simp: macos_if macos_laws_def named_def ifaddr_laws_def intro: if_write_read [OF macos_layout_ok]
      if_write_keeps [of macos_layout "Write CHR ''i'' 12" _ _ "Readwrite CHR ''i'' 37"])

section \<open>Names and frames\<close>

lemma prefix_iff: "length ys = n \<Longrightarrow> take n xs = ys \<and> P (drop n xs) \<longleftrightarrow> (\<exists>r. xs = ys @ r \<and> P r)"
  by (metis append_take_drop_id take_append_exact drop_append_exact)

lemma utun_re_iff: "utun_re name \<longleftrightarrow> name = ''utun'' \<or> (\<exists>i. name = ''utun'' @ dec_nat i)"
proof -
  have "utun_re name \<longleftrightarrow> take 4 name = ''utun'' \<and> (drop 4 name = [] \<or> canonical_dec (drop 4 name))"
    by (cases "drop 4 name") (auto simp: utun_re_def canonical_dec_def list_all_iff)
  also have "\<dots> \<longleftrightarrow> (\<exists>i. name = ''utun'' @ i \<and> (i = [] \<or> canonical_dec i))"
    by (rule prefix_iff) simp
  finally show ?thesis by (auto simp: canonical_dec_iff)
qed

lemma u32_from_str_dec: "u32_from_str (dec_nat i) = (if i < 2 ^ 32 then Some (of_nat i) else None)"
proof -
  obtain c cs where d: "dec_nat i = c # cs" by (meson dec_nat_not_Nil list.exhaust)
  have "c \<noteq> CHR ''+''" using dec_nat_digits [of i] d by (auto simp: digit_val_def digit_of_hex_def)
  moreover have "dec_value 0 (c # cs) = Some i" using dec_value_nat [of i] unfolding d .
  ultimately show ?thesis unfolding d by (simp add: u32_from_str_def Let_def del: dec_value.simps)
qed

lemma parse_name_number: "parse_name (''utun'' @ dec_nat i) = (if i < 2 ^ 32 then Ok (of_nat i + 1) else Err InvalidName)"
  using u32_from_str_dec [of i] by (auto simp: parse_name_def utun_re_iff)

lemma parse_name_other: "name \<noteq> ''utun'' \<Longrightarrow> (\<And>i. name \<noteq> ''utun'' @ dec_nat i) \<Longrightarrow> parse_name name = Err InvalidName"
  by (auto simp: parse_name_def utun_re_iff)

lemma macos_recv_frame:
  assumes "length header = 4" "list_all (\<lambda>t. t = WouldBlock \<or> (\<exists>f. t = Done f \<and> length f < 4)) ts"
  shows "macos_recv (ts @ Done (header @ packet) # rest) = Some (Ok (take 1496 packet))"
  using assms(2) by (induction ts) (auto simp: Let_def min_def assms(1))

section \<open>Properties\<close>

text \<open>Exactly which interface names are accepted.  \<open>utun\<close> asks for any unit; \<open>utun\<close> with a decimal number without
  leading zeros asks for the unit one above it; every other name is refused.  The largest number wraps around to the
  request for any unit.\<close>

theorem parse_name_exact:
  "(parse_name name = Ok v \<longleftrightarrow>
      name = ''utun'' \<and> v = 0 \<or> (\<exists>i < 2 ^ 32. name = ''utun'' @ dec_nat i \<and> v = of_nat i + 1)) \<and>
   ((\<nexists>v. parse_name name = Ok v) \<longleftrightarrow> parse_name name = Err InvalidName) \<and>
   parse_name (''utun'' @ dec_nat (2 ^ 32 - 1)) = Ok 0"
proof (intro conjI)
  show "parse_name (''utun'' @ dec_nat (2 ^ 32 - 1)) = Ok 0" using parse_name_number [of "2 ^ 32 - 1"] by simp
  show "(\<nexists>v. parse_name name = Ok v) \<longleftrightarrow> parse_name name = Err InvalidName"
    by (auto simp: parse_name_def split: option.split)
  show "parse_name name = Ok v \<longleftrightarrow>
      name = ''utun'' \<and> v = 0 \<or> (\<exists>i < 2 ^ 32. name = ''utun'' @ dec_nat i \<and> v = of_nat i + 1)"
  proof (cases "\<exists>i. name = ''utun'' @ dec_nat i")
    case True
    then obtain i where "name = ''utun'' @ dec_nat i" by blast
    then show ?thesis using parse_name_number [of i] by (auto split: if_splits)
  next
    case False
    then show ?thesis using parse_name_other [of name] by (cases "name = ''utun''") (auto simp: parse_name_def)
  qed
qed

text \<open>C34: Packets through a macOS tunnel.  What \<open>send\<close> writes for an IP packet of up to 1496 bytes is, read back by \<open>recv\<close>
  after any number of waits and runt frames, that packet; longer packets lose their end, although the interface takes
  1500 bytes.  An empty packet panics, and anything but IP versions 4 and 6 is refused.\<close>

theorem macos_frames:
  "(macos_send (Done ()) packet = ([frame], Ok ()) \<and>
      list_all (\<lambda>t. t = WouldBlock \<or> (\<exists>f. t = Done f \<and> length f < 4)) ts \<longrightarrow>
      macos_recv (ts @ Done frame # rest) = Some (Ok (take 1496 packet))) \<and>
   macos_send turn [] = ([], Panic) \<and>
   (packet \<noteq> [] \<and> drop_bit 4 (packet ! 0) \<noteq> 4 \<and> drop_bit 4 (packet ! 0) \<noteq> 6 \<longrightarrow>
      macos_send turn packet = ([], Err InvalidIpPacket))"
proof (intro conjI impI)
  assume a: "macos_send (Done ()) packet = ([frame], Ok ()) \<and>
      list_all (\<lambda>t. t = WouldBlock \<or> (\<exists>f. t = Done f \<and> length f < 4)) ts"
  then obtain header where "frame = header @ packet" "length header = 4"
    by (auto simp: macos_send_def macos_frame_def result_simps split: result.splits if_splits)
  then show "macos_recv (ts @ Done frame # rest) = Some (Ok (take 1496 packet))"
    using a macos_recv_frame [of header ts packet rest] by simp
qed (simp_all add: macos_send_def macos_frame_def nth_checked_def)

theorem macos_frames_witness:
  "macos_recv [WouldBlock, Done ([0, 0, 0, 2] @ [0x45, 0, 0, 20])] = Some (Ok [0x45, 0, 0, 20])"
proof -
  have "macos_send (Done ()) [0x45, 0, 0, 20] = ([[0, 0, 0, 2] @ [0x45, 0, 0, 20]], Ok ())"
    by (simp add: macos_send_def macos_frame_def nth_checked_def)
  then show ?thesis
    using macos_frames [of "[0x45, 0, 0, 20]" "[0, 0, 0, 2] @ [0x45, 0, 0, 20]" "[WouldBlock]" "[]"] by simp
qed

end
