(* ===== verification/Tun_Windows.thy ===== *)
theory Tun_Windows
  imports Tun Cidr
begin

unbundle bit_operations_syntax

text \<open>
  The Windows implementation of the tunnel interface (\<open>tun/windows\<close> of \<open>vlink-tun\<close>): wide strings and control
  codes (\<open>mod.rs\<close>), the wrappers of system calls it uses (\<open>ffi.rs\<close>), \<open>netsh\<close> commands (\<open>netsh.rs\<close>), the Wintun device with
  its packets (\<open>tun/mod.rs\<close>, \<open>tun/packet.rs\<close>), the TAP device (\<open>tap.rs\<close>) and the choice between them (\<open>device.rs\<close>).
  Windows and the Wintun driver are the record \<open>win_env\<close> of what their calls return; the calls that have an effect and the
  commands that were run are recorded in the state.  Texts of errors are kept without the Debug output they end with.
\<close>

section \<open>Wide strings and control codes (windows/mod.rs)\<close>

text \<open>A Rust string is the list of its Unicode scalar values.\<close>

type_synonym ustr = "nat list"

definition scalar :: "nat \<Rightarrow> bool" where
  "scalar c \<longleftrightarrow> c < 0xD800 \<or> 0xE000 \<le> c \<and> c < 0x110000"

definition utf16_units :: "nat \<Rightarrow> u16 list" where
  "utf16_units c =
     (if c < 0x10000 then [of_nat c]
      else [of_nat (0xD800 + (c - 0x10000) div 0x400), of_nat (0xDC00 + (c - 0x10000) mod 0x400)])"

definition encode_utf16 :: "ustr \<Rightarrow> u16 list" where
  "encode_utf16 s = concat (map utf16_units s) @ [0]"

text \<open>\<open>String::from_utf16_lossy\<close>: a surrogate without its partner becomes the replacement character.\<close>

fun from_utf16_lossy :: "u16 list \<Rightarrow> ustr" where
  "from_utf16_lossy [] = []"
| "from_utf16_lossy (u # us) =
     (if unat u < 0xD800 \<or> 0xDFFF < unat u then unat u # from_utf16_lossy us
      else if 0xDC00 \<le> unat u then 0xFFFD # from_utf16_lossy us
      else case us of
             [] \<Rightarrow> [0xFFFD]
           | v # vs \<Rightarrow>
               if 0xDC00 \<le> unat v \<and> unat v \<le> 0xDFFF
               then (0x10000 + (unat u - 0xD800) * 0x400 + (unat v - 0xDC00)) # from_utf16_lossy vs
               else 0xFFFD # from_utf16_lossy us)"

definition decode_utf16 :: "u16 list \<Rightarrow> ustr" where
  "decode_utf16 s = from_utf16_lossy (takeWhile (\<lambda>b. b \<noteq> 0) s)"

definition ctl_code :: "u32 \<Rightarrow> u32 \<Rightarrow> u32 \<Rightarrow> u32 \<Rightarrow> u32" where
  "ctl_code device_type function_code io_method access =
     push_bit 16 device_type OR push_bit 14 access OR push_bit 2 function_code OR io_method"

section \<open>Windows\<close>

text \<open>Calls with an effect on the driver or on handles.\<close>

datatype wt_call = OpenAdapter "u16 list" | CloseAdapter nat | DeleteDriver | CreateAdapter "u16 list" | StartSession nat u32
  | EndSession nat | ReleaseReceivePacket nat | SendPacket nat bytes | CloseHandle nat

text \<open>What calls return: conversions give a status (zero is success) and a value, handles are \<open>None\<close> when null or invalid,
  \<open>we_cmd\<close> is the error of starting a command or its success.  \<open>we_last_error\<close> is \<open>last_os_error\<close> after the call at hand.\<close>

record win_env =
  we_library :: bool
  we_symbols :: bool
  we_open_adapter :: "u16 list \<Rightarrow> nat option"
  we_create_adapter :: "u16 list \<Rightarrow> bytes \<Rightarrow> nat option"
  we_start_session :: "nat \<Rightarrow> u32 \<Rightarrow> nat option"
  we_shutdown_event :: nat
  we_read_event :: "nat \<Rightarrow> nat"
  we_adapter_luid :: "nat \<Rightarrow> u64"
  we_luid_to_index :: "u64 \<Rightarrow> u32 \<times> u32"
  we_luid_to_alias :: "u64 \<Rightarrow> u32 \<times> u16 list"
  we_alias_to_luid :: "u16 list \<Rightarrow> u32 \<times> u64"
  we_luid_to_guid :: "u64 \<Rightarrow> u32 \<times> bytes"
  we_guid_string :: "bytes \<Rightarrow> nat \<times> u16 list"
  we_create_file :: "u16 list \<Rightarrow> nat option"
  we_close_handle :: "nat \<Rightarrow> bool"
  we_ioctl :: "nat \<Rightarrow> u32 \<Rightarrow> bytes \<Rightarrow> nat \<Rightarrow> bytes option"
  we_cmd :: "string \<Rightarrow> (io_error, bool) result"
  we_last_error :: int

record win_world =
  ww_cmds :: "string list"
  ww_calls :: "wt_call list"
  ww_ip_info :: "(bytes \<times> bytes) option"

definition win_call :: "wt_call \<Rightarrow> (win_world, 'e, unit) op" where
  "win_call c w = (Ok (), w\<lparr>ww_calls := ww_calls w @ [c]\<rparr>)"

section \<open>Wrappers (ffi.rs)\<close>

definition of_status :: "u32 \<times> 'a \<Rightarrow> (io_error, 'a) result" where
  "of_status r = (if fst r = 0 then Ok (snd r) else Err (OsError (uint (fst r))))"

definition string_from_guid :: "win_env \<Rightarrow> bytes \<Rightarrow> (io_error, u16 list) result" where
  "string_from_guid we guid =
     (if fst (we_guid_string we guid) = 0 then Err (IoOther ''Insufficent buffer'') else Ok (snd (we_guid_string we guid)))"

definition alias_to_luid :: "win_env \<Rightarrow> u16 list \<Rightarrow> (io_error, u64) result" where
  "alias_to_luid we alias = of_status (we_alias_to_luid we alias)"

definition luid_to_index :: "win_env \<Rightarrow> u64 \<Rightarrow> (io_error, u32) result" where
  "luid_to_index we luid = of_status (we_luid_to_index we luid)"

definition luid_to_guid :: "win_env \<Rightarrow> u64 \<Rightarrow> (io_error, bytes) result" where
  "luid_to_guid we luid = of_status (we_luid_to_guid we luid)"

definition luid_to_alias :: "win_env \<Rightarrow> u64 \<Rightarrow> (io_error, u16 list) result" where
  "luid_to_alias we luid = of_status (we_luid_to_alias we luid)"

definition close_handle :: "win_env \<Rightarrow> nat \<Rightarrow> (win_world, io_error, unit) op" where
  "close_handle we h =
     op_bind (win_call (CloseHandle h)) (\<lambda>_. op_lift (if we_close_handle we h then Ok () else Err (OsError (we_last_error we))))"

definition create_file :: "win_env \<Rightarrow> u16 list \<Rightarrow> (io_error, nat) result" where
  "create_file we file_name =
     (case we_create_file we file_name of None \<Rightarrow> Err (OsError (we_last_error we)) | Some h \<Rightarrow> Ok h)"

definition device_io_control :: "win_env \<Rightarrow> nat \<Rightarrow> u32 \<Rightarrow> bytes \<Rightarrow> nat \<Rightarrow> (io_error, bytes) result" where
  "device_io_control we h code in_buffer out_size =
     (case we_ioctl we h code in_buffer out_size of None \<Rightarrow> Err (OsError (we_last_error we)) | Some out \<Rightarrow> Ok out)"

text \<open>\<open>write_file\<close> and \<open>read_file\<close>: the first call, and when it is pending the wait for its result.  The error is always that
  of the first call.\<close>

definition ERROR_IO_PENDING :: int where "ERROR_IO_PENDING = 997"

definition overlapped :: "(int, u32) result \<Rightarrow> u32 option \<Rightarrow> (io_error, u32) result" where
  "overlapped first waited =
     (case first of
        Ok n \<Rightarrow> Ok n
      | Err e \<Rightarrow> if e = ERROR_IO_PENDING
          then (case waited of Some n \<Rightarrow> Ok n | None \<Rightarrow> Err (OsError e))
          else Err (OsError e)
      | Panic \<Rightarrow> Panic)"

section \<open>Commands (windows/mod.rs, netsh.rs)\<close>

definition win_exe_cmd :: "win_env \<Rightarrow> string \<Rightarrow> (win_world, io_error, unit) op" where
  "win_exe_cmd we cmd w =
     (case we_cmd we cmd of
        Ok success \<Rightarrow> (if success then Ok () else Err (IoOther (''cmd='' @ cmd)))
      | Err e \<Rightarrow> Err e
      | Panic \<Rightarrow> Panic, w\<lparr>ww_cmds := ww_cmds w @ [cmd]\<rparr>)"

definition set_interface_name :: "win_env \<Rightarrow> string \<Rightarrow> string \<Rightarrow> (win_world, io_error, unit) op" where
  "set_interface_name we old_name new_name =
     win_exe_cmd we ('' netsh interface set interface name='' @ debug_str old_name @ '' newname='' @ debug_str new_name)"

definition delete_cache :: "win_env \<Rightarrow> (win_world, io_error, unit) op" where
  "delete_cache we = win_exe_cmd we ''netsh interface ip delete destinationcache''"

definition set_interface_ip :: "win_env \<Rightarrow> u32 \<Rightarrow> bytes \<Rightarrow> bytes \<Rightarrow> (win_world, io_error, unit) op" where
  "set_interface_ip we index address m =
     win_exe_cmd we (''netsh interface ip set address '' @ dec_nat (unat index) @ '' static '' @
       ipv4_to_string address @ '' '' @ ipv4_to_string m @ '' '')"

definition set_interface_mtu :: "win_env \<Rightarrow> u32 \<Rightarrow> u32 \<Rightarrow> (win_world, io_error, unit) op" where
  "set_interface_mtu we index mtu =
     win_exe_cmd we (''netsh interface ipv4 set subinterface '' @ dec_nat (unat index) @ ''  mtu='' @
       dec_nat (unat mtu) @ '' store=persistent'')"

definition set_interface_metric :: "win_env \<Rightarrow> u32 \<Rightarrow> u16 \<Rightarrow> (win_world, io_error, unit) op" where
  "set_interface_metric we index metric =
     win_exe_cmd we (''netsh interface ip set interface '' @ dec_nat (unat index) @ '' metric='' @ dec_nat (unat metric))"

definition disabled_ipv6 :: "win_env \<Rightarrow> u32 \<Rightarrow> (win_world, io_error, unit) op" where
  "disabled_ipv6 we index =
     win_exe_cmd we (''netsh interface ipv6 set interface '' @ dec_nat (unat index) @ '' disabled'')"

text \<open>An error that is only logged.\<close>

definition op_ignore :: "('w, 'e, unit) op \<Rightarrow> ('w, 'f, unit) op" where
  "op_ignore m w = (case m w of (Panic, w') \<Rightarrow> (Panic, w') | (_, w') \<Rightarrow> (Ok (), w'))"

section \<open>The Wintun device (tun/mod.rs)\<close>

definition MAX_RING_CAPACITY :: u32 where "MAX_RING_CAPACITY = 0x4000000"
definition MIN_RING_CAPACITY :: u32 where "MIN_RING_CAPACITY = 0x20000"
definition MAX_POOL :: nat where "MAX_POOL = 256"

record wintun_device =
  wd_luid :: u64
  wd_index :: u32
  wd_session :: nat
  wd_read_event :: nat
  wd_shutdown_event :: nat
  wd_adapter :: nat
  wd_name :: ustr

definition delete_if_exists :: "win_env \<Rightarrow> u16 list \<Rightarrow> (win_world, io_error, unit) op" where
  "delete_if_exists we name =
     op_bind (win_call (OpenAdapter name)) (\<lambda>_.
     case we_open_adapter we name of
       Some a \<Rightarrow> op_bind (win_call (CloseAdapter a)) (\<lambda>_. win_call DeleteDriver)
     | None \<Rightarrow> op_ret ())"

definition delete_for_name :: "win_env \<Rightarrow> u16 list \<Rightarrow> (win_world, io_error, unit) op" where
  "delete_for_name we name =
     op_bind (win_call (OpenAdapter name)) (\<lambda>_.
     case we_open_adapter we name of
       Some a \<Rightarrow> op_bind (win_call (CloseAdapter a)) (\<lambda>_. win_call DeleteDriver)
     | None \<Rightarrow> op_lift (Err (IoOther ''Failed to open adapter'')))"

definition wintun_new :: "win_env \<Rightarrow> bytes \<Rightarrow> ustr \<Rightarrow> (win_world, io_error, wintun_device) op" where
  "wintun_new we guid name =
     (if \<not> we_library we then op_lift (Err (IoOther ''wintun.dll not found ''))
      else if \<not> we_symbols we then op_lift (Err (IoOther ''library error ''))
      else let name_utf16 = encode_utf16 name in
        if length name_utf16 > MAX_POOL then op_lift (Err (IoOther ''too long 256:''))
        else
          op_bind (delete_if_exists we name_utf16) (\<lambda>_.
          op_bind (win_call (CreateAdapter name_utf16)) (\<lambda>_.
          case we_create_adapter we name_utf16 guid of
            None \<Rightarrow> op_lift (Err (IoOther ''Failed to crate adapter''))
          | Some adapter \<Rightarrow>
              op_bind (win_call (StartSession adapter MAX_RING_CAPACITY)) (\<lambda>_.
              case we_start_session we adapter MAX_RING_CAPACITY of
                None \<Rightarrow> op_lift (Err (IoOther ''WintunStartSession failed''))
              | Some session \<Rightarrow>
                  let luid = we_adapter_luid we adapter in
                  op_bind (op_lift (luid_to_index we luid)) (\<lambda>index.
                  op_bind (op_ignore (set_interface_metric we index 0)) (\<lambda>_.
                  op_bind (op_lift (luid_to_alias we luid)) (\<lambda>alias w.
                    (Ok \<lparr>wd_luid = luid, wd_index = index, wd_session = session,
                         wd_read_event = we_read_event we session, wd_shutdown_event = we_shutdown_event we,
                         wd_adapter = adapter, wd_name = decode_utf16 alias\<rparr>,
                     w\<lparr>ww_ip_info := None\<rparr>))))))))"

definition wintun_enabled :: "wintun_device \<Rightarrow> bool \<Rightarrow> (win_world, io_error, unit) op" where
  "wintun_enabled d value = op_ret ()"

definition wintun_mtu :: "wintun_device \<Rightarrow> (win_world, tun_error, u16) op" where
  "wintun_mtu d = op_lift (Err (Unsupported ''mtu''))"

definition wintun_set_mtu :: "win_env \<Rightarrow> wintun_device \<Rightarrow> u16 \<Rightarrow> (win_world, tun_error, unit) op" where
  "wintun_set_mtu we d mtu = op_err TunIO (set_interface_mtu we (wd_index d) (ucast mtu))"

definition wintun_address :: "wintun_device \<Rightarrow> (win_world, io_error, bytes) op" where
  "wintun_address d w = (case ww_ip_info w of Some (a, m) \<Rightarrow> Ok a | None \<Rightarrow> Err (IoKind ''NotFound''), w)"

definition wintun_set_address :: "wintun_device \<Rightarrow> bytes \<Rightarrow> (win_world, io_error, unit) op" where
  "wintun_set_address d value = op_lift (Err (IoKind ''Unsupported''))"

definition wintun_netmask :: "wintun_device \<Rightarrow> (win_world, io_error, bytes) op" where
  "wintun_netmask d = op_lift (Err (IoKind ''Unsupported''))"

definition wintun_set_netmask :: "wintun_device \<Rightarrow> bytes \<Rightarrow> (win_world, io_error, unit) op" where
  "wintun_set_netmask d value = op_lift (Err (IoKind ''Unsupported''))"

definition wintun_set_ip :: "win_env \<Rightarrow> wintun_device \<Rightarrow> bytes \<Rightarrow> bytes \<Rightarrow> (win_world, io_error, unit) op" where
  "wintun_set_ip we d address m =
     op_bind (set_interface_ip we (wd_index d) address m) (\<lambda>_ w. (Ok (), w\<lparr>ww_ip_info := Some (address, m)\<rparr>))"

text \<open>Dropping the device; the driver's status is only logged.\<close>

definition wintun_drop :: "win_env \<Rightarrow> wintun_device \<Rightarrow> (win_world, io_error, unit) op" where
  "wintun_drop we d =
     op_bind (op_ignore (close_handle we (wd_shutdown_event d))) (\<lambda>_.
     op_bind (win_call (EndSession (wd_session d))) (\<lambda>_.
     op_bind (win_call (CloseAdapter (wd_adapter d))) (\<lambda>_. win_call DeleteDriver)))"

section \<open>Packets (tun/packet.rs, tun/mod.rs)\<close>

datatype packet_kind = SendPacketPending | SendPacketSent | ReceivePacket

record tun_packet =
  tk_kind :: packet_kind
  tk_ptr :: nat
  tk_bytes :: bytes
  tk_device :: bool

text \<open>\<open>Drop\<close>: a received packet goes back to the ring, and a packet that was allocated but never sent panics.\<close>

definition packet_drop :: "tun_packet \<Rightarrow> (win_world, 'e, unit) op" where
  "packet_drop p =
     (case tk_kind p of
        ReceivePacket \<Rightarrow> if tk_device p then win_call (ReleaseReceivePacket (tk_ptr p)) else op_lift Panic
      | SendPacketPending \<Rightarrow> op_lift Panic
      | SendPacketSent \<Rightarrow> op_ret ())"

text \<open>What one \<open>WintunReceivePacket\<close> comes back with, and one wait for the read and shutdown events.\<close>

datatype receive_try = NoMoreItems | ReceiveFailed | Packet nat bytes

datatype wait_result = WaitFailed | WaitRead | WaitShutdown | WaitOther

definition try_receive :: "receive_try \<Rightarrow> (io_error, tun_packet option) result" where
  "try_receive t =
     (case t of
        NoMoreItems \<Rightarrow> Ok None
      | ReceiveFailed \<Rightarrow> Err (IoOther ''try_receive failed'')
      | Packet p bs \<Rightarrow> Ok (Some \<lparr>tk_kind = ReceivePacket, tk_ptr = p, tk_bytes = bs, tk_device = True\<rparr>))"

text \<open>\<open>receive_blocking\<close>: up to 20 tries, then a wait, and again.  The first argument counts the tries left of the round;
  \<open>None\<close> means that the call still waits.\<close>

function receive_loop :: "nat \<Rightarrow> receive_try list \<Rightarrow> wait_result list \<Rightarrow> (io_error, tun_packet) result option" where
  "receive_loop 0 ts [] = None"
| "receive_loop 0 ts (WaitFailed # ws) = Some (Err (IoOther ''WAIT_FAILED''))"
| "receive_loop 0 ts (WaitShutdown # ws) = Some (Err (IoOther ''Shutdown event triggered''))"
| "receive_loop 0 ts (WaitRead # ws) = receive_loop 20 ts ws"
| "receive_loop 0 ts (WaitOther # ws) = receive_loop 20 ts ws"
| "receive_loop (Suc i) [] ws = None"
| "receive_loop (Suc i) (t # ts) ws =
     (case try_receive t of
        Ok None \<Rightarrow> receive_loop i ts ws
      | Ok (Some p) \<Rightarrow> Some (Ok p)
      | Err e \<Rightarrow> Some (Err e)
      | Panic \<Rightarrow> Some Panic)"
  by pat_completeness auto

termination
  by (relation "measure (\<lambda>(i, ts, ws). length ts + length ws)") simp_all

definition receive_blocking :: "receive_try list \<Rightarrow> wait_result list \<Rightarrow> (io_error, tun_packet) result option" where
  "receive_blocking ts ws = receive_loop 20 ts ws"

text \<open>\<open>recv\<close> copies the packet and drops it.\<close>

definition wintun_recv :: "receive_try list \<Rightarrow> wait_result list \<Rightarrow> win_world \<Rightarrow> ((tun_error, bytes) result \<times> win_world) option" where
  "wintun_recv ts ws w =
     map_option (\<lambda>r. op_bind (op_err TunIO (op_lift r))
       (\<lambda>p. op_bind (packet_drop p) (\<lambda>_. op_ret (tk_bytes p))) w) (receive_blocking ts ws)"

text \<open>\<open>alloc sz\<close> is what \<open>WintunAllocateSendPacket\<close> returns.  The memory it points to is overwritten before it is read; here it
  holds zeros.\<close>

definition allocate_send_packet :: "(u32 \<Rightarrow> nat option) \<Rightarrow> u16 \<Rightarrow> (io_error, tun_packet) result" where
  "allocate_send_packet alloc sz =
     (case alloc (ucast sz) of
        None \<Rightarrow> Err (IoOther ''allocate_send_packet failed'')
      | Some p \<Rightarrow>
          Ok \<lparr>tk_kind = SendPacketPending, tk_ptr = p, tk_bytes = replicate (unat sz) 0, tk_device = False\<rparr>)"

definition send_packet :: "tun_packet \<Rightarrow> (win_world, 'e, unit) op" where
  "send_packet p =
     (if tk_kind p \<noteq> SendPacketPending then op_lift Panic
      else op_bind (win_call (SendPacket (tk_ptr p) (tk_bytes p)))
        (\<lambda>_. packet_drop (p\<lparr>tk_kind := SendPacketSent\<rparr>)))"

text \<open>\<open>copy_from_slice\<close> panics when the lengths differ, that is when the length does not fit 16 bits; the drop of the pending
  packet panics again.\<close>

definition wintun_send :: "(u32 \<Rightarrow> nat option) \<Rightarrow> bytes \<Rightarrow> (win_world, tun_error, unit) op" where
  "wintun_send alloc buf =
     op_bind (op_err TunIO (op_lift (allocate_send_packet alloc (of_nat (length buf))))) (\<lambda>p.
       if length (tk_bytes p) \<noteq> length buf then op_lift Panic
       else send_packet (p\<lparr>tk_bytes := buf\<rparr>))"

section \<open>The TAP device (tap.rs)\<close>

definition FILE_DEVICE_UNKNOWN :: u32 where "FILE_DEVICE_UNKNOWN = 0x22"
definition METHOD_BUFFERED :: u32 where "METHOD_BUFFERED = 0"
definition FILE_ANY_ACCESS :: u32 where "FILE_ANY_ACCESS = 0"

definition tap_code :: "u32 \<Rightarrow> u32" where
  "tap_code f = ctl_code FILE_DEVICE_UNKNOWN f METHOD_BUFFERED FILE_ANY_ACCESS"

definition TAP_WIN_IOCTL_GET_MAC :: u32 where "TAP_WIN_IOCTL_GET_MAC = tap_code 1"
definition TAP_WIN_IOCTL_GET_VERSION :: u32 where "TAP_WIN_IOCTL_GET_VERSION = tap_code 2"
definition TAP_WIN_IOCTL_GET_MTU :: u32 where "TAP_WIN_IOCTL_GET_MTU = tap_code 3"
definition TAP_WIN_IOCTL_GET_INFO :: u32 where "TAP_WIN_IOCTL_GET_INFO = tap_code 4"
definition TAP_WIN_IOCTL_CONFIG_POINT_TO_POINT :: u32 where "TAP_WIN_IOCTL_CONFIG_POINT_TO_POINT = tap_code 5"
definition TAP_WIN_IOCTL_SET_MEDIA_STATUS :: u32 where "TAP_WIN_IOCTL_SET_MEDIA_STATUS = tap_code 6"
definition TAP_WIN_IOCTL_CONFIG_DHCP_MASQ :: u32 where "TAP_WIN_IOCTL_CONFIG_DHCP_MASQ = tap_code 7"
definition TAP_WIN_IOCTL_GET_LOG_LINE :: u32 where "TAP_WIN_IOCTL_GET_LOG_LINE = tap_code 8"
definition TAP_WIN_IOCTL_CONFIG_DHCP_SET_OPT :: u32 where "TAP_WIN_IOCTL_CONFIG_DHCP_SET_OPT = tap_code 9"
definition TAP_WIN_IOCTL_CONFIG_TUN :: u32 where "TAP_WIN_IOCTL_CONFIG_TUN = tap_code 10"

record tap_device =
  td_handle :: nat
  td_index :: u32
  td_luid :: u64
  td_mac :: bytes
  td_name :: ustr

definition tap_enabled :: "win_env \<Rightarrow> tap_device \<Rightarrow> bool \<Rightarrow> (win_world, io_error, unit) op" where
  "tap_enabled we d value =
     op_lift (rbind (device_io_control we (td_handle d) TAP_WIN_IOCTL_SET_MEDIA_STATUS
                       (to_le_bytes 4 (if value then 1 else 0 :: u32)) 0) (\<lambda>_. Ok ()))"

text \<open>The path \<open>\\.\Global\{guid}.tap\<close> as scalar values.\<close>

definition tap_path :: "ustr \<Rightarrow> ustr" where
  "tap_path guid = map of_char [CHR 0x5C, CHR 0x5C, CHR ''.'', CHR 0x5C] @ map of_char ''Global'' @ map of_char [CHR 0x5C] @
     guid @ map of_char ''.tap''"

definition tap_new :: "win_env \<Rightarrow> ustr \<Rightarrow> (win_world, io_error, tap_device) op" where
  "tap_new we name =
     op_bind (op_lift (alias_to_luid we (encode_utf16 name))) (\<lambda>luid.
     op_bind (op_lift (rbind (luid_to_guid we luid) (string_from_guid we))) (\<lambda>guid.
     op_bind (op_lift (create_file we (encode_utf16 (tap_path (decode_utf16 guid))))) (\<lambda>h.
     op_bind (op_lift (device_io_control we h TAP_WIN_IOCTL_GET_MAC [] 6)) (\<lambda>mac.
     op_bind (op_lift (luid_to_index we luid)) (\<lambda>index.
     op_bind (op_ignore (set_interface_metric we index 0)) (\<lambda>_.
     op_bind (op_lift (luid_to_alias we luid)) (\<lambda>alias.
     let d = \<lparr>td_handle = h, td_index = index, td_luid = luid, td_mac = mac, td_name = decode_utf16 alias\<rparr> in
     op_bind (tap_enabled we d True) (\<lambda>_. op_ret d))))))))"

definition write_tap :: "(int, u32) result \<Rightarrow> u32 option \<Rightarrow> (io_error, nat) result" where
  "write_tap first waited = rbind (overlapped first waited) (\<lambda>n. Ok (unat n))"

text \<open>The MTU is read into two bytes.\<close>

definition tap_mtu :: "win_env \<Rightarrow> tap_device \<Rightarrow> (win_world, tun_error, u16) op" where
  "tap_mtu we d =
     op_err TunIO (op_lift (rbind (device_io_control we (td_handle d) TAP_WIN_IOCTL_GET_MTU [] 2)
       (\<lambda>out. Ok (from_le_bytes out))))"

definition tap_set_mtu :: "win_env \<Rightarrow> tap_device \<Rightarrow> u16 \<Rightarrow> (win_world, tun_error, unit) op" where
  "tap_set_mtu we d mtu = op_err TunIO (set_interface_mtu we (td_index d) (ucast mtu))"

definition tap_address :: "tap_device \<Rightarrow> (win_world, io_error, bytes) op" where
  "tap_address d = op_lift (Err (IoKind ''Unsupported''))"

definition tap_set_address :: "win_env \<Rightarrow> tap_device \<Rightarrow> bytes \<Rightarrow> (win_world, io_error, unit) op" where
  "tap_set_address we d value = set_interface_ip we (td_index d) value [0, 0, 0, 0]"

definition tap_netmask :: "tap_device \<Rightarrow> (win_world, io_error, bytes) op" where
  "tap_netmask d = op_lift (Err (IoKind ''Unsupported''))"

definition tap_set_netmask :: "tap_device \<Rightarrow> bytes \<Rightarrow> (win_world, io_error, unit) op" where
  "tap_set_netmask d value = op_lift (Err (IoKind ''Unsupported''))"

definition tap_set_ip :: "win_env \<Rightarrow> tap_device \<Rightarrow> bytes \<Rightarrow> bytes \<Rightarrow> (win_world, io_error, unit) op" where
  "tap_set_ip we d address m = set_interface_ip we (td_index d) address m"

text \<open>Both directions are \<open>todo!()\<close>.\<close>

definition tap_recv :: "(tun_error, bytes) result" where "tap_recv = Panic"

definition tap_send :: "bytes \<Rightarrow> (tun_error, unit) result" where "tap_send buf = Panic"

definition tap_drop :: "win_env \<Rightarrow> tap_device \<Rightarrow> (win_world, 'e, unit) op" where
  "tap_drop we d = op_ignore (close_handle we (td_handle d))"

section \<open>The choice (device.rs)\<close>

datatype win_tun = TapDev tap_device | TunDev wintun_device

definition win_new :: "win_env \<Rightarrow> bytes \<Rightarrow> ustr option \<Rightarrow> bool \<Rightarrow> (win_world, start_error, win_tun) op" where
  "win_new we guid name tap =
     (let name = (case name of Some n \<Rightarrow> n | None \<Rightarrow> map of_char ''vlink-tun'') in
      if tap then op_bind (op_err DevIO (tap_new we name)) (\<lambda>d. op_ret (TapDev d))
      else op_bind (op_err DevIO (wintun_new we guid name)) (\<lambda>d. op_ret (TunDev d)))"

definition win_enabled :: "win_env \<Rightarrow> win_tun \<Rightarrow> bool \<Rightarrow> (win_world, io_error, unit) op" where
  "win_enabled we t value = (case t of TapDev d \<Rightarrow> tap_enabled we d value | TunDev d \<Rightarrow> wintun_enabled d value)"

definition win_name :: "win_tun \<Rightarrow> ustr" where
  "win_name t = (case t of TapDev d \<Rightarrow> td_name d | TunDev d \<Rightarrow> wd_name d)"

definition win_mtu :: "win_env \<Rightarrow> win_tun \<Rightarrow> (win_world, tun_error, u16) op" where
  "win_mtu we t = (case t of TapDev d \<Rightarrow> tap_mtu we d | TunDev d \<Rightarrow> wintun_mtu d)"

definition win_set_mtu :: "win_env \<Rightarrow> win_tun \<Rightarrow> u16 \<Rightarrow> (win_world, tun_error, unit) op" where
  "win_set_mtu we t mtu = (case t of TapDev d \<Rightarrow> tap_set_mtu we d mtu | TunDev d \<Rightarrow> wintun_set_mtu we d mtu)"

definition win_address :: "win_tun \<Rightarrow> (win_world, io_error, bytes) op" where
  "win_address t = (case t of TapDev d \<Rightarrow> tap_address d | TunDev d \<Rightarrow> wintun_address d)"

definition win_set_address :: "win_env \<Rightarrow> win_tun \<Rightarrow> bytes \<Rightarrow> (win_world, io_error, unit) op" where
  "win_set_address we t value = (case t of TapDev d \<Rightarrow> tap_set_address we d value | TunDev d \<Rightarrow> wintun_set_address d value)"

definition win_netmask :: "win_tun \<Rightarrow> (win_world, io_error, bytes) op" where
  "win_netmask t = (case t of TapDev d \<Rightarrow> tap_netmask d | TunDev d \<Rightarrow> wintun_netmask d)"

definition win_set_netmask :: "win_tun \<Rightarrow> bytes \<Rightarrow> (win_world, io_error, unit) op" where
  "win_set_netmask t value = (case t of TapDev d \<Rightarrow> tap_set_netmask d value | TunDev d \<Rightarrow> wintun_set_netmask d value)"

definition win_recv :: "win_tun \<Rightarrow> receive_try list \<Rightarrow> wait_result list \<Rightarrow> win_world \<Rightarrow> ((tun_error, bytes) result \<times> win_world) option" where
  "win_recv t ts ws w = (case t of TapDev d \<Rightarrow> Some (tap_recv, w) | TunDev d \<Rightarrow> wintun_recv ts ws w)"

definition win_send :: "win_tun \<Rightarrow> (u32 \<Rightarrow> nat option) \<Rightarrow> bytes \<Rightarrow> (win_world, tun_error, unit) op" where
  "win_send t alloc buf = (case t of TapDev d \<Rightarrow> op_lift (tap_send buf) | TunDev d \<Rightarrow> wintun_send alloc buf)"

definition win_set_ip :: "win_env \<Rightarrow> win_tun \<Rightarrow> bytes \<Rightarrow> bytes \<Rightarrow> (win_world, io_error, unit) op" where
  "win_set_ip we t address m = (case t of TapDev d \<Rightarrow> tap_set_ip we d address m | TunDev d \<Rightarrow> wintun_set_ip we d address m)"

text \<open>Names as the rest of the device handles them: those of Latin characters.\<close>

definition windows_ops :: "win_env \<Rightarrow> bytes \<Rightarrow> (win_world, win_tun) tun_ops" where
  "windows_ops we guid = \<lparr>to_new = (\<lambda>name tap. win_new we guid (map_option (map of_char) name) tap),
     to_enabled = win_enabled we, to_name = (\<lambda>t. map char_of (win_name t)), to_mtu = win_mtu we,
     to_set_mtu = win_set_mtu we, to_address = win_address, to_set_address = win_set_address we,
     to_netmask = win_netmask, to_set_netmask = win_set_netmask, to_set_ip = win_set_ip we\<rparr>"

section \<open>Strings, packets and codes\<close>

lemma from_utf16_units:
  assumes "scalar c"
  shows "from_utf16_lossy (utf16_units c @ us) = c # from_utf16_lossy us"
proof (cases "c < 0x10000")
  case True
  then have "unat (of_nat c :: u16) = c" by (simp add: unat_of_nat)
  then show ?thesis using assms True by (auto simp: utf16_units_def scalar_def)
next
  case False
  define h l where "h = (c - 0x10000) div 0x400" and "l = (c - 0x10000) mod 0x400"
  have c: "c = 0x10000 + h * 0x400 + l" using False by (simp add: h_def l_def)
  have "c < 0x110000" using assms False by (auto simp: scalar_def)
  then have h: "h < 0x400" and l: "l < 0x400" by (auto simp: h_def l_def)
  have "unat (of_nat (0xD800 + h) :: u16) = 0xD800 + h" "unat (of_nat (0xDC00 + l) :: u16) = 0xDC00 + l"
    using h l by (simp_all only: unat_of_nat) simp_all
  moreover have "utf16_units c = [of_nat (0xD800 + h), of_nat (0xDC00 + l)]"
    using False by (simp add: utf16_units_def h_def l_def)
  ultimately show ?thesis using h l by (simp add: c del: of_nat_add)
qed

lemma from_utf16_encoded: "list_all scalar s \<Longrightarrow> from_utf16_lossy (concat (map utf16_units s) @ us) = s @ from_utf16_lossy us"
  by (induction s) (simp_all add: from_utf16_units)

lemma utf16_units_zero: "scalar c \<Longrightarrow> 0 \<in> set (utf16_units c) \<longleftrightarrow> c = 0"
proof -
  assume c: "scalar c"
  have pos: "(of_nat n :: u16) \<noteq> 0" if "0 < n" "n < 65536" for n
  proof -
    have "unat (of_nat n :: u16) = n" using that by (simp add: unat_of_nat)
    then show ?thesis using that(1) by (metis unat_0 less_irrefl)
  qed
  have "(c - 0x10000) div 0x400 < 0x400" "(c - 0x10000) mod 0x400 < 0x400" using c by (auto simp: scalar_def)
  then show ?thesis
    using c pos [of c] pos [of "0xD800 + (c - 0x10000) div 0x400"] pos [of "0xDC00 + (c - 0x10000) mod 0x400"]
    by (auto simp: utf16_units_def scalar_def)
qed

lemma takeWhile_encoded:
  "list_all scalar s \<Longrightarrow> takeWhile (\<lambda>b. b \<noteq> 0) (concat (map utf16_units s) @ 0 # us) = concat (map utf16_units (takeWhile (\<lambda>c. c \<noteq> 0) s))"
proof (induction s)
  case (Cons c s)
  show ?case
  proof (cases "c = 0")
    case True
    then show ?thesis by (simp add: utf16_units_def)
  next
    case False
    then have "\<forall>b \<in> set (utf16_units c). b \<noteq> 0" using Cons.prems utf16_units_zero [of c] by auto
    then show ?thesis using Cons False by (simp add: takeWhile_append2)
  qed
qed simp

lemma receive_loop_tries:
  "receive_loop (i + n) (replicate n NoMoreItems @ ts) ws = receive_loop i ts ws"
  by (induction n) (simp_all add: try_receive_def)

lemma receive_loop_packet:
  "length ws = n div 20 \<Longrightarrow> list_all (\<lambda>w. w = WaitRead \<or> w = WaitOther) ws \<Longrightarrow>
   receive_loop 20 (replicate n NoMoreItems @ Packet p bs # ts) (ws @ ws') =
     Some (Ok \<lparr>tk_kind = ReceivePacket, tk_ptr = p, tk_bytes = bs, tk_device = True\<rparr>)"
proof (induction "n div 20" arbitrary: n ws)
  case 0
  then have n: "n < 20" by simp
  then obtain i where i: "20 = Suc i + n" by (metis less_iff_Suc_add add.commute add_Suc_right)
  have "receive_loop 20 (replicate n NoMoreItems @ Packet p bs # ts) ws' = receive_loop (Suc i) (Packet p bs # ts) ws'"
    unfolding i by (rule receive_loop_tries)
  then show ?case using 0 by (simp add: try_receive_def)
next
  case (Suc k)
  then obtain v vs where ws: "ws = v # vs" "length vs = k" "v = WaitRead \<or> v = WaitOther" "list_all (\<lambda>w. w = WaitRead \<or> w = WaitOther) vs"
    by (cases ws) auto
  have n: "20 \<le> n" "k = (n - 20) div 20" using Suc(2) by auto
  have "replicate n NoMoreItems = replicate 20 NoMoreItems @ replicate (n - 20) NoMoreItems"
    using n(1) by (metis le_add_diff_inverse replicate_add)
  then have "receive_loop 20 (replicate n NoMoreItems @ Packet p bs # ts) (ws @ ws') =
      receive_loop 0 (replicate (n - 20) NoMoreItems @ Packet p bs # ts) (v # vs @ ws')"
    using receive_loop_tries [of 0 20 "replicate (n - 20) NoMoreItems @ Packet p bs # ts" "ws @ ws'"] by (simp add: ws(1))
  then show ?case using Suc(1) [of "n - 20" vs] n ws by auto
qed

lemma receive_loop_some:
  "receive_loop i ts ws = Some (Ok p) \<Longrightarrow>
   tk_kind p = ReceivePacket \<and> tk_device p \<and> Packet (tk_ptr p) (tk_bytes p) \<in> set ts"
  by (induction i ts ws rule: receive_loop.induct)
    (auto simp: try_receive_def split: receive_try.splits)

lemma receive_loop_no_panic: "receive_loop i ts ws \<noteq> Some Panic"
  by (induction i ts ws rule: receive_loop.induct) (auto simp: try_receive_def split: receive_try.splits)

lemma wintun_recv_calls:
  assumes "wintun_recv ts ws w = Some (r, w')"
  shows "case r of
      Ok bs \<Rightarrow> (\<exists>p. Packet p bs \<in> set ts \<and> ww_calls w' = ww_calls w @ [ReleaseReceivePacket p])
    | Err e \<Rightarrow> w' = w
    | Panic \<Rightarrow> False"
proof -
  obtain r0 where r0: "receive_loop 20 ts ws = Some r0"
    using assms by (auto simp: wintun_recv_def receive_blocking_def)
  show ?thesis
  proof (cases r0)
    case (Ok p)
    then show ?thesis
      using assms r0 receive_loop_some [of 20 ts ws p]
      by (auto simp: wintun_recv_def receive_blocking_def op_bind_def op_err_def op_lift_def op_ret_def packet_drop_def win_call_def)
  qed (use assms r0 receive_loop_no_panic [of 20 ts ws] in
      \<open>auto simp: wintun_recv_def receive_blocking_def op_bind_def op_err_def op_lift_def\<close>)
qed

lemma wintun_send_calls:
  "wintun_send alloc buf w =
     (case alloc (ucast (of_nat (length buf) :: u16)) of
        None \<Rightarrow> (Err (TunIO (IoOther ''allocate_send_packet failed'')), w)
      | Some p \<Rightarrow> if length buf < 2 ^ 16 then (Ok (), w\<lparr>ww_calls := ww_calls w @ [SendPacket p buf]\<rparr>) else (Panic, w))"
proof -
  have u: "unat (of_nat (length buf) :: u16) = length buf mod 2 ^ 16" by (simp add: unat_of_nat)
  then have "unat (of_nat (length buf) :: u16) \<noteq> length buf \<longleftrightarrow> \<not> length buf < 2 ^ 16"
    by (metis mod_less mod_less_divisor zero_less_numeral zero_less_power)
  then show ?thesis
    by (auto simp: wintun_send_def allocate_send_packet_def op_bind_def op_err_def op_lift_def op_ret_def send_packet_def
        packet_drop_def win_call_def split: option.split)
qed

text \<open>The codes are those of the driver, all different; a session that does not start leaves its adapter open.\<close>

lemma tap_codes: "map tap_code [1, 2, 3, 4, 5, 6, 7, 8, 9, 10] =
    [0x220004, 0x220008, 0x22000C, 0x220010, 0x220014, 0x220018, 0x22001C, 0x220020, 0x220024, 0x220028]"
  by code_simp

lemma wintun_session_failed:
  assumes "we_library we" "we_symbols we" "length (encode_utf16 name) \<le> MAX_POOL" "we_open_adapter we (encode_utf16 name) = None"
    and "we_create_adapter we (encode_utf16 name) guid = Some a" "we_start_session we a MAX_RING_CAPACITY = None"
  shows "wintun_new we guid name w = (Err (IoOther ''WintunStartSession failed''),
    w\<lparr>ww_calls := ww_calls w @ [OpenAdapter (encode_utf16 name), CreateAdapter (encode_utf16 name), StartSession a MAX_RING_CAPACITY]\<rparr>)"
  using assms by (simp add: wintun_new_def delete_if_exists_def op_bind_def win_call_def op_ret_def op_lift_def Let_def)

section \<open>Properties\<close>

text \<open>Names survive Windows.  A name encoded for Windows, read back from a buffer that holds it with anything behind the
  terminator, is the name up to its first zero character; in particular names with characters outside the basic plane
  come back whole.\<close>

theorem utf16_roundtrip:
  assumes "list_all scalar s"
  shows "decode_utf16 (encode_utf16 s @ rest) = takeWhile (\<lambda>c. c \<noteq> 0) s"
proof -
  have "list_all scalar (takeWhile (\<lambda>c. c \<noteq> 0) s)" using assms by (auto simp: list_all_iff dest: set_takeWhileD)
  from from_utf16_encoded [OF this, of "[]"] show ?thesis
    by (simp add: decode_utf16_def encode_utf16_def takeWhile_encoded [OF assms])
qed

theorem utf16_roundtrip_witness: "decode_utf16 (encode_utf16 [0x76, 0x1F680] @ [7, 7]) = [0x76, 0x1F680]"
  using utf16_roundtrip [of "[0x76, 0x1F680]" "[7, 7]"] by (simp add: scalar_def)



end
