(* ===== verification/Device_Start.thy ===== *)
theory Device_Start
  imports Device Tun_Macos Tun_Windows
begin

text \<open>
  Starting a device: \<open>Device::new\<close> (\<open>device/mod.rs\<close> of \<open>vlink-tun\<close>) opens the tunnel interface, enables it, gives it its
  address and mask, adds the route of the network (\<open>router\<close>), binds the UDP transport and builds the device.  It is
  written once over the operations of the trait \<open>Tun\<close>, which each platform provides.
\<close>

section \<open>Routes (router)\<close>

text \<open>On Linux and Windows adding a route does nothing; on macOS it runs a command whose result is only logged.  \<open>starts\<close> says
  whether the shell can be started at all.\<close>

definition linux_add_route :: "string \<Rightarrow> bytes \<Rightarrow> bytes \<Rightarrow> ('w, start_error, unit) op" where
  "linux_add_route name addr m = op_ret ()"

definition windows_add_route :: "string \<Rightarrow> bytes \<Rightarrow> bytes \<Rightarrow> ('w, start_error, unit) op" where
  "windows_add_route name addr m = op_ret ()"

definition route_command :: "string \<Rightarrow> bytes \<Rightarrow> bytes \<Rightarrow> string" where
  "route_command name addr m =
     ''route -n add '' @ ipv4_to_string addr @ '' -netmask '' @ ipv4_to_string m @ '' -interface '' @ name"

definition darwin_add_route :: "(string \<Rightarrow> bool) \<Rightarrow> string \<Rightarrow> bytes \<Rightarrow> bytes \<Rightarrow> ('w, start_error, unit) op" where
  "darwin_add_route starts name addr m = op_lift (if starts (route_command name addr m) then Ok () else Panic)"

section \<open>Device::new\<close>

record ('n, 't, 'u) started =
  sd_tun :: 'u
  sd_tun_addr :: bytes
  sd_port :: u16
  sd_udp :: udp_transport
  sd_device :: "('n, 't) device"

text \<open>\<open>full_netmask\<close> and \<open>network_address\<close> are those of crate \<open>ip_network\<close> on networks of version 4; a network of version 6
  has no mask here and is unfinished code, so that only addresses of version 4 reach the router.\<close>

definition device_start ::
    "('w, 'u) tun_ops \<Rightarrow> (string \<Rightarrow> bytes \<Rightarrow> bytes \<Rightarrow> ('w, start_error, unit) op) \<Rightarrow> ('n \<Rightarrow> bytes option) \<Rightarrow> ('n \<Rightarrow> bytes) \<Rightarrow>
     ('n, 't, nat) netlib \<Rightarrow> env \<Rightarrow> u32 \<Rightarrow> string option \<Rightarrow> 'n device_config \<Rightarrow> 'n peer_config list \<Rightarrow> bind_attempt list \<Rightarrow>
     ('w, start_error, ('n, 't, 'u) started) op" where
  "device_start ops add_route full_netmask network_address nl en rnd name cfg peers attempts =
     op_bind (to_new ops name False) (\<lambda>tun.
     op_bind (op_err DevIO (to_enabled ops tun True)) (\<lambda>_.
     case full_netmask (dc_network cfg) of
       None \<Rightarrow> op_lift Panic
     | Some m \<Rightarrow>
         op_bind (op_err DevIO (to_set_ip ops tun (dc_address cfg) m)) (\<lambda>_.
         op_bind (add_route (to_name ops tun) (network_address (dc_network cfg)) m) (\<lambda>_.
         op_bind (op_err (DevIO \<circ> IoOther) (op_lift (udp_spawn (dc_port cfg) attempts))) (\<lambda>(port, udp).
         op_bind (op_err DevIO (to_address ops tun)) (\<lambda>addr.
           op_ret \<lparr>sd_tun = tun, sd_tun_addr = addr, sd_port = port, sd_udp = udp,
                   sd_device = device_new nl en rnd cfg peers\<rparr>))))))"

lemma op_bind_Ok:
  "op_bind m f w = (Ok y, w') \<longleftrightarrow> (\<exists>x w1. m w = (Ok x, w1) \<and> f x w1 = (Ok y, w'))"
  by (auto simp: op_bind_def split: prod.splits result.splits)

lemma op_err_Ok: "op_err g m w = (Ok x, w') \<longleftrightarrow> m w = (Ok x, w')"
  by (cases "m w"; cases "fst (m w)") (auto simp: op_err_def)

lemma op_lift_Ok: "op_lift r w = (Ok x, w') \<longleftrightarrow> r = Ok x \<and> w' = w"
  by (auto simp: op_lift_def)

lemma op_ret_Ok: "op_ret x w = (Ok y, w') \<longleftrightarrow> y = x \<and> w' = w"
  by (auto simp: op_ret_def)

lemmas op_Ok = op_bind_Ok op_err_Ok op_lift_Ok op_ret_Ok

text \<open>A start that succeeds: what has been done, in order.\<close>

lemma device_start_Ok:
  assumes "device_start ops add_route fm na nl en rnd name cfg peers attempts w = (Ok s, w')"
    and "\<And>n a m w. snd (add_route n a m w) = w"
  obtains m w1 w2 where "fm (dc_network cfg) = Some m" "to_set_ip ops (sd_tun s) (dc_address cfg) m w1 = (Ok (), w2)"
    "to_address ops (sd_tun s) w2 = (Ok (sd_tun_addr s), w')" "sd_device s = device_new nl en rnd cfg peers"
    "sd_port s = dc_port cfg" "\<exists>w0. to_new ops name False w = (Ok (sd_tun s), w0)"
proof -
  have route: "w1 = w2" if "add_route n a m w1 = (Ok (), w2)" for n a m w1 w2
    using assms(2) [of n a m w1] that by simp
  show ?thesis
    using assms(1) that
    by (fastforce simp: device_start_def op_Ok udp_spawn_def result_simps split: option.splits dest: route)
qed

lemma wintun_started:
  assumes "device_start (windows_ops we guid) windows_add_route fm na nl en rnd name cfg peers attempts w = (Ok s, w')"
  shows "sd_tun_addr s = dc_address cfg" "\<exists>m. fm (dc_network cfg) = Some m \<and> ww_ip_info w' = Some (dc_address cfg, m)"
proof -
  obtain m w1 w2 where m: "fm (dc_network cfg) = Some m"
      "to_set_ip (windows_ops we guid) (sd_tun s) (dc_address cfg) m w1 = (Ok (), w2)"
      "to_address (windows_ops we guid) (sd_tun s) w2 = (Ok (sd_tun_addr s), w')"
      "\<exists>w0. to_new (windows_ops we guid) name False w = (Ok (sd_tun s), w0)"
    by (rule device_start_Ok [OF assms]) (auto simp: windows_add_route_def op_ret_def)
  obtain d where d: "sd_tun s = TunDev d" using m(4) by (auto simp: windows_ops_def win_new_def op_Ok)
  have "ww_ip_info w2 = Some (dc_address cfg, m)"
    using m(2) d by (auto simp: windows_ops_def win_set_ip_def wintun_set_ip_def op_Ok)
  then show "sd_tun_addr s = dc_address cfg" "\<exists>m. fm (dc_network cfg) = Some m \<and> ww_ip_info w' = Some (dc_address cfg, m)"
    using m(1,3) d by (auto simp: windows_ops_def win_address_def wintun_address_def split: option.splits)
qed

context ip_interface
begin

lemma start_reads_back:
  assumes "lawful k" "usable (sd_tun s)" "length (dc_address cfg) = 4" "\<And>m. fm (dc_network cfg) = Some m \<Longrightarrow> length m = 4"
    and start: "device_start ops add_route fm na nl en rnd name cfg peers attempts w = (Ok s, w')"
    and ops: "to_set_ip ops = tun_set_ip (set_address k) (set_netmask k)" "to_address ops = address k"
    and route: "\<And>n a m w. snd (add_route n a m w) = w" and get: "\<And>t w. snd (address k t w) = w"
  shows "sd_tun_addr s = dc_address cfg" "fst (address k (sd_tun s) w') = Ok (dc_address cfg)"
    "\<exists>m. fm (dc_network cfg) = Some m \<and> fst (netmask_of k (sd_tun s) w') = Ok m"
proof -
  obtain m w1 w2 where m: "fm (dc_network cfg) = Some m" "to_set_ip ops (sd_tun s) (dc_address cfg) m w1 = (Ok (), w2)"
      "to_address ops (sd_tun s) w2 = (Ok (sd_tun_addr s), w')"
    by (rule device_start_Ok [OF start route])
  have "w' = w2" using m(3) get [of "sd_tun s" w2] by (simp add: ops)
  then show "sd_tun_addr s = dc_address cfg" "fst (address k (sd_tun s) w') = Ok (dc_address cfg)"
    "\<exists>m. fm (dc_network cfg) = Some m \<and> fst (netmask_of k (sd_tun s) w') = Ok m"
    using set_ip_reads_back [OF assms(1-3) assms(4) [OF m(1)] m(2) [unfolded ops]] m(1,3) by (simp_all add: ops)
qed

end

lemma op_lift_snd: "snd (op_lift r w) = w"
  by (simp add: op_lift_def)

lemma if_read_state:
  assumes "ifaddr_laws ly sa ga sm gm k"
  shows "snd (if_read ly k ga fd name w) = w"
proof (cases "raw_request ly name :: (io_error, bytes) result")
  case (Ok req)
  obtain r where "kn_ioctl k ga fd req w = (r, w)" using assms by (metis ifaddr_laws_def prod.collapse)
  then show ?thesis by (cases r) (simp_all add: if_read_def Ok op_bind_def op_err_def op_lift_def)
qed (simp_all add: if_read_def op_bind_def op_lift_def)

lemma linux_started:
  assumes "length (dc_address cfg) = 4" "\<And>m. fm (dc_network cfg) = Some m \<Longrightarrow> length m = 4" "linux_laws k" "named (sd_tun s)"
    and "device_start (linux_ops k) linux_add_route fm na nl en rnd name cfg peers attempts w = (Ok s, w')"
  shows "sd_tun_addr s = dc_address cfg" "fst (linux_address k (sd_tun s) w') = Ok (dc_address cfg)"
    "\<exists>m. fm (dc_network cfg) = Some m \<and> fst (linux_netmask k (sd_tun s) w') = Ok m"
proof -
  have get: "snd (linux_address k t w) = w" for t w
    using assms(3) by (simp add: linux_if linux_laws_def if_read_state)
  note reads = linux_if.start_reads_back [OF assms(3,4,1,2,5)]
  show "sd_tun_addr s = dc_address cfg" "fst (linux_address k (sd_tun s) w') = Ok (dc_address cfg)"
    "\<exists>m. fm (dc_network cfg) = Some m \<and> fst (linux_netmask k (sd_tun s) w') = Ok m"
    by (rule reads; simp add: linux_ops_def linux_add_route_def op_ret_def get)+
qed

lemma macos_started:
  assumes "length (dc_address cfg) = 4" "\<And>m. fm (dc_network cfg) = Some m \<Longrightarrow> length m = 4" "macos_laws k" "named (sd_tun s)"
    and "device_start (macos_ops k) (darwin_add_route starts) fm na nl en rnd name cfg peers attempts w = (Ok s, w')"
  shows "sd_tun_addr s = dc_address cfg" "fst (macos_address k (sd_tun s) w') = Ok (dc_address cfg)"
    "\<exists>m. fm (dc_network cfg) = Some m \<and> fst (macos_netmask k (sd_tun s) w') = Ok m"
proof -
  have get: "snd (macos_address k t w) = w" for t w
    using assms(3) by (simp add: macos_if macos_laws_def if_read_state)
  note reads = macos_if.start_reads_back [OF assms(3,4,1,2,5)]
  show "sd_tun_addr s = dc_address cfg" "fst (macos_address k (sd_tun s) w') = Ok (dc_address cfg)"
    "\<exists>m. fm (dc_network cfg) = Some m \<and> fst (macos_netmask k (sd_tun s) w') = Ok m"
    by (rule reads; simp add: macos_ops_def darwin_add_route_def op_lift_snd get)+
qed

section \<open>Properties\<close>

text \<open>C19: A device that has started has the address it was configured with.  On every platform a start that succeeds leaves the
  device with the configured address; on Linux and macOS the interface itself answers with that address and with the
  mask of the configured network afterwards (setting the address alone would have put in another mask), on Windows
  address and mask are the recorded ones.\<close>

theorem device_start_configured:
  assumes "length (dc_address cfg) = 4" "\<And>m. fm (dc_network cfg) = Some m \<Longrightarrow> length m = 4"
  shows "(linux_laws lk \<and> named (sd_tun s) \<and>
      device_start (linux_ops lk) linux_add_route fm na nl en rnd name cfg peers attempts w = (Ok s, w') \<longrightarrow>
      sd_tun_addr s = dc_address cfg \<and> fst (linux_address lk (sd_tun s) w') = Ok (dc_address cfg) \<and>
      (\<exists>m. fm (dc_network cfg) = Some m \<and> fst (linux_netmask lk (sd_tun s) w') = Ok m)) \<and>
    (macos_laws mk \<and> named (sd_tun s) \<and>
      device_start (macos_ops mk) (darwin_add_route starts) fm na nl en rnd name cfg peers attempts w = (Ok s, w') \<longrightarrow>
      sd_tun_addr s = dc_address cfg \<and> fst (macos_address mk (sd_tun s) w') = Ok (dc_address cfg) \<and>
      (\<exists>m. fm (dc_network cfg) = Some m \<and> fst (macos_netmask mk (sd_tun s) w') = Ok m)) \<and>
    (device_start (windows_ops we guid) windows_add_route fm na nl en rnd name cfg peers attempts v = (Ok u, v') \<longrightarrow>
      sd_tun_addr u = dc_address cfg \<and> (\<exists>m. fm (dc_network cfg) = Some m \<and> ww_ip_info v' = Some (dc_address cfg, m)))"
  by (intro conjI impI; (elim conjE)?; (rule linux_started [OF assms] macos_started [OF assms] wintun_started; assumption))

definition plain_linux :: "if_table linux_kernel" where
  "plain_linux = plain_kernel 0x8916 0x8915 0x891c 0x891b"

theorem device_start_configured_witness:
  "\<exists>s w'. device_start (linux_ops plain_linux) linux_add_route (\<lambda>_. Some [255, 0, 0, 0]) (\<lambda>_. [10, 0, 0, 0]) list_netlib plain_env 5
      (Some ''tun0'') ((plain_config (replicate 32 1))\<lparr>dc_address := [10, 1, 0, 0]\<rparr>) [] [(Inr 7, Inr ())] (\<lambda>_. ([], [])) = (Ok s, w') \<and>
    fst (linux_address plain_linux (sd_tun s) w') = Ok [10, 1, 0, 0] \<and>
    fst (linux_netmask plain_linux (sd_tun s) w') = Ok [255, 0, 0, 0]"
proof -
  let ?r = "device_start (linux_ops plain_linux) linux_add_route (\<lambda>_. Some [255, 0, 0, 0]) (\<lambda>_. [10, 0, 0, 0]) list_netlib plain_env 5
      (Some ''tun0'') ((plain_config (replicate 32 1))\<lparr>dc_address := [10, 1, 0, 0]\<rparr>) [] [(Inr 7, Inr ())] (\<lambda>_. ([], []))"
  have "case ?r of (Ok s, w') \<Rightarrow> named (sd_tun s) | _ \<Rightarrow> False" by code_simp
  then obtain s w' where r: "?r = (Ok s, w')" "named (sd_tun s)" by (auto split: prod.splits result.splits)
  have "distinct [0x8916 :: u32, 0x8915, 0x891c, 0x891b]" by code_simp
  then have "linux_laws plain_linux" unfolding linux_laws_def plain_linux_def by (rule plain_kernel_laws)
  then show ?thesis
    using device_start_configured [of "(plain_config (replicate 32 1))\<lparr>dc_address := [10, 1, 0, 0]\<rparr>" "\<lambda>_. Some [255, 0, 0, 0]" plain_linux s "\<lambda>_. [10, 0, 0, 0]"] r
    by (auto simp: plain_config_def)
qed

end
