(* ===== verification/Daemon_Main.thy ===== *)
theory Daemon_Main
  imports Login Config_Delivery Device_Start
begin

text \<open>
  The daemon as a whole: \<open>VlinkNetworkManager::start\<close> (\<open>vlinkd/src/network/mod.rs\<close>) over a device that is really started
  (\<open>Device_Start\<close>), and \<open>main\<close> (\<open>vlinkd/src/main.rs\<close>), which puts key file, client, control port and manager together.
  The client runs as a task of its own; the attempts it makes until the manager takes its commands, and the commands
  that come later, are arguments.
\<close>

section \<open>Starting the device (network/mod.rs)\<close>

datatype 'm run_error = StorageErr storage_error | HttpBindErr | ManagerErr "'m daemon_error" | DeviceErr start_error

text \<open>The parts of the platform and of crate \<open>ip_network\<close> the start needs.\<close>

record ('w, 'u, 'n) platform =
  pf_ops :: "('w, 'u) tun_ops"
  pf_add_route :: "string \<Rightarrow> bytes \<Rightarrow> bytes \<Rightarrow> ('w, start_error, unit) op"
  pf_full_netmask :: "'n \<Rightarrow> bytes option"
  pf_network_address :: "'n \<Rightarrow> bytes"
  pf_net_new :: "ip_addr \<Rightarrow> u8 \<Rightarrow> 'n option"

text \<open>What a run meets: randomness, the orders of the hash maps of peers, the binding of ports.\<close>

record 'n start_env =
  se_env :: env
  se_rnd :: u32
  se_peers :: "'n device_config \<Rightarrow> 'n peer_config list"
  se_all :: "bytes list"
  se_attempts :: "bind_attempt list"

definition manager_start_device ::
    "('w, 'u, 'n) platform \<Rightarrow> core_lib \<Rightarrow> ('n, 't, nat) netlib \<Rightarrow> 'n start_env \<Rightarrow> vlink_static_secret \<Rightarrow> daemon_conn option \<Rightarrow>
     'n network_config \<Rightarrow> ('w, 'm run_error, ('n, 't) daemon) op" where
  "manager_start_device pf lib nl se secret con cfg =
     op_bind (op_err DeviceErr (device_start (pf_ops pf) (pf_add_route pf) (pf_full_netmask pf) (pf_network_address pf) nl
                (se_env se) (se_rnd se) (nc_tun_name cfg) (nc_device_config cfg) (se_peers se (nc_device_config cfg)) (se_attempts se)))
       (\<lambda>s. op_bind (op_err ManagerErr (op_lift (start_device lib nl (se_env se) (se_rnd se) (se_peers se (nc_device_config cfg))
                       (se_all se) (sd_port s) secret con cfg)))
         (\<lambda>dm. op_ret (dm\<lparr>dm_tun_addr := sd_tun_addr s\<rparr>)))"

section \<open>The manager (network/mod.rs, start)\<close>

definition manager_start ::
    "('w, 'u, 'n) platform \<Rightarrow> core_lib \<Rightarrow> ('n, 't, nat) netlib \<Rightarrow> 'n start_env \<Rightarrow> vlink_static_secret \<Rightarrow> arg_config \<Rightarrow>
     delivery \<times> 'm to_client list \<times> recv_end \<Rightarrow> (delivery \<times> 'm network_ctrl_cmd) list \<Rightarrow> daemon_conn option \<Rightarrow>
     ('w, 'm run_error, ('n, 't) daemon \<times> ('m daemon_error, unit) result) op" where
  "manager_start pf lib nl se secret args answer cmds con =
     op_bind (op_lift (wait_first (map snd cmds))) (\<lambda>rest.
     let (dl, ms, e) = answer;
         (con, r) = request_for_config lib nl (pf_net_new pf) dl ms e (vs_private_key secret) args con in
     op_bind (op_err ManagerErr (op_lift r)) (\<lambda>cfg.
     op_bind (manager_start_device pf lib nl se secret con cfg) (\<lambda>dm.
       op_ret (manager_loop lib args (drop (length cmds - length rest) cmds) dm))))"

section \<open>The program (main.rs)\<close>

record vlinkd_args =
  va_tun_name :: "string option"
  va_server :: string
  va_config_dir :: "string option"
  va_hostname :: "string option"
  va_token :: "string option"
  va_endpoint_addr :: "string option"
  va_port :: "u16 option"
  va_listen_addr :: "string option"

definition WEB_PORT :: u16 where
  "WEB_PORT = 5514"

definition http_addr :: "string option \<Rightarrow> string" where
  "http_addr listen_addr = (case listen_addr of Some a \<Rightarrow> a | None \<Rightarrow> ''0.0.0.0:'' @ dec_nat (unat WEB_PORT))"

definition enumerate_cmds :: "(nat \<Rightarrow> delivery) \<Rightarrow> 'm network_ctrl_cmd list \<Rightarrow> (delivery \<times> 'm network_ctrl_cmd) list" where
  "enumerate_cmds dls cmds = map (\<lambda>(i, c). (dls i, c)) (enumerate 0 cmds)"

text \<open>\<open>made\<close> are the attempts the client makes until the manager takes its first command, \<open>later\<close> the commands after those
  of these attempts.  The client is spawned before the control port is bound.\<close>

definition vlinkd_main ::
    "('w, 'u, 'n) platform \<Rightarrow> core_lib \<Rightarrow> ('n, 't, nat) netlib \<Rightarrow> 'n start_env \<Rightarrow> storage_io \<Rightarrow> bytes \<Rightarrow> (string \<Rightarrow> bool) \<Rightarrow>
     'm attempt list \<Rightarrow> delivery \<times> 'm to_client list \<times> recv_end \<Rightarrow> (delivery \<times> 'm network_ctrl_cmd) list \<Rightarrow> (nat \<Rightarrow> delivery) \<Rightarrow>
     vlinkd_args \<Rightarrow> string option \<Rightarrow>
     ('w, 'm run_error, ('n, 't) daemon \<times> ('m daemon_error, unit) result) op" where
  "vlinkd_main pf lib nl se io rnd binds made answer later dls args file =
     op_bind (op_err StorageErr (op_lift (snd (load_config lib io rnd file)))) (\<lambda>secret.
     let s = fst (reconnect_loop lib secret made reconnect_new) in
     op_bind (op_lift (if binds (http_addr (va_listen_addr args)) then Ok () else Err HttpBindErr)) (\<lambda>_.
       manager_start pf lib nl se secret \<lparr>ag_endpoint_addr = va_endpoint_addr args, ag_port = va_port args\<rparr> answer
         (enumerate_cmds dls (rs_cmds s) @ later) (rs_conn s)))"

section \<open>The daemon comes up\<close>

lemma config_peers_of_address:
  "config_peers_of lib nl ps cfg = Ok cfg' \<Longrightarrow> dc_address cfg' = dc_address cfg"
  by (induction ps arbitrary: cfg) (auto simp: result_simps config_peer_def)

lemma config_of_answer_address:
  "config_of_answer lib nl net_new sk args rc = Ok cfg \<Longrightarrow>
     dc_address (nc_device_config cfg) = to_be_bytes 4 (rc_address rc) \<and> nc_arg_config cfg = args"
  by (auto simp: config_of_answer_def result_simps dest: config_peers_of_address)

text \<open>A request that is answered, as the configuration request of a fresh connection is.\<close>

lemma request_for_config_answered:
  fixes ms :: "'m to_client list"
  assumes "dn_connected c" "await_reply (dn_next c + 1) ms e = Ok (Some (RespConfig rc))"
    and "config_of_answer lib nl net_new sk args rc = (Ok cfg :: ('m daemon_error, _) result)"
  shows "request_for_config lib nl net_new Written ms e sk args (Some c) =
    (Some (c\<lparr>dn_next := dn_next c + 1, dn_sent := dn_sent c @ [\<lparr>ts_id = dn_next c + 1, ts_data = Some ReqConfig\<rparr>]\<rparr>), Ok cfg)"
  using assms by (simp add: request_for_config_def client_request_def get_conn_def conn_request_written)

lemma handler_connected_sent:
  assumes "dm_conn dm = Some c" "dn_connected c"
  obtains pe where "handler_connected Written args dm =
      (dm\<lparr>dm_conn := Some (c\<lparr>dn_next := dn_next c + 1, dn_sent := dn_sent c @ [\<lparr>ts_id = dn_next c + 1, ts_data = Some (PeerEnter pe)\<rparr>]\<rparr>)\<rparr>,
       Ok () :: ('m daemon_error, unit) result)" "en_ip pe = ipv4_to_string (dm_tun_addr dm)" "en_port pe = ucast (dm_port dm)"
    "en_endpoint_addr pe = ag_endpoint_addr args"
  using assms that
  by (simp add: handler_connected_def Let_def daemon_send_def get_conn_def conn_send_def to_server_turn_def)

lemma manager_start_device_Ok:
  assumes "device_start (pf_ops pf) (pf_add_route pf) (pf_full_netmask pf) (pf_network_address pf) nl (se_env se) (se_rnd se)
      (nc_tun_name cfg) (nc_device_config cfg) (se_peers se (nc_device_config cfg)) (se_attempts se) w = (Ok s, w')"
    and "start_selectors lib (nc_peer_extra_transports cfg) (se_all se) (sd_device s) = (Ok sel :: ('m daemon_error, _) result)"
    and "start_transports (nc_transports cfg) = (Ok sts :: ('m daemon_error, _) result)"
    and "\<And>n a m w. snd (pf_add_route pf n a m w) = w"
  obtains dm where "manager_start_device pf lib nl se secret con cfg w = (Ok dm :: ('m run_error, _) result, w')"
    "dm_conn dm = con" "dm_tun_addr dm = sd_tun_addr s" "dm_port dm = sd_port s" "dm_device dm = sd_device s" "dm_selectors dm = sel"
proof -
  have d: "sd_device s = device_new nl (se_env se) (se_rnd se) (nc_device_config cfg) (se_peers se (nc_device_config cfg))"
    by (rule device_start_Ok [OF assms(1,4)])
  show ?thesis
    using that assms(1-3) unfolding d
    by (simp add: manager_start_device_def op_bind_def op_err_def op_lift_def op_ret_def start_device_def Let_def)
qed

text \<open>A start in which every part works: one attempt reaches the server, which answers the request for the
  configuration, the interface comes up, the port of the control server is free.\<close>

lemma vlinkd_comes_up:
  fixes a :: "'m attempt" and ms :: "'m to_client list"
  assumes "snd (load_config lib io rnd file) = Ok secret" "binds (http_addr (va_listen_addr args))"
    and "\<forall>a \<in> set down. \<not> at_tcp a" "good_attempt lib secret a"
    and "await_reply 2 ms e = Ok (Some (RespConfig rc))"
    and "config_of_answer lib nl (pf_net_new pf) (vs_private_key secret)
      \<lparr>ag_endpoint_addr = va_endpoint_addr args, ag_port = va_port args\<rparr> rc = (Ok cfg :: ('m daemon_error, _) result)"
    and "device_start (pf_ops pf) (pf_add_route pf) (pf_full_netmask pf) (pf_network_address pf) nl (se_env se) (se_rnd se)
      (nc_tun_name cfg) (nc_device_config cfg) (se_peers se (nc_device_config cfg)) (se_attempts se) w = (Ok s, w')"
    and "start_selectors lib (nc_peer_extra_transports cfg) (se_all se) (sd_device s) = (Ok sel :: ('m daemon_error, _) result)"
    and "start_transports (nc_transports cfg) = (Ok sts :: ('m daemon_error, _) result)"
    and "\<And>n a m w. snd (pf_add_route pf n a m w) = w" "dls 1 = Written"
  obtains dm con rh pe where
    "vlinkd_main pf lib nl se io rnd binds (down @ [a]) (Written, ms, e) [] dls args file w =
       (Ok (dm, Ok ()) :: ('m run_error, _) result, w')"
    "dm_conn dm = Some con" "map ts_data (dn_sent con) = [Some (Handshake rh), Some ReqConfig, Some (PeerEnter pe)]"
    "rh_pub_key rh = base64_pub lib secret" "en_ip pe = ipv4_to_string (sd_tun_addr s)" "en_port pe = ucast (sd_port s)"
    "dm_device dm = sd_device s" "dm_selectors dm = sel"
proof -
  let ?args = "\<lparr>ag_endpoint_addr = va_endpoint_addr args, ag_port = va_port args\<rparr>"
  obtain st c m rh where up: "reconnect_loop lib secret (down @ [a]) reconnect_new = (st, None)" "rs_conn st = Some c" "dn_connected c"
    "dn_next c = 1" "rs_cmds st = [FirstConnected, Connected]" "dn_sent c = [m]" "ts_data m = Some (Handshake rh)"
    "rh_pub_key rh = base64_pub lib secret" by (rule reconnect_up [OF assms(3,4)])
  let ?c = "c\<lparr>dn_next := 2, dn_sent := [m, \<lparr>ts_id = 2, ts_data = Some ReqConfig\<rparr>]\<rparr>"
  have "await_reply (dn_next c + 1) ms e = Ok (Some (RespConfig rc))" using assms(5) up(4) by simp
  from request_for_config_answered [OF up(3) this assms(6)]
  have req: "request_for_config lib nl (pf_net_new pf) Written ms e (vs_private_key secret) ?args (Some c) = (Some ?c, Ok cfg)"
    using up(4,6) by simp
  obtain dm where dm: "manager_start_device pf lib nl se secret (Some ?c) cfg w = (Ok dm :: ('m run_error, _) result, w')"
    "dm_conn dm = Some ?c" "dm_tun_addr dm = sd_tun_addr s" "dm_port dm = sd_port s" "dm_device dm = sd_device s" "dm_selectors dm = sel"
    by (rule manager_start_device_Ok [OF assms(7-10)])
  have "dn_connected ?c" using up(3) by simp
  then obtain pe where pe: "handler_connected Written ?args dm =
      (dm\<lparr>dm_conn := Some (?c\<lparr>dn_next := dn_next ?c + 1, dn_sent := dn_sent ?c @ [\<lparr>ts_id = dn_next ?c + 1, ts_data = Some (PeerEnter pe)\<rparr>]\<rparr>)\<rparr>,
       Ok () :: ('m daemon_error, unit) result)" "en_ip pe = ipv4_to_string (dm_tun_addr dm)" "en_port pe = ucast (dm_port dm)"
    by (rule handler_connected_sent [OF dm(2), where ?'m = 'm])
  let ?con = "?c\<lparr>dn_next := dn_next ?c + 1, dn_sent := dn_sent ?c @ [\<lparr>ts_id = dn_next ?c + 1, ts_data = Some (PeerEnter pe)\<rparr>]\<rparr>"
  let ?cmds = "enumerate_cmds dls (rs_cmds st) @ [] :: (delivery \<times> 'm network_ctrl_cmd) list"
  have cmds: "?cmds = [(dls 0, FirstConnected), (Written, Connected)]"
    using up(5) assms(11) by (simp add: enumerate_cmds_def numeral_2_eq_2)
  have loop: "manager_loop lib ?args [(Written, Connected :: 'm network_ctrl_cmd)] dm = (dm\<lparr>dm_conn := Some ?con\<rparr>, Ok ())"
    using pe(1) by (simp add: manager_turn_def)
  have run: "manager_start pf lib nl se secret ?args (Written, ms, e) ?cmds (Some c) w =
      (Ok (dm\<lparr>dm_conn := Some ?con\<rparr>, Ok ()) :: ('m run_error, _) result, w')"
    unfolding cmds using req dm(1) loop
    by (simp add: manager_start_def op_bind_def op_err_def op_lift_def op_ret_def)
  have main: "vlinkd_main pf lib nl se io rnd binds (down @ [a]) (Written, ms, e) [] dls args file w =
      (Ok (dm\<lparr>dm_conn := Some ?con\<rparr>, Ok ()) :: ('m run_error, _) result, w')"
    using assms(1,2) up(1,2) run by (simp add: vlinkd_main_def op_bind_def op_err_def op_lift_def)
  have sent: "map ts_data (dn_sent ?con) = [Some (Handshake rh), Some ReqConfig, Some (PeerEnter pe)]"
    using up(7) by simp
  show ?thesis by (rule that [OF main _ sent up(8)]) (use dm(3-6) pe(2,3) in simp_all)
qed

section \<open>The address the daemon announces\<close>

text \<open>What the daemon needs of a platform: the address of a started interface is the one it was started with, and adding a
  route leaves the interface alone.\<close>

locale platform_start =
  fixes pf :: "'k \<Rightarrow> ('w, 'u, 'n) platform" and lawful :: "'k \<Rightarrow> bool" and usable :: "'u \<Rightarrow> bool" and nl :: "('n, 't, nat) netlib"
  assumes reads_back: "lawful k \<Longrightarrow> usable (sd_tun s) \<Longrightarrow> length (dc_address cfg) = 4 \<Longrightarrow>
      device_start (pf_ops (pf k)) (pf_add_route (pf k)) (pf_full_netmask (pf k)) (pf_network_address (pf k)) nl en rnd name cfg
        peers attempts w = (Ok s, w') \<Longrightarrow> sd_tun_addr s = dc_address cfg"
    and route_keeps: "snd (pf_add_route (pf k) n a m w) = w"
begin

lemma announces_assigned:
  fixes a :: "'m attempt" and ms :: "'m to_client list"
  assumes "lawful k" "usable (sd_tun s)"
    and "snd (load_config lib io rnd file) = Ok secret" "binds (http_addr (va_listen_addr args))"
    and "\<forall>a \<in> set down. \<not> at_tcp a" "good_attempt lib secret a"
    and "await_reply 2 ms e = Ok (Some (RespConfig rc))"
    and cfg: "config_of_answer lib nl (pf_net_new (pf k)) (vs_private_key secret)
      \<lparr>ag_endpoint_addr = va_endpoint_addr args, ag_port = va_port args\<rparr> rc = (Ok cfg :: ('m daemon_error, _) result)"
    and start: "device_start (pf_ops (pf k)) (pf_add_route (pf k)) (pf_full_netmask (pf k)) (pf_network_address (pf k)) nl (se_env se)
      (se_rnd se) (nc_tun_name cfg) (nc_device_config cfg) (se_peers se (nc_device_config cfg)) (se_attempts se) w = (Ok s, w')"
    and "start_selectors lib (nc_peer_extra_transports cfg) (se_all se) (sd_device s) = (Ok sel :: ('m daemon_error, _) result)"
    and "start_transports (nc_transports cfg) = (Ok sts :: ('m daemon_error, _) result)" "dls 1 = Written"
  shows "\<exists>dm con rh pe. vlinkd_main (pf k) lib nl se io rnd binds (down @ [a]) (Written, ms, e) [] dls args file w =
       (Ok (dm, Ok ()) :: ('m run_error, _) result, w') \<and> dm_conn dm = Some con \<and>
     map ts_data (dn_sent con) = [Some (Handshake rh), Some ReqConfig, Some (PeerEnter pe)] \<and>
     rh_pub_key rh = base64_pub lib secret \<and> en_ip pe = ipv4_text (rc_address rc) \<and> dm_device dm = sd_device s"
proof -
  have addr: "dc_address (nc_device_config cfg) = to_be_bytes 4 (rc_address rc)" using config_of_answer_address [OF cfg] by simp
  have "sd_tun_addr s = dc_address (nc_device_config cfg)"
    by (rule reads_back [OF assms(1,2) _ start]) (simp add: addr)
  then have ip: "ipv4_to_string (sd_tun_addr s) = ipv4_text (rc_address rc)" by (simp add: addr ipv4_text_def)
  show ?thesis
    by (rule vlinkd_comes_up [where binds = binds and dls = dls, OF assms(3-11) _ assms(12)], rule route_keeps) (metis ip)
qed

end

definition masks_ok :: "('n \<Rightarrow> bytes option) \<Rightarrow> bool" where
  "masks_ok fm \<longleftrightarrow> (\<forall>n m. fm n = Some m \<longrightarrow> length m = 4)"

text \<open>The platforms: \<open>fm\<close>, \<open>na\<close> and \<open>nn\<close> are the functions of crate \<open>ip_network\<close>.\<close>

definition linux_platform :: "'w linux_kernel \<times> ('n \<Rightarrow> bytes option) \<times> ('n \<Rightarrow> bytes) \<times> (ip_addr \<Rightarrow> u8 \<Rightarrow> 'n option) \<Rightarrow> ('w, _, 'n) platform" where
  "linux_platform = (\<lambda>(k, fm, na, nn). \<lparr>pf_ops = linux_ops k, pf_add_route = linux_add_route, pf_full_netmask = fm,
     pf_network_address = na, pf_net_new = nn\<rparr>)"

definition macos_platform ::
    "_ \<times> (string \<Rightarrow> bool) \<times> ('n \<Rightarrow> bytes option) \<times> ('n \<Rightarrow> bytes) \<times> (ip_addr \<Rightarrow> u8 \<Rightarrow> 'n option) \<Rightarrow> ('w, _, 'n) platform" where
  "macos_platform = (\<lambda>(k, starts, fm, na, nn). \<lparr>pf_ops = macos_ops k, pf_add_route = darwin_add_route starts, pf_full_netmask = fm,
     pf_network_address = na, pf_net_new = nn\<rparr>)"

definition windows_platform ::
    "_ \<times> _ \<times> ('n \<Rightarrow> bytes option) \<times> ('n \<Rightarrow> bytes) \<times> (ip_addr \<Rightarrow> u8 \<Rightarrow> 'n option) \<Rightarrow> (_, _, 'n) platform" where
  "windows_platform = (\<lambda>(we, guid, fm, na, nn). \<lparr>pf_ops = windows_ops we guid, pf_add_route = windows_add_route, pf_full_netmask = fm,
     pf_network_address = na, pf_net_new = nn\<rparr>)"

interpretation linux_start: platform_start linux_platform "\<lambda>(k, fm, _). linux_laws k \<and> masks_ok fm" named nl for nl
  by unfold_locales
    (auto simp: linux_platform_def masks_ok_def linux_add_route_def op_ret_def, metis linux_started(1))

interpretation macos_start: platform_start macos_platform "\<lambda>(k, _, fm, _). macos_laws k \<and> masks_ok fm" named nl for nl
  by unfold_locales
    (auto simp: macos_platform_def masks_ok_def darwin_add_route_def op_lift_snd, metis macos_started(1))

interpretation windows_start: platform_start windows_platform "\<lambda>_. True" "\<lambda>_. True" nl for nl
  by unfold_locales
    (auto simp: windows_platform_def windows_add_route_def op_ret_def intro: wintun_started(1))

text \<open>The server takes a peer that announces the address it has for it.\<close>

lemma peer_enter_accepts:
  assumes "rw_get (sv_networks sv) (id_network (rx_client_id ctx)) = Some nw"
    and "rw_get (nw_peers nw) (id_pub_key (rx_client_id ctx)) = Some p" "pm_ip (vp_model p) = Some (en_ip pe)"
  shows "snd (peer_enter_exec db nl4 ctx pe sv) = Ok ()"
  using assms by (simp add: peer_enter_exec_def with_network_def get_network_def Let_def on_peers_def on_network_def rw_get_modify)


section \<open>A small run\<close>

definition plain_rc :: resp_config where
  "plain_rc = \<lparr>rc_network_id = 1, rc_address = from_be_bytes [10, 1, 0, 0], rc_mask = 8, rc_network = 0, rc_port = 7, rc_ipv6_addr = None,
     rc_peers = [], rc_extra_transports = [], rc_peer_extra_transports = []\<rparr>"

definition plain_net :: list_net where
  "plain_net = (False, [], 0)"

definition plain_args :: vlinkd_args where
  "plain_args = \<lparr>va_tun_name = None, va_server = ''s'', va_config_dir = None, va_hostname = None, va_token = None, va_endpoint_addr = None, va_port = None,
     va_listen_addr = None\<rparr>"

definition plain_network_config :: "list_net network_config" where
  "plain_network_config = \<lparr>nc_tun_name = None,
     nc_device_config = \<lparr>dc_private_key = replicate 32 1, dc_fwmark = 0, dc_port = 7, dc_peers = (\<lambda>_. None), dc_address = [10, 1, 0, 0],
       dc_network = plain_net\<rparr>,
     nc_arg_config = \<lparr>ag_endpoint_addr = None, ag_port = None\<rparr>, nc_transports = [], nc_stun_servers = [], nc_peer_extra_transports = []\<rparr>"

definition plain_start :: "list_net start_env" where
  "plain_start = \<lparr>se_env = plain_env, se_rnd = 5, se_peers = (\<lambda>_. []), se_all = [], se_attempts = [(Inr 7, Inr ())]\<rparr>"

lemma plain_address: "to_be_bytes 4 (from_be_bytes [10, 1, 0, 0] :: u32) = [10, 1, 0, 0]"
  using to_from_be_bytes [of "[10, 1, 0, 0]", where ?'a = 32] by (simp add: numeral_eq_Suc)

lemma plain_config_of_answer:
  "config_of_answer plain_core mesh_netlib (\<lambda>_ _. Some plain_net) (vs_private_key plain_keys)
     \<lparr>ag_endpoint_addr = va_endpoint_addr plain_args, ag_port = va_port plain_args\<rparr> plain_rc =
   (Ok plain_network_config :: (string daemon_error, _) result)"
  by (simp add: plain_address config_of_answer_def plain_rc_def plain_args_def plain_network_config_def plain_keys_def secret_of_def)

lemma plain_device_started:
  obtains s w' where "device_start (linux_ops plain_linux) linux_add_route (\<lambda>_. Some [255, 0, 0, 0]) (\<lambda>_. [0, 0, 0, 0]) mesh_netlib plain_env 5
      None (nc_device_config plain_network_config) [] [(Inr 7, Inr ())] (\<lambda>_. ([], [])) = (Ok s, w')" "named (sd_tun s)"
proof -
  let ?r = "device_start (linux_ops plain_linux) linux_add_route (\<lambda>_. Some [255, 0, 0, 0]) (\<lambda>_. [0, 0, 0, 0]) mesh_netlib plain_env 5
      None (nc_device_config plain_network_config) [] [(Inr 7, Inr ())] (\<lambda>_. ([], []))"
  have "case ?r of (Ok s, w') \<Rightarrow> named (sd_tun s) | _ \<Rightarrow> False" by code_simp
  then show ?thesis using that by (auto split: prod.splits result.splits)
qed


end
