(* ===== verification/Nat_Transport.thy ===== *)
theory Nat_Transport
  imports Daemon
begin

text \<open>
  Transports through network address translation (\<open>vlinkd/src/transport\<close>): port mappings at the gateway
  (\<open>nat2pub/upnp_service.rs\<close>), finding the public address (\<open>nat2pub/nat_service.rs\<close>), the two transports that announce
  it and their clients (\<open>proto/nat_udp.rs\<close>, \<open>proto/nat_tcp.rs\<close>) and the forwarders to the device
  (\<open>forward/udp.rs\<close>, \<open>forward/tcp2udp.rs\<close>).  The answers of the gateway, of the STUN server and of the sockets are
  arguments.
\<close>

section \<open>Socket addresses as text\<close>

definition read_port :: "string \<Rightarrow> (u16 \<times> string) option" where
  "read_port s =
     (case s of
        c # cs \<Rightarrow> if c = CHR '':'' then map_option (\<lambda>(v, rest). (of_nat v, rest)) (read_number 10 (length cs) 65535 True cs)
                   else None
      | [] \<Rightarrow> None)"

definition read_scope :: "string \<Rightarrow> string option" where
  "read_scope s =
     (case s of
        c # cs \<Rightarrow> if c = CHR ''%'' then map_option snd (read_number 10 (length cs) (2 ^ 32 - 1) True cs) else Some s
      | [] \<Rightarrow> Some s)"

definition read_socket_v6 :: "string \<Rightarrow> (socket_addr \<times> string) option" where
  "read_socket_v6 s =
     (case s of
        c # cs \<Rightarrow>
          if c \<noteq> CHR ''['' then None
          else Option.bind (read_ipv6 cs) (\<lambda>(b, rest).
               Option.bind (read_scope rest) (\<lambda>rest.
               case rest of
                 d # rest \<Rightarrow> if d = CHR '']'' then map_option (\<lambda>(p, r). (V6 b p, r)) (read_port rest) else None
               | [] \<Rightarrow> None))
      | [] \<Rightarrow> None)"

definition socket_from_str :: "string \<Rightarrow> socket_addr option" where
  "socket_from_str s =
     (case Option.bind (read_ipv4 s) (\<lambda>(b, rest). map_option (\<lambda>(p, r). (V4 b p, r)) (read_port rest)) of
        Some (a, rest) \<Rightarrow> if rest = [] then Some a else None
      | None \<Rightarrow> (case read_socket_v6 s of Some (a, rest) \<Rightarrow> if rest = [] then Some a else None | None \<Rightarrow> None))"

definition v4_text :: "bytes \<Rightarrow> u16 \<Rightarrow> string" where
  "v4_text b p = ipv4_to_string b @ '':'' @ dec_nat (unat p)"

section \<open>Port mappings (upnp_service.rs)\<close>

datatype port_mapping_protocol = MapTCP | MapUDP

datatype upnp_error = Ipv6Error | PortError u16 | GatewayError | PortInUseError | GatewayConnect | UpnpTooShort

record upnp_service =
  us_name :: string
  us_inner_port :: u16
  us_duration :: u32
  us_protocol :: port_mapping_protocol
  us_external_port :: "u16 option"

definition upnp_new :: "string \<Rightarrow> u16 \<Rightarrow> u32 \<Rightarrow> port_mapping_protocol \<Rightarrow> upnp_service" where
  "upnp_new name inner_port duration protocol =
     \<lparr>us_name = name, us_inner_port = inner_port, us_duration = duration, us_protocol = protocol, us_external_port = None\<rparr>"

definition set_inner_port :: "u16 \<Rightarrow> upnp_service \<Rightarrow> upnp_service" where
  "set_inner_port port u = u\<lparr>us_inner_port := port\<rparr>"

text \<open>A gateway: whether it is found and at which local address it is reached, the answers to the requests
  for a mapping in their order, and whether removing a mapping succeeds.\<close>

datatype add_answer = Added | PortInUse | AddFailed

record gateway =
  gw_local :: "ip_addr option"
  gw_add :: "nat \<Rightarrow> add_answer"
  gw_remove :: bool

datatype gateway_call = CallAdd port_mapping_protocol u16 bytes u16 | CallRemove port_mapping_protocol u16

text \<open>The loop of \<open>add_port\<close>: it starts over once, when the port was in use and could be removed.\<close>

function add_port_loop ::
    "gateway \<Rightarrow> upnp_service \<Rightarrow> u16 \<Rightarrow> bytes \<Rightarrow> nat \<Rightarrow> bool \<Rightarrow> gateway_call list \<times> (upnp_error, bytes \<times> u16) result" where
  "add_port_loop gw u port ip i retry =
     (if us_inner_port u = 0 then ([], Err (PortError (us_inner_port u)))
      else let call = CallAdd (us_protocol u) port ip (us_inner_port u) in
        case gw_add gw i of
          Added \<Rightarrow> ([call], Ok (ip, us_inner_port u))
        | AddFailed \<Rightarrow> ([call], Err GatewayError)
        | PortInUse \<Rightarrow>
            if retry then
              (if gw_remove gw
               then (let (calls, r) = add_port_loop gw u port ip (Suc i) False in (call # CallRemove MapTCP port # calls, r))
               else ([call, CallRemove MapTCP port], Err PortInUseError))
            else ([call], Err PortInUseError))"
  by pat_completeness auto

termination
  by (relation "measure (\<lambda>(gw, u, port, ip, i, retry). if retry then 1 else 0)") simp_all

declare add_port_loop.simps [simp del]

definition add_port :: "gateway \<Rightarrow> u16 \<Rightarrow> upnp_service \<Rightarrow> gateway_call list \<times> (upnp_error, bytes \<times> u16) result" where
  "add_port gw port u =
     (case gw_local gw of
        None \<Rightarrow> ([], Err GatewayConnect)
      | Some (Ipv4 ip) \<Rightarrow> add_port_loop gw u port ip 0 True
      | Some (Ipv6 _) \<Rightarrow> ([], Err Ipv6Error))"

text \<open>An error of the mapping is only logged; the port counts as set all the same.\<close>

definition set_external_port :: "gateway \<Rightarrow> u16 \<Rightarrow> upnp_service \<Rightarrow> gateway_call list \<times> upnp_service" where
  "set_external_port gw port u =
     ((if us_external_port u = Some port then [] else fst (add_port gw port u)),
      u\<lparr>us_external_port := Some port\<rparr>)"

text \<open>The renewal: every turn asks for the mapping again, ten seconds before it runs out.\<close>

definition upnp_interval :: "upnp_service \<Rightarrow> (upnp_error, u32) result" where
  "upnp_interval u = (if us_duration u < 60 then Err UpnpTooShort else Ok (us_duration u - 10))"

definition upnp_turn :: "gateway \<Rightarrow> upnp_service \<Rightarrow> gateway_call list" where
  "upnp_turn gw u = (case us_external_port u of None \<Rightarrow> [] | Some port \<Rightarrow> fst (add_port gw port u))"

section \<open>The public address (nat_service.rs)\<close>

record nat_service =
  ns_local_port :: u16
  ns_upnp :: upnp_service
  ns_stun_servers :: "string list"
  ns_protocol :: port_mapping_protocol

definition nat_service_new :: "string list \<Rightarrow> u16 \<Rightarrow> port_mapping_protocol \<Rightarrow> nat_service" where
  "nat_service_new stun_servers port protocol =
     \<lparr>ns_local_port = port, ns_upnp = upnp_new ''vlink'' port 140 protocol, ns_stun_servers = stun_servers,
      ns_protocol = protocol\<rparr>"

datatype stun_attr = MappedAddress socket_addr | ChangedAddress socket_addr | XorMappedAddress socket_addr | OtherAttr

datatype nat_error = AddrClosed | UpnpFailed upnp_error | SocketFailed

text \<open>Opening a reusable socket (\<open>reuse_socket.rs\<close>): a failing \<open>bind\<close> is an error for UDP, and is unwrapped for TCP.\<close>

datatype sock = SockOpen | SockRefused | SockBindFailed

fun make_tcp_socket :: "sock \<Rightarrow> (nat_error, unit) result" where
  "make_tcp_socket SockOpen = Ok ()"
| "make_tcp_socket SockRefused = Err SocketFailed"
| "make_tcp_socket SockBindFailed = Panic"

fun make_udp_socket :: "sock \<Rightarrow> (nat_error, unit) result" where
  "make_udp_socket SockOpen = Ok ()"
| "make_udp_socket SockRefused = Err SocketFailed"
| "make_udp_socket SockBindFailed = Err SocketFailed"

definition make_socket :: "port_mapping_protocol \<Rightarrow> sock \<Rightarrow> (nat_error, unit) result" where
  "make_socket protocol sk = (case protocol of MapTCP \<Rightarrow> make_tcp_socket sk | MapUDP \<Rightarrow> make_udp_socket sk)"

text \<open>What the attributes of the answers lead to: the addresses sent through the channel, and how the loop ends.
  \<open>alive\<close> says whether someone still receives from the channel, \<open>gw i\<close> is the gateway as the \<open>i\<close>-th attribute finds
  it.  A public address of version 6 is unfinished code in both loops.\<close>

fun stun_udp_attrs ::
    "(nat \<Rightarrow> gateway) \<Rightarrow> bool \<Rightarrow> stun_attr list \<Rightarrow> upnp_service \<Rightarrow>
     (bytes \<times> u16) list \<times> upnp_service \<times> (nat_error, unit) result" where
  "stun_udp_attrs gw alive [] u = ([], u, Ok ())"
| "stun_udp_attrs gw alive (XorMappedAddress (V4 ip port) # as) u =
     (if \<not> alive then ([], u, Err AddrClosed)
      else let (addrs, r) = stun_udp_attrs (gw \<circ> Suc) alive as (snd (set_external_port (gw 0) port u))
           in ((ip, port) # (ip, port) # addrs, r))"
| "stun_udp_attrs gw alive (XorMappedAddress (V6 ip port) # as) u = ([], u, Panic)"
| "stun_udp_attrs gw alive (_ # as) u = stun_udp_attrs (gw \<circ> Suc) alive as u"

fun stun_tcp_attrs ::
    "(nat \<Rightarrow> gateway) \<Rightarrow> bool \<Rightarrow> stun_attr list \<Rightarrow> upnp_service \<Rightarrow> (bytes \<times> u16) list \<times> (nat_error, unit) result" where
  "stun_tcp_attrs gw alive [] u = ([], Ok ())"
| "stun_tcp_attrs gw alive (XorMappedAddress (V4 ip port) # as) u =
     (if \<not> alive then ([], Err AddrClosed)
      else case snd (add_port (gw 0) port u) of
             Ok _ \<Rightarrow> (let (addrs, r) = stun_tcp_attrs (gw \<circ> Suc) alive as u in ((ip, port) # addrs, r))
           | Err e \<Rightarrow> ([(ip, port)], Err (UpnpFailed e))
           | Panic \<Rightarrow> ([(ip, port)], Panic))"
| "stun_tcp_attrs gw alive (XorMappedAddress (V6 ip port) # as) u = ([], Panic)"
| "stun_tcp_attrs gw alive (_ # as) u = stun_tcp_attrs (gw \<circ> Suc) alive as u"

text \<open>\<open>port\<close> is the local port of the socket, \<open>reach\<close> whether the server can be reached, \<open>msgs\<close> the attributes of
  its answers.  For UDP the answers are read by a task of their own, whose end is only logged.\<close>

definition stun_connect ::
    "(nat \<Rightarrow> gateway) \<Rightarrow> bool \<Rightarrow> sock \<Rightarrow> u16 \<Rightarrow> bool \<Rightarrow> stun_attr list list \<Rightarrow> nat_service \<Rightarrow>
     (bytes \<times> u16) list \<times> nat_service \<times> (nat_error, unit) result" where
  "stun_connect gw alive sk port reach msgs s =
     (case make_socket (ns_protocol s) sk of
        Err e \<Rightarrow> ([], s, Err e)
      | Panic \<Rightarrow> ([], s, Panic)
      | Ok _ \<Rightarrow>
          (let u = set_inner_port port (ns_upnp s); s = s\<lparr>ns_upnp := u\<rparr>
           in if \<not> reach then ([], s, Err SocketFailed)
              else case ns_protocol s of
                MapTCP \<Rightarrow> (let (addrs, r) = stun_tcp_attrs gw alive (concat msgs) u in (addrs, s, r))
              | MapUDP \<Rightarrow> (let (addrs, u, r) = stun_udp_attrs gw alive (concat msgs) u in (addrs, s\<lparr>ns_upnp := u\<rparr>, Ok ()))))"

section \<open>The transports (nat_udp.rs, nat_tcp.rs)\<close>

definition NAT_UDP_NAME :: string where "NAT_UDP_NAME = ''NatUdp''"
definition NAT_TCP_NAME :: string where "NAT_TCP_NAME = ''NatTcp''"

text \<open>The two kinds of senders, \<open>Ipv4UdpOutboundSender\<close> and \<open>TcpOutboundSender\<close>.\<close>

definition udp_sender :: "socket_addr \<Rightarrow> endpoint" where
  "udp_sender dst = Endpoint dst NAT_UDP_NAME"

definition tcp_sender :: "socket_addr \<Rightarrow> endpoint" where
  "tcp_sender dst = Endpoint dst NAT_TCP_NAME"

text \<open>Every address received starts a forwarder on its port, in place of the one before, and is announced.
  \<open>sk port\<close> is what happens to the socket on that port.\<close>

fun nat_start ::
    "port_mapping_protocol \<Rightarrow> string \<Rightarrow> (u16 \<Rightarrow> sock) \<Rightarrow> (bytes \<times> u16) list \<Rightarrow> u16 option \<Rightarrow>
     device_event list \<times> u16 option \<times> (nat_error, unit) result" where
  "nat_start protocol name sk [] fwd = ([], fwd, Ok ())"
| "nat_start protocol name sk ((ip, port) # addrs) fwd =
     (case make_socket protocol (sk port) of
        Err e \<Rightarrow> ([], fwd, Err e)
      | Panic \<Rightarrow> ([], fwd, Panic)
      | Ok _ \<Rightarrow> (let (evs, fwd, r) = nat_start protocol name sk addrs (Some port)
                 in (ExtraEndpointSuccess name (v4_text ip port) # evs, fwd, r)))"

definition nat_udp_start where "nat_udp_start = nat_start MapUDP NAT_UDP_NAME"
definition nat_tcp_start where "nat_tcp_start = nat_start MapTCP NAT_TCP_NAME"

text \<open>\<open>start_extra_transport\<close>: the parameters are JSON, read by \<open>json\<close> as STUN servers and port; \<open>dip_ok\<close> says
  whether those of the protocol without a transport parse.\<close>

definition start_extra_transport ::
    "(string \<Rightarrow> (string list \<times> u16) option) \<Rightarrow> (string \<Rightarrow> bool) \<Rightarrow> transport_config \<Rightarrow>
     ('m daemon_error, nat_service option) result" where
  "start_extra_transport json dip_ok cfg =
     rbind (ok_or (UnknownProto (tf_proto cfg)) (proto_from_str (tf_proto cfg))) (\<lambda>proto.
       case proto of
         NatUdp \<Rightarrow> rbind (ok_or BadAnswer (json (tf_params cfg))) (\<lambda>(stun, port). Ok (Some (nat_service_new stun port MapUDP)))
       | NatTcp \<Rightarrow> rbind (ok_or BadAnswer (json (tf_params cfg))) (\<lambda>(stun, port). Ok (Some (nat_service_new stun port MapTCP)))
       | Dip \<Rightarrow> if dip_ok (tf_params cfg) then Ok None else Err BadAnswer)"

datatype connect_error = BindFailed | BadEndpoint | ConnectFailed

definition nat_udp_client_new :: "bool \<Rightarrow> string \<Rightarrow> (connect_error, endpoint) result" where
  "nat_udp_client_new bind_ok en =
     (if \<not> bind_ok then Err BindFailed
      else rbind (ok_or BadEndpoint (socket_from_str en)) (\<lambda>dst. Ok (udp_sender dst)))"

definition nat_tcp_client_spawn :: "(socket_addr \<Rightarrow> bool) \<Rightarrow> string \<Rightarrow> (connect_error, endpoint) result" where
  "nat_tcp_client_spawn connects en =
     rbind (ok_or BadEndpoint (socket_from_str en)) (\<lambda>addr.
       if connects addr then Ok (tcp_sender addr) else Err ConnectFailed)"

section \<open>Forwarders (forward/udp.rs, forward/tcp2udp.rs)\<close>

text \<open>A datagram is one packet, cut off at the buffer's size.\<close>

definition udp_forward :: "(socket_addr \<times> bytes) list \<Rightarrow> (bytes \<times> endpoint) list" where
  "udp_forward dgs = map (\<lambda>(addr, dat). (take 2048 dat, udp_sender addr)) dgs"

text \<open>A stream is read into a buffer of that size: the list gives the number of bytes each read returns, \<open>None\<close> for
  an error.  Nothing read and an error end the loop; the flag says whether it has ended.\<close>

fun tcp_reads :: "nat option list \<Rightarrow> bytes \<Rightarrow> bytes list \<times> bool" where
  "tcp_reads [] stream = ([], False)"
| "tcp_reads (None # ns) stream = ([], True)"
| "tcp_reads (Some n # ns) stream =
     (let n = min n (min 2048 (length stream))
      in if n = 0 then ([], True)
         else let (ps, over) = tcp_reads ns (drop n stream) in (take n stream # ps, over))"

text \<open>Each read is one packet for the device.  When an accepted connection ends, its transport is reported to have failed; when
  the connection of a client ends, the peer loses its endpoint.\<close>

definition tcp_forward :: "bytes \<Rightarrow> u16 \<Rightarrow> nat option list \<Rightarrow> bytes \<Rightarrow> (bytes \<times> endpoint) list \<times> device_event list" where
  "tcp_forward ip port ns stream =
     (let (ps, over) = tcp_reads ns stream
      in (map (\<lambda>d. (d, tcp_sender (V4 ip port))) ps, if over then [TransportFailed NAT_TCP_NAME (v4_text ip port)] else []))"

definition nat_tcp_client_task :: "socket_addr \<Rightarrow> nat option list \<Rightarrow> bytes \<Rightarrow> peer \<Rightarrow> (bytes \<times> endpoint) list \<times> peer" where
  "nat_tcp_client_task addr ns stream p =
     (let (ps, over) = tcp_reads ns stream
      in (map (\<lambda>d. (d, tcp_sender addr)) ps, if over then clear_endpoint p else p))"

section \<open>Addresses survive their text\<close>

lemma read_digits_app:
  assumes "\<forall>c \<in> set xs. digit_val radix c \<noteq> None" "n + length xs \<le> md"
  shows "read_digits radix md n acc (xs @ ys) =
    read_digits radix md (n + length xs) (foldl (\<lambda>acc c. acc * radix + the (digit_val radix c)) acc xs) ys"
  using assms by (induction xs arbitrary: n acc) auto

lemma read_number_nat:
  assumes "n \<le> limit" "length (dec_nat n) \<le> md"
  shows "read_number 10 md limit True (dec_nat n) = Some (n, [])"
  using read_digits_app [OF dec_nat_digits, of 0 n md 0 "[]"] assms by (simp add: read_number_def dec_nat_value)

lemma read_port_dec: "read_port ('':'' @ dec_nat (unat p)) = Some (p, [])"
proof -
  have "unat p \<le> 65535" using unsigned_less [of p, where ?'a = nat] by simp
  then show ?thesis by (simp add: read_port_def read_number_nat)
qed

lemma read_ipv4_dotted:
  assumes "no_digit s"
  shows "read_ipv4 (ipv4_to_string [a, b, c, d] @ s) = Some ([a, b, c, d], s)"
proof -
  have nd: "no_digit (CHR ''.'' # s)" for s by (simp add: no_digit_def)
  show ?thesis using read_number_dec [OF assms, of d] by (simp add: read_ipv4_def read_octet_def read_number_dec nd)
qed

lemma socket_from_v4_text:
  assumes "length ip = 4"
  shows "socket_from_str (v4_text ip p) = Some (V4 ip p)"
proof -
  obtain a b c d where ip: "ip = [a, b, c, d]" using assms by (auto simp: length_Suc_conv numeral_eq_Suc)
  have "no_digit ('':'' @ dec_nat (unat p))" by (simp add: no_digit_def digit_val_def digit_of_hex_def Let_def)
  from read_ipv4_dotted [OF this, of a b c d]
  have "read_ipv4 (v4_text ip p) = Some (ip, '':'' @ dec_nat (unat p))" by (simp only: v4_text_def ip)
  then show ?thesis using read_port_dec [of p] by (simp add: socket_from_str_def)
qed

section \<open>Mapping a port ends\<close>

lemma add_port_loop_last:
  "add_port_loop gw u port ip i False =
     (if us_inner_port u = 0 then ([], Err (PortError 0))
      else ([CallAdd (us_protocol u) port ip (us_inner_port u)],
        case gw_add gw i of Added \<Rightarrow> Ok (ip, us_inner_port u) | AddFailed \<Rightarrow> Err GatewayError | PortInUse \<Rightarrow> Err PortInUseError))"
  by (subst add_port_loop.simps) (simp add: Let_def split: add_answer.split)


text \<open>The mapping removed is the one for TCP, also when one for UDP is asked for.\<close>

lemma add_port_removes_tcp: "CallRemove p q \<in> set (fst (add_port gw port u)) \<Longrightarrow> p = MapTCP \<and> q = port"
  using add_port_loop_last [of gw u port _ 1]
  by (cases "gw_add gw 0")
    (auto simp: add_port_def add_port_loop.simps [of gw u port _ 0 True] Let_def split: option.splits ip_addr.splits if_splits)

section \<open>Announced addresses are reached\<close>

lemma nat_start_announces:
  "nat_start protocol name sk addrs f = (evs, fwd, r) \<Longrightarrow> ev \<in> set evs \<Longrightarrow>
    \<exists>ip port. (ip, port) \<in> set addrs \<and> ev = ExtraEndpointSuccess name (v4_text ip port)"
proof (induction addrs arbitrary: evs fwd r f)
  case (Cons a addrs)
  obtain ip port where a: "a = (ip, port)" by (cases a)
  obtain evs' fwd' r' where rec: "nat_start protocol name sk addrs (Some port) = (evs', fwd', r')" by (metis prod_cases3)
  show ?case
  proof (cases "make_socket protocol (sk port)")
    case (Ok u)
    then have "evs = ExtraEndpointSuccess name (v4_text ip port) # evs'" using Cons.prems(1) a rec by simp
    then show ?thesis using Cons.IH [OF rec] Cons.prems(2) a by auto
  qed (use Cons.prems a in auto)
qed simp

text \<open>The addresses sent to the transports are those of the answers; over UDP each is sent twice.\<close>

lemma stun_udp_attrs_addrs:
  "(ip, port) \<in> set (fst (stun_udp_attrs gw alive as u)) \<Longrightarrow> XorMappedAddress (V4 ip port) \<in> set as"
  by (induction gw alive as u rule: stun_udp_attrs.induct) (auto simp: split_beta split: if_splits)

lemma stun_tcp_attrs_addrs:
  "(ip, port) \<in> set (fst (stun_tcp_attrs gw alive as u)) \<Longrightarrow> XorMappedAddress (V4 ip port) \<in> set as"
  by (induction gw alive as u rule: stun_tcp_attrs.induct) (auto simp: split_beta split: if_splits result.splits)

lemma stun_connect_addrs:
  "(ip, port) \<in> set (fst (stun_connect gw alive sk lp reach msgs s)) \<Longrightarrow> XorMappedAddress (V4 ip port) \<in> set (concat msgs)"
  by (auto simp: stun_connect_def Let_def split_beta split: result.splits if_splits port_mapping_protocol.splits
      dest: stun_udp_attrs_addrs stun_tcp_attrs_addrs)

section \<open>Streams keep the bytes and lose the packets\<close>

lemma tcp_reads_prefix: "\<exists>rest. stream = concat (fst (tcp_reads ns stream)) @ rest"
proof (induction ns stream rule: tcp_reads.induct)
  case (3 n ns stream)
  let ?n = "min n (min 2048 (length stream))"
  show ?case
  proof (cases "?n = 0")
    case False
    then obtain rest where "drop ?n stream = concat (fst (tcp_reads ns (drop ?n stream))) @ rest" using 3 by auto
    then have "stream = take ?n stream @ concat (fst (tcp_reads ns (drop ?n stream))) @ rest" by (metis append_take_drop_id)
    then show ?thesis using False by (auto simp: Let_def split_beta)
  qed (simp add: Let_def)
qed simp_all

lemma tcp_reads_chunks: "d \<in> set (fst (tcp_reads ns stream)) \<Longrightarrow> d \<noteq> [] \<and> length d \<le> 2048"
  by (induction ns stream rule: tcp_reads.induct) (auto simp: Let_def split_beta min_def split: if_splits)

text \<open>Over TCP packets lose their boundaries.  The packets handed to the device are never empty, never longer than the buffer and
  together a prefix of the bytes written to the stream; but two packets that are read together arrive as one,
  and a packet that is read in two parts arrives as two.\<close>

theorem tcp_packets_merge:
  assumes "p \<noteq> []" "q \<noteq> []" "length p + length q \<le> 2048"
  shows "(\<exists>rest. concat sent = concat (map fst (fst (tcp_forward ip port ns (concat sent)))) @ rest)
    \<and> (\<forall>d \<in> set (map fst (fst (tcp_forward ip port ns (concat sent)))). d \<noteq> [] \<and> length d \<le> 2048)
    \<and> map fst (fst (tcp_forward ip port [Some 2048] (concat [p, q]))) = [p @ q]
    \<and> (\<forall>k. 0 < k \<longrightarrow> k < length p \<longrightarrow>
         map fst (fst (tcp_forward ip port [Some k, Some 2048] (concat [p]))) = [take k p, drop k p])"
proof -
  have fst_eq: "map fst (fst (tcp_forward ip port ns stream)) = fst (tcp_reads ns stream)" for ns stream
    by (simp add: tcp_forward_def split_beta comp_def)
  show ?thesis
    unfolding fst_eq using assms tcp_reads_prefix [of "concat sent" ns] tcp_reads_chunks [of _ ns "concat sent"]
    by (auto simp: Let_def)
qed

theorem tcp_packets_merge_witness:
  "map fst (fst (tcp_forward [127, 0, 0, 1] 9 [Some 2048] (concat [[1], [2, 3]]))) = [[1, 2, 3]]"
  using tcp_packets_merge [of "[1]" "[2, 3]"] by simp

end
