(* ===== verification/Derp.thy ===== *)
theory Derp
  imports Frame_Decoder
begin

text \<open>
  The DERP relay client of \<open>derp/tailscale-derp\<close>: the frame codec (\<open>derp_codec.rs\<close>), the client's
  handshake and packet size limit (\<open>derp_client.rs\<close>, \<open>lib.rs\<close>) and the upgrade request
  (\<open>derp_utils.rs\<close>).  The HTTP parser, the NaCl box and the JSON library are other crates: they are
  the fields of the record \<open>derp_lib\<close>.
\<close>

section \<open>Parameters and data\<close>

datatype http_status = Partial | Complete nat u16 "string option" | HttpErr string

record client_info =
  ci_version :: u8
  ci_mesh_key :: "string option"
  ci_can_ack_pings :: bool
  ci_is_prober :: bool

record derp_lib =
  http_parse :: "bytes \<Rightarrow> http_status"
  box_seal :: "bytes \<Rightarrow> bytes \<Rightarrow> bytes \<Rightarrow> bytes \<Rightarrow> bytes option"
  box_open :: "bytes \<Rightarrow> bytes \<Rightarrow> bytes \<Rightarrow> bytes \<Rightarrow> bytes option"
  json_server_info :: "bytes \<Rightarrow> u8 option"
  json_client_info :: "client_info \<Rightarrow> bytes option"

definition PROTOCOL_VERSION :: u8 where "PROTOCOL_VERSION = 2"
definition KEY_LEN :: nat where "KEY_LEN = 32"
definition MAGIC_LEN :: nat where "MAGIC_LEN = 8"
definition MAX_PACKET_SIZE :: nat where "MAX_PACKET_SIZE = 65536"

lemmas derp_consts = PROTOCOL_VERSION_def KEY_LEN_def MAGIC_LEN_def MAX_PACKET_SIZE_def

definition client_info_new :: "bool \<Rightarrow> client_info" where
  "client_info_new can_ack_pings =
     \<lparr>ci_version = PROTOCOL_VERSION, ci_mesh_key = None, ci_can_ack_pings = can_ack_pings,
      ci_is_prober = False\<rparr>"

datatype derp_response =
    Ws | FrameServerKeyR bytes | FrameRecvPacketR bytes bytes | FramePeerGoneR bytes u8
  | FrameKeepAliveR | ServerInfoR u8 | TestR

datatype derp_request = ClientInfoReq client_info | SendPacket bytes bytes | TestReq

text \<open>The errors of \<open>errors.rs\<close>; those wrapped from another crate are kept as text.\<close>

datatype derp_error =
    MaxPacket | IoError string | TlsError string | BoxError string | WsHandshakeError string
  | ErrorMsg string | HttpError string | MaxFrameLength nat | InvalidServerKey | InvalidKey | EncodeError
  | NoServerKey | EncryptError | DecryptError | NotConnect | SendError derp_request | HandshakeError

datatype cmd_type =
    FrameServerKey | FrameClientInfo | FrameServerInfo | FrameSendPacket | FrameRecvPacket
  | FrameKeepAlive | FramePeerGone | FrameForwardPacket | FramePing | UnknownCmd

definition cmd_table :: "(u8 \<times> cmd_type) list" where
  "cmd_table = [(0x01, FrameServerKey), (0x02, FrameClientInfo), (0x03, FrameServerInfo),
     (0x04, FrameSendPacket), (0x05, FrameRecvPacket), (0x06, FrameKeepAlive), (0x08, FramePeerGone),
     (0x0a, FrameForwardPacket), (0x12, FramePing)]"

definition cmd_from_u8 :: "u8 \<Rightarrow> cmd_type" where
  "cmd_from_u8 b = (case map_of cmd_table b of Some c \<Rightarrow> c | None \<Rightarrow> UnknownCmd)"

text \<open>\<open>Unknown\<close> has the discriminant after \<open>FramePing\<close>.\<close>

fun cmd_to_u8 :: "cmd_type \<Rightarrow> u8" where
  "cmd_to_u8 FrameServerKey = 0x01"
| "cmd_to_u8 FrameClientInfo = 0x02"
| "cmd_to_u8 FrameServerInfo = 0x03"
| "cmd_to_u8 FrameSendPacket = 0x04"
| "cmd_to_u8 FrameRecvPacket = 0x05"
| "cmd_to_u8 FrameKeepAlive = 0x06"
| "cmd_to_u8 FramePeerGone = 0x08"
| "cmd_to_u8 FrameForwardPacket = 0x0a"
| "cmd_to_u8 FramePing = 0x12"
| "cmd_to_u8 UnknownCmd = 0x13"

record derp_header =
  dh_cmd_type :: cmd_type
  dh_len :: u32

record derp_codec =
  dc_to_ws_response :: bool
  dc_private_key :: bytes
  dc_public_key :: bytes
  dc_salsa_box :: "bytes option"
  dc_header :: "derp_header option"

definition derp_codec_new :: "bytes \<Rightarrow> bytes \<Rightarrow> bool \<Rightarrow> derp_codec" where
  "derp_codec_new public_key private_key fast_connect =
     \<lparr>dc_to_ws_response = \<not> fast_connect, dc_private_key = private_key, dc_public_key = public_key,
      dc_salsa_box = None, dc_header = None\<rparr>"

section \<open>Decoding\<close>

text \<open>The box is fixed by the server's key and the client's own secret key.\<close>

definition derp_decrypt_data :: "derp_lib \<Rightarrow> derp_codec \<Rightarrow> bytes \<Rightarrow> (derp_error, bytes) result" where
  "derp_decrypt_data lib c data =
     rbind (slice 0 24 data) (\<lambda>nonce.
       case dc_salsa_box c of
         None \<Rightarrow> Err NoServerKey
       | Some server_key \<Rightarrow>
           ok_or DecryptError (box_open lib server_key (dc_private_key c) nonce (drop 24 data)))"

definition derp_encrypt_data ::
    "derp_lib \<Rightarrow> bytes \<Rightarrow> derp_codec \<Rightarrow> bytes \<Rightarrow> (derp_error, bytes \<times> bytes) result" where
  "derp_encrypt_data lib nonce c data =
     (case dc_salsa_box c of
        None \<Rightarrow> Err NoServerKey
      | Some server_key \<Rightarrow>
          rbind (ok_or EncryptError (box_seal lib server_key (dc_private_key c) nonce data)) (\<lambda>b.
            Ok (nonce, b)))"

definition derp_decode_frame ::
    "derp_lib \<Rightarrow> derp_codec \<Rightarrow> cmd_type \<Rightarrow> bytes \<Rightarrow> derp_codec \<times> (derp_response, derp_error) decoded" where
  "derp_decode_frame lib c cmd data =
     (case cmd of
        FrameServerKey \<Rightarrow>
          if length data < MAGIC_LEN \<or> length (drop MAGIC_LEN data) \<noteq> 32 then (c, Crash)
          else (c\<lparr>dc_salsa_box := Some (drop MAGIC_LEN data)\<rparr>, Item (FrameServerKeyR (drop MAGIC_LEN data)))
      | FrameServerInfo \<Rightarrow>
          (case derp_decrypt_data lib c data of
             Ok d \<Rightarrow> (case json_server_info lib d of
                 Some v \<Rightarrow> (c, Item (ServerInfoR v))
               | None \<Rightarrow> (c, Fail (ErrorMsg ''server info error'')))
           | Err e \<Rightarrow> (c, Fail e)
           | Panic \<Rightarrow> (c, Crash))
      | FrameKeepAlive \<Rightarrow> (c, Item FrameKeepAliveR)
      | FrameRecvPacket \<Rightarrow>
          if length data < KEY_LEN then (c, Crash)
          else (c, Item (FrameRecvPacketR (take KEY_LEN data) (drop KEY_LEN data)))
      | FramePeerGone \<Rightarrow>
          if length data \<le> KEY_LEN then (c, Crash)
          else (c, Item (FramePeerGoneR (take KEY_LEN data) (data ! KEY_LEN)))
      | _ \<Rightarrow> (c, Item TestR))"

definition derp_take_frame ::
    "derp_lib \<Rightarrow> derp_codec \<Rightarrow> derp_header \<Rightarrow> bytes \<Rightarrow> derp_codec \<times> bytes \<times> (derp_response, derp_error) decoded" where
  "derp_take_frame lib c header src =
     (if length src < unat (dh_len header) then (c\<lparr>dc_header := Some header\<rparr>, src, Need)
      else let (c', out) = derp_decode_frame lib (c\<lparr>dc_header := None\<rparr>) (dh_cmd_type header) (take (unat (dh_len header)) src)
           in (c', drop (unat (dh_len header)) src, out))"

definition derp_decode_frames ::
    "derp_lib \<Rightarrow> derp_codec \<Rightarrow> bytes \<Rightarrow> derp_codec \<times> bytes \<times> (derp_response, derp_error) decoded" where
  "derp_decode_frames lib c src =
     (case dc_header c of
        None \<Rightarrow>
          if length src < 5 then (c, src, Need)
          else let tb = cmd_from_u8 (src ! 0);
                   len = (from_be_bytes (take 4 (drop 1 src)) :: u32)
               in if unat len > 2 ^ 20 then (c, drop 5 src, Fail (MaxFrameLength (unat len)))
                  else derp_take_frame lib c \<lparr>dh_cmd_type = tb, dh_len = len\<rparr> (drop 5 src)
      | Some header \<Rightarrow> derp_take_frame lib (c\<lparr>dc_header := None\<rparr>) header src)"

definition validate_server_response :: "derp_lib \<Rightarrow> bytes \<Rightarrow> (derp_error, nat option) result" where
  "validate_server_response lib data =
     (case http_parse lib data of
        HttpErr e \<Rightarrow> Err (HttpError e)
      | Partial \<Rightarrow> Ok None
      | Complete n code reason \<Rightarrow>
          if code \<noteq> 101 then
            Err (ErrorMsg (''server responded with HTTP error '' @ dec_nat (unat code) @
              (case reason of Some r \<Rightarrow> '': '' @ debug_str r | None \<Rightarrow> [])))
          else Ok (Some n))"

definition derp_decode ::
    "derp_lib \<Rightarrow> derp_codec \<Rightarrow> bytes \<Rightarrow> derp_codec \<times> bytes \<times> (derp_response, derp_error) decoded" where
  "derp_decode lib c src =
     (if dc_to_ws_response c then
        (case validate_server_response lib src of
           Ok (Some n) \<Rightarrow>
             if n \<le> length src then (c\<lparr>dc_to_ws_response := False\<rparr>, drop n src, Item Ws) else (c, src, Crash)
         | Ok None \<Rightarrow> (c, src, Need)
         | Err e \<Rightarrow> (c, src, Fail e)
         | Panic \<Rightarrow> (c, src, Crash))
      else derp_decode_frames lib c src)"

section \<open>Encoding\<close>

definition write_frame :: "bytes \<Rightarrow> cmd_type \<Rightarrow> bytes \<Rightarrow> bytes" where
  "write_frame dst cmd data = dst @ [cmd_to_u8 cmd] @ to_be_bytes 4 (of_nat (length data) :: u32) @ data"

definition derp_encode :: "derp_lib \<Rightarrow> bytes \<Rightarrow> derp_codec \<Rightarrow> derp_request \<Rightarrow> bytes \<Rightarrow> (derp_error, bytes) result" where
  "derp_encode lib nonce c item dst =
     (case item of
        ClientInfoReq info \<Rightarrow>
          rbind (ok_or EncodeError (json_client_info lib info)) (\<lambda>info_json.
          rbind (derp_encrypt_data lib nonce c info_json) (\<lambda>(nonce, b).
            Ok (write_frame dst FrameClientInfo (dc_public_key c @ nonce @ b))))
      | SendPacket dst_key data \<Rightarrow> Ok (write_frame dst FrameSendPacket (dst_key @ data))
      | TestReq \<Rightarrow> Ok dst)"

section \<open>The client\<close>

text \<open>The channel to the sink task holds the requests; it is closed once that task has ended.\<close>

record derp_channel =
  ch_open :: bool
  ch_queue :: "derp_request list"

definition channel_send :: "derp_channel \<Rightarrow> derp_request \<Rightarrow> (derp_error, derp_channel) result" where
  "channel_send ch req =
     (if ch_open ch then Ok (ch\<lparr>ch_queue := ch_queue ch @ [req]\<rparr>) else Err (SendError req))"

definition send_to :: "derp_channel \<Rightarrow> bytes \<Rightarrow> bytes \<Rightarrow> (derp_error, derp_channel) result" where
  "send_to ch dst data =
     (if length data > MAX_PACKET_SIZE then Err MaxPacket else channel_send ch (SendPacket dst data))"

text \<open>The client's handshake: it answers the server's key and waits for the server info; the end of the
  stream counts as success, and a failed send is ignored.  What is left of the stream is returned.\<close>

fun await_handshake ::
    "(derp_response + derp_error) list \<Rightarrow> derp_channel \<Rightarrow>
     (derp_error, (derp_response + derp_error) list \<times> derp_channel) result" where
  "await_handshake [] tx = Ok ([], tx)"
| "await_handshake (Inr e # rest) tx = Err HandshakeError"
| "await_handshake (Inl r # rest) tx =
     (case r of
        FrameServerKeyR key \<Rightarrow>
          await_handshake rest
            (case channel_send tx (ClientInfoReq (client_info_new False)) of Ok tx' \<Rightarrow> tx' | _ \<Rightarrow> tx)
      | ServerInfoR v \<Rightarrow> Ok (rest, tx)
      | _ \<Rightarrow> await_handshake rest tx)"

text \<open>The sink task: requests are encoded in turn until one fails; each needs a fresh nonce.\<close>

fun sink_task :: "derp_lib \<Rightarrow> derp_codec \<Rightarrow> (bytes \<times> derp_request) list \<Rightarrow> bytes" where
  "sink_task lib c [] = []"
| "sink_task lib c ((nonce, req) # rest) =
     (case derp_encode lib nonce c req [] of Ok b \<Rightarrow> b @ sink_task lib c rest | _ \<Rightarrow> [])"

text \<open>The upgrade request; the parts of the URL come from the \<open>url\<close> crate.\<close>

record url_parts =
  url_path :: string
  url_query :: "string option"
  url_host :: "string option"
  url_port :: "string option"

definition crlf :: string where "crlf = [char_of (13 :: nat), char_of (10 :: nat)]"

definition build_request :: "url_parts \<Rightarrow> (string \<times> string) list \<Rightarrow> string" where
  "build_request url headers =
     ''GET '' @ url_path url @ (case url_query url of Some q \<Rightarrow> ''?'' @ q | None \<Rightarrow> []) @
     '' HTTP/1.1'' @ crlf @
     (case url_host url of
        Some h \<Rightarrow> ''Host: '' @ h @ (case url_port url of Some p \<Rightarrow> '':'' @ p | None \<Rightarrow> []) @ crlf
      | None \<Rightarrow> []) @
     ''Upgrade: websocket'' @ crlf @ ''Connection: Upgrade'' @ crlf @ ''Sec-WebSocket-Version: 13'' @ crlf @
     concat (map (\<lambda>(name, v). name @ '': '' @ v @ crlf) headers) @ crlf"

section \<open>Frames and chunks\<close>

definition derp_size :: "derp_codec \<Rightarrow> bytes \<Rightarrow> nat" where
  "derp_size c b = 2 * length b + (if dc_header c = None then 0 else 1)"

lemma derp_decode_frame_header: "dc_header (fst (derp_decode_frame lib c cmd data)) = dc_header c"
  "dc_to_ws_response (fst (derp_decode_frame lib c cmd data)) = dc_to_ws_response c"
  by (auto simp: derp_decode_frame_def split: cmd_type.splits result.splits option.splits)

lemma derp_decode_frame_not_Need: "snd (derp_decode_frame lib c cmd data) \<noteq> Need"
  by (auto simp: derp_decode_frame_def split: cmd_type.splits result.splits option.splits)

text \<open>A complete frame is taken alike however much follows it; an incomplete one is remembered.\<close>

lemma derp_take_frame_enough:
  "unat (dh_len h) \<le> length src \<Longrightarrow> derp_take_frame lib c h (src @ x) =
     (let (c', r, out) = derp_take_frame lib c h src in (c', r @ x, out))"
  by (simp add: derp_take_frame_def Let_def split_beta)

lemma derp_take_frame_short:
  assumes "length src < unat (dh_len h)"
  shows "derp_take_frame lib c h src = (c\<lparr>dc_header := Some h\<rparr>, src, Need)"
    "derp_decode_frames lib (c\<lparr>dc_header := Some h\<rparr>) (src @ x) = derp_take_frame lib (c\<lparr>dc_header := None\<rparr>) h (src @ x)"
  using assms by (simp_all add: derp_take_frame_def derp_decode_frames_def)

lemma derp_take_frame_reset:
  "derp_take_frame lib (c\<lparr>dc_header := None\<rparr>) h src = derp_take_frame lib c h src"
  by (simp add: derp_take_frame_def)

lemma derp_take_frame_cases:
  obtains (short) "length src < unat (dh_len h)" "derp_take_frame lib c h src = (c\<lparr>dc_header := Some h\<rparr>, src, Need)"
  | (full) c' out where "unat (dh_len h) \<le> length src"
      "derp_take_frame lib c h src = (c', drop (unat (dh_len h)) src, out)" "dc_header c' = None" "out \<noteq> Need"
proof (cases "length src < unat (dh_len h)")
  case True
  then show ?thesis using short derp_take_frame_short(1) by blast
next
  case False
  let ?d = "derp_decode_frame lib (c\<lparr>dc_header := None\<rparr>) (dh_cmd_type h) (take (unat (dh_len h)) src)"
  show ?thesis
    by (rule full [of "fst ?d" "snd ?d"])
      (use False derp_decode_frame_header(1) [of lib "c\<lparr>dc_header := None\<rparr>"] derp_decode_frame_not_Need in
        \<open>simp_all add: derp_take_frame_def split_beta\<close>)
qed

text \<open>With the header read, decoding goes on as \<open>derp_take_frame\<close> on what follows it.\<close>

definition head_of :: "bytes \<Rightarrow> derp_header" where
  "head_of src = \<lparr>dh_cmd_type = cmd_from_u8 (src ! 0), dh_len = from_be_bytes (take 4 (drop 1 src))\<rparr>"

lemma derp_decode_frames_cases:
  obtains (wait) "dc_header c = None" "length src < 5" "derp_decode_frames lib c src = (c, src, Need)"
  | (long) "dc_header c = None" "5 \<le> length src" "unat (dh_len (head_of src)) > 2 ^ 20"
      "derp_decode_frames lib c src = (c, drop 5 src, Fail (MaxFrameLength (unat (dh_len (head_of src)))))"
  | (head) "dc_header c = None" "5 \<le> length src" "unat (dh_len (head_of src)) \<le> 2 ^ 20"
      "derp_decode_frames lib c src = derp_take_frame lib c (head_of src) (drop 5 src)"
  | (body) h where "dc_header c = Some h" "derp_decode_frames lib c src = derp_take_frame lib c h src"
proof (cases "dc_header c")
  case (Some h)
  then show ?thesis using body [of h] by (simp add: derp_decode_frames_def derp_take_frame_reset)
next
  case None
  then show ?thesis
    using wait long head
    by (cases "length src < 5"; cases "unat (dh_len (head_of src)) > 2 ^ 20")
      (simp_all add: derp_decode_frames_def head_of_def Let_def not_less)
qed

lemma head_of_append [simp]: "5 \<le> length src \<Longrightarrow> head_of (src @ x) = head_of src"
  by (cases src) (auto simp: head_of_def nth_append)

lemma derp_decode_frames_ext:
  assumes "derp_decode_frames lib c src = (c', r, out)" "out \<noteq> Need"
  shows "derp_decode_frames lib c (src @ x) = (c', r @ x, out)"
proof (cases rule: derp_decode_frames_cases [of c src lib])
  case wait
  then show ?thesis using assms by simp
next
  case long
  then show ?thesis using assms by (simp add: derp_decode_frames_def Let_def head_of_def nth_append)
next
  case head
  then have "unat (dh_len (head_of src)) \<le> length (drop 5 src)"
    using assms derp_take_frame_short(1) [of "drop 5 src" "head_of src" lib c] by (auto simp: not_less [symmetric])
  moreover have "derp_take_frame lib c (head_of src) (drop 5 src) = (c', r, out)" using assms head by simp
  ultimately have "derp_take_frame lib c (head_of src) (drop 5 src @ x) = (c', r @ x, out)"
    using derp_take_frame_enough [of "head_of src" "drop 5 src" lib c x] by simp
  then show ?thesis using head by (cases rule: derp_decode_frames_cases [of c "src @ x" lib]) auto
next
  case (body h)
  then have "unat (dh_len h) \<le> length src"
    using assms derp_take_frame_short(1) [of src h lib c] by (auto simp: not_less [symmetric])
  moreover have "derp_take_frame lib c h src = (c', r, out)" using assms body by simp
  ultimately have "derp_take_frame lib c h (src @ x) = (c', r @ x, out)"
    using derp_take_frame_enough [of h src lib c x] by simp
  then show ?thesis using body by (cases rule: derp_decode_frames_cases [of c "src @ x" lib]) auto
qed

lemma derp_decode_frames_need:
  assumes "derp_decode_frames lib c src = (c', r, Need)"
  shows "derp_decode_frames lib c (src @ x) = derp_decode_frames lib c' (r @ x)"
proof (cases rule: derp_decode_frames_cases [of c src lib])
  case wait
  then show ?thesis using assms by simp
next
  case long
  then show ?thesis using assms by simp
next
  case head
  show ?thesis
  proof (cases rule: derp_take_frame_cases [of "drop 5 src" "head_of src" lib c])
    case short
    then have "c' = c\<lparr>dc_header := Some (head_of src)\<rparr>" "r = drop 5 src" using assms head by auto
    moreover have "derp_decode_frames lib c (src @ x) = derp_take_frame lib c (head_of src) (drop 5 src @ x)"
      using head by (cases rule: derp_decode_frames_cases [of c "src @ x" lib]) auto
    ultimately show ?thesis using derp_take_frame_short(2) [OF short(1), of lib c x] derp_take_frame_reset by simp
  next
    case (full c'' out)
    then show ?thesis using assms head by simp
  qed
next
  case (body h)
  show ?thesis
  proof (cases rule: derp_take_frame_cases [of src h lib c])
    case short
    then have "c' = c" "r = src" using assms body by auto
    then show ?thesis by simp
  next
    case (full c'' out)
    then show ?thesis using assms body by simp
  qed
qed

lemma derp_decode_frames_progress:
  assumes "derp_decode_frames lib c src = (c', r, Item i)"
  shows "derp_size c' r < derp_size c src"
proof (cases rule: derp_decode_frames_cases [of c src lib])
  case head
  then show ?thesis using assms
    by (cases rule: derp_take_frame_cases [of "drop 5 src" "head_of src" lib c]) (auto simp: derp_size_def)
next
  case (body h)
  then show ?thesis using assms
    by (cases rule: derp_take_frame_cases [of src h lib c]) (auto simp: derp_size_def)
qed (use assms in auto)

interpretation derp: frame_decoder "derp_decode_frames lib" derp_size for lib
proof (unfold_locales, goal_cases)
  case (1 s b s' r i)
  then show ?case by (rule derp_decode_frames_progress)
next
  case (2 s b s' r i x)
  then show ?case using derp_decode_frames_ext [of lib s b s' r "Item i" x] by simp
next
  case (3 s b s' r e x)
  then show ?case using derp_decode_frames_ext [of lib s b s' r "Fail e" x] by simp
next
  case (4 s b s' r x)
  then show ?case using derp_decode_frames_ext [of lib s b s' r Crash x] by simp
next
  case (5 s b s' r x)
  then show ?case by (rule derp_decode_frames_need)
qed

text \<open>The codec leaves the upgrade phase once and does not return to it.\<close>

lemma derp_decode_frames_phase:
  "derp_decode_frames lib c src = (c', r, out) \<Longrightarrow> dc_to_ws_response c' = dc_to_ws_response c"
  by (auto simp: derp_decode_frames_def derp_take_frame_def derp_decode_frame_header(2) Let_def split_beta
      split: option.splits if_splits)

lemma derp_feed_frames:
  assumes "\<not> dc_to_ws_response c"
  shows "feed (derp_decode lib) c r cs = feed (derp_decode_frames lib) c r cs"
    "drain (derp_decode lib) c b = drain (derp_decode_frames lib) c b"
  by (rule derp.feed_agree [where P = "\<lambda>c. \<not> dc_to_ws_response c"] derp.drain_agree [where P = "\<lambda>c. \<not> dc_to_ws_response c"];
      simp add: assms derp_decode_def derp_decode_frames_phase)+

text \<open>A library for concrete runs, with the identity as cipher.\<close>

definition plain_derp :: derp_lib where
  "plain_derp =
     \<lparr>http_parse = (\<lambda>b. Partial), box_seal = (\<lambda>pk sk nonce m. Some m), box_open = (\<lambda>pk sk nonce m. Some m),
      json_server_info = (\<lambda>b. Some 2), json_client_info = (\<lambda>i. Some [ci_version i])\<rparr>"

text \<open>C33: After the HTTP upgrade the DERP codec yields the same items and the same end of the stream
  however the bytes are cut into reads, and it always comes to an end of the bytes it has.\<close>

theorem derp_chunking:
  assumes "\<not> dc_to_ws_response c"
  shows "feed (derp_decode lib) c [] (ch # chs) = outcome (drain (derp_decode lib) c (concat (ch # chs)))
    \<and> feed (derp_decode lib) c [] (ch # chs) \<noteq> None"
proof -
  have "drain (derp_decode_frames lib) c (concat (ch # chs)) \<noteq> None"
    using derp.drain_total [of lib c "concat (ch # chs)"] by auto
  then show ?thesis
    unfolding derp_feed_frames [OF assms] derp.feed_concat append_Nil by (simp add: outcome_def)
qed

theorem derp_chunking_witness:
  "feed (derp_decode plain_derp) (derp_codec_new [] [] True) [] [[6], [0, 0], [0, 0, 6]] =
     outcome (drain (derp_decode plain_derp) (derp_codec_new [] [] True) [6, 0, 0, 0, 0, 6])"
  using derp_chunking [of "derp_codec_new [] [] True" plain_derp "[6]" "[[0, 0], [0, 0, 6]]"]
  by (simp add: derp_codec_new_def)

section \<open>Round trips\<close>

lemma cmd_roundtrip [simp]: "cmd_from_u8 (cmd_to_u8 cmd) = cmd"
  by (cases cmd) (simp_all add: cmd_from_u8_def cmd_table_def)

lemma write_frame_decodes:
  assumes "length data \<le> 2 ^ 20" "dc_header c = None"
  shows "derp_decode_frames lib c (write_frame [] cmd data @ rest) =
     (let (c', out) = derp_decode_frame lib c cmd data in (c', rest, out))"
proof -
  have u: "unat (of_nat (length data) :: u32) = length data"
    using assms(1) by (simp add: unsigned_of_nat take_bit_nat_eq_self)
  have c: "c\<lparr>dc_header := None\<rparr> = c" using assms(2) by simp
  show ?thesis
    using assms u
    by (simp add: derp_decode_frames_def write_frame_def derp_take_frame_def Let_def nth_append c)
qed

definition recv_frame :: "bytes \<times> bytes \<Rightarrow> bytes" where
  "recv_frame p = write_frame [] FrameRecvPacket (fst p @ snd p)"

lemma drain_recv_frames:
  assumes "dc_header c = None" "\<forall>p \<in> set ps. length (fst p) = KEY_LEN \<and> length (snd p) \<le> MAX_PACKET_SIZE"
  shows "drain (derp_decode_frames lib) c (concat (map recv_frame ps)) =
     Some (map (\<lambda>p. FrameRecvPacketR (fst p) (snd p)) ps, Waiting, c, [])"
  using assms(2)
proof (induction ps)
  case Nil
  then show ?case using assms(1) by (subst drain.simps) (simp add: derp_decode_frames_def)
next
  case (Cons p ps)
  have "derp_decode_frames lib c (recv_frame p @ concat (map recv_frame ps)) =
      (c, concat (map recv_frame ps), Item (FrameRecvPacketR (fst p) (snd p)))"
    unfolding recv_frame_def using Cons.prems assms(1)
    by (subst write_frame_decodes) (auto simp: derp_consts derp_decode_frame_def)
  then show ?case using Cons by (subst drain.simps) simp
qed

text \<open>C31: The packets a relay forwards arrive whole and in order: frames of a 32-byte source key and at
  most \<open>MAX_PACKET_SIZE\<close> bytes, delivered in any reads at all, are decoded to exactly these packets.\<close>

theorem derp_packets_delivered:
  assumes "\<not> dc_to_ws_response c" "dc_header c = None"
    and "\<forall>p \<in> set ps. length (fst p) = KEY_LEN \<and> length (snd p) \<le> MAX_PACKET_SIZE"
    and "concat (ch # chs) = concat (map recv_frame ps)"
  shows "feed (derp_decode lib) c [] (ch # chs) = Some (map (\<lambda>p. FrameRecvPacketR (fst p) (snd p)) ps, Waiting)"
  unfolding derp_feed_frames [OF assms(1)] derp.feed_concat
  using drain_recv_frames [OF assms(2,3), of lib] assms(4) by (simp add: outcome_def)

theorem derp_packets_delivered_witness:
  "feed (derp_decode plain_derp) (derp_codec_new [] [] True) [] [[5, 0, 0, 0], 33 # replicate 32 7, [9]] =
     Some ([FrameRecvPacketR (replicate 32 7) [9]], Waiting)"
proof -
  have "concat [[5, 0, 0, 0], 33 # replicate 32 7, [9]] = concat (map recv_frame [(replicate 32 7, [9])])"
    by code_simp
  from derp_packets_delivered [OF _ _ _ this, of "derp_codec_new [] [] True" plain_derp] show ?thesis
    by (simp add: derp_codec_new_def KEY_LEN_def MAX_PACKET_SIZE_def del: replicate.simps)
qed

text \<open>A frame of the relay crashes the client exactly when it is shorter than its type asks: a
  server key not of 8 + 32 bytes, a server info without a nonce, a packet without a source key, a notice
  without key and reason.\<close>

theorem derp_decode_frame_crash_iff:
  "snd (derp_decode_frame lib c cmd data) = Crash \<longleftrightarrow>
     (cmd = FrameServerKey \<and> length data \<noteq> MAGIC_LEN + KEY_LEN) \<or>
     (cmd = FrameServerInfo \<and> length data < 24) \<or>
     (cmd = FrameRecvPacket \<and> length data < KEY_LEN) \<or>
     (cmd = FramePeerGone \<and> length data \<le> KEY_LEN)"
proof (cases cmd)
  case FrameServerInfo
  then show ?thesis
    by (auto simp: derp_decode_frame_def derp_decrypt_data_def slice_def split: option.splits result.splits)
qed (auto simp: derp_decode_frame_def derp_consts)

section \<open>The handshake\<close>

fun goes_on :: "derp_response + derp_error \<Rightarrow> bool" where
  "goes_on (Inl (ServerInfoR v)) = False"
| "goes_on (Inr e) = False"
| "goes_on _ = True"

fun is_server_key :: "derp_response + derp_error \<Rightarrow> bool" where
  "is_server_key (Inl (FrameServerKeyR k)) = True"
| "is_server_key _ = False"

text \<open>The handshake skips everything up to the first error or server info, answering each server key
  with one client info; an error fails it, and both a server info and the end of the stream complete it.\<close>

theorem await_handshake_outcome:
  assumes "ch_open tx"
  shows "await_handshake rs tx =
    (let infos = replicate (length (List.filter is_server_key (takeWhile goes_on rs))) (ClientInfoReq (client_info_new False));
         tx' = tx\<lparr>ch_queue := ch_queue tx @ infos\<rparr>
     in case dropWhile goes_on rs of
          [] \<Rightarrow> Ok ([], tx')
        | Inl _ # rest \<Rightarrow> Ok (rest, tx')
        | Inr _ # rest \<Rightarrow> Err HandshakeError)"
  using assms
proof (induction rs tx rule: await_handshake.induct)
  case (3 r rest tx)
  then show ?case
    by (cases r) (simp_all add: channel_send_def Let_def split: list.split sum.split)
qed (simp_all add: Let_def)

theorem await_handshake_outcome_witness:
  "await_handshake [Inl Ws, Inl (FrameServerKeyR []), Inl (ServerInfoR 2), Inl FrameKeepAliveR] \<lparr>ch_open = True, ch_queue = []\<rparr> =
     Ok ([Inl FrameKeepAliveR], \<lparr>ch_open = True, ch_queue = [ClientInfoReq (client_info_new False)]\<rparr>)"
  using await_handshake_outcome [of "\<lparr>ch_open = True, ch_queue = []\<rparr>"
      "[Inl Ws, Inl (FrameServerKeyR []), Inl (ServerInfoR 2), Inl FrameKeepAliveR]"]
  by simp

end
