(* ===== verification/Relay_Transport.thy ===== *)
theory Relay_Transport
  imports Nat_Transport Derp
begin

text \<open>
  How the daemon reaches a peer without an endpoint: the selector of each peer
  (\<open>transport/ext_transport_selector.rs\<close>) tries the transport the peer has announced, or else a relay
  (\<open>transport/proto/relay_transport.rs\<close>), to which it asks the peer, through the coordination server, to connect as
  well.  Whether sockets and relays can be reached is an argument of each turn.
\<close>

section \<open>The relay (relay_transport.rs)\<close>

definition RELAY_SERVER :: string where
  "RELAY_SERVER = ''wss://oaodev.local.hperfect.cn:11443/derp''"

datatype relay_error = RelayUnreachable

definition peer_endpoint :: "bytes \<Rightarrow> endpoint \<Rightarrow> ('n, 't) daemon \<Rightarrow> ('n, 't) daemon" where
  "peer_endpoint k ep dm =
     (case get_peer_by_key (dm_device dm) k of
        None \<Rightarrow> dm
      | Some i \<Rightarrow> dm\<lparr>dm_device := at_peer i (update_endpoint ep) (dm_device dm)\<rparr>)"

text \<open>The branch for a new relay returns before the endpoint of the peer is replaced.\<close>

definition connect_derp_server ::
    "bool \<Rightarrow> string \<Rightarrow> bytes \<Rightarrow> ('n, 't) daemon \<Rightarrow> ('n, 't) daemon \<times> (relay_error, unit) result" where
  "connect_derp_server reachable srv target dm =
     (if srv \<in> set (dm_relays dm) then (peer_endpoint target (RelayEndpoint target srv) dm, Ok ())
      else if reachable then (dm\<lparr>dm_relays := dm_relays dm @ [srv]\<rparr>, Ok ())
      else (dm, Err RelayUnreachable))"

definition relay_require_reply :: "core_lib \<Rightarrow> delivery \<Rightarrow> bool \<Rightarrow> bytes \<Rightarrow> ('n, 't) daemon \<Rightarrow> ('n, 't) daemon" where
  "relay_require_reply lib dl reachable target dm =
     (let dm = fst (connect_derp_server reachable RELAY_SERVER target dm);
          msg = \<lparr>rq_src = base64_pub lib (dm_secret dm), rq_proto = [], rq_server = RELAY_SERVER\<rparr>
      in dm\<lparr>dm_conn := fst (forward_to dl (encode_base64 lib target) msg (dm_conn dm) ::
               _ \<times> (unit client_error, u64) result)\<rparr>)"

text \<open>The task that waits for such requests of other peers; a source that is no key panics it.\<close>

definition relay_recv ::
    "core_lib \<Rightarrow> bool \<Rightarrow> 'm to_client_data \<Rightarrow> ('n, 't) daemon \<Rightarrow> (relay_error, ('n, 't) daemon) result" where
  "relay_recv lib reachable data dm =
     (case data of
        RequireReplyTC r \<Rightarrow>
          rbind (decode_base64_key lib (rq_src r)) (\<lambda>src.
            Ok (fst (connect_derp_server reachable (rq_server r) src dm)))
      | _ \<Rightarrow> Ok dm)"

text \<open>What a relay delivers goes to the device with the way back, what is sent to such an endpoint goes to the relay.\<close>

definition relay_inbound :: "string \<Rightarrow> derp_response \<Rightarrow> (bytes \<times> endpoint) option" where
  "relay_inbound srv resp =
     (case resp of FrameRecvPacketR src data \<Rightarrow> Some (data, RelayEndpoint src srv) | _ \<Rightarrow> None)"

definition relay_send :: "bool \<Rightarrow> bytes \<Rightarrow> bytes \<Rightarrow> (relay_error, derp_request) result" where
  "relay_send open_channel dst data = (if open_channel then Ok (SendPacket dst data) else Err RelayUnreachable)"

section \<open>The selector (ext_transport_selector.rs)\<close>

record selector_io =
  si_bind :: bool
  si_connect :: "socket_addr \<Rightarrow> bool"
  si_relay :: bool
  si_delivery :: delivery

text \<open>A turn of the selector of peer \<open>k\<close>.  Offline it waits; a failing NatUdp client is unwrapped.\<close>

definition selector_turn ::
    "core_lib \<Rightarrow> selector_io \<Rightarrow> bytes \<Rightarrow> ('n, 't) daemon \<Rightarrow> (connect_error, ('n, 't) daemon) result" where
  "selector_turn lib io k dm =
     (case rw_get (dm_selectors dm) k of
        None \<Rightarrow> Ok dm
      | Some sel \<Rightarrow>
          let i = sl_peer sel; p = pl_store (dv_peers (dm_device dm)) ! i;
              use = (\<lambda>ep. dm\<lparr>dm_device := at_peer i (update_endpoint ep) (dm_device dm)\<rparr>)
          in if \<not> pr_online p \<or> pr_endpoint p \<noteq> None then Ok dm
             else case sl_transports sel of
                    [] \<Rightarrow> Ok (relay_require_reply lib (si_delivery io) (si_relay io) (pr_pub_key p) dm)
                  | t # _ \<Rightarrow>
                      if px_proto t = ''NatUdp'' then
                        (case nat_udp_client_new (si_bind io) (px_endpoint t) of
                           Ok ep \<Rightarrow> Ok (use ep) | _ \<Rightarrow> Panic)
                      else if px_proto t = ''NatTcp'' then
                        (case nat_tcp_client_spawn (si_connect io) (px_endpoint t) of
                           Ok ep \<Rightarrow> Ok (use ep) | Err e \<Rightarrow> Ok dm | Panic \<Rightarrow> Panic)
                      else Ok dm)"

section \<open>Relayed peers meet\<close>

text \<open>A peer of the device under its key.\<close>

definition has_peer :: "('n, 't) daemon \<Rightarrow> bytes \<Rightarrow> nat \<Rightarrow> bool" where
  "has_peer dm k i \<longleftrightarrow> get_peer_by_key (dm_device dm) k = Some i \<and> i < length (pl_store (dv_peers (dm_device dm))) \<and>
     pr_pub_key (pl_store (dv_peers (dm_device dm)) ! i) = k"

abbreviation peer_at :: "('n, 't) daemon \<Rightarrow> nat \<Rightarrow> peer" where
  "peer_at dm i \<equiv> pl_store (dv_peers (dm_device dm)) ! i"

lemma peer_endpoint_known:
  assumes "has_peer dm k i"
  shows "peer_endpoint k ep dm = dm\<lparr>dm_device := at_peer i (update_endpoint ep) (dm_device dm)\<rparr>"
    and "has_peer (peer_endpoint k ep dm) k i"
    and "pr_online (peer_at (peer_endpoint k ep dm) i) = pr_online (peer_at dm i)"
    and "pr_endpoint (peer_at (peer_endpoint k ep dm) i) = Some ep"
proof -
  show eq: "peer_endpoint k ep dm = dm\<lparr>dm_device := at_peer i (update_endpoint ep) (dm_device dm)\<rparr>"
    using assms by (simp add: peer_endpoint_def has_peer_def)
  show "has_peer (peer_endpoint k ep dm) k i" "pr_online (peer_at (peer_endpoint k ep dm) i) = pr_online (peer_at dm i)"
    "pr_endpoint (peer_at (peer_endpoint k ep dm) i) = Some ep"
    using assms unfolding eq
    by (simp_all add: has_peer_def at_peer_def update_endpoint_def get_peer_by_key_def get_by_key_def)
qed

lemma connect_known:
  assumes "srv \<in> set (dm_relays dm)" "has_peer dm k i"
  shows "pr_endpoint (peer_at (fst (connect_derp_server b srv k dm)) i) = Some (RelayEndpoint k srv)"
  using assms by (simp add: connect_derp_server_def peer_endpoint_known(4))

lemma connect_new:
  assumes "srv \<notin> set (dm_relays dm)"
  shows "connect_derp_server True srv k dm = (dm\<lparr>dm_relays := dm_relays dm @ [srv]\<rparr>, Ok ())"
  using assms by (simp add: connect_derp_server_def)

text \<open>One turn towards a peer that has announced no transport: the request goes out, and the endpoint is replaced exactly
  when the relay was connected before.\<close>

lemma relay_turn:
  assumes "has_peer dm k i" "rw_get (dm_selectors dm) k = Some \<lparr>sl_peer = i, sl_transports = []\<rparr>"
    and "pr_online (peer_at dm i)" "pr_endpoint (peer_at dm i) = None" "dm_conn dm = Some c" "dn_connected c"
    and "si_relay io" "si_delivery io = Written"
  obtains dm' c' where "selector_turn lib io k dm = Ok dm'" "dm_conn dm' = Some c'" "dn_connected c'"
    "dn_sent c' = dn_sent c @ [\<lparr>ts_id = dn_next c + 1, ts_data = Some (PeerForward
       \<lparr>pf_target_pub_key = encode_base64 lib k,
        pf_data = Some \<lparr>rq_src = base64_pub lib (dm_secret dm), rq_proto = [], rq_server = RELAY_SERVER\<rparr>\<rparr>)\<rparr>]"
    "RELAY_SERVER \<in> set (dm_relays dm')" "dm_selectors dm' = dm_selectors dm" "dm_secret dm' = dm_secret dm"
    "has_peer dm' k i" "pr_online (peer_at dm' i)"
    "pr_endpoint (peer_at dm' i) = (if RELAY_SERVER \<in> set (dm_relays dm) then Some (RelayEndpoint k RELAY_SERVER) else None)"
proof -
  let ?dm = "fst (connect_derp_server True RELAY_SERVER k dm)"
  have fields: "dm_conn ?dm = Some c" "dm_selectors ?dm = dm_selectors dm" "dm_secret ?dm = dm_secret dm"
    "RELAY_SERVER \<in> set (dm_relays ?dm)" "has_peer ?dm k i" "pr_online (peer_at ?dm i)"
    "pr_endpoint (peer_at ?dm i) = (if RELAY_SERVER \<in> set (dm_relays dm) then Some (RelayEndpoint k RELAY_SERVER) else None)"
    using assms(1-5) peer_endpoint_known [OF assms(1), of "RelayEndpoint k RELAY_SERVER"]
    by (simp_all add: connect_derp_server_def) (simp_all add: has_peer_def)
  have "selector_turn lib io k dm = Ok (relay_require_reply lib Written True k dm)"
    using assms by (simp add: selector_turn_def Let_def has_peer_def)
  then show ?thesis
    using fields assms(6)
    by (intro that [of "relay_require_reply lib Written True k dm" "c\<lparr>dn_next := dn_next c + 1, dn_sent := dn_sent c @
        [\<lparr>ts_id = dn_next c + 1, ts_data = Some (PeerForward \<lparr>pf_target_pub_key = encode_base64 lib k,
           pf_data = Some \<lparr>rq_src = base64_pub lib (dm_secret dm), rq_proto = [], rq_server = RELAY_SERVER\<rparr>\<rparr>)\<rparr>]\<rparr>"])
      (simp_all add: relay_require_reply_def Let_def forward_to_def daemon_send_def get_conn_def conn_send_def
        to_server_turn_def has_peer_def)
qed

text \<open>C25: Two peers without endpoints meet at the relay.  When a peer is online but has no endpoint and has announced no
  transport, two turns of its selector, with relay and server in reach, leave it with the relay as
  endpoint, and the two requests they send, taken by the peer's daemon, give it the relay as endpoint for the asking daemon in
  turn.  The first turn alone does not: it connects the relay without replacing the endpoint.\<close>

theorem relay_connects_both:
  assumes laws: "core_laws lib"
    and a: "has_peer a kb i" "rw_get (dm_selectors a) kb = Some \<lparr>sl_peer = i, sl_transports = []\<rparr>"
      "pr_online (peer_at a i)" "pr_endpoint (peer_at a i) = None" "RELAY_SERVER \<notin> set (dm_relays a)"
      "dm_conn a = Some c" "dn_connected c" "dm_secret a = s" "vs_public_key s = ka" "length ka = 32"
    and io: "si_relay io" "si_delivery io = Written"
    and b: "has_peer b ka j" "RELAY_SERVER \<notin> set (dm_relays b)"
  shows "\<exists>a1 a2 c2 r. selector_turn lib io kb a = Ok a1 \<and> selector_turn lib io kb a1 = Ok a2
    \<and> pr_endpoint (peer_at a1 i) = None \<and> pr_endpoint (peer_at a2 i) = Some (RelayEndpoint kb RELAY_SERVER)
    \<and> dm_conn a2 = Some c2 \<and> map ts_data (drop (length (dn_sent c)) (dn_sent c2)) =
        replicate 2 (Some (PeerForward \<lparr>pf_target_pub_key = encode_base64 lib kb, pf_data = Some r\<rparr>))
    \<and> (\<exists>b1 b2. relay_recv lib True (RequireReplyTC r :: unit to_client_data) b = Ok b1
        \<and> relay_recv lib True (RequireReplyTC r :: unit to_client_data) b1 = Ok b2
        \<and> pr_endpoint (peer_at b2 j) = Some (RelayEndpoint ka RELAY_SERVER))"
proof -
  let ?r = "\<lparr>rq_src = base64_pub lib s, rq_proto = [], rq_server = RELAY_SERVER\<rparr>"
  obtain a1 c1 where t1: "selector_turn lib io kb a = Ok a1" "dm_conn a1 = Some c1" "dn_connected c1"
    "dn_sent c1 = dn_sent c @ [\<lparr>ts_id = dn_next c + 1, ts_data = Some (PeerForward
       \<lparr>pf_target_pub_key = encode_base64 lib kb, pf_data = Some ?r\<rparr>)\<rparr>]"
    "RELAY_SERVER \<in> set (dm_relays a1)" "dm_selectors a1 = dm_selectors a" "dm_secret a1 = s"
    "has_peer a1 kb i" "pr_online (peer_at a1 i)" "pr_endpoint (peer_at a1 i) = None"
    by (rule relay_turn [OF a(1-4,6,7) io, of lib]) (use a(5,8) in simp_all)
  obtain a2 c2 where t2: "selector_turn lib io kb a1 = Ok a2" "dm_conn a2 = Some c2"
    "dn_sent c2 = dn_sent c1 @ [\<lparr>ts_id = dn_next c1 + 1, ts_data = Some (PeerForward
       \<lparr>pf_target_pub_key = encode_base64 lib kb, pf_data = Some ?r\<rparr>)\<rparr>]"
    "pr_endpoint (peer_at a2 i) = Some (RelayEndpoint kb RELAY_SERVER)"
    by (rule relay_turn [OF t1(8) _ t1(9,10,2,3) io, of lib]) (use a(2) t1(5-7) in simp_all)
  have key: "decode_base64_key lib (rq_src ?r) = (Ok ka :: (relay_error, bytes) result)"
    using laws a(9,10) by (simp add: decode_base64_key_def base64_pub_def try_into_key_def)
  let ?b1 = "b\<lparr>dm_relays := dm_relays b @ [RELAY_SERVER]\<rparr>"
  have b1: "relay_recv lib True (RequireReplyTC ?r :: unit to_client_data) b = Ok ?b1"
    using key b(2) by (simp add: relay_recv_def connect_new)
  have "has_peer ?b1 ka j" using b(1) by (simp add: has_peer_def)
  moreover have "relay_recv lib True (RequireReplyTC ?r :: unit to_client_data) ?b1 =
      Ok (fst (connect_derp_server True RELAY_SERVER ka ?b1))"
    using key by (simp add: relay_recv_def)
  ultimately show ?thesis
    using t1(1,4,10) t2 b1 connect_known [of RELAY_SERVER ?b1 ka j True] by (auto simp: numeral_2_eq_2)
qed

section \<open>Announced transports are used\<close>

text \<open>C26: The public address of a daemon is the endpoint its peers use.  The daemon asks a STUN server over UDP, its
  transport announces what it learns, and the text is passed on as a transport of that peer.  At a daemon where the peer is online and has no
  endpoint, the turn of its selector sets the endpoint to an address that was in an answer of the server, with the protocol.\<close>

theorem announced_endpoint_used:
  assumes "stun_connect gw alive sk lp reach msgs s = (addrs, s', e)"
    and "\<forall>ip port. XorMappedAddress (V4 ip port) \<in> set (concat msgs) \<longrightarrow> length ip = 4"
    and "nat_udp_start sks addrs f = (evs, fwd, r)" "ExtraEndpointSuccess proto text \<in> set evs"
    and "has_peer dm k i" "pr_online (peer_at dm i)" "pr_endpoint (peer_at dm i) = None" "si_bind io"
    and "rw_get (dm_selectors dm) k = Some \<lparr>sl_peer = i, sl_transports =
      \<lparr>px_target_pub_key = t, px_proto = proto, px_endpoint = text, px_index = n\<rparr> # ts\<rparr>"
  shows "\<exists>ip port dm'. XorMappedAddress (V4 ip port) \<in> set (concat msgs) \<and> selector_turn lib io k dm = Ok dm'
    \<and> pr_endpoint (peer_at dm' i) = Some (Endpoint (V4 ip port) NAT_UDP_NAME)"
proof -
  obtain ip port where ev: "(ip, port) \<in> set addrs" "proto = NAT_UDP_NAME" "text = v4_text ip port"
    using nat_start_announces [OF assms(3) [unfolded nat_udp_start_def] assms(4)] by auto
  have told: "XorMappedAddress (V4 ip port) \<in> set (concat msgs)"
    using stun_connect_addrs [of ip port gw alive sk lp reach msgs s] ev(1) assms(1) by simp
  then have "length ip = 4" using assms(2) by blast
  then have "nat_udp_client_new True text = Ok (Endpoint (V4 ip port) NAT_UDP_NAME)"
    by (simp add: nat_udp_client_new_def udp_sender_def ev(3) socket_from_v4_text)
  then show ?thesis
    using assms(5-9) told ev(2)
    by (intro exI [of _ ip] exI [of _ port])
      (simp add: selector_turn_def Let_def has_peer_def at_peer_def update_endpoint_def NAT_UDP_NAME_def)
qed

section \<open>Two concrete daemons\<close>

definition plain_node :: "u8 \<Rightarrow> u8 \<Rightarrow> peer_extra_transport list \<Rightarrow> (list_net, (list_net \<times> nat) list) daemon" where
  "plain_node me you ts = plain_daemon\<lparr>dm_secret := secret_of plain_core (replicate 32 me),
     dm_device := device_new list_netlib plain_env 7 (plain_config (replicate 32 me))
       [(plain_peer_config (replicate 32 you))\<lparr>pc_is_online := True\<rparr>],
     dm_selectors := [(replicate 32 you, \<lparr>sl_peer = 0, sl_transports = ts\<rparr>)]\<rparr>"

definition plain_io :: selector_io where
  "plain_io = \<lparr>si_bind = True, si_connect = (\<lambda>_. True), si_relay = True, si_delivery = Written\<rparr>"

lemma plain_node_peer:
  "has_peer (plain_node me you ts) (replicate 32 you) 0"
  "pr_online (peer_at (plain_node me you ts) 0)" "pr_endpoint (peer_at (plain_node me you ts) 0) = None"
  by (simp_all add: has_peer_def plain_node_def get_peer_by_key_def get_by_key_def device_new_def reset_peers_def list_clear_def
      insert_peer_def list_insert_def plain_peer_config_def with_peer_def peer_secret_new_def peer_list_new_def Let_def
      peer_new_def)

theorem relay_connects_both_witness:
  "\<exists>a1 a2. selector_turn plain_core plain_io (replicate 32 2) (plain_node 1 2 []) = Ok a1
    \<and> selector_turn plain_core plain_io (replicate 32 2) a1 = Ok a2
    \<and> pr_endpoint (peer_at a2 0) = Some (RelayEndpoint (replicate 32 2) RELAY_SERVER)"
proof -
  note prem = plain_node_peer [of 1 2 "[]"] plain_node_peer(1) [of 2 1 "[]"]
  have a: "rw_get (dm_selectors (plain_node 1 2 [])) (replicate 32 2) = Some \<lparr>sl_peer = 0, sl_transports = []\<rparr>"
    "RELAY_SERVER \<notin> set (dm_relays (plain_node 1 2 []))" "dm_conn (plain_node 1 2 []) = Some conn_new"
    "vs_public_key (dm_secret (plain_node 1 2 [])) = replicate 32 1" "RELAY_SERVER \<notin> set (dm_relays (plain_node 2 1 []))"
    by (simp_all add: plain_node_def plain_daemon_def rw_get_def secret_of_def plain_core_def)
  show ?thesis
    using relay_connects_both [OF plain_core_laws prem(1) a(1) prem(2,3) a(2,3) _ refl a(4), of plain_io "plain_node 2 1 []" 0]
      prem(4) a(5) by (auto simp: plain_io_def conn_new_def)
qed

definition plain_gateway :: gateway where
  "plain_gateway = \<lparr>gw_local = Some (Ipv4 [127, 0, 0, 1]), gw_add = (\<lambda>_. Added), gw_remove = True\<rparr>"

theorem announced_endpoint_used_witness:
  "\<exists>dm'. selector_turn plain_core plain_io (replicate 32 2) (plain_node 1 2
      [\<lparr>px_target_pub_key = [], px_proto = NAT_UDP_NAME, px_endpoint = v4_text [0, 0, 0, 9] 7, px_index = 0\<rparr>]) = Ok dm'
    \<and> pr_endpoint (peer_at dm' 0) = Some (Endpoint (V4 [0, 0, 0, 9] 7) NAT_UDP_NAME)"
proof -
  let ?ev = "ExtraEndpointSuccess NAT_UDP_NAME (v4_text [0, 0, 0, 9] 7)" and ?a = "([0, 0, 0, 9], 7)"
  let ?msgs = "[[XorMappedAddress (V4 [0, 0, 0, 9] 7)]]"
  obtain s' e where sc: "stun_connect (\<lambda>_. plain_gateway) True SockOpen 7 True ?msgs (nat_service_new [] 7 MapUDP) = ([?a, ?a], s', e)"
    by (simp add: stun_connect_def make_socket_def nat_service_new_def Let_def split_beta)
  have ips: "\<forall>ip port. XorMappedAddress (V4 ip port) \<in> set (concat ?msgs) \<longrightarrow> length ip = 4" by simp
  obtain fwd r where st: "nat_udp_start (\<lambda>_. SockOpen) [?a, ?a] None = ([?ev, ?ev], fwd, r)"
    by (simp add: nat_udp_start_def make_socket_def)
  show ?thesis
    using announced_endpoint_used [OF sc ips st _ plain_node_peer, of NAT_UDP_NAME "v4_text [0, 0, 0, 9] 7" plain_io]
    by (simp add: plain_io_def plain_node_def rw_get_def)
qed

end
