(* ===== verification/Snowflake.thy ===== *)
theory Snowflake
  imports Prelude
begin

unbundle bit_operations_syntax

text \<open>
  Identifiers of database rows (\<open>headlink/src/db/snowflake.rs\<close>): the two layouts, as the functions the crate
  \<open>snowdon\<close> calls.  The generator of that crate, which picks timestamp and sequence number, is not part
  of the model.
\<close>

definition machine_id :: u64 where
  "machine_id = 0"

section \<open>The layout in use\<close>

definition my_exceeds_timestamp :: "u64 \<Rightarrow> bool" where
  "my_exceeds_timestamp input = (input \<ge> push_bit 42 1)"

definition my_exceeds_sequence_number :: "u64 \<Rightarrow> bool" where
  "my_exceeds_sequence_number input = (input \<ge> push_bit 9 1)"

definition my_construct_snowflake :: "u64 \<Rightarrow> u64 \<Rightarrow> ('e, u64) result" where
  "my_construct_snowflake ts seq =
     (if my_exceeds_timestamp ts \<or> my_exceeds_sequence_number seq then Panic
      else Ok (push_bit 14 ts OR push_bit 13 machine_id OR seq))"

definition my_timestamp :: "u64 \<Rightarrow> u64" where
  "my_timestamp input = drop_bit 14 input"

definition my_sequence_number :: "u64 \<Rightarrow> u64" where
  "my_sequence_number input = input AND (push_bit 9 1 - 1)"

definition my_is_valid_snowflake :: "u64 \<Rightarrow> bool" where
  "my_is_valid_snowflake input = True"

definition my_millis_since_unix :: u64 where
  "my_millis_since_unix = 1577836800000"

text \<open>The number handed to the database is the identifier read as a signed number.\<close>

definition next_id :: "u64 \<Rightarrow> int" where
  "next_id w = sint w"

section \<open>The usual layout\<close>

definition normal_exceeds_timestamp :: "u64 \<Rightarrow> bool" where
  "normal_exceeds_timestamp input = (input \<ge> push_bit 42 1)"

definition normal_exceeds_sequence_number :: "u64 \<Rightarrow> bool" where
  "normal_exceeds_sequence_number input = (input \<ge> push_bit 12 1)"

definition normal_construct_snowflake :: "u64 \<Rightarrow> u64 \<Rightarrow> ('e, u64) result" where
  "normal_construct_snowflake ts seq =
     (if normal_exceeds_timestamp ts \<or> normal_exceeds_sequence_number seq then Panic
      else Ok (push_bit 22 ts OR push_bit 12 machine_id OR seq))"

definition normal_timestamp :: "u64 \<Rightarrow> u64" where
  "normal_timestamp input = drop_bit 22 input"

definition normal_sequence_number :: "u64 \<Rightarrow> u64" where
  "normal_sequence_number input = input AND (push_bit 12 1 - 1)"

definition normal_is_valid_snowflake :: "u64 \<Rightarrow> bool" where
  "normal_is_valid_snowflake input = True"

section \<open>Fields of a layout\<close>

text \<open>A layout with a sequence number below a gap and a timestamp above it: its arithmetic once, for both.\<close>

locale snowflake_layout =
  fixes tbits gap sbits :: nat
  assumes sizes: "sbits \<le> gap" "tbits + gap \<le> 64"
begin

definition pack :: "u64 \<Rightarrow> u64 \<Rightarrow> u64" where
  "pack ts seq = push_bit gap ts OR push_bit sbits 0 OR seq"

lemma unat_pack:
  assumes "unat ts < 2 ^ tbits" "unat seq < 2 ^ sbits"
  shows "unat (pack ts seq) = unat ts * 2 ^ gap + unat seq"
proof -
  have s: "unat seq < 2 ^ gap" using assms(2) sizes(1) by (meson less_le_trans one_le_numeral power_increasing)
  have "unat ts * 2 ^ gap < 2 ^ tbits * 2 ^ gap" using assms(1) by simp
  also have "\<dots> \<le> 2 ^ 64" using power_increasing [OF sizes(2), of "2 :: nat"] by (simp add: power_add)
  finally have t: "unat ts * 2 ^ gap < 2 ^ 64" .
  have p: "unat (push_bit gap ts) = push_bit gap (unat ts)"
    using t unfolding unsigned_push_bit_eq take_bit_eq_mod push_bit_eq_mult [where ?'a = nat] by simp
  have "pack ts seq = push_bit gap ts OR seq" by (simp add: pack_def)
  then have "unat (pack ts seq) = push_bit gap (unat ts) OR unat seq" using p by (simp add: unsigned_or_eq)
  also have "\<dots> = push_bit gap (unat ts) + unat seq"
  proof (rule disjunctive_add_eq_or [symmetric])
    show "push_bit gap (unat ts) AND unat seq = 0"
    proof (rule bit_eqI)
      fix n
      have "\<not> bit (unat seq) n" if "gap \<le> n"
      proof -
        have "unat seq < 2 ^ n" using s that by (meson less_le_trans one_le_numeral power_increasing)
        then show ?thesis by (simp add: bit_iff_odd)
      qed
      then show "bit (push_bit gap (unat ts) AND unat seq) n = bit 0 n" by (auto simp: bit_simps)
    qed
  qed
  finally show ?thesis by (simp add: push_bit_eq_mult)
qed

lemma pack_fields:
  assumes "unat ts < 2 ^ tbits" "unat seq < 2 ^ sbits"
  shows "drop_bit gap (pack ts seq) = ts" "pack ts seq AND (push_bit sbits 1 - 1) = seq"
    "unat (pack ts seq) < 2 ^ (tbits + gap)"
proof -
  have s: "unat seq < 2 ^ gap" using assms(2) sizes(1) by (meson less_le_trans one_le_numeral power_increasing)
  note u = unat_pack [OF assms]
  show "drop_bit gap (pack ts seq) = ts"
    unfolding word_unat_eq_iff unsigned_drop_bit_eq drop_bit_eq_div [where ?'a = nat]
    using u s unsigned_less [of "pack ts seq", where ?'a = nat] by (simp add: take_bit_eq_mod)
  have "pack ts seq AND mask sbits = seq"
    unfolding word_unat_eq_iff
  proof -
    have "2 ^ gap = (2 ^ sbits * 2 ^ (gap - sbits) :: nat)" using sizes(1) by (simp flip: power_add)
    then have "unat ts * 2 ^ gap = 2 ^ sbits * (unat ts * 2 ^ (gap - sbits))" by simp
    then have "(unat ts * 2 ^ gap + unat seq) mod 2 ^ sbits = unat seq"
      using assms(2) by (simp only: mod_mult_self4 mod_less)
    then show "unat (pack ts seq AND mask sbits) = unat seq"
      unfolding take_bit_eq_mask [symmetric] unsigned_take_bit_eq take_bit_eq_mod [where ?'a = nat] u .
  qed
  then show "pack ts seq AND (push_bit sbits 1 - 1) = seq" by (simp add: mask_eq_exp_minus_1 push_bit_eq_mult)
  have "unat (pack ts seq) < (unat ts + 1) * 2 ^ gap" using u s by simp
  also have "\<dots> \<le> 2 ^ tbits * 2 ^ gap" using assms(1) by (intro mult_le_mono) simp_all
  finally show "unat (pack ts seq) < 2 ^ (tbits + gap)" by (simp add: power_add)
qed

lemma pack_less:
  assumes "unat ts < 2 ^ tbits" "unat seq < 2 ^ sbits" "unat ts' < 2 ^ tbits" "unat seq' < 2 ^ sbits"
  shows "pack ts seq < pack ts' seq' \<longleftrightarrow> ts < ts' \<or> (ts = ts' \<and> seq < seq')"
proof -
  have s: "unat seq < 2 ^ gap" "unat seq' < 2 ^ gap"
    using assms(2,4) sizes(1) by (meson less_le_trans one_le_numeral power_increasing)+
  have less: "a * 2 ^ gap + b < c * 2 ^ gap + d" if "a < c" "b < 2 ^ gap" for a b c d :: nat
  proof -
    have "a * 2 ^ gap + b < (a + 1) * 2 ^ gap" using that(2) by simp
    also have "\<dots> \<le> c * 2 ^ gap" using that(1) by (intro mult_le_mono1) simp
    finally show ?thesis by simp
  qed
  have "unat (pack ts seq) < unat (pack ts' seq') \<longleftrightarrow>
      unat ts < unat ts' \<or> (unat ts = unat ts' \<and> unat seq < unat seq')"
    unfolding unat_pack [OF assms(1,2)] unat_pack [OF assms(3,4)]
    using less [of "unat ts" "unat ts'" "unat seq" "unat seq'"] less [of "unat ts'" "unat ts" "unat seq'" "unat seq"] s
    by (cases "unat ts" "unat ts'" rule: linorder_cases) auto
  then show ?thesis by (simp add: word_less_nat_alt word_unat_eq_iff)
qed

end

interpretation my: snowflake_layout 42 14 9
  by unfold_locales simp_all

interpretation normal: snowflake_layout 42 22 12
  by unfold_locales simp_all

lemma my_construct_cases:
  assumes "my_construct_snowflake ts seq = Ok w"
  shows "unat ts < 2 ^ 42" "unat seq < 2 ^ 9" "w = my.pack ts seq"
  using assms
  by (auto simp: my_construct_snowflake_def my_exceeds_timestamp_def my_exceeds_sequence_number_def my.pack_def
      machine_id_def word_le_nat_alt not_le split: if_splits)

lemma normal_construct_cases:
  assumes "normal_construct_snowflake ts seq = Ok w"
  shows "unat ts < 2 ^ 42" "unat seq < 2 ^ 12" "w = normal.pack ts seq"
  using assms
  by (auto simp: normal_construct_snowflake_def normal_exceeds_timestamp_def normal_exceeds_sequence_number_def
      normal.pack_def machine_id_def word_le_nat_alt not_le split: if_splits)

text \<open>Identifiers keep their parts and their order.  From an identifier of the layout in use, timestamp and
  sequence number are read back; it is a positive number of the database, below 2 to the 56 (the
  comment of the layout asks for 53 bits), and identifiers order as timestamps do, then sequence numbers.\<close>

theorem snowflake_fields_ordered:
  assumes "my_construct_snowflake ts seq = (Ok w :: (unit, u64) result)"
    and "my_construct_snowflake ts' seq' = (Ok w' :: (unit, u64) result)"
  shows "my_timestamp w = ts \<and> my_sequence_number w = seq \<and> 0 \<le> next_id w \<and> next_id w < 2 ^ 56
    \<and> (next_id w < next_id w' \<longleftrightarrow> ts < ts' \<or> (ts = ts' \<and> seq < seq'))"
proof -
  note a = my_construct_cases [OF assms(1)] and b = my_construct_cases [OF assms(2)]
  note fa = my.pack_fields [OF a(1,2)] and fb = my.pack_fields [OF b(1,2)]
  have id: "next_id v = int (unat v) \<and> 0 \<le> next_id v \<and> next_id v < 2 ^ 56" if "unat v < 2 ^ 56" for v :: u64
  proof -
    have "int (unat v) < int (2 ^ 56)" using that by (simp only: of_nat_less_iff)
    then have v: "uint v < 2 ^ 56" by simp
    have "signed_take_bit 63 (uint v) = uint v" 
      by (rule signed_take_bit_int_eq_self, rule order_trans [OF _ unsigned_greater_eq]) (use v in simp_all)
    then show ?thesis using v by (simp add: next_id_def sint_uint)
  qed
  have "next_id w = int (unat w) \<and> 0 \<le> next_id w \<and> next_id w < 2 ^ 56" "next_id w' = int (unat w')"
    using id [of w] id [of w'] fa(3) fb(3) unfolding a(3) b(3) by simp_all
  moreover have "unat w < unat w' \<longleftrightarrow> ts < ts' \<or> (ts = ts' \<and> seq < seq')"
    using my.pack_less [OF a(1,2) b(1,2)] a(3) b(3) by (simp add: word_less_nat_alt)
  moreover have "my_timestamp w = ts \<and> my_sequence_number w = seq"
    using fa(1,2) a(3) by (simp add: my_timestamp_def my_sequence_number_def)
  ultimately show ?thesis by (metis of_nat_less_iff)
qed

theorem snowflake_fields_ordered_witness:
  "my_construct_snowflake 5 3 = (Ok 81923 :: (unit, u64) result) \<and> my_timestamp 81923 = 5 \<and> next_id 81923 < 2 ^ 56"
proof -
  have "my_construct_snowflake 5 3 = (Ok 81923 :: (unit, u64) result)" by code_simp
  from snowflake_fields_ordered [OF this this] this show ?thesis by simp
qed

end
