(* ===== verification/Peer_Steps.thy ===== *)
theory Peer_Steps
  imports Peer
begin

text \<open>
  What a turn of a peer's loops does to the peer and to the state it shares with the others: it returns
  (with one exception, a response its socket refuses), keeps the peer's session slots and the session
  index in step, leaves the sessions of other peers alone, and writes at most one packet to the tunnel, an
  authentic one whose counter was not admitted before.  The rules \<open>yields_bind\<close>, \<open>yields_then\<close> and
  \<open>yields_unwrap\<close> carry these facts through the handlers of \<open>peer/inbound.rs\<close> and \<open>peer/handler.rs\<close>.
\<close>

section \<open>Operations that return\<close>

text \<open>\<open>yields m P\<close>: the operation returns normally, with a value that satisfies \<open>P\<close>.\<close>

definition yields :: "('e, 'a) result \<Rightarrow> ('a \<Rightarrow> bool) \<Rightarrow> bool" where
  "yields m P \<longleftrightarrow> (\<exists>x. m = Ok x \<and> P x)"

lemma yields_Ok [simp]: "yields (Ok x) P \<longleftrightarrow> P x"
  by (simp add: yields_def)

lemma yields_bind: "yields m Q \<Longrightarrow> (\<And>x. m = Ok x \<Longrightarrow> Q x \<Longrightarrow> yields (f x) P) \<Longrightarrow> yields (rbind m f) P"
  by (auto simp: yields_def)

lemma yields_then: "yields m (\<lambda>_. True) \<Longrightarrow> (\<And>x. yields (f x) P) \<Longrightarrow> yields (rbind m f) P"
  by (auto simp: yields_def)

lemma yields_unwrap: "yields m P \<Longrightarrow> yields (unwrap m) P"
  by (auto simp: yields_def)

lemma yields_mono: "yields m P \<Longrightarrow> (\<And>x. P x \<Longrightarrow> Q x) \<Longrightarrow> yields m Q"
  by (auto simp: yields_def)

lemma yieldsE: "yields m P \<Longrightarrow> (\<And>x. m = Ok x \<Longrightarrow> P x \<Longrightarrow> thesis) \<Longrightarrow> thesis"
  by (auto simp: yields_def)

section \<open>Handshake messages can always be built\<close>

lemma aead_encrypt_yields:
  assumes "crypto_laws cr" "length key = 32" "length m < 2 ^ 32"
  shows "yields (aead_encrypt cr key c m a) (\<lambda>_. True)"
  using aead_roundtrip [OF assms] by (metis yields_def)

lemma generate_macs_yield:
  assumes "crypto_laws cr" "macs_for cr pub g"
  shows "yields (generate_mac1 cr g m :: ('e, bytes) result) (\<lambda>_. True)"
    "yields (generate_mac2 cr now g m :: ('e, bytes) result) (\<lambda>_. True)"
  using generate_mac1_Ok [OF assms, of m, where ?'e = 'e and ?'f = 'e] generate_mac2_Ok [OF assms, of now m, where ?'e = 'e]
  by (metis yields_def)+

lemma outgoing_initiation_yields:
  assumes "crypto_laws cr" "macs_for cr pub g" "length (ls_public (ps_local s)) < 2 ^ 32" "length ts < 2 ^ 32"
  shows "yields (outgoing_initiation_new cr rand ts now idx s g) (\<lambda>(st, payload). oi_index st = idx)"
  unfolding outgoing_initiation_new_def Let_def split_beta
  by (intro yields_then yields_unwrap aead_encrypt_yields generate_macs_yield)
    (use assms in \<open>simp_all add: crypto_lengths\<close>)

lemma outgoing_response_yields:
  assumes "crypto_laws cr" "macs_for cr pub g"
  shows "yields (outgoing_response_new cr rand now inc idx s g) (\<lambda>_. True)"
  unfolding outgoing_response_new_def Let_def split_beta
  by (intro yields_then yields_unwrap aead_encrypt_yields generate_macs_yield)
    (use assms in \<open>simp_all add: crypto_lengths\<close>)

text \<open>A session the handshake makes: it belongs to the peer, has the given index and a cell of its own.\<close>

definition new_session :: "bytes \<Rightarrow> u32 \<Rightarrow> cells \<Rightarrow> session \<Rightarrow> cells \<Rightarrow> bool" where
  "new_session k i h s h' \<longleftrightarrow> session_key s = k \<and> ss_sender_index s = i \<and> ss_cell s = length h \<and> h' = h @ [fresh_cell]"

lemma session_new_yields:
  assumes "length sk = 32" "length rk = 32"
  shows "yields (session_new now sec i sk r rk h) (\<lambda>(s, h'). new_session (ps_public sec) i h s h')"
  by (simp add: session_new_Ok [OF assms] new_session_def session_key_def)

lemma initiate_yields:
  assumes "crypto_laws cr" "macs_for cr pub (hs_macs hs)" "length (ls_public (ps_local (hs_secret hs))) < 2 ^ 32"
    and "length ts < 2 ^ 32"
  shows "yields (initiate cr rand ts now hs t h) (\<lambda>((pre, packet), hs', t', h').
    new_session (ps_public (hs_secret hs)) (si_index t) h pre h' \<and> hs_secret hs' = hs_secret hs \<and>
    hs_macs hs' = hs_macs hs \<and> t' = snd (next_index t))"
  unfolding initiate_def Let_def next_index_fst prod.case
  by (rule yields_bind [OF outgoing_initiation_yields [OF assms]], clarsimp, rule yields_bind [OF session_new_yields])
    auto

lemma respond_yields:
  assumes "crypto_laws cr" "macs_for cr pub (hs_macs hs)"
  shows "yields (respond cr rand now inc hs t h) (\<lambda>((s, packet), t', h').
    new_session (ps_public (hs_secret hs)) (si_index t) h s h' \<and> t' = snd (next_index t))"
  unfolding respond_def Let_def next_index_fst split_beta prod.sel
  by (rule yields_then [OF outgoing_response_yields [OF assms]], rule yields_bind [OF session_new_yields])
    (auto simp: crypto_lengths [OF assms(1)])

lemma finalize_cases:
  assumes "crypto_laws cr"
  obtains e where "finalize cr now packet hs h = Err e"
  | s h' i where "finalize cr now packet hs h = Ok (s, h')" "new_session (ps_public (hs_secret hs)) i h s h'"
proof (cases "hs_state hs")
  case (Initiation oi)
  show ?thesis
  proof (cases "incoming_response_parse cr oi (hs_secret hs) packet")
    case (Ok st)
    have "yields (finalize cr now packet hs h) (\<lambda>(s, h'). new_session (ps_public (hs_secret hs)) (oi_index oi) h s h')"
      using session_new_yields [OF crypto_lengths(5) [OF assms, of "ir_chaining_key st" "[]"]
          crypto_lengths(6) [OF assms, of "ir_chaining_key st" "[]"]]
      by (simp add: finalize_def Initiation Ok Let_def split_beta)
    then show ?thesis using that(2) by (auto simp: yields_def)
  next
    case (Err e)
    then show ?thesis using that(1) by (simp add: finalize_def Initiation)
  qed (use incoming_no_panic(2) [OF assms] in blast)
qed (use that(1) in \<open>simp add: finalize_def\<close>)

section \<open>What slot operations do to the index\<close>

lemma index_insert_elems: "index_elems (index_insert s t) \<subseteq> insert s (index_elems t)"
  by (auto simp: index_elems_def index_insert_def Let_def split: if_splits)

lemma index_remove_elems: "index_remove s t = Ok (x, t') \<Longrightarrow> index_elems t' \<subseteq> index_elems t"
  by (auto simp: index_elems_def index_remove_def split: option.splits if_splits)

lemma index_kept [simp]: "si_index (index_insert s t) = si_index t"
  by (simp add: index_insert_def Let_def)

lemma index_remove_kept: "index_remove s t = Ok (x, t') \<Longrightarrow> si_index t' = si_index t"
  by (auto simp: index_remove_def split: option.splits)

text \<open>\<open>index_grows s t t'\<close>: the next index to draw is the same, and the only session added is \<open>s\<close>.\<close>

definition index_grows :: "session \<Rightarrow> session_index \<Rightarrow> session_index \<Rightarrow> bool" where
  "index_grows s t t' \<longleftrightarrow> si_index t' = si_index t \<and> index_elems t' \<subseteq> insert s (index_elems t)"

lemma deactivate_opt_grows: "deactivate_opt x (a, t) = Ok (a', t') \<Longrightarrow> index_grows s t t'"
  by (cases x) (auto simp: deactivate_opt_def deactivate_def index_grows_def result_simps
      dest: index_remove_elems index_remove_kept)

lemma activate_grows: "index_grows s t t' \<Longrightarrow> index_grows s t (index_insert s t')"
  using index_insert_elems [of s t'] by (auto simp: index_grows_def)

lemma index_grows_refl: "index_grows s t t"
  by (auto simp: index_grows_def)

lemma index_grows_trans: "index_grows s t t' \<Longrightarrow> index_grows s t' t'' \<Longrightarrow> index_grows s t t''"
  by (auto simp: index_grows_def)

lemma slot_step_grows:
  "slot_step op (a, t) = (Ok (a', t') :: ('e, slots) result) \<Longrightarrow> index_grows (op_session op) t t'"
  by (cases op)
    (auto simp: prepare_uninit_def prepare_next_def complete_uninit_def complete_next_def deactivate_uninit_def
      deactivate_previous_def deactivate_next_def activate_def result_simps index_grows_refl split: option.splits if_splits prod.splits
      intro!: activate_grows intro: index_grows_trans deactivate_opt_grows)

text \<open>Indices are drawn in turn from a random start: after \<open>m\<close> draws every session in the index has one of them.\<close>

definition drawn :: "u32 \<Rightarrow> nat \<Rightarrow> session_index \<Rightarrow> bool" where
  "drawn rnd m t \<longleftrightarrow> si_index t = rnd + of_nat m \<and>
     (\<forall>s \<in> index_elems t. \<exists>j < m. ss_sender_index s = rnd + of_nat j)"

lemma drawn_fresh:
  assumes "drawn rnd m t" "index_inv t" "m < 2 ^ 32"
  shows "get_by_index t (si_index t) = None"
proof (rule ccontr)
  assume "get_by_index t (si_index t) \<noteq> None"
  then obtain s where s: "get_by_index t (si_index t) = Some s" by blast
  then have "s \<in> index_elems t" "ss_sender_index s = si_index t"
    using index_elems_iff [OF assms(2)] by auto
  then obtain j where "j < m" "(of_nat j :: u32) = of_nat m" using assms(1) by (auto simp: drawn_def)
  then show False using assms(3) of_nat_inverse [of m "of_nat j :: u32"] of_nat_inverse [of j "of_nat j :: u32"] by simp
qed

lemma drawn_next: "drawn rnd m t \<Longrightarrow> drawn rnd (Suc m) (snd (next_index t))"
  by (auto simp: drawn_def next_index_def index_elems_def less_Suc_eq)

lemma drawn_grows:
  assumes "drawn rnd m t" "index_grows s t t'" "\<exists>j < m. ss_sender_index s = rnd + of_nat j"
  shows "drawn rnd m t'"
  using assms by (auto simp: drawn_def index_grows_def)

text \<open>What the index must satisfy beside the slots of the peers: its indices are drawn, and its sessions have cells.\<close>

definition index_ok :: "u32 \<Rightarrow> nat \<Rightarrow> nat \<Rightarrow> session_index \<Rightarrow> bool" where
  "index_ok rnd m cells t \<longleftrightarrow> drawn rnd m t \<and> (\<forall>s \<in> index_elems t. ss_cell s < cells)"

text \<open>Sessions of other peers are not touched.\<close>

definition others_kept :: "bytes \<Rightarrow> session_index \<Rightarrow> session_index \<Rightarrow> bool" where
  "others_kept k t t' \<longleftrightarrow> (\<forall>s. session_key s \<noteq> k \<longrightarrow> (s \<in> index_elems t' \<longleftrightarrow> s \<in> index_elems t))"

lemma others_kept_slots: "others_kept k t t' \<Longrightarrow> index_inv t' \<Longrightarrow> k' \<noteq> k \<Longrightarrow> slots_inv k' (a, t) \<Longrightarrow> slots_inv k' (a, t')"
  by (auto simp: others_kept_def slots_inv_def)

definition slots_post :: "bytes \<Rightarrow> u32 \<Rightarrow> nat \<Rightarrow> nat \<Rightarrow> session_index \<Rightarrow> slots \<Rightarrow> bool" where
  "slots_post k rnd m cells t st \<longleftrightarrow> slots_inv k st \<and> index_ok rnd m cells (snd st) \<and> others_kept k t (snd st)"

lemma slot_step_yields:
  assumes inv: "slots_inv k (a, t)" and adm: "op_admissible k t op" and ok: "index_ok rnd m cells t"
    and s: "ss_cell (op_session op) < cells" "\<exists>j < m. ss_sender_index (op_session op) = rnd + of_nat j"
  shows "yields (slot_step op (a, t) :: ('e, slots) result) (slots_post k rnd m cells t)"
proof -
  obtain a' t' where st: "slot_step op (a, t) = (Ok (a', t') :: ('e, slots) result)" "slots_inv k (a', t')"
      "others_kept k t t'"
    using slot_step_inv [OF inv adm, where ?'e = 'e] by (auto simp: others_kept_def)
  note grows = slot_step_grows [OF st(1)]
  have "index_ok rnd m cells t'"
    using ok drawn_grows [OF _ grows s(2)] grows s(1) by (auto simp: index_ok_def index_grows_def)
  then show ?thesis using st by (simp add: slots_post_def)
qed

lemma prepare_yields:
  assumes "slots_inv k (a, t)" "index_ok rnd m cells t" "session_key s = k" "get_by_index t (ss_sender_index s) = None"
    and "ss_cell s < cells" "\<exists>j < m. ss_sender_index s = rnd + of_nat j"
  shows "yields (prepare_uninit s (a, t) :: ('e, slots) result) (slots_post k rnd m cells t)"
    "yields (prepare_next s (a, t) :: ('e, slots) result) (slots_post k rnd m cells t)"
  using slot_step_yields [OF assms(1) _ assms(2), of "PrepareUninit s", where ?'e = 'e]
    slot_step_yields [OF assms(1) _ assms(2), of "PrepareNext s", where ?'e = 'e] assms(3-6) by simp_all

text \<open>A completion either finds no prepared session with that index, or replaces it by one with the same index.\<close>

lemma slots_post_refl: "slots_inv k (a, t) \<Longrightarrow> index_ok rnd m cells t \<Longrightarrow> slots_post k rnd m cells t (a, t)"
  by (simp add: slots_post_def others_kept_def)

lemma complete_yields:
  assumes inv: "slots_inv k (a, t)" and ok: "index_ok rnd m cells t" and s: "session_key s = k" "ss_cell s < cells"
  shows "yields (complete_uninit s (a, t) :: ('e, bool \<times> slots) result) (\<lambda>(_, st). slots_post k rnd m cells t st)"
    "yields (complete_next s (a, t) :: ('e, bool \<times> slots) result) (\<lambda>(_, st). slots_post k rnd m cells t st)"
proof -
  have held: "\<exists>j < m. ss_sender_index s = rnd + of_nat j" if "u \<in> index_elems t" "ss_sender_index u = ss_sender_index s" for u
    using ok that unfolding index_ok_def drawn_def by metis
  show "yields (complete_uninit s (a, t) :: ('e, bool \<times> slots) result) (\<lambda>(_, st). slots_post k rnd m cells t st)"
  proof (cases "\<exists>u. as_uninit a = Some u \<and> ss_sender_index u = ss_sender_index s")
    case True
    then have "yields (slot_step (CompleteUninit s) (a, t) :: ('e, slots) result) (slots_post k rnd m cells t)"
      using slots_invD(2) [OF inv] s by (intro slot_step_yields [OF inv _ ok]) (auto intro: held)
    then show ?thesis by (auto simp: yields_def result_simps)
  next
    case False
    then show ?thesis using slots_post_refl [OF inv ok] by (auto simp: complete_uninit_def split: option.splits)
  qed
  show "yields (complete_next s (a, t) :: ('e, bool \<times> slots) result) (\<lambda>(_, st). slots_post k rnd m cells t st)"
  proof (cases "\<exists>u. as_next a = Some u \<and> ss_sender_index u = ss_sender_index s")
    case True
    then have "yields (slot_step (CompleteNext s) (a, t) :: ('e, slots) result) (slots_post k rnd m cells t)"
      using slots_invD(5) [OF inv] s by (intro slot_step_yields [OF inv _ ok]) (auto intro: held)
    then show ?thesis by (auto simp: yields_def result_simps)
  next
    case False
    then show ?thesis using slots_post_refl [OF inv ok] by (auto simp: complete_next_def split: option.splits)
  qed
qed

section \<open>Peers and shared state\<close>

text \<open>A waiting packet of a session: the session belongs to the peer, has a cell, and the counter is below the limit.\<close>

fun event_ok :: "bytes \<Rightarrow> nat \<Rightarrow> inbound_event \<Rightarrow> bool" where
  "event_ok k cells (TransportDataEv ep pk s) \<longleftrightarrow>
     session_key s = k \<and> ss_cell s < cells \<and> td_counter pk \<le> REJECT_AFTER_MESSAGES"
| "event_ok k cells _ \<longleftrightarrow> True"

definition peer_ok :: "crypto \<Rightarrow> bytes \<Rightarrow> bytes \<Rightarrow> peer \<Rightarrow> shared \<Rightarrow> bool" where
  "peer_ok cr sk k p sh \<longleftrightarrow> pr_pub_key p = k \<and> ps_public (hs_secret (pr_handshake p)) = k \<and>
     ps_local (hs_secret (pr_handshake p)) = local_secret_new cr sk \<and> macs_for cr k (hs_macs (pr_handshake p)) \<and>
     slots_inv k (pr_sessions p, sh_index sh) \<and> (\<forall>ev \<in> set (pr_inbound p). event_ok k (length (sh_cells sh)) ev)"

text \<open>\<open>seen c\<close> are counters that must never be admitted again on cell \<open>c\<close>.\<close>

definition cells_ok :: "(nat \<Rightarrow> nat set) \<Rightarrow> cells \<Rightarrow> bool" where
  "cells_ok seen h \<longleftrightarrow> (\<forall>c < length h. \<exists>S. nf_repr (sc_nonce_filter (h ! c)) S \<and> seen c \<subseteq> S) \<and>
     (\<forall>c \<ge> length h. seen c = {})"

definition shared_ok :: "u32 \<Rightarrow> nat \<Rightarrow> (nat \<Rightarrow> nat set) \<Rightarrow> shared \<Rightarrow> bool" where
  "shared_ok rnd n seen sh \<longleftrightarrow> (\<exists>m \<le> n. index_ok rnd m (length (sh_cells sh)) (sh_index sh)) \<and> cells_ok seen (sh_cells sh)"

definition shared_frame :: "bytes \<Rightarrow> shared \<Rightarrow> shared \<Rightarrow> bool" where
  "shared_frame k sh sh' \<longleftrightarrow> length (sh_cells sh) \<le> length (sh_cells sh') \<and> others_kept k (sh_index sh) (sh_index sh')"

text \<open>What has been written to the tunnel.\<close>

fun tun_writes :: "effect list \<Rightarrow> bytes list" where
  "tun_writes [] = []"
| "tun_writes (TunSend d # es) = d # tun_writes es"
| "tun_writes (_ # es) = tun_writes es"

lemma tun_writes_append [simp]: "tun_writes (es @ es') = tun_writes es @ tun_writes es'"
  by (induction es rule: tun_writes.induct) simp_all

definition turn_post ::
    "crypto \<Rightarrow> bytes \<Rightarrow> bytes \<Rightarrow> u32 \<Rightarrow> nat \<Rightarrow> (nat \<Rightarrow> nat set) \<Rightarrow> bytes list \<Rightarrow> shared \<Rightarrow> peer \<times> shared \<Rightarrow> bool" where
  "turn_post cr sk k rnd n seen ws sh = (\<lambda>(p', sh'). peer_ok cr sk k p' sh' \<and> shared_ok rnd n seen sh' \<and> shared_frame k sh sh'
     \<and> tun_writes (sh_log sh') = tun_writes (sh_log sh) @ ws)"

lemma cells_ok_append: "cells_ok seen h \<Longrightarrow> cells_ok seen (h @ [fresh_cell])"
  using nonce_ring.repr_new by (fastforce simp: cells_ok_def nth_append fresh_cell_def not_less le_less_Suc_eq)

lemma event_ok_mono: "event_ok k c ev \<Longrightarrow> c \<le> c' \<Longrightarrow> event_ok k c' ev"
  by (cases ev) auto

lemma index_ok_mono: "index_ok rnd m c t \<Longrightarrow> c \<le> c' \<Longrightarrow> index_ok rnd m c' t"
  by (auto simp: index_ok_def)

lemma shared_ok_Suc: "shared_ok rnd n seen sh \<Longrightarrow> shared_ok rnd (Suc n) seen sh"
  by (auto simp: shared_ok_def intro: le_SucI)

lemma peer_shared_fields [simp]:
  "peer_ok cr sk k p (sh\<lparr>sh_log := l\<rparr>) = peer_ok cr sk k p sh" "shared_ok rnd n seen (sh\<lparr>sh_log := l\<rparr>) = shared_ok rnd n seen sh"
  "shared_frame k sh0 (sh\<lparr>sh_log := l\<rparr>) = shared_frame k sh0 sh"
  "peer_ok cr sk k (p\<lparr>pr_monitor := m\<rparr>) sh = peer_ok cr sk k p sh" "peer_ok cr sk k (p\<lparr>pr_endpoint := e\<rparr>) sh = peer_ok cr sk k p sh"
  "peer_ok cr sk k (p\<lparr>pr_outbound := bs\<rparr>) sh = peer_ok cr sk k p sh" "peer_ok cr sk k (p\<lparr>pr_online := v\<rparr>) sh = peer_ok cr sk k p sh"
  by (simp_all add: peer_ok_def shared_ok_def shared_frame_def)

lemma turn_post_refl: "peer_ok cr sk k p sh \<Longrightarrow> shared_ok rnd n seen sh \<Longrightarrow> turn_post cr sk k rnd (Suc n) seen [] sh (p, sh)"
  by (simp add: turn_post_def shared_ok_Suc shared_frame_def others_kept_def)

section \<open>Every turn of a peer returns and keeps the state in order\<close>

text \<open>A session just made for the peer can be put into a slot.\<close>

lemma new_session_prepared:
  assumes p: "peer_ok cr sk k p sh" and sh: "shared_ok rnd n seen sh" and n: "n < 2 ^ 32"
    and s: "new_session k (si_index (sh_index sh)) (sh_cells sh) s h"
  defines "t \<equiv> snd (next_index (sh_index sh))"
  shows "\<exists>m \<le> Suc n. yields (prepare_uninit s (pr_sessions p, t) :: ('e, slots) result) (slots_post k rnd m (length h) (sh_index sh))
    \<and> yields (prepare_next s (pr_sessions p, t) :: ('e, slots) result) (slots_post k rnd m (length h) (sh_index sh))
    \<and> cells_ok seen h \<and> length (sh_cells sh) \<le> length h"
proof -
  obtain m where m: "m \<le> n" "index_ok rnd m (length (sh_cells sh)) (sh_index sh)" and cells: "cells_ok seen (sh_cells sh)"
    using sh by (auto simp: shared_ok_def)
  have inv: "slots_inv k (pr_sessions p, sh_index sh)" using p by (simp add: peer_ok_def)
  have inv': "slots_inv k (pr_sessions p, t)" using inv by (simp add: t_def slots_inv_draw)
  have el: "index_elems t = index_elems (sh_index sh)" by (simp add: t_def next_index_def index_elems_def)
  have h: "h = sh_cells sh @ [fresh_cell]" "session_key s = k" "ss_cell s < length h"
      "ss_sender_index s = rnd + of_nat m"
    using s m(2) by (auto simp: new_session_def index_ok_def drawn_def)
  have ok: "index_ok rnd (Suc m) (length h) t"
    using m(2) drawn_next by (auto simp: index_ok_def h(1) t_def next_index_def index_elems_def less_SucI)
  have fresh: "get_by_index t (ss_sender_index s) = None"
    using drawn_fresh [OF _ slots_invD(1) [OF inv], of rnd m] m s n by (simp add: t_def index_ok_def new_session_def)
  have "slots_post k rnd (Suc m) (length h) t = slots_post k rnd (Suc m) (length h) (sh_index sh)"
    by (rule ext) (simp add: slots_post_def others_kept_def el)
  then show ?thesis
    using prepare_yields [OF inv' ok h(2) fresh h(3), where ?'e = 'e] h m(1) cells_ok_append [OF cells]
    by (intro exI [of _ "Suc m"]) auto
qed

lemma turn_postI:
  assumes "slots_post k rnd m (length h) (sh_index sh) (a, t)" "m \<le> n" "cells_ok seen h" "length (sh_cells sh) \<le> length h"
    and "peer_ok cr sk k p sh" "pr_sessions p' = a" "pr_pub_key p' = pr_pub_key p" "hs_secret (pr_handshake p') = hs_secret (pr_handshake p)"
    and "hs_macs (pr_handshake p') = hs_macs (pr_handshake p)" "set (pr_inbound p') \<subseteq> set (pr_inbound p)"
    and "sh_index sh' = t" "sh_cells sh' = h" "tun_writes (sh_log sh') = tun_writes (sh_log sh) @ ws"
  shows "turn_post cr sk k rnd n seen ws sh (p', sh')"
  using assms event_ok_mono [of k "length (sh_cells sh)" _ "length h"]
  by (auto simp: turn_post_def slots_post_def peer_ok_def shared_ok_def shared_frame_def)

lemma send_outbound_log: "\<exists>l. send_outbound en buf p sh = sh\<lparr>sh_log := l\<rparr> \<and> tun_writes l = tun_writes (sh_log sh)"
  by (cases "pr_endpoint p") (auto simp: send_outbound_def pub_event_def intro: exI [of _ "sh_log sh"])

lemma handshake_turn_yields:
  assumes laws: "crypto_laws cr" and en: "en_crypto en = cr" "length (en_ts en) < 2 ^ 32" and sk: "length sk = 32"
    and p: "peer_ok cr sk k p sh" and sh: "shared_ok rnd n seen sh" and n: "n < 2 ^ 32"
  shows "yields (handshake_turn en p sh) (turn_post cr sk k rnd (Suc n) seen [] sh)"
proof (cases "pr_online p \<and> fst (can_handshake (en_now en) (pr_monitor p))")
  case True
  define q where "q = p\<lparr>pr_monitor := snd (can_handshake (en_now en) (pr_monitor p))\<rparr>"
  have q: "peer_ok cr sk k q sh" "pr_handshake q = pr_handshake p" "pr_sessions q = pr_sessions p" using p by (simp_all add: q_def)
  have sec: "macs_for cr k (hs_macs (pr_handshake p))" "length (ls_public (ps_local (hs_secret (pr_handshake p)))) < 2 ^ 32"
      "ps_public (hs_secret (pr_handshake p)) = k"
    using p sk crypto_lawsD(6) [OF laws sk] by (simp_all add: peer_ok_def local_secret_new_def)
  have run: "handshake_turn en p sh =
      rbind (unwrap (initiate cr (en_rand en) (en_ts en) (en_now en) (pr_handshake p) (sh_index sh) (sh_cells sh)))
        (\<lambda>((pre, packet), hs, t, h). rbind (prepare_uninit pre (pr_sessions p, t)) (\<lambda>(a, t).
           let p' = q\<lparr>pr_handshake := hs, pr_sessions := a\<rparr>
           in Ok (mark_initiated en p', send_outbound en packet p' (sh\<lparr>sh_index := t, sh_cells := h\<rparr>))))"
    using True by (auto simp: handshake_turn_def q_def split_beta Let_def en(1))
  have step: "yields (rbind (prepare_uninit pre (pr_sessions p, t) :: (unit, slots) result) (\<lambda>(a, t).
           let p' = q\<lparr>pr_handshake := hs, pr_sessions := a\<rparr>
           in Ok (mark_initiated en p', send_outbound en packet p' (sh\<lparr>sh_index := t, sh_cells := h\<rparr>))))
         (turn_post cr sk k rnd (Suc n) seen [] sh)"
    if s: "new_session k (si_index (sh_index sh)) (sh_cells sh) pre h" "t = snd (next_index (sh_index sh))"
      and hs: "hs_secret hs = hs_secret (pr_handshake p)" "hs_macs hs = hs_macs (pr_handshake p)"
    for pre packet hs t h
  proof -
    obtain m where m: "m \<le> Suc n" "yields (prepare_uninit pre (pr_sessions p, t) :: (unit, slots) result) (slots_post k rnd m (length h) (sh_index sh))"
        "cells_ok seen h" "length (sh_cells sh) \<le> length h"
      using new_session_prepared [OF p sh n s(1), where ?'e = unit] s(2) by blast
    show ?thesis
    proof (rule yields_bind [OF m(2)], clarsimp simp: Let_def)
      fix a t assume post: "slots_post k rnd m (length h) (sh_index sh) (a, t)"
      let ?p = "q\<lparr>pr_handshake := hs, pr_sessions := a\<rparr>"
      obtain l where "send_outbound en packet ?p (sh\<lparr>sh_index := t, sh_cells := h\<rparr>) = sh\<lparr>sh_index := t, sh_cells := h, sh_log := l\<rparr>"
          "tun_writes l = tun_writes (sh_log sh)"
        using send_outbound_log [of en packet ?p "sh\<lparr>sh_index := t, sh_cells := h\<rparr>"] by auto
      then show "turn_post cr sk k rnd (Suc n) seen [] sh
          (mark_initiated en ?p, send_outbound en packet ?p (sh\<lparr>sh_index := t, sh_cells := h\<rparr>))"
        using turn_postI [OF post m(1,3,4) q(1), of "mark_initiated en ?p"] hs q(2) by (simp add: mark_initiated_def)
    qed
  qed
  show ?thesis
    unfolding run
    by (rule yields_bind [OF yields_unwrap [OF initiate_yields [OF laws sec(1,2) en(2)]]], clarify, rule step)
      (simp_all add: sec(3))
next
  case False
  have "turn_post cr sk k rnd (Suc n) seen [] sh (p\<lparr>pr_monitor := m\<rparr>, sh)" for m
    by (rule turn_post_refl [OF _ sh]) (use p in simp)
  then show ?thesis using False turn_post_refl [OF p sh]
    by (auto simp: handshake_turn_def split_beta)
qed

lemma cells_ok_update:
  assumes "cells_ok seen h" "c < length h" "nf_repr (sc_nonce_filter x) S" "seen c \<subseteq> S"
  shows "cells_ok seen (h[c := x])"
  using assms unfolding cells_ok_def by (auto simp: nth_list_update)

lemma current_cell:
  assumes "peer_ok cr sk k p sh" "shared_ok rnd n seen sh" "as_current (pr_sessions p) = Some s"
  shows "ss_cell s < length (sh_cells sh)"
proof -
  have "s \<in> index_elems (sh_index sh)" using slots_invD(4) [of k "pr_sessions p" "sh_index sh"] assms(1,3) by (auto simp: peer_ok_def)
  then show ?thesis using assms(2) by (auto simp: shared_ok_def index_ok_def)
qed

lemma peer_tick_outbound_yields:
  assumes p: "peer_ok cr sk k p sh" and sh: "shared_ok rnd n seen sh"
  shows "yields (peer_tick_outbound en data p sh) (turn_post cr sk k rnd (Suc n) seen [] sh)"
proof (cases "as_current (pr_sessions p)")
  case None
  then show ?thesis using turn_post_refl [OF p sh]
    by (simp add: peer_tick_outbound_def pub_event_def turn_post_def)
next
  case (Some s)
  let ?h = "sh_cells sh"
  define h where "h = ?h[ss_cell s := (?h ! ss_cell s)\<lparr>sc_sender_nonce := sc_sender_nonce (?h ! ss_cell s) + 1\<rparr>]"
  note cell = current_cell [OF p sh Some]
  obtain r where r: "encrypt_data (en_crypto en) s data ?h = (Ok (r, h) :: (unit, _) result)"
    unfolding h_def by (rule encrypt_data_cell [OF cell, where ?'e = unit])
  have cells: "cells_ok seen h"
    using sh cell unfolding h_def shared_ok_def cells_ok_def by (auto simp: nth_list_update)
  have post: "turn_post cr sk k rnd (Suc n) seen [] sh (p, sh\<lparr>sh_cells := h\<rparr>)"
    using turn_post_refl [OF p sh] cells by (auto simp: turn_post_def peer_ok_def shared_ok_def shared_frame_def h_def)
  show ?thesis
  proof (cases r)
    case (Inl e)
    then show ?thesis using post by (simp add: peer_tick_outbound_def Some r)
  next
    case (Inr pk)
    obtain l where "send_outbound en (transport_to_bytes pk) p (sh\<lparr>sh_cells := h\<rparr>) = sh\<lparr>sh_cells := h, sh_log := l\<rparr>"
        "tun_writes l = tun_writes (sh_log sh)"
      using send_outbound_log [of en "transport_to_bytes pk" p "sh\<lparr>sh_cells := h\<rparr>"] by auto
    then show ?thesis using post Inr by (simp add: peer_tick_outbound_def Some r Let_def turn_post_def)
  qed
qed

lemma outbound_turn_yields:
  assumes p: "peer_ok cr sk k p sh" and sh: "shared_ok rnd n seen sh"
  shows "yields (outbound_turn en timer p sh) (turn_post cr sk k rnd (Suc n) seen [] sh)"
proof -
  have "peer_ok cr sk k (keepalive en p) sh" using p by (simp add: keepalive_def Let_def stage_outbound_def)
  then have "turn_post cr sk k rnd (Suc n) seen [] sh (keepalive en p, sh)" by (rule turn_post_refl [OF _ sh])
  moreover have "yields (peer_tick_outbound en d (p\<lparr>pr_outbound := ds\<rparr>) sh) (turn_post cr sk k rnd (Suc n) seen [] sh)" for d ds
    by (rule peer_tick_outbound_yields [OF _ sh]) (use p in simp)
  ultimately show ?thesis using turn_post_refl [OF p sh] by (cases "pr_outbound p") (simp_all add: outbound_turn_def)
qed

text \<open>An initiation is answered with \<open>unwrap\<close> on the socket: the one way a packet can end a peer's task.\<close>

definition response_refused :: "env \<Rightarrow> inbound_event \<Rightarrow> peer \<Rightarrow> shared \<Rightarrow> bool" where
  "response_refused en ev p sh \<longleftrightarrow> (\<exists>ep initiation s packet t h. ev = HanshakeInitiationEv ep initiation \<and>
     respond (en_crypto en) (en_rand en) (en_now en) initiation (pr_handshake p) (sh_index sh) (sh_cells sh) =
       Ok ((s, packet), t, h) \<and> \<not> en_send_ok en ep packet)"

lemma count_inbound_fields [simp]:
  "pr_sessions (count_inbound c p) = pr_sessions p" "pr_handshake (count_inbound c p) = pr_handshake p"
  "peer_ok cr sk k (count_inbound c p) sh = peer_ok cr sk k p sh"
  by (simp_all add: count_inbound_def)

lemma initiation_yields:
  assumes laws: "crypto_laws cr" and en: "en_crypto en = cr" and p: "peer_ok cr sk k p sh" and sh: "shared_ok rnd n seen sh"
    and n: "n < 2 ^ 32"
  shows "if response_refused en (HanshakeInitiationEv ep initiation) p sh
    then handle_handshake_initiation en ep initiation p sh = Panic
    else yields (handle_handshake_initiation en ep initiation p sh) (turn_post cr sk k rnd (Suc n) seen [] sh)"
proof -
  let ?r = "respond (en_crypto en) (en_rand en) (en_now en) initiation (pr_handshake p) (sh_index sh) (sh_cells sh)"
  have macs: "macs_for cr k (hs_macs (pr_handshake p))" "ps_public (hs_secret (pr_handshake p)) = k"
    using p by (simp_all add: peer_ok_def)
  obtain s packet t h where r: "?r = Ok ((s, packet), t, h)" "new_session k (si_index (sh_index sh)) (sh_cells sh) s h"
      "t = snd (next_index (sh_index sh))"
    by (rule yieldsE [OF respond_yields [OF laws macs(1), of "en_rand en" "en_now en" initiation "sh_index sh" "sh_cells sh"]])
      (auto simp: en macs(2))
  obtain m where m: "m \<le> Suc n" "yields (prepare_next s (pr_sessions p, t) :: (unit, slots) result) (slots_post k rnd m (length h) (sh_index sh))"
      "cells_ok seen h" "length (sh_cells sh) \<le> length h"
    using new_session_prepared [OF p sh n r(2), where ?'e = unit] r(3) by blast
  obtain a t' where a: "prepare_next s (pr_sessions p, t) = (Ok (a, t') :: (unit, slots) result)"
      "slots_post k rnd m (length h) (sh_index sh) (a, t')"
    using m(2) by (auto simp: yields_def)
  have "turn_post cr sk k rnd (Suc n) seen [] sh
      (mark_initiated en (update_endpoint ep ((count_inbound HANDSHAKE_INITIATION_PACKET_SIZE p)\<lparr>pr_sessions := a\<rparr>)),
       sh\<lparr>sh_index := t', sh_cells := h, sh_log := sh_log sh @ [SendTo ep packet]\<rparr>)"
    by (rule turn_postI [OF a(2) m(1,3,4) p]) (simp_all add: mark_initiated_def update_endpoint_def count_inbound_def)
  then show ?thesis
    using r(1) a(1) by (auto simp: response_refused_def handle_handshake_initiation_def Let_def en)
qed

lemma mark_completed_yields:
  assumes "0 \<le> en_sys en"
  shows "yields (mark_completed en p) (\<lambda>p'. \<exists>m. p' = p\<lparr>pr_monitor := m\<rparr>)"
  using assms by (auto simp: mark_completed_def completed_def timestamp_set_now_def)

lemma response_yields:
  assumes laws: "crypto_laws cr" and en: "en_crypto en = cr" "0 \<le> en_sys en" and p: "peer_ok cr sk k p sh" and sh: "shared_ok rnd n seen sh"
  shows "yields (handle_handshake_response en ep packet session p sh) (turn_post cr sk k rnd (Suc n) seen [] sh)"
proof (rule finalize_cases [OF laws, of "en_now en" packet "pr_handshake p" "sh_cells sh"], goal_cases)
  case (1 e)
  have "turn_post cr sk k rnd (Suc n) seen [] sh (count_inbound HANDSHAKE_RESPONSE_PACKET_SIZE p, sh)"
    by (rule turn_post_refl [OF _ sh]) (use p in simp)
  then show ?case by (simp add: handle_handshake_response_def en 1)
next
  case (2 s h i)
  let ?p = "count_inbound HANDSHAKE_RESPONSE_PACKET_SIZE p"
  obtain m where m: "m \<le> Suc n" "index_ok rnd m (length h) (sh_index sh)" and cells: "cells_ok seen h"
    using sh 2(2) by (auto simp: shared_ok_def new_session_def intro: index_ok_mono cells_ok_append le_SucI)
  have s: "session_key s = k" "ss_cell s < length h" "length (sh_cells sh) \<le> length h"
    using 2(2) p by (simp_all add: new_session_def peer_ok_def)
  obtain ret a t where c: "complete_uninit s (pr_sessions p, sh_index sh) = (Ok (ret, a, t) :: (unit, bool \<times> slots) result)"
      "slots_post k rnd m (length h) (sh_index sh) (a, t)"
    using complete_yields(1) [OF _ m(2) s(1,2), of "pr_sessions p", where ?'e = unit] p by (auto simp: yields_def peer_ok_def)
  obtain mo where mo: "mark_completed en (?p\<lparr>pr_sessions := a\<rparr>) = (Ok (?p\<lparr>pr_sessions := a, pr_monitor := mo\<rparr>) :: (unit, peer) result)"
    using mark_completed_yields [OF en(2), of "?p\<lparr>pr_sessions := a\<rparr>", where ?'a = unit] by (auto simp: yields_def)
  have post: "turn_post cr sk k rnd (Suc n) seen [] sh (p', sh\<lparr>sh_index := t, sh_cells := h, sh_log := l\<rparr>)"
    if "p' = ?p\<lparr>pr_sessions := a\<rparr> \<or> (\<exists>e o1. p' = ?p\<lparr>pr_sessions := a, pr_monitor := mo, pr_endpoint := e, pr_outbound := o1\<rparr>)"
      "tun_writes l = tun_writes (sh_log sh)" for p' l
    using that by (intro turn_postI [OF c(2) m(1) cells s(3) p]) (auto simp: count_inbound_def)
  show ?case
    using post [of _ "sh_log sh"] post [of _ "sh_log sh @ [Publish (HandshakeCompleteEv (pr_pub_key ?p) (ep_protocol ep))]"]
    by (cases ret) (auto simp: handle_handshake_response_def en 2(1) c(1) mo Let_def stage_outbound_def update_endpoint_def pub_event_def)
qed

text \<open>\<open>delivered\<close>: what a transport packet may cause to be written, given the counters seen before; \<open>see\<close> records it.\<close>

definition delivered :: "crypto \<Rightarrow> (nat \<Rightarrow> nat set) \<Rightarrow> session \<Rightarrow> transport_data \<Rightarrow> bytes list \<Rightarrow> bool" where
  "delivered cr seen s pk ws \<longleftrightarrow> ws = [] \<or> (\<exists>d. ws = [d] \<and> d \<noteq> [] \<and> decrypt_data cr s pk = Ok d \<and>
     unat (td_counter pk) \<notin> seen (ss_cell s))"

definition see :: "session \<Rightarrow> transport_data \<Rightarrow> bytes list \<Rightarrow> (nat \<Rightarrow> nat set) \<Rightarrow> nat \<Rightarrow> nat set" where
  "see s pk ws seen = (if ws = [] then seen else seen(ss_cell s := insert (unat (td_counter pk)) (seen (ss_cell s))))"

lemma cells_ok_see:
  assumes ok: "cells_ok seen h" and cell: "ss_cell s < length h" and repr: "nf_repr (sc_nonce_filter (h ! ss_cell s)) S"
    and sub: "seen (ss_cell s) \<subseteq> S" and g: "nf_repr g (insert (unat (td_counter pk)) S)"
  shows "cells_ok (see s pk ws seen) (h[ss_cell s := (h ! ss_cell s)\<lparr>sc_nonce_filter := g\<rparr>])"
  unfolding cells_ok_def length_list_update
proof (intro conjI allI impI)
  fix c assume c: "c < length h"
  show "\<exists>S. nf_repr (sc_nonce_filter (h[ss_cell s := (h ! ss_cell s)\<lparr>sc_nonce_filter := g\<rparr>] ! c)) S \<and> see s pk ws seen c \<subseteq> S"
  proof (cases "c = ss_cell s")
    case True
    then show ?thesis using cell g sub by (auto simp: see_def intro!: exI [of _ "insert (unat (td_counter pk)) S"])
  next
    case False
    then show ?thesis using ok c by (auto simp: cells_ok_def see_def)
  qed
next
  fix c assume "length h \<le> c"
  then show "see s pk ws seen c = {}" using ok cell by (auto simp: cells_ok_def see_def)
qed

lemma reject_bound: "c \<le> REJECT_AFTER_MESSAGES \<Longrightarrow> unat c \<le> 2 ^ 64 - 1025"
  by (simp add: REJECT_AFTER_MESSAGES_def word_le_nat_alt)

lemma transport_yields:
  assumes en: "en_crypto en = cr" "0 \<le> en_sys en" and p: "peer_ok cr sk k p sh" and sh: "shared_ok rnd n seen sh"
    and s: "session_key s = k" "ss_cell s < length (sh_cells sh)" and c: "td_counter pk \<le> REJECT_AFTER_MESSAGES"
  shows "yields (handle_transport_data en ep pk s p sh)
    (\<lambda>r. \<exists>ws. turn_post cr sk k rnd (Suc n) (see s pk ws seen) ws sh r \<and> delivered cr seen s pk ws)"
proof -
  let ?p = "count_inbound (packet_len pk) p" and ?f = "sc_nonce_filter (sh_cells sh ! ss_cell s)"
  obtain m where m: "m \<le> Suc n" "index_ok rnd m (length (sh_cells sh)) (sh_index sh)" and cells: "cells_ok seen (sh_cells sh)"
    using sh by (auto simp: shared_ok_def intro: le_SucI)
  obtain S where S: "nf_repr ?f S" "seen (ss_cell s) \<subseteq> S" using cells s(2) by (auto simp: cells_ok_def)
  obtain ret a t where cn: "complete_next s (pr_sessions p, sh_index sh) = (Ok (ret, a, t) :: (unit, bool \<times> slots) result)"
      "slots_post k rnd m (length (sh_cells sh)) (sh_index sh) (a, t)"
    using complete_yields(2) [OF _ m(2) s, of "pr_sessions p", where ?'e = unit] p by (auto simp: yields_def peer_ok_def)
  obtain q where q: "(if ret then mark_completed en (?p\<lparr>pr_sessions := a\<rparr>) else Ok (?p\<lparr>pr_sessions := a\<rparr>)) = (Ok q :: (unit, peer) result)"
      "\<exists>mo. q = ?p\<lparr>pr_sessions := a, pr_monitor := mo\<rparr>"
  proof (cases ret)
    case True
    then show ?thesis
      using that mark_completed_yields [OF en(2), of "?p\<lparr>pr_sessions := a\<rparr>", where ?'a = unit]
      by (auto simp: yields_def)
  next
    case False
    have "?p\<lparr>pr_sessions := a\<rparr> = ?p\<lparr>pr_sessions := a, pr_monitor := pr_monitor ?p\<rparr>" by simp
    then show ?thesis using that [of "?p\<lparr>pr_sessions := a\<rparr>"] False by metis
  qed
  obtain b where b: "nf_can_accept ?f (td_counter pk) = (Ok b :: (unit, bool) result)"
    using nonce_ring.can_total [OF S(1) reject_bound [OF c]] by blast
  have post: "turn_post cr sk k rnd (Suc n) seen' ws sh (p', sh')"
    if "p' = q \<or> p' = update_endpoint ep q" "sh_index sh' = t" "tun_writes (sh_log sh') = tun_writes (sh_log sh) @ ws"
      "cells_ok seen' (sh_cells sh')" "length (sh_cells sh') = length (sh_cells sh)" for p' sh' ws seen'
    using that q(2) cn(2) by (intro turn_postI [OF _ m(1) that(4) _ p]) (auto simp: update_endpoint_def count_inbound_def)
  have none: "\<exists>ws. turn_post cr sk k rnd (Suc n) (see s pk ws seen) ws sh (p', sh\<lparr>sh_index := t\<rparr>) \<and> delivered cr seen s pk ws"
    if "p' = q \<or> p' = update_endpoint ep q" for p'
    using post [OF that, of "sh\<lparr>sh_index := t\<rparr>" "[]" seen] cells by (auto simp: see_def delivered_def intro!: exI [of _ "[]"])
  note run = handle_transport_data_eq [OF cn(1) q(1) b s(2), of ep, unfolded en(1)]
  show ?thesis
  proof (cases "b \<and> (\<exists>d. decrypt_data cr s pk = Ok d \<and> d \<noteq> [])")
    case True
    then obtain d where d: "b" "decrypt_data cr s pk = Ok d" "d \<noteq> []" by blast
    obtain g where g: "session_aceept s (td_counter pk) (sh_cells sh) =
        (Ok ((sh_cells sh)[ss_cell s := (sh_cells sh ! ss_cell s)\<lparr>sc_nonce_filter := g\<rparr>]) :: (unit, cells) result)"
        "nf_repr g (insert (unat (td_counter pk)) S)" "unat (td_counter pk) \<notin> S"
      by (rule session_accept_cell [OF S(1) reject_bound [OF c] s(2)]) (use b d(1) in simp)
    define h where "h = (sh_cells sh)[ss_cell s := (sh_cells sh ! ss_cell s)\<lparr>sc_nonce_filter := g\<rparr>]"
    let ?ws = "if en_tun_ok en d then [d] else []"
    have "delivered cr seen s pk ?ws" using d g(3) S(2) by (auto simp: delivered_def)
    moreover have "cells_ok (see s pk ?ws seen) h" unfolding h_def by (rule cells_ok_see [OF cells s(2) S g(2)])
    then have "turn_post cr sk k rnd (Suc n) (see s pk ?ws seen) ?ws sh (update_endpoint ep q,
        (if en_tun_ok en d then sh\<lparr>sh_index := t, sh_log := sh_log sh @ [TunSend d]\<rparr> else sh\<lparr>sh_index := t\<rparr>)\<lparr>sh_cells := h\<rparr>)"
      by (intro post) (simp_all add: h_def)
    ultimately show ?thesis using run d g(1) [folded h_def] by auto
  next
    case False
    then show ?thesis using run none decrypt_data_not_Panic [of cr s pk] by (cases "decrypt_data cr s pk") auto
  qed
qed

text \<open>The packet a turn of the inbound loop handed to the tunnel, with the session that opened it.\<close>

fun delivery :: "inbound_event \<Rightarrow> bytes list \<Rightarrow> (session \<times> transport_data) list" where
  "delivery (TransportDataEv ep pk s) ws = (if ws = [] then [] else [(s, pk)])"
| "delivery _ ws = []"

definition see_all :: "(session \<times> transport_data) list \<Rightarrow> (nat \<Rightarrow> nat set) \<Rightarrow> nat \<Rightarrow> nat set" where
  "see_all ds seen c = seen c \<union> {unat (td_counter pk) |s pk. (s, pk) \<in> set ds \<and> ss_cell s = c}"

lemma see_all_Nil [simp]: "see_all [] seen = seen"
  by (rule ext) (simp add: see_all_def)

lemma see_see_all: "see s pk ws seen = see_all (if ws = [] then [] else [(s, pk)]) seen"
  by (rule ext) (auto simp: see_def see_all_def)

text \<open>Writes and deliveries of a turn correspond: each write is what the session made of the packet, and
  its counter was not seen on that session's cell.\<close>

definition authentic :: "crypto \<Rightarrow> bytes \<Rightarrow> session \<times> transport_data \<Rightarrow> bool" where
  "authentic cr w = (\<lambda>(s, pk). w \<noteq> [] \<and> decrypt_data cr s pk = Ok w)"

definition unseen :: "(nat \<Rightarrow> nat set) \<Rightarrow> session \<times> transport_data \<Rightarrow> bool" where
  "unseen seen = (\<lambda>(s, pk). unat (td_counter pk) \<notin> seen (ss_cell s))"

definition inbound_post ::
    "crypto \<Rightarrow> bytes \<Rightarrow> bytes \<Rightarrow> u32 \<Rightarrow> nat \<Rightarrow> (nat \<Rightarrow> nat set) \<Rightarrow> inbound_event \<Rightarrow> shared \<Rightarrow> peer \<times> shared \<Rightarrow> bool" where
  "inbound_post cr sk k rnd n seen ev sh r \<longleftrightarrow> (\<exists>ws. turn_post cr sk k rnd n (see_all (delivery ev ws) seen) ws sh r \<and>
     list_all2 (authentic cr) ws (delivery ev ws) \<and> list_all (unseen seen) (delivery ev ws))"

lemma inbound_post_quiet: "turn_post cr sk k rnd n seen [] sh r \<Longrightarrow> inbound_post cr sk k rnd n seen ev sh r"
  unfolding inbound_post_def by (rule exI [of _ "[]"], cases ev) auto

lemma inbound_post_transport:
  assumes "turn_post cr sk k rnd n (see s pk ws seen) ws sh r" "delivered cr seen s pk ws"
  shows "inbound_post cr sk k rnd n seen (TransportDataEv ep pk s) sh r"
  using assms unfolding inbound_post_def
  by (intro exI [of _ ws]) (auto simp: see_see_all delivered_def authentic_def unseen_def split: if_splits)

lemma peer_tick_inbound_yields:
  assumes laws: "crypto_laws cr" and en: "en_crypto en = cr" "0 \<le> en_sys en" and p: "peer_ok cr sk k p sh"
    and sh: "shared_ok rnd n seen sh" and n: "n < 2 ^ 32" and ev: "event_ok k (length (sh_cells sh)) ev"
  shows "if response_refused en ev p sh then peer_tick_inbound en ev p sh = Panic
    else yields (peer_tick_inbound en ev p sh) (inbound_post cr sk k rnd (Suc n) seen ev sh)"
proof (cases ev)
  case (HanshakeInitiationEv ep initiation)
  then show ?thesis using initiation_yields [OF laws en(1) p sh n, of ep initiation]
    by (auto simp: peer_tick_inbound_def intro: yields_mono inbound_post_quiet split: if_splits)
next
  case (HandshakeResponseEv ep packet session)
  then show ?thesis using response_yields [OF laws en p sh, of ep packet session]
    by (auto simp: peer_tick_inbound_def response_refused_def intro: yields_mono inbound_post_quiet)
next
  case (CookieReplyEv ep packet session)
  have "turn_post cr sk k rnd (Suc n) seen [] sh (count_inbound COOKIE_REPLY_PACKET_SIZE p, sh)"
    by (rule turn_post_refl [OF _ sh]) (use p in simp)
  then show ?thesis using CookieReplyEv
    by (simp add: peer_tick_inbound_def response_refused_def handle_cookie_reply_def inbound_post_quiet)
next
  case (TransportDataEv ep pk s)
  then show ?thesis using transport_yields [OF en p sh, of s pk ep] ev
    by (auto simp: peer_tick_inbound_def response_refused_def intro!: inbound_post_transport elim: yields_mono)
qed

end
