(* ===== verification/Device_Steps.thy ===== *)
theory Device_Steps
  imports Device Peer_Steps
begin

text \<open>
  The tasks of a device run side by side: the two loops of the device (\<open>handle.rs\<close>) and, for every peer,
  its handshake, inbound and outbound loops (\<open>peer/handler.rs\<close>), while the daemon adds peers and changes
  their endpoints.  Here one turn of any of them is a step of a transition system over the device, taken in any
  order, and what holds of every reachable state is shown by induction over its runs.  A turn is one step:
  the suspension points inside a turn are not split.
\<close>

section \<open>The device as a transition system\<close>

text \<open>What can happen to a device: a packet from a transport or from the tunnel, a turn of one of the
  loops of the peer with a given key, and the calls of the daemon.\<close>

datatype 'n action =
    TickInbound env endpoint bytes bytes bytes
  | TickOutbound bytes
  | HandshakeTurn bytes env
  | InboundTurn bytes env
  | OutboundTurn bytes env bool
  | InsertPeer env "'n peer_config"
  | ResetPeers env "'n peer_config list"
  | SetOnline bytes bool
  | UpdateEndpoint bytes endpoint
  | ClearEndpoint bytes

definition put_peer :: "nat \<Rightarrow> peer \<times> shared \<Rightarrow> ('n, 't) device \<Rightarrow> ('n, 't) device" where
  "put_peer i = (\<lambda>(p, sh) d. d\<lparr>dv_peers := (dv_peers d)\<lparr>pl_store := (pl_store (dv_peers d))[i := p]\<rparr>, dv_shared := sh\<rparr>)"

text \<open>Only the peers of the list have tasks.\<close>

definition peer_turn ::
    "(peer \<Rightarrow> shared \<Rightarrow> (unit, peer \<times> shared) result) \<Rightarrow> bytes \<Rightarrow> ('n, 't) device \<Rightarrow> (unit, ('n, 't) device) result" where
  "peer_turn f k d = (case get_peer_by_key d k of
      None \<Rightarrow> Ok d
    | Some i \<Rightarrow> rbind (f (pl_store (dv_peers d) ! i) (dv_shared d)) (\<lambda>r. Ok (put_peer i r d)))"

fun device_step :: "('n, 't, nat) netlib \<Rightarrow> 'n action \<Rightarrow> ('n, 't) device \<Rightarrow> (unit, ('n, 't) device) result" where
  "device_step nl (TickInbound en ep nonce rv payload) d = device_tick_inbound en ep nonce rv payload d"
| "device_step nl (TickOutbound buf) d = device_tick_outbound nl buf d"
| "device_step nl (HandshakeTurn k en) d = peer_turn (handshake_turn en) k d"
| "device_step nl (InboundTurn k en) d = peer_turn (inbound_turn en) k d"
| "device_step nl (OutboundTurn k en timer) d = peer_turn (outbound_turn en timer) k d"
| "device_step nl (InsertPeer en cfg) d = Ok (insert_peer nl en cfg d)"
| "device_step nl (ResetPeers en cfgs) d = Ok (reset_peers nl en cfgs d)"
| "device_step nl (SetOnline k v) d = peer_turn (\<lambda>p sh. Ok (set_online v p, sh)) k d"
| "device_step nl (UpdateEndpoint k ep) d = peer_turn (\<lambda>p sh. Ok (update_endpoint ep p, sh)) k d"
| "device_step nl (ClearEndpoint k) d = peer_turn (\<lambda>p sh. Ok (clear_endpoint p, sh)) k d"

section \<open>The invariant of a device\<close>

text \<open>The configured key never changes, every listed peer is in order, no session is left of a key without
  a peer, and the shared state is in order.\<close>

definition device_inv :: "crypto \<Rightarrow> bytes \<Rightarrow> u32 \<Rightarrow> u32 \<Rightarrow> nat \<Rightarrow> (nat \<Rightarrow> nat set) \<Rightarrow> ('n, 't) device \<Rightarrow> bool" where
  "device_inv cr sk fw rnd n seen d \<longleftrightarrow> dv_settings d = settings_new cr sk fw \<and> shared_ok rnd n seen (dv_shared d) \<and>
     (\<forall>k e. pl_peers (dv_peers d) k = Some e \<longrightarrow> pe_peer e < length (pl_store (dv_peers d)) \<and>
        peer_ok cr sk k (pl_store (dv_peers d) ! pe_peer e) (dv_shared d)) \<and>
     (\<forall>k. pl_peers (dv_peers d) k = None \<longrightarrow> slots_inv k (active_session_new, sh_index (dv_shared d)))"

lemma device_invD:
  assumes "device_inv cr sk fw rnd n seen d"
  shows "dv_settings d = settings_new cr sk fw" "shared_ok rnd n seen (dv_shared d)"
    "pl_peers (dv_peers d) k = Some e \<Longrightarrow> pe_peer e < length (pl_store (dv_peers d))"
    "pl_peers (dv_peers d) k = Some e \<Longrightarrow> peer_ok cr sk k (pl_store (dv_peers d) ! pe_peer e) (dv_shared d)"
    "pl_peers (dv_peers d) k = None \<Longrightarrow> slots_inv k (active_session_new, sh_index (dv_shared d))"
  using assms by (simp_all add: device_inv_def)

lemma device_inv_Suc: "device_inv cr sk fw rnd n seen d \<Longrightarrow> device_inv cr sk fw rnd (Suc n) seen d"
  by (auto simp: device_inv_def shared_ok_Suc)

lemma peer_ok_frame:
  assumes "peer_ok cr sk k p sh" "shared_frame k' sh sh'" "k \<noteq> k'" "index_inv (sh_index sh')"
  shows "peer_ok cr sk k p sh'"
  using assms others_kept_slots [of k' "sh_index sh" "sh_index sh'" k] event_ok_mono
  by (auto simp: peer_ok_def shared_frame_def)

lemma device_inv_put:
  assumes inv: "device_inv cr sk fw rnd n seen d" and e: "pl_peers (dv_peers d) k = Some e"
    and p: "peer_ok cr sk k p sh" and sh: "shared_ok rnd n' seen' sh" "shared_frame k (dv_shared d) sh"
  shows "device_inv cr sk fw rnd n' seen' (put_peer (pe_peer e) (p, sh) d)"
proof -
  note D = device_invD [OF inv]
  have idx: "index_inv (sh_index sh)" using p slots_invD(1) by (auto simp: peer_ok_def)
  have apart: "pe_peer e' \<noteq> pe_peer e" if "pl_peers (dv_peers d) k' = Some e'" "k' \<noteq> k" for k' e'
    using D(4) [OF e] D(4) [OF that(1)] that(2) by (auto simp: peer_ok_def)
  show ?thesis
    unfolding device_inv_def
  proof (intro conjI allI impI, goal_cases)
    case (3 k' e')
    then show ?case using D(3) by (simp add: put_peer_def)
  next
    case (4 k' e')
    then show ?case
      using e p D(3) [OF e] apart [of k' e'] D(4) [of k' e'] peer_ok_frame [OF _ sh(2) _ idx, of cr sk k']
      by (cases "k' = k") (auto simp: put_peer_def)
  next
    case (5 k')
    then have none: "pl_peers (dv_peers d) k' = None" by (simp add: put_peer_def)
    then have "k' \<noteq> k" using e by auto
    moreover have "others_kept k (sh_index (dv_shared d)) (sh_index sh)" using sh(2) by (simp add: shared_frame_def)
    ultimately have "slots_inv k' (active_session_new, sh_index sh)" using others_kept_slots [OF _ idx _ D(5) [OF none]] by blast
    then show ?case by (simp add: put_peer_def)
  qed (use D sh in \<open>simp_all add: put_peer_def\<close>)
qed

lemma peer_turn_yields:
  assumes inv: "device_inv cr sk fw rnd n seen d"
    and f: "\<And>e. pl_peers (dv_peers d) k = Some e \<Longrightarrow>
      yields (f (pl_store (dv_peers d) ! pe_peer e) (dv_shared d)) (turn_post cr sk k rnd (Suc n) seen [] (dv_shared d))"
  shows "yields (peer_turn f k d) (\<lambda>d'. device_inv cr sk fw rnd (Suc n) seen d' \<and>
    tun_writes (sh_log (dv_shared d')) = tun_writes (sh_log (dv_shared d)))"
proof (cases "pl_peers (dv_peers d) k")
  case None
  then show ?thesis using device_inv_Suc [OF inv] by (simp add: peer_turn_def get_peer_by_key_def get_by_key_def)
next
  case (Some e)
  show ?thesis
    by (rule yieldsE [OF f [OF Some]])
      (auto simp: peer_turn_def get_peer_by_key_def get_by_key_def Some turn_post_def put_peer_def
        intro!: device_inv_put [OF inv Some, unfolded put_peer_def prod.case])
qed

section \<open>Adding and removing peers\<close>

lemma peer_new_ok:
  assumes "ps_local secret = local_secret_new (en_crypto en) sk" "slots_inv (ps_public secret) (active_session_new, sh_index sh)"
  shows "peer_ok (en_crypto en) sk (ps_public secret) (peer_new en secret ep iv on ip) sh"
  using assms macs_for_new by (simp add: peer_ok_def peer_new_def handshake_new_def Let_def)

lemma list_insert_known:
  "pl_peers l (ps_public secret) = Some e \<Longrightarrow> \<exists>t. snd (list_insert nl en secret ips ep iv on ip l) = l\<lparr>pl_ips := t\<rparr>"
  by (auto simp: list_insert_def)

lemma list_insert_new:
  "pl_peers l (ps_public secret) = None \<Longrightarrow> \<exists>t. snd (list_insert nl en secret ips ep iv on ip l) =
     l\<lparr>pl_peers := (pl_peers l)(ps_public secret \<mapsto> \<lparr>pe_peer = length (pl_store l), pe_allowed_ips = ips\<rparr>),
       pl_store := pl_store l @ [peer_new en secret ep iv on ip], pl_ips := t\<rparr>"
  by (auto simp: list_insert_def Let_def)

lemma insert_peer_inv:
  assumes inv: "device_inv (en_crypto en) sk fw rnd n seen d"
  shows "device_inv (en_crypto en) sk fw rnd n seen (insert_peer nl en cfg d)" "dv_shared (insert_peer nl en cfg d) = dv_shared d"
proof -
  note D = device_invD [OF inv]
  define secret where "secret = (case pc_preshared_key cfg of
      Some psk \<Rightarrow> set_psk psk (with_peer (st_secret (dv_settings d)) (pc_public_key cfg))
    | None \<Rightarrow> with_peer (st_secret (dv_settings d)) (pc_public_key cfg))"
  have loc: "ps_local secret = local_secret_new (en_crypto en) sk"
    using D(1) by (auto simp: secret_def settings_new_def Let_def set_psk_def with_peer_def peer_secret_new_def split: option.split)
  obtain ep iv on ip where ins: "insert_peer nl en cfg d =
      d\<lparr>dv_peers := snd (list_insert nl en secret (pc_allowed_ips cfg) ep iv on ip (dv_peers d))\<rparr>"
    by (simp add: insert_peer_def secret_def Let_def)
  then show "dv_shared (insert_peer nl en cfg d) = dv_shared d" by simp
  show "device_inv (en_crypto en) sk fw rnd n seen (insert_peer nl en cfg d)"
  proof (cases "pl_peers (dv_peers d) (ps_public secret)")
    case None
    obtain t where "snd (list_insert nl en secret (pc_allowed_ips cfg) ep iv on ip (dv_peers d)) = (dv_peers d)\<lparr>
        pl_peers := (pl_peers (dv_peers d))(ps_public secret \<mapsto> \<lparr>pe_peer = length (pl_store (dv_peers d)), pe_allowed_ips = pc_allowed_ips cfg\<rparr>),
        pl_store := pl_store (dv_peers d) @ [peer_new en secret ep iv on ip], pl_ips := t\<rparr>"
      using list_insert_new [OF None] by blast
    then show ?thesis
      unfolding ins device_inv_def using D peer_new_ok [OF loc D(5) [OF None]] by (auto simp: nth_append less_SucI)
  next
    case (Some e)
    then show ?thesis using inv list_insert_known [OF Some, of nl en "pc_allowed_ips cfg" ep iv on ip]
      by (auto simp: ins device_inv_def)
  qed
qed

lemma index_clear_elems [simp]: "index_elems (index_clear t) = {}"
  by (simp add: index_elems_def index_clear_def)

lemma slots_inv_empty: "index_elems t = {} \<Longrightarrow> index_inv t \<Longrightarrow> slots_inv k (active_session_new, t)"
  by (auto simp: slots_inv_def slot_list_def active_session_new_def)

lemma fold_insert_inv:
  assumes "device_inv (en_crypto en) sk fw rnd n seen d"
  shows "device_inv (en_crypto en) sk fw rnd n seen (fold (insert_peer nl en) cfgs d)
    \<and> dv_shared (fold (insert_peer nl en) cfgs d) = dv_shared d"
  using assms by (induction cfgs arbitrary: d) (simp_all add: insert_peer_inv)

lemma reset_peers_inv:
  assumes st: "dv_settings d = settings_new (en_crypto en) sk fw" and sh: "shared_ok rnd n seen (dv_shared d)"
  shows "device_inv (en_crypto en) sk fw rnd n seen (reset_peers nl en cfgs d)"
    "sh_log (dv_shared (reset_peers nl en cfgs d)) = sh_log (dv_shared d)"
proof -
  let ?sh = "(dv_shared d)\<lparr>sh_index := index_clear (sh_index (dv_shared d))\<rparr>"
  let ?d = "d\<lparr>dv_peers := (dv_peers d)\<lparr>pl_peers := (\<lambda>_. None), pl_ips := cidr_clear nl (pl_ips (dv_peers d))\<rparr>, dv_shared := ?sh\<rparr>"
  have "shared_ok rnd n seen ?sh"
    using sh by (auto simp: shared_ok_def index_ok_def drawn_def index_clear_def [THEN arg_cong [where f = si_index]])
  moreover have "index_inv (index_clear (sh_index (dv_shared d)))" by (simp add: index_inv_def index_clear_def)
  ultimately have "device_inv (en_crypto en) sk fw rnd n seen ?d"
    using st by (simp add: device_inv_def slots_inv_empty)
  from fold_insert_inv [OF this, of nl cfgs]
  show "device_inv (en_crypto en) sk fw rnd n seen (reset_peers nl en cfgs d)"
    "sh_log (dv_shared (reset_peers nl en cfgs d)) = sh_log (dv_shared d)"
    by (simp_all add: reset_peers_def list_clear_def)
qed

lemma device_new_inv:
  "device_inv (en_crypto en) (dc_private_key cfg) (dc_fwmark cfg) rnd 0 (\<lambda>_. {}) (device_new nl en rnd cfg peers)"
  "sh_log (dv_shared (device_new nl en rnd cfg peers)) = []"
  unfolding device_new_def
  by (rule reset_peers_inv, simp_all add: shared_ok_def index_ok_def drawn_def cells_ok_def session_index_new_def index_elems_def)
    (subst reset_peers_inv(2), auto simp: shared_ok_def index_ok_def drawn_def cells_ok_def session_index_new_def index_elems_def)

section \<open>Packets from the transports\<close>

text \<open>What a message leads to: nothing, or an event staged for the peer it concerns.\<close>

definition staged :: "('n, 't) device \<Rightarrow> ('n, 't) device \<Rightarrow> bool" where
  "staged d d' \<longleftrightarrow> d' = d \<or> (\<exists>k e ev. pl_peers (dv_peers d) k = Some e \<and> d' = at_peer (pe_peer e) (stage_inbound ev) d \<and>
     (\<forall>ep pk s. ev = TransportDataEv ep pk s \<longrightarrow> session_key s = k \<and> td_counter pk \<le> REJECT_AFTER_MESSAGES \<and>
        get_by_index (sh_index (dv_shared d)) (td_receiver_index pk) = Some s))"

lemma staged_session:
  assumes "device_session_by_index d i = Some (s, j)"
    and "\<And>ep' pk s'. ev = TransportDataEv ep' pk s' \<Longrightarrow> s' = s \<and> td_receiver_index pk = i \<and> td_counter pk \<le> REJECT_AFTER_MESSAGES"
  shows "staged d (at_peer j (stage_inbound ev) d)"
proof -
  obtain e where e: "get_by_index (sh_index (dv_shared d)) i = Some s" "pl_peers (dv_peers d) (session_key s) = Some e" "j = pe_peer e"
    using assms(1) by (auto simp: device_session_by_index_def get_session_by_index_def get_by_key_def split: option.splits)
  show ?thesis
    unfolding staged_def by (rule disjI2, intro exI [of _ "session_key s"] exI [of _ e] exI [of _ ev]) (use e assms(2) in auto)
qed

lemma dispatch_message_staged:
  assumes "dispatch_message en ep msg d \<noteq> Panic"
  shows "yields (dispatch_message en ep msg d) (staged d)"
proof (cases msg)
  case (HandshakeInitiation p)
  then obtain i where "incoming_initiation_parse (en_crypto en) (st_secret (dv_settings d)) p = Ok i"
    using assms dispatch_message_Panic by blast
  then show ?thesis using HandshakeInitiation
    by (auto simp: dispatch_message_def get_peer_by_key_def get_by_key_def staged_def split: option.split)
qed (auto simp: dispatch_message_def split: option.split intro!: staged_session, auto simp: staged_def)

lemma device_tick_inbound_staged:
  assumes "crypto_laws (en_crypto en)" "dv_settings d = settings_new (en_crypto en) sk fw"
    and "device_tick_inbound en ep nonce rv payload d \<noteq> Panic"
  shows "yields (device_tick_inbound en ep nonce rv payload d) (staged d)"
proof -
  have ne: "payload \<noteq> []" using assms by (auto simp: inbound_Panic)
  have go: "yields (case message_parse payload of Ok msg \<Rightarrow> dispatch_message en ep msg d | Err e \<Rightarrow> Ok d | Panic \<Rightarrow> Panic) (staged d)"
    if "(case message_parse payload of Ok msg \<Rightarrow> dispatch_message en ep msg d | Err e \<Rightarrow> Ok d | Panic \<Rightarrow> Panic) \<noteq> Panic"
    using that dispatch_message_staged by (cases "message_parse payload") (auto simp: staged_def)
  from assms(1,2) ne show ?thesis
    by (cases rule: inbound_guard_cases [of _ _ _ _ _ ep nonce rv])
      (use go assms(3) in \<open>auto simp: device_tick_inbound_def staged_def\<close>)
qed

lemma staged_inv:
  assumes inv: "device_inv cr sk fw rnd n seen d" and st: "staged d d'"
  shows "device_inv cr sk fw rnd (Suc n) seen d'" "dv_shared d' = dv_shared d"
proof -
  note D = device_invD [OF inv]
  consider "d' = d" | k e ev where "pl_peers (dv_peers d) k = Some e" "d' = at_peer (pe_peer e) (stage_inbound ev) d"
      "\<And>ep pk s. ev = TransportDataEv ep pk s \<Longrightarrow> session_key s = k \<and> td_counter pk \<le> REJECT_AFTER_MESSAGES \<and>
        get_by_index (sh_index (dv_shared d)) (td_receiver_index pk) = Some s"
    using st by (auto simp: staged_def)
  then have "device_inv cr sk fw rnd (Suc n) seen d' \<and> dv_shared d' = dv_shared d"
  proof cases
    case (2 k e ev)
    let ?p = "pl_store (dv_peers d) ! pe_peer e"
    have inv': "slots_inv k (pr_sessions ?p, sh_index (dv_shared d))" using D(4) [OF 2(1)] by (simp add: peer_ok_def)
    have "event_ok k (length (sh_cells (dv_shared d))) ev"
      using 2(3) D(2) index_elems_iff [OF slots_invD(1) [OF inv']]
      by (cases ev) (auto simp: shared_ok_def index_ok_def)
    then have "peer_ok cr sk k (stage_inbound ev ?p) (dv_shared d)" using D(4) [OF 2(1)] by (auto simp: peer_ok_def stage_inbound_def)
    moreover have "d' = put_peer (pe_peer e) (stage_inbound ev ?p, dv_shared d) d" by (simp add: 2(2) at_peer_def put_peer_def)
    ultimately show ?thesis
      using device_inv_put [OF inv 2(1) _ shared_ok_Suc [OF D(2)]] by (simp add: shared_frame_def others_kept_def put_peer_def)
  qed (use device_inv_Suc [OF inv] in simp)
  then show "device_inv cr sk fw rnd (Suc n) seen d'" "dv_shared d' = dv_shared d" by simp_all
qed

section \<open>Every step\<close>

text \<open>What makes a step panic: the three kinds of packets that end the inbound task, an empty packet from the
  tunnel, and a response its socket refuses.\<close>

fun step_panics :: "'n action \<Rightarrow> ('n, 't) device \<Rightarrow> bool" where
  "step_panics (TickInbound en ep nonce rv payload) d \<longleftrightarrow> payload = [] \<or>
     4 \<le> length payload \<and> length payload < 16 \<and> take 4 payload = [4, 0, 0, 0] \<or>
     (\<exists>p e. message_parse payload = Ok (HandshakeInitiation p) \<and>
        validate_mac1 (en_crypto en) (st_cookie (dv_settings d)) payload = (Ok True :: (unit, bool) result) \<and>
        incoming_initiation_parse (en_crypto en) (st_secret (dv_settings d)) p = Err e)"
| "step_panics (TickOutbound buf) d \<longleftrightarrow> buf = []"
| "step_panics (InboundTurn k en) d \<longleftrightarrow> (\<exists>i ev es. get_peer_by_key d k = Some i \<and>
     pr_inbound (pl_store (dv_peers d) ! i) = ev # es \<and> response_refused en ev (pl_store (dv_peers d) ! i) (dv_shared d))"
| "step_panics _ d \<longleftrightarrow> False"

text \<open>The packets a step hands to the tunnel, with the sessions that opened them.\<close>

definition front_event :: "bytes \<Rightarrow> ('n, 't) device \<Rightarrow> inbound_event option" where
  "front_event k d = (case get_peer_by_key d k of
      None \<Rightarrow> None
    | Some i \<Rightarrow> (case pr_inbound (pl_store (dv_peers d) ! i) of [] \<Rightarrow> None | ev # es \<Rightarrow> Some ev))"

definition new_writes :: "('n, 't) device \<Rightarrow> ('n, 't) device \<Rightarrow> bytes list" where
  "new_writes d d' = drop (length (tun_writes (sh_log (dv_shared d)))) (tun_writes (sh_log (dv_shared d')))"

fun step_delivery :: "'n action \<Rightarrow> ('n, 't) device \<Rightarrow> ('n, 't) device \<Rightarrow> (session \<times> transport_data) list" where
  "step_delivery (InboundTurn k en) d d' =
     (case front_event k d of None \<Rightarrow> [] | Some ev \<Rightarrow> delivery ev (new_writes d d'))"
| "step_delivery _ d d' = []"

text \<open>The environments of an action: the device's primitives, a clock after 1970, a timestamp that fits a packet.\<close>

definition env_ok :: "crypto \<Rightarrow> env \<Rightarrow> bool" where
  "env_ok cr en \<longleftrightarrow> en_crypto en = cr \<and> 0 \<le> en_sys en \<and> length (en_ts en) = 12"

fun action_ok :: "crypto \<Rightarrow> 'n action \<Rightarrow> bool" where
  "action_ok cr (TickInbound en ep nonce rv payload) \<longleftrightarrow> env_ok cr en"
| "action_ok cr (HandshakeTurn k en) \<longleftrightarrow> env_ok cr en"
| "action_ok cr (InboundTurn k en) \<longleftrightarrow> env_ok cr en"
| "action_ok cr (OutboundTurn k en timer) \<longleftrightarrow> env_ok cr en"
| "action_ok cr (InsertPeer en cfg) \<longleftrightarrow> env_ok cr en"
| "action_ok cr (ResetPeers en cfgs) \<longleftrightarrow> env_ok cr en"
| "action_ok cr _ \<longleftrightarrow> True"

definition step_post :: "crypto \<Rightarrow> bytes \<Rightarrow> u32 \<Rightarrow> u32 \<Rightarrow> nat \<Rightarrow> (nat \<Rightarrow> nat set) \<Rightarrow> ('n, 't) device \<Rightarrow>
    (session \<times> transport_data) list \<Rightarrow> ('n, 't) device \<Rightarrow> bool" where
  "step_post cr sk fw rnd n seen d ds d' \<longleftrightarrow> device_inv cr sk fw rnd n (see_all ds seen) d' \<and> list_all (unseen seen) ds \<and>
     (\<exists>ws. tun_writes (sh_log (dv_shared d')) = tun_writes (sh_log (dv_shared d)) @ ws \<and> list_all2 (authentic cr) ws ds)"

lemma step_post_quiet:
  assumes "device_inv cr sk fw rnd n seen d'" "tun_writes (sh_log (dv_shared d')) = tun_writes (sh_log (dv_shared d))"
  shows "step_post cr sk fw rnd n seen d [] d'"
  using assms by (simp add: step_post_def)

lemma outbound_tick_yields:
  assumes inv: "device_inv cr sk fw rnd n seen d" and ne: "buf \<noteq> []"
  shows "yields (device_tick_outbound nl buf d) (step_post cr sk fw rnd (Suc n) seen d [])"
proof -
  have stage: "device_inv cr sk fw rnd (Suc n) seen (at_peer i (stage_outbound buf) d)" for i
  proof -
    have "(pl_store (dv_peers d))[i := stage_outbound buf (pl_store (dv_peers d) ! i)] ! j =
        (if i = j \<and> j < length (pl_store (dv_peers d)) then stage_outbound buf (pl_store (dv_peers d) ! j) else pl_store (dv_peers d) ! j)" for j
      by (cases "i = j"; cases "j < length (pl_store (dv_peers d))") (simp_all add: list_update_beyond not_less)
    then show ?thesis using device_inv_Suc [OF inv] by (simp add: device_inv_def at_peer_def stage_outbound_def)
  qed
  have "nth_checked buf 0 = (Ok (buf ! 0) :: (unit, u8) result)" using ne by (intro nth_checked_Ok) simp
  then have "yields (packet_dst buf) (\<lambda>_. True)"
    by (simp add: packet_dst_def IPV4_HEADER_LEN_def IPV6_HEADER_LEN_def)
  then obtain dst where dst: "packet_dst buf = Ok dst" by (auto simp: yields_def)
  have "device_tick_outbound nl buf d = Ok d \<or> (\<exists>i. device_tick_outbound nl buf d = Ok (at_peer i (stage_outbound buf) d))"
    by (auto simp: device_tick_outbound_def dst split: option.split)
  moreover have "step_post cr sk fw rnd (Suc n) seen d [] (at_peer i (stage_outbound buf) d)" for i
    by (rule step_post_quiet [OF stage]) (simp add: at_peer_def)
  ultimately show ?thesis using step_post_quiet [OF device_inv_Suc [OF inv], of d] by auto
qed

lemma peer_ok_dequeue: "peer_ok cr sk k p sh \<Longrightarrow> pr_inbound p = ev # es \<Longrightarrow> peer_ok cr sk k (p\<lparr>pr_inbound := es\<rparr>) sh"
  by (simp add: peer_ok_def)

lemma inbound_turn_yields:
  assumes laws: "crypto_laws cr" and inv: "device_inv cr sk fw rnd n seen d" and n: "n < 2 ^ 32" and en: "env_ok cr en"
    and ok: "\<not> step_panics (InboundTurn k en) d"
  shows "yields (peer_turn (inbound_turn en) k d)
    (\<lambda>d'. step_post cr sk fw rnd (Suc n) seen d (step_delivery (InboundTurn k en) d d') d')"
proof (cases "front_event k d")
  case None
  then have "peer_turn (inbound_turn en) k d = Ok d \<or> (\<exists>i. peer_turn (inbound_turn en) k d = Ok (put_peer i (pl_store (dv_peers d) ! i, dv_shared d) d))"
    by (auto simp: front_event_def peer_turn_def inbound_turn_def split: option.splits list.splits)
  moreover have "put_peer i (pl_store (dv_peers d) ! i, dv_shared d) d = d" for i
    by (simp add: put_peer_def)
  ultimately show ?thesis using None step_post_quiet [OF device_inv_Suc [OF inv]] by auto
next
  case (Some ev)
  then obtain e es where e: "pl_peers (dv_peers d) k = Some e" "pr_inbound (pl_store (dv_peers d) ! pe_peer e) = ev # es"
      and key: "get_peer_by_key d k = Some (pe_peer e)"
    by (auto simp: front_event_def get_peer_by_key_def get_by_key_def split: option.splits list.splits)
  let ?p = "pl_store (dv_peers d) ! pe_peer e"
  note D = device_invD [OF inv]
  have ev: "event_ok k (length (sh_cells (dv_shared d))) ev" using D(4) [OF e(1)] e(2) by (simp add: peer_ok_def)
  have nr: "\<not> response_refused en ev (?p\<lparr>pr_inbound := es\<rparr>) (dv_shared d)"
    using ok e(2) key by (auto simp: response_refused_def)
  have en': "en_crypto en = cr" "0 \<le> en_sys en" using en by (simp_all add: env_ok_def)
  have "yields (peer_tick_inbound en ev (?p\<lparr>pr_inbound := es\<rparr>) (dv_shared d))
      (inbound_post cr sk k rnd (Suc n) seen ev (dv_shared d))"
    using peer_tick_inbound_yields [OF laws en' peer_ok_dequeue [OF D(4) [OF e(1)] e(2)] D(2) n ev] nr by simp
  then obtain p' sh' where r: "inbound_turn en ?p (dv_shared d) = Ok (p', sh')"
      "inbound_post cr sk k rnd (Suc n) seen ev (dv_shared d) (p', sh')"
    using e(2) by (auto simp: yields_def inbound_turn_def)
  obtain ws where ws: "turn_post cr sk k rnd (Suc n) (see_all (delivery ev ws) seen) ws (dv_shared d) (p', sh')"
      "list_all2 (authentic cr) ws (delivery ev ws)" "list_all (unseen seen) (delivery ev ws)"
    using r(2) by (auto simp: inbound_post_def)
  let ?d = "put_peer (pe_peer e) (p', sh') d"
  have "step_delivery (InboundTurn k en) d ?d = delivery ev ws"
    using ws(1) by (simp add: Some new_writes_def turn_post_def put_peer_def)
  moreover have "step_post cr sk fw rnd (Suc n) seen d (delivery ev ws) ?d"
    using ws device_inv_put [OF inv e(1), of p' sh' "Suc n" "see_all (delivery ev ws) seen"]
    by (auto simp: step_post_def turn_post_def put_peer_def)
  ultimately show ?thesis using r(1) key by (simp add: peer_turn_def)
qed

lemma turn_quiet:
  assumes inv: "device_inv cr sk fw rnd n seen d"
    and f: "\<And>e. pl_peers (dv_peers d) k = Some e \<Longrightarrow>
      yields (f (pl_store (dv_peers d) ! pe_peer e) (dv_shared d)) (turn_post cr sk k rnd (Suc n) seen [] (dv_shared d))"
  shows "yields (peer_turn f k d) (step_post cr sk fw rnd (Suc n) seen d [])"
  by (rule yields_mono [OF peer_turn_yields [OF inv, of k f, OF f]]) (auto intro: step_post_quiet)

text \<open>The two kinds of step that can panic.\<close>

lemma tick_inbound_step:
  assumes laws: "crypto_laws cr" and inv: "device_inv cr sk fw rnd n seen d" and en: "en_crypto en = cr"
  shows "if step_panics (TickInbound en ep nonce rv payload) d then device_tick_inbound en ep nonce rv payload d = Panic
    else yields (device_tick_inbound en ep nonce rv payload d) (step_post cr sk fw rnd (Suc n) seen d [])"
proof -
  let ?a = "TickInbound en ep nonce rv payload :: 'n action"
  note D = device_invD [OF inv]
  have panic: "device_tick_inbound en ep nonce rv payload d = Panic \<longleftrightarrow> step_panics ?a d"
    using inbound_Panic [of en d sk fw ep nonce rv payload] laws D(1) by (simp add: en)
  show ?thesis
  proof (cases "step_panics ?a d")
    case False
    have "yields (device_tick_inbound en ep nonce rv payload d) (staged d)"
      using device_tick_inbound_staged [of en d sk fw ep nonce rv payload] laws D(1) panic False by (simp add: en)
    then have "yields (device_tick_inbound en ep nonce rv payload d) (step_post cr sk fw rnd (Suc n) seen d [])"
      by (rule yields_mono) (auto intro!: step_post_quiet dest: staged_inv [OF inv])
    then show ?thesis unfolding if_not_P [OF False] .
  qed (use panic in simp)
qed

lemma inbound_turn_panics:
  assumes laws: "crypto_laws cr" and inv: "device_inv cr sk fw rnd n seen d" and n: "n < 2 ^ 32" and en: "env_ok cr en"
    and panics: "step_panics (InboundTurn k en :: 'n action) d"
  shows "peer_turn (inbound_turn en) k d = Panic"
proof -
  note D = device_invD [OF inv]
  obtain i ev es where i: "get_peer_by_key d k = Some i" "pr_inbound (pl_store (dv_peers d) ! i) = ev # es"
      "response_refused en ev (pl_store (dv_peers d) ! i) (dv_shared d)"
    using panics by auto
  then obtain e where e: "pl_peers (dv_peers d) k = Some e" "i = pe_peer e" by (auto simp: get_peer_by_key_def get_by_key_def)
  let ?p = "pl_store (dv_peers d) ! pe_peer e"
  have ev: "event_ok k (length (sh_cells (dv_shared d))) ev" using D(4) [OF e(1)] i(2) e(2) by (simp add: peer_ok_def)
  have "response_refused en ev (?p\<lparr>pr_inbound := es\<rparr>) (dv_shared d)" using i(3) e(2) by (auto simp: response_refused_def)
  then have "peer_tick_inbound en ev (?p\<lparr>pr_inbound := es\<rparr>) (dv_shared d) = Panic"
    using peer_tick_inbound_yields [OF laws _ _ peer_ok_dequeue [OF D(4) [OF e(1)]] D(2) n ev, of en ev es] en i(2) e(2)
    by (simp add: env_ok_def)
  then show ?thesis using i e by (simp add: peer_turn_def inbound_turn_def)
qed

lemma device_step_yields:
  assumes laws: "crypto_laws cr" and sk: "length sk = 32" and inv: "device_inv cr sk fw rnd n seen d" and n: "n < 2 ^ 32"
    and act: "action_ok cr a"
  shows "if step_panics a d then device_step nl a d = Panic
    else yields (device_step nl a d) (\<lambda>d'. step_post cr sk fw rnd (Suc n) seen d (step_delivery a d d') d')"
proof (cases a)
  note D = device_invD [OF inv]
  {
    case (TickInbound en ep nonce rv payload)
    show ?thesis using tick_inbound_step [OF laws inv, of en ep nonce rv payload] act unfolding TickInbound by (simp add: env_ok_def)
  next
    case (TickOutbound buf)
    show ?thesis using outbound_tick_yields [OF inv, of buf nl]
      by (cases "buf = []") (simp_all add: TickOutbound device_tick_outbound_def packet_dst_def nth_checked_def)
  next
    case (HandshakeTurn k en)
    then show ?thesis
      using act turn_quiet [OF inv, of k "handshake_turn en"] handshake_turn_yields [OF laws _ _ sk D(4) D(2) n, of en] by (simp add: env_ok_def)
  next
    case (InboundTurn k en)
    show ?thesis
    proof (cases "step_panics a d")
      case True
      then show ?thesis using inbound_turn_panics [OF laws inv n, of en k] act by (simp add: InboundTurn)
    next
      case False
      then show ?thesis
        using inbound_turn_yields [OF laws inv n, of en k] act unfolding if_not_P [OF False] by (simp add: InboundTurn)
    qed
  next
    case (OutboundTurn k en timer)
    then show ?thesis using turn_quiet [OF inv, of k "outbound_turn en timer"] outbound_turn_yields [OF D(4) D(2)] by simp
  next
    case (InsertPeer en cfg)
    then have en: "en_crypto en = cr" using act by (simp add: env_ok_def)
    show ?thesis using insert_peer_inv [of en sk fw rnd "Suc n" seen d nl cfg] device_inv_Suc [OF inv]
      by (simp add: InsertPeer en step_post_def)
  next
    case (ResetPeers en cfgs)
    then have en: "en_crypto en = cr" using act by (simp add: env_ok_def)
    show ?thesis using reset_peers_inv [of d en sk fw rnd "Suc n" seen nl cfgs] D(1) shared_ok_Suc [OF D(2)]
      by (simp add: ResetPeers en step_post_def)
  next
    case (SetOnline k v)
    then show ?thesis using turn_quiet [OF inv, of k "\<lambda>p sh. Ok (set_online v p, sh)"] turn_post_refl [OF _ D(2)] D(4)
      by (simp add: set_online_def)
  next
    case (UpdateEndpoint k ep)
    then show ?thesis using turn_quiet [OF inv, of k "\<lambda>p sh. Ok (update_endpoint ep p, sh)"] turn_post_refl [OF _ D(2)] D(4)
      by (simp add: update_endpoint_def)
  next
    case (ClearEndpoint k)
    then show ?thesis using turn_quiet [OF inv, of k "\<lambda>p sh. Ok (clear_endpoint p, sh)"] turn_post_refl [OF _ D(2)] D(4)
      by (simp add: clear_endpoint_def)
  }
qed

section \<open>Runs\<close>

text \<open>A run: the actions in the order they happen, and what they handed to the tunnel.\<close>

fun device_run :: "('n, 't, nat) netlib \<Rightarrow> 'n action list \<Rightarrow> ('n, 't) device \<Rightarrow>
    (unit, (session \<times> transport_data) list \<times> ('n, 't) device) result" where
  "device_run nl [] d = Ok ([], d)"
| "device_run nl (a # as) d = rbind (device_step nl a d) (\<lambda>d'.
     rbind (device_run nl as d') (\<lambda>(ds, d''). Ok (step_delivery a d d' @ ds, d'')))"

definition slot_of :: "session \<times> transport_data \<Rightarrow> nat \<times> u64" where
  "slot_of = (\<lambda>(s, pk). (ss_cell s, td_counter pk))"

lemma delivery_distinct: "distinct (map slot_of (step_delivery a d d'))"
proof (cases a)
  case (InboundTurn k en)
  have "distinct (map slot_of (delivery ev ws))" for ev ws by (cases ev) simp_all
  then show ?thesis using InboundTurn by (auto split: option.split)
qed simp_all

lemma unseen_slots:
  assumes "list_all (unseen (see_all ds seen)) ds'"
  shows "set (map slot_of ds) \<inter> set (map slot_of ds') = {}" "list_all (unseen seen) ds'"
  using assms by (force simp: list_all_iff unseen_def see_all_def slot_of_def)+

lemma device_run_post:
  assumes laws: "crypto_laws cr" and sk: "length sk = 32"
  shows "device_inv cr sk fw rnd n seen d \<Longrightarrow> n + length as \<le> 2 ^ 32 \<Longrightarrow> list_all (action_ok cr) as \<Longrightarrow>
    device_run nl as d = Ok (ds, d') \<Longrightarrow>
    step_post cr sk fw rnd (n + length as) seen d ds d' \<and> distinct (map slot_of ds)"
proof (induction as arbitrary: n seen d ds)
  case Nil
  then show ?case by (auto intro: step_post_quiet)
next
  case (Cons a as)
  obtain d1 ds1 where r: "device_step nl a d = Ok d1" "device_run nl as d1 = Ok (ds1, d')" "ds = step_delivery a d d1 @ ds1"
    using Cons.prems(4) by (auto simp: result_simps)
  have 1: "step_post cr sk fw rnd (Suc n) seen d (step_delivery a d d1) d1"
    using device_step_yields [OF laws sk Cons.prems(1), of a nl] Cons.prems(2,3) r(1) by (auto split: if_splits)
  let ?seen = "see_all (step_delivery a d d1) seen"
  have 2: "step_post cr sk fw rnd (n + length (a # as)) ?seen d1 ds1 d'" "distinct (map slot_of ds1)"
    using Cons.IH [OF _ _ _ r(2), of "Suc n" ?seen] 1 Cons.prems(2,3) by (simp_all add: step_post_def)
  have u: "list_all (unseen ?seen) ds1" using 2(1) by (simp add: step_post_def)
  have "see_all ds1 ?seen = see_all ds seen" by (rule ext) (auto simp: see_all_def r(3))
  then have "step_post cr sk fw rnd (n + length (a # as)) seen d ds d'"
    using 1 2(1) unseen_slots(2) [OF u] by (auto simp: step_post_def r(3) list_all2_appendI)
  moreover have "distinct (map slot_of ds)"
    using delivery_distinct 2(2) unseen_slots(1) [OF u] by (simp add: r(3))
  ultimately show ?case by blast
qed

lemma run_from_new:
  assumes "crypto_laws (en_crypto en)" "length (dc_private_key cfg) = 32" "length as \<le> 2 ^ 32"
    and "list_all (action_ok (en_crypto en)) as" "device_run nl as (device_new nl en rnd cfg peers) = Ok (ds, d)"
  shows "step_post (en_crypto en) (dc_private_key cfg) (dc_fwmark cfg) rnd (length as) (\<lambda>_. {})
      (device_new nl en rnd cfg peers) ds d" "distinct (map slot_of ds)"
  using device_run_post [OF assms(1,2) device_new_inv(1) _ assms(4,5)] assms(3) by simp_all

text \<open>A run for witnesses: a peer starts a session, sends a packet, and the packet arrives a second time.\<close>

definition plain_peer_config :: "list_net peer_config" where
  "plain_peer_config = \<lparr>pc_public_key = replicate 32 1, pc_allowed_ips = [], pc_endpoint = None,
     pc_preshared_key = Some (replicate 32 5), pc_lazy = False, pc_is_online = True, pc_no_encrypt = False,
     pc_persistent_keepalive = None, pc_ip_addr = []\<rparr>"

definition plain_tag :: bytes where
  "plain_tag = [78, 111, 105, 115, 101, 95, 73, 75, 112, 115, 107, 50, 95, 50, 53, 53]"

definition plain_actions :: "list_net action list" where
  "plain_actions =
     (let initiation = [1, 0, 0, 0, 7, 0, 0, 0] @ replicate 32 3 @ replicate 32 1 @ plain_tag @ replicate 12 9 @ plain_tag @
            [1, 0, 0, 0, 7, 0, 0, 0] @ replicate 8 3 @ replicate 16 0;
          dat = [4, 0, 0, 0, 5, 0, 0, 0] @ replicate 8 0 @ [9] @ plain_tag;
          turn = InboundTurn (replicate 32 1) plain_env
      in concat (map (\<lambda>payload. [TickInbound plain_env plain_endpoint [] [] payload, turn]) [initiation, dat, dat]))"

definition plain_device :: "(list_net, (list_net \<times> nat) list) device" where
  "plain_device = device_new list_netlib plain_env 5 (plain_config (replicate 32 2)) [plain_peer_config]"

lemma plain_run_evaluated:
  "case device_run list_netlib plain_actions plain_device of
     Ok (ds, d) \<Rightarrow> map slot_of ds = [(0, 0)] \<and> tun_writes (sh_log (dv_shared d)) = [[9]] \<and>
       map_option ss_sender_index (get_by_index (sh_index (dv_shared d)) 5) = Some 5
   | _ \<Rightarrow> False"
  by code_simp

lemma plain_run:
  obtains ds d s where "device_run list_netlib plain_actions plain_device = Ok (ds, d)" "map slot_of ds = [(0, 0)]"
    "tun_writes (sh_log (dv_shared d)) = [[9]]" "get_by_index (sh_index (dv_shared d)) 5 = Some s"
  using plain_run_evaluated that by (auto split: result.splits)

lemma plain_run_ok:
  "crypto_laws (en_crypto plain_env)" "length (dc_private_key (plain_config (replicate 32 2))) = 32"
  "length plain_actions < 2 ^ 32" "list_all (action_ok (en_crypto plain_env)) plain_actions"
  using plain_crypto_laws
  by (simp_all add: plain_env_def plain_config_def plain_actions_def Let_def env_ok_def)

section \<open>Properties\<close>



text \<open>C3: The tasks of a device do not get stuck.  In every state a device reaches, the next action
  panics in exactly the cases of \<open>step_panics\<close>: the three kinds of inbound packets, an empty packet from the tunnel,
  a response the socket refuses; every other action returns normally.\<close>

theorem device_progress:
  assumes "crypto_laws (en_crypto en)" "length (dc_private_key cfg) = 32" "length as < 2 ^ 32"
    and "list_all (action_ok (en_crypto en)) as" "device_run nl as (device_new nl en rnd cfg peers) = Ok (ds, d)"
    and "action_ok (en_crypto en) a"
  shows "if step_panics a d then device_step nl a d = Panic else \<exists>d'. device_step nl a d = Ok d'"
proof -
  have "device_inv (en_crypto en) (dc_private_key cfg) (dc_fwmark cfg) rnd (length as) (see_all ds (\<lambda>_. {})) d"
    using run_from_new [OF assms(1,2) less_imp_le [OF assms(3)] assms(4,5)] by (simp add: step_post_def)
  then show ?thesis
    using device_step_yields [OF assms(1,2) _ assms(3,6), of "dc_fwmark cfg" rnd "see_all ds (\<lambda>_. {})" d nl]
    by (auto simp: yields_def split: if_splits)
qed

theorem device_progress_witness:
  "\<exists>ds d d'. device_run list_netlib plain_actions plain_device = Ok (ds, d) \<and>
     device_step list_netlib (HandshakeTurn (replicate 32 1) plain_env) d = Ok d' \<and>
     device_step list_netlib (TickInbound plain_env plain_endpoint [] [] [4, 0, 0, 0, 1]) d = Panic"
proof -
  obtain ds d where r: "device_run list_netlib plain_actions plain_device = Ok (ds, d)" using plain_run by metis
  have en: "env_ok (en_crypto plain_env) plain_env" by (simp add: env_ok_def plain_env_def)
  note progress = device_progress [OF plain_run_ok r [unfolded plain_device_def]]
  show ?thesis
    using progress [of "HandshakeTurn (replicate 32 1) plain_env"] en r
      progress [of "TickInbound plain_env plain_endpoint [] [] [4, 0, 0, 0, 1]"]
    by auto
qed

text \<open>C4: Sessions and slots of all peers stay in step.  In every state a device reaches, the sessions a
  receiver index leads to are exactly those in the slots of the listed peers, each under the key of its own peer,
  and a peer never holds two sessions with the same index.\<close>

theorem device_sessions_in_slots:
  assumes "crypto_laws (en_crypto en)" "length (dc_private_key cfg) = 32" "length as \<le> 2 ^ 32"
    and "list_all (action_ok (en_crypto en)) as" "device_run nl as (device_new nl en rnd cfg peers) = Ok (ds, d)"
  shows "(get_by_index (sh_index (dv_shared d)) i = Some s \<longleftrightarrow> ss_sender_index s = i \<and>
      (\<exists>e. pl_peers (dv_peers d) (session_key s) = Some e \<and>
         s \<in> set (slot_list (pr_sessions (pl_store (dv_peers d) ! pe_peer e))))) \<and>
    (pl_peers (dv_peers d) k = Some e \<longrightarrow>
      distinct (map ss_sender_index (slot_list (pr_sessions (pl_store (dv_peers d) ! pe_peer e)))))"
proof -
  have inv: "device_inv (en_crypto en) (dc_private_key cfg) (dc_fwmark cfg) rnd (length as) (see_all ds (\<lambda>_. {})) d"
    using run_from_new [OF assms] by (simp add: step_post_def)
  have slots: "slots_inv k (case pl_peers (dv_peers d) k of
      None \<Rightarrow> active_session_new | Some e \<Rightarrow> pr_sessions (pl_store (dv_peers d) ! pe_peer e), sh_index (dv_shared d))" for k
    using device_invD(4,5) [OF inv, of k] by (auto simp: peer_ok_def split: option.split)
  have "s \<in> index_elems (sh_index (dv_shared d)) \<longleftrightarrow> (\<exists>e. pl_peers (dv_peers d) (session_key s) = Some e \<and>
      s \<in> set (slot_list (pr_sessions (pl_store (dv_peers d) ! pe_peer e))))"
    using slots_invD(6) [OF slots [of "session_key s"]]
    by (auto simp: slot_list_def active_session_new_def split: option.splits)
  then show ?thesis
    using index_elems_iff [OF slots_invD(1) [OF slots]] slots_invD(7) [OF slots [of k]] by auto
qed

theorem device_sessions_in_slots_witness:
  "\<exists>ds d s e. device_run list_netlib plain_actions plain_device = Ok (ds, d) \<and>
     get_by_index (sh_index (dv_shared d)) 5 = Some s \<and> pl_peers (dv_peers d) (session_key s) = Some e \<and>
     s \<in> set (slot_list (pr_sessions (pl_store (dv_peers d) ! pe_peer e)))"
proof -
  obtain ds d s where r: "device_run list_netlib plain_actions plain_device = Ok (ds, d)"
      "get_by_index (sh_index (dv_shared d)) 5 = Some s"
    using plain_run by metis
  show ?thesis
    using device_sessions_in_slots [OF plain_run_ok(1,2) less_imp_le [OF plain_run_ok(3)] plain_run_ok(4)
        r(1) [unfolded plain_device_def], of 5 s] r by blast
qed

end
