(* ===== verification/Lifecycle.thy ===== *)
theory Lifecycle
  imports Prelude
begin

text \<open>
  The tasks of a device, how they are cancelled and what keeps them alive (\<open>vlink-tun\<close>: \<open>device/mod.rs\<close>, \<open>handle.rs\<close>,
  \<open>peer/peers.rs\<close>, \<open>peer/mod.rs\<close>, \<open>peer/handler.rs\<close>, \<open>transport/udp.rs\<close>).  A device runs two loops and a task that reads its sockets;
  each peer runs three loops, every one of which holds the peer.  Tasks stop when their cancellation token is cancelled.
  What a turn does is modelled elsewhere (\<open>Peer\<close>, \<open>Device\<close>); here a turn is one action.  The tokens are those of crate
  \<open>tokio-util\<close>, the parameter \<open>token_lib\<close>.
\<close>

section \<open>Cancellation tokens\<close>

record ('tt, 'k) token_lib =
  tl_empty :: 'tt
  tl_root :: "'tt \<Rightarrow> 'k \<times> 'tt"
  tl_child :: "'k \<Rightarrow> 'tt \<Rightarrow> 'k \<times> 'tt"
  tl_cancel :: "'k \<Rightarrow> 'tt \<Rightarrow> 'tt"
  tl_cancelled :: "'tt \<Rightarrow> 'k \<Rightarrow> bool"

text \<open>What is relied on, over the tokens made so far, their parents and those on which \<open>cancel\<close> was called: a token is
  cancelled when it or its parent is.  Dropping a token does nothing.\<close>

locale cancellation =
  fixes tk :: "('tt, 'k) token_lib" and known :: "'tt \<Rightarrow> 'k set" and parent :: "'tt \<Rightarrow> 'k \<Rightarrow> 'k option"
    and fired :: "'tt \<Rightarrow> 'k set"
  assumes empty: "known (tl_empty tk) = {}" "fired (tl_empty tk) = {}"
    and root: "tl_root tk tt = (k, tt') \<Longrightarrow> k \<notin> known tt \<and> known tt' = insert k (known tt) \<and>
      parent tt' = (parent tt)(k := None) \<and> fired tt' = fired tt"
    and child: "tl_child tk p tt = (k, tt') \<Longrightarrow> p \<in> known tt \<Longrightarrow> k \<notin> known tt \<and> known tt' = insert k (known tt) \<and>
      parent tt' = (parent tt)(k := Some p) \<and> fired tt' = fired tt"
    and cancel: "known (tl_cancel tk k tt) = known tt" "parent (tl_cancel tk k tt) = parent tt"
      "fired (tl_cancel tk k tt) = insert k (fired tt)"
    and cancelled: "k \<in> known tt \<Longrightarrow> fired tt \<subseteq> known tt \<Longrightarrow>
      tl_cancelled tk tt k \<longleftrightarrow> k \<in> fired tt \<or> (\<exists>p. parent tt k = Some p \<and> tl_cancelled tk tt p)"

text \<open>Tokens as places in a list of parents, with the list of those cancelled.\<close>

type_synonym plain_tree = "nat option list \<times> nat list"

definition plain_parent :: "plain_tree \<Rightarrow> nat \<Rightarrow> nat option" where
  "plain_parent tt k = (if k < length (fst tt) then case fst tt ! k of Some p \<Rightarrow> if p < k then Some p else None | None \<Rightarrow> None else None)"

lemma plain_parent_less: "plain_parent tt k = Some p \<Longrightarrow> p < k"
  by (auto simp: plain_parent_def split: if_splits option.splits)

function plain_cancelled :: "plain_tree \<Rightarrow> nat \<Rightarrow> bool" where
  "plain_cancelled tt k \<longleftrightarrow> k \<in> set (snd tt) \<or> (case plain_parent tt k of None \<Rightarrow> False | Some p \<Rightarrow> plain_cancelled tt p)"
  by pat_completeness auto
termination by (relation "measure snd") (auto dest: plain_parent_less)

declare plain_cancelled.simps [simp del]

definition plain_tokens :: "(plain_tree, nat) token_lib" where
  "plain_tokens =
     \<lparr>tl_empty = ([], []),
      tl_root = (\<lambda>(ps, f). (length ps, ps @ [None], f)),
      tl_child = (\<lambda>p (ps, f). (length ps, ps @ [Some p], f)),
      tl_cancel = (\<lambda>k (ps, f). (ps, k # f)),
      tl_cancelled = plain_cancelled\<rparr>"

interpretation plain_tree: cancellation plain_tokens "\<lambda>tt. {..<length (fst tt)}" plain_parent "\<lambda>tt. set (snd tt)"
proof unfold_locales
  show "tl_root plain_tokens tt = (k, tt') \<Longrightarrow> k \<notin> {..<length (fst tt)} \<and> {..<length (fst tt')} = insert k {..<length (fst tt)} \<and>
      plain_parent tt' = (plain_parent tt)(k := None) \<and> set (snd tt') = set (snd tt)" for tt k tt'
    by (cases tt) (auto simp: plain_tokens_def plain_parent_def nth_append fun_eq_iff)
  show "tl_child plain_tokens p tt = (k, tt') \<Longrightarrow> p \<in> {..<length (fst tt)} \<Longrightarrow> k \<notin> {..<length (fst tt)} \<and>
      {..<length (fst tt')} = insert k {..<length (fst tt)} \<and>
      plain_parent tt' = (plain_parent tt)(k := Some p) \<and> set (snd tt') = set (snd tt)" for p tt k tt'
    by (cases tt) (auto simp: plain_tokens_def plain_parent_def nth_append fun_eq_iff)
  show "tl_cancelled plain_tokens tt k \<longleftrightarrow> k \<in> set (snd tt) \<or> (\<exists>p. plain_parent tt k = Some p \<and> tl_cancelled plain_tokens tt p)" for tt k
    by (simp add: plain_tokens_def plain_cancelled.simps [of tt k] split: option.split)
qed (auto simp: plain_tokens_def plain_parent_def fun_eq_iff split: prod.split)

section \<open>The tasks of a device\<close>

datatype task_kind = UdpTask | DevInbound | DevOutbound | HandshakeLoop nat | InboundLoop nat | OutboundLoop nat

text \<open>Where a task stands: at the head of its loop, waiting for its peer to come online, sleeping, ended by its token or by
  an abort, or gone by itself, by a panic or an error of its socket.\<close>

datatype task_point = Running | AwaitOnline | Sleeping | Ended | Gone

record 'k task =
  ta_kind :: task_kind
  ta_token :: 'k
  ta_point :: task_point
  ta_turns :: nat

definition task_live :: "'k task \<Rightarrow> bool" where
  "task_live t \<longleftrightarrow> ta_point t \<noteq> Ended \<and> ta_point t \<noteq> Gone"

fun task_peer :: "task_kind \<Rightarrow> nat option" where
  "task_peer (HandshakeLoop k) = Some k"
| "task_peer (InboundLoop k) = Some k"
| "task_peer (OutboundLoop k) = Some k"
| "task_peer _ = None"

text \<open>A peer: its own token, that of its handle, whether it is online, the references to it besides those of the list and of
  its tasks, whether its entry was removed by \<open>clear\<close>, and whether it was dropped.\<close>

record 'k life_peer =
  lp_token :: 'k
  lp_handle :: 'k
  lp_online :: bool
  lp_others :: nat
  lp_removed :: bool
  lp_dropped :: bool

record ('tt, 'k) lifecycle =
  lf_tokens :: 'tt
  lf_device :: 'k
  lf_list :: 'k
  lf_tasks :: "'k task list"
  lf_peers :: "'k life_peer list"
  lf_listed :: "nat list"
  lf_pending :: "'k list"
  lf_owned :: bool
  lf_list_refs :: nat
  lf_list_alive :: bool

definition spawn_task :: "('tt, 'k) token_lib \<Rightarrow> 'k \<Rightarrow> task_kind \<Rightarrow> ('tt, 'k) lifecycle \<Rightarrow> ('tt, 'k) lifecycle" where
  "spawn_task tk up kind s =
     (let (k, tt) = tl_child tk up (lf_tokens s)
      in s\<lparr>lf_tokens := tt, lf_tasks := lf_tasks s @ [\<lparr>ta_kind = kind, ta_token = k, ta_point = Running, ta_turns = 0\<rparr>]\<rparr>)"

text \<open>\<open>PeerHandle::spawn\<close>: the three loops of a peer, each with a child of the token of the handle.\<close>

definition peer_handle_spawn :: "('tt, 'k) token_lib \<Rightarrow> 'k \<Rightarrow> nat \<Rightarrow> ('tt, 'k) lifecycle \<Rightarrow> ('tt, 'k) lifecycle" where
  "peer_handle_spawn tk handle n s =
     spawn_task tk handle (OutboundLoop n) (spawn_task tk handle (InboundLoop n) (spawn_task tk handle (HandshakeLoop n) s))"

text \<open>\<open>PeerList::insert\<close> of a new key: the token of the peer is made by \<open>Default\<close>, that of its handle is a child of it.\<close>

definition insert_entry :: "('tt, 'k) token_lib \<Rightarrow> bool \<Rightarrow> ('tt, 'k) lifecycle \<Rightarrow> ('tt, 'k) lifecycle" where
  "insert_entry tk online s =
     (if lf_list_alive s
      then let n = length (lf_peers s);
               (tok, tt) = tl_root tk (lf_tokens s);
               (handle, tt') = tl_child tk tok tt
           in peer_handle_spawn tk handle n
                (s\<lparr>lf_tokens := tt', lf_listed := lf_listed s @ [n],
                   lf_peers := lf_peers s @ [\<lparr>lp_token = tok, lp_handle = handle, lp_online = online, lp_others = 0,
                     lp_removed = False, lp_dropped = False\<rparr>]\<rparr>)
      else s)"

text \<open>\<open>DeviceHandle::spawn\<close>.\<close>

definition device_handle_spawn :: "('tt, 'k) token_lib \<Rightarrow> ('tt, 'k) lifecycle \<Rightarrow> ('tt, 'k) lifecycle" where
  "device_handle_spawn tk s = spawn_task tk (lf_device s) DevOutbound (spawn_task tk (lf_device s) DevInbound s)"

text \<open>\<open>Device::new\<close>: the token of the device, a child for the socket task, one for the list; the peers of the configuration; and
  the two loops.\<close>

definition life_new :: "('tt, 'k) token_lib \<Rightarrow> bool list \<Rightarrow> ('tt, 'k) lifecycle" where
  "life_new tk peers =
     (let (dev, tt) = tl_root tk (tl_empty tk);
          (list, tt') = tl_child tk dev tt;
          s = \<lparr>lf_tokens = tt', lf_device = dev, lf_list = list, lf_tasks = [], lf_peers = [], lf_listed = [],
               lf_pending = [], lf_owned = True, lf_list_refs = 0, lf_list_alive = True\<rparr>
      in device_handle_spawn tk (fold (insert_entry tk) peers (spawn_task tk dev UdpTask s)))"

section \<open>What happens to them\<close>

text \<open>\<open>PeerList::clear\<close> removes the entries and spawns the cancellation of each handle, which runs later.\<close>

definition life_clear :: "('tt, 'k) lifecycle \<Rightarrow> ('tt, 'k) lifecycle" where
  "life_clear s =
     (if lf_list_alive s
      then s\<lparr>lf_pending := lf_pending s @ map (\<lambda>k. lp_handle (lf_peers s ! k)) (lf_listed s), lf_listed := [],
             lf_peers := map (\<lambda>k. if k \<in> set (lf_listed s) then (lf_peers s ! k)\<lparr>lp_removed := True\<rparr> else lf_peers s ! k)
               [0..<length (lf_peers s)]\<rparr>
      else s)"

text \<open>\<open>PeerHandle::cancel\<close>: the token is cancelled; the handles it would wait for and abort are an empty vector.\<close>

definition handle_cancel :: "('tt, 'k) token_lib \<Rightarrow> nat \<Rightarrow> ('tt, 'k) lifecycle \<Rightarrow> ('tt, 'k) lifecycle" where
  "handle_cancel tk i s =
     (if i < length (lf_pending s)
      then s\<lparr>lf_tokens := tl_cancel tk (lf_pending s ! i) (lf_tokens s), lf_pending := take i (lf_pending s) @ drop (Suc i) (lf_pending s)\<rparr>
      else s)"

text \<open>A poll of a task.  Where a loop selects, \<open>event\<close> says that another branch than the cancellation is taken.  The
  handshake loop looks at its token only at its head.\<close>

definition task_poll :: "('tt, 'k) token_lib \<Rightarrow> bool \<Rightarrow> ('tt, 'k) lifecycle \<Rightarrow> 'k task \<Rightarrow> 'k task" where
  "task_poll tk event s t =
     (let stop = tl_cancelled tk (lf_tokens s) (ta_token t) in
      if \<not> task_live t then t
      else case ta_kind t of
             HandshakeLoop k \<Rightarrow>
               (case ta_point t of
                  Running \<Rightarrow>
                    if stop then t\<lparr>ta_point := Ended\<rparr>
                    else if lp_online (lf_peers s ! k) then t\<lparr>ta_point := Sleeping, ta_turns := ta_turns t + 1\<rparr>
                    else t\<lparr>ta_point := AwaitOnline\<rparr>
                | AwaitOnline \<Rightarrow>
                    if lp_online (lf_peers s ! k) then t\<lparr>ta_point := Sleeping, ta_turns := ta_turns t + 1\<rparr> else t
                | _ \<Rightarrow> t\<lparr>ta_point := Running\<rparr>)
           | _ \<Rightarrow> if stop \<and> \<not> event then t\<lparr>ta_point := Ended\<rparr>
                  else if event then t\<lparr>ta_turns := ta_turns t + 1\<rparr> else t)"

definition on_task :: "nat \<Rightarrow> ('k task \<Rightarrow> 'k task) \<Rightarrow> ('tt, 'k) lifecycle \<Rightarrow> ('tt, 'k) lifecycle" where
  "on_task i f s = (if i < length (lf_tasks s) then s\<lparr>lf_tasks := (lf_tasks s)[i := f (lf_tasks s ! i)]\<rparr> else s)"

definition on_life_peer :: "nat \<Rightarrow> ('k life_peer \<Rightarrow> 'k life_peer) \<Rightarrow> ('tt, 'k) lifecycle \<Rightarrow> ('tt, 'k) lifecycle" where
  "on_life_peer k f s = (if k < length (lf_peers s) then s\<lparr>lf_peers := (lf_peers s)[k := f (lf_peers s ! k)]\<rparr> else s)"

text \<open>The references to a peer, and its \<open>Drop\<close> once there is none.\<close>

definition peer_refs :: "nat \<Rightarrow> ('tt, 'k) lifecycle \<Rightarrow> nat" where
  "peer_refs k s = count_list (lf_listed s) k
     + length (filter (\<lambda>t. task_peer (ta_kind t) = Some k \<and> task_live t) (lf_tasks s)) + lp_others (lf_peers s ! k)"

definition peer_drop :: "('tt, 'k) token_lib \<Rightarrow> nat \<Rightarrow> ('tt, 'k) lifecycle \<Rightarrow> ('tt, 'k) lifecycle" where
  "peer_drop tk k s =
     (if k < length (lf_peers s) \<and> \<not> lp_dropped (lf_peers s ! k) \<and> peer_refs k s = 0
      then on_life_peer k (\<lambda>p. p\<lparr>lp_dropped := True\<rparr>) (s\<lparr>lf_tokens := tl_cancel tk (lp_token (lf_peers s ! k)) (lf_tokens s)\<rparr>)
      else s)"

text \<open>\<open>Drop\<close> of the list: its token is cancelled, its entries are dropped with their handles, which cancels nothing.\<close>

definition list_drop :: "('tt, 'k) token_lib \<Rightarrow> ('tt, 'k) lifecycle \<Rightarrow> ('tt, 'k) lifecycle" where
  "list_drop tk s =
     (if lf_list_alive s \<and> \<not> lf_owned s \<and> lf_list_refs s = 0
      then s\<lparr>lf_tokens := tl_cancel tk (lf_list s) (lf_tokens s), lf_listed := [], lf_list_alive := False\<rparr>
      else s)"

text \<open>The device is dropped: its loops are aborted and with them the last references to what it shares.\<close>

definition device_drop :: "('tt, 'k) token_lib \<Rightarrow> ('tt, 'k) lifecycle \<Rightarrow> ('tt, 'k) lifecycle" where
  "device_drop tk s =
     (if lf_owned s
      then list_drop tk (s\<lparr>lf_owned := False,
             lf_tasks := map (\<lambda>t. if ta_kind t \<in> {DevInbound, DevOutbound} \<and> task_live t then t\<lparr>ta_point := Ended\<rparr> else t) (lf_tasks s)\<rparr>)
      else s)"

datatype life_act = InsertPeer bool | ClearPeers | RunCancel nat | Poll nat bool | TaskPanics nat | SetOnline nat bool
  | ClonePeer nat | ReleasePeer nat | DropPeer nat | CloneList | ReleaseList | DropDevice | SocketFails nat

fun life_do :: "('tt, 'k) token_lib \<Rightarrow> life_act \<Rightarrow> ('tt, 'k) lifecycle \<Rightarrow> ('tt, 'k) lifecycle" where
  "life_do tk (InsertPeer online) s = insert_entry tk online s"
| "life_do tk ClearPeers s = life_clear s"
| "life_do tk (RunCancel i) s = handle_cancel tk i s"
| "life_do tk (Poll i event) s = on_task i (task_poll tk event s) s"
| "life_do tk (TaskPanics i) s = on_task i (\<lambda>t. if task_live t then t\<lparr>ta_point := Gone\<rparr> else t) s"
| "life_do tk (SetOnline k v) s = on_life_peer k (\<lambda>p. p\<lparr>lp_online := v\<rparr>) s"
| "life_do tk (ClonePeer k) s = (if k < length (lf_peers s) \<and> 0 < peer_refs k s then on_life_peer k (\<lambda>p. p\<lparr>lp_others := Suc (lp_others p)\<rparr>) s else s)"
| "life_do tk (ReleasePeer k) s = on_life_peer k (\<lambda>p. p\<lparr>lp_others := lp_others p - 1\<rparr>) s"
| "life_do tk (DropPeer k) s = peer_drop tk k s"
| "life_do tk CloneList s = (if lf_list_alive s then s\<lparr>lf_list_refs := Suc (lf_list_refs s)\<rparr> else s)"
| "life_do tk ReleaseList s = list_drop tk (s\<lparr>lf_list_refs := lf_list_refs s - 1\<rparr>)"
| "life_do tk DropDevice s = device_drop tk s"
| "life_do tk (SocketFails i) s = on_task i (\<lambda>t. if task_live t \<and> ta_kind t = UdpTask then t\<lparr>ta_point := Gone\<rparr> else t) s"

definition life_run :: "('tt, 'k) token_lib \<Rightarrow> life_act list \<Rightarrow> ('tt, 'k) lifecycle \<Rightarrow> ('tt, 'k) lifecycle" where
  "life_run tk acts s = fold (life_do tk) acts s"

section \<open>What keeps a task running\<close>

definition roles :: "('tt, 'k) lifecycle \<Rightarrow> 'k list" where
  "roles s = lf_device s # lf_list s # map lp_token (lf_peers s) @ map lp_handle (lf_peers s)"

text \<open>\<open>cancel\<close> has been called on the token of the list, on handles of removed entries and on tokens of dropped peers only.\<close>

definition may_fire :: "('tt, 'k) lifecycle \<Rightarrow> 'k set" where
  "may_fire s = insert (lf_list s)
     ({lp_handle (lf_peers s ! j) |j. j < length (lf_peers s) \<and> lp_removed (lf_peers s ! j)} \<union>
      {lp_token (lf_peers s ! j) |j. j < length (lf_peers s) \<and> lp_dropped (lf_peers s ! j)})"

definition tokens_ok :: "('tt \<Rightarrow> 'k set) \<Rightarrow> ('tt \<Rightarrow> 'k \<Rightarrow> 'k option) \<Rightarrow> ('tt \<Rightarrow> 'k set) \<Rightarrow> ('tt, 'k) lifecycle \<Rightarrow> bool" where
  "tokens_ok known parent fired s \<longleftrightarrow>
     distinct (roles s) \<and> set (roles s) \<subseteq> known (lf_tokens s) \<and> parent (lf_tokens s) (lf_device s) = None \<and>
     fired (lf_tokens s) \<subseteq> may_fire s \<and>
     (\<forall>j < length (lf_peers s). parent (lf_tokens s) (lp_token (lf_peers s ! j)) = None \<and>
        parent (lf_tokens s) (lp_handle (lf_peers s ! j)) = Some (lp_token (lf_peers s ! j)))"

definition task_ok :: "('tt \<Rightarrow> 'k set) \<Rightarrow> ('tt \<Rightarrow> 'k \<Rightarrow> 'k option) \<Rightarrow> ('tt, 'k) lifecycle \<Rightarrow> 'k task \<Rightarrow> bool" where
  "task_ok known parent s t \<longleftrightarrow> ta_token t \<in> known (lf_tokens s) - set (roles s) \<and>
     (case task_peer (ta_kind t) of
        None \<Rightarrow> parent (lf_tokens s) (ta_token t) = Some (lf_device s) \<and> (ta_point t = Ended \<longrightarrow> ta_kind t \<noteq> UdpTask \<and> \<not> lf_owned s)
      | Some k \<Rightarrow> k < length (lf_peers s) \<and> parent (lf_tokens s) (ta_token t) = Some (lp_handle (lf_peers s ! k)) \<and>
          (ta_point t = Ended \<longrightarrow> lp_removed (lf_peers s ! k)) \<and> (lp_dropped (lf_peers s ! k) \<longrightarrow> \<not> task_live t))"

text \<open>The handle of every removed entry is cancelled or about to be.\<close>

definition entries_ok :: "('tt \<Rightarrow> 'k set) \<Rightarrow> ('tt, 'k) lifecycle \<Rightarrow> bool" where
  "entries_ok fired s \<longleftrightarrow> set (lf_pending s) \<subseteq> may_fire s \<and> set (lf_listed s) \<subseteq> {..<length (lf_peers s)} \<and>
     (\<forall>j < length (lf_peers s). lp_removed (lf_peers s ! j) \<longrightarrow>
        lp_handle (lf_peers s ! j) \<in> set (lf_pending s) \<union> fired (lf_tokens s))"

definition life_inv :: "('tt \<Rightarrow> 'k set) \<Rightarrow> ('tt \<Rightarrow> 'k \<Rightarrow> 'k option) \<Rightarrow> ('tt \<Rightarrow> 'k set) \<Rightarrow> ('tt, 'k) lifecycle \<Rightarrow> bool" where
  "life_inv known parent fired s \<longleftrightarrow> tokens_ok known parent fired s \<and> (\<forall>t \<in> set (lf_tasks s). task_ok known parent s t) \<and> entries_ok fired s"

lemma may_fire_roles: "may_fire s \<subseteq> set (roles s)"
  by (auto simp: may_fire_def roles_def)

lemma roles_distinct:
  assumes "distinct (roles s)" "k < length (lf_peers s)" "j < length (lf_peers s)"
  shows "lp_handle (lf_peers s ! k) = lp_handle (lf_peers s ! j) \<longleftrightarrow> k = j" "lp_token (lf_peers s ! k) = lp_token (lf_peers s ! j) \<longleftrightarrow> k = j"
    "lp_handle (lf_peers s ! k) \<noteq> lp_token (lf_peers s ! j)" "lp_handle (lf_peers s ! k) \<noteq> lf_list s" "lp_token (lf_peers s ! k) \<noteq> lf_list s"
proof -
  have d: "distinct (map lp_token (lf_peers s))" "distinct (map lp_handle (lf_peers s))"
      "set (map lp_token (lf_peers s)) \<inter> set (map lp_handle (lf_peers s)) = {}"
    using assms(1) by (auto simp: roles_def)
  show "lp_handle (lf_peers s ! k) = lp_handle (lf_peers s ! j) \<longleftrightarrow> k = j" "lp_token (lf_peers s ! k) = lp_token (lf_peers s ! j) \<longleftrightarrow> k = j"
    using d(1,2) assms(2,3) by (metis length_map nth_eq_iff_index_eq nth_map)+
  show "lp_handle (lf_peers s ! k) \<noteq> lp_token (lf_peers s ! j)"
    using d(3) assms(2,3) by (metis disjoint_iff imageI list.set_map nth_mem)
  show "lp_handle (lf_peers s ! k) \<noteq> lf_list s" "lp_token (lf_peers s ! k) \<noteq> lf_list s"
    using assms(1) nth_mem [OF assms(2)] by (auto simp: roles_def image_iff)
qed

lemma may_fireI:
  "lf_list s \<in> may_fire s"
  "j < length (lf_peers s) \<Longrightarrow> lp_removed (lf_peers s ! j) \<Longrightarrow> lp_handle (lf_peers s ! j) \<in> may_fire s"
  "j < length (lf_peers s) \<Longrightarrow> lp_dropped (lf_peers s ! j) \<Longrightarrow> lp_token (lf_peers s ! j) \<in> may_fire s"
  by (auto simp: may_fire_def)

lemma may_fire_mono:
  assumes "lf_list s' = lf_list s" "length (lf_peers s') = length (lf_peers s)"
    and "\<And>j. j < length (lf_peers s) \<Longrightarrow> lp_token (lf_peers s' ! j) = lp_token (lf_peers s ! j) \<and>
       lp_handle (lf_peers s' ! j) = lp_handle (lf_peers s ! j) \<and> (lp_removed (lf_peers s ! j) \<longrightarrow> lp_removed (lf_peers s' ! j)) \<and>
       (lp_dropped (lf_peers s ! j) \<longrightarrow> lp_dropped (lf_peers s' ! j))"
  shows "may_fire s \<subseteq> may_fire s'"
proof
  fix x assume "x \<in> may_fire s"
  then consider "x = lf_list s" | j where "j < length (lf_peers s)" "x = lp_handle (lf_peers s ! j)" "lp_removed (lf_peers s ! j)"
    | j where "j < length (lf_peers s)" "x = lp_token (lf_peers s ! j)" "lp_dropped (lf_peers s ! j)"
    by (auto simp: may_fire_def)
  then show "x \<in> may_fire s'"
    by cases (use assms may_fireI [where s = s'] in metis)+
qed

lemma device_not_fire: "distinct (roles s) \<Longrightarrow> lf_device s \<notin> may_fire s"
proof -
  assume "distinct (roles s)"
  moreover have "may_fire s \<subseteq> set (lf_list s # map lp_token (lf_peers s) @ map lp_handle (lf_peers s))"
    by (auto simp: may_fire_def)
  ultimately show ?thesis unfolding roles_def by auto
qed

lemma fire_iff:
  assumes "distinct (roles s)" "k < length (lf_peers s)"
  shows "lp_handle (lf_peers s ! k) \<in> may_fire s \<longleftrightarrow> lp_removed (lf_peers s ! k)"
    and "lp_token (lf_peers s ! k) \<in> may_fire s \<longleftrightarrow> lp_dropped (lf_peers s ! k)"
proof -
  note r = roles_distinct [OF assms] and r' = roles_distinct(3) [OF assms(1) _ assms(2)]
  show "lp_handle (lf_peers s ! k) \<in> may_fire s \<longleftrightarrow> lp_removed (lf_peers s ! k)"
    using assms(2) r(4) [OF assms(2)] r(3) r(1) unfolding may_fire_def by blast
  show "lp_token (lf_peers s ! k) \<in> may_fire s \<longleftrightarrow> lp_dropped (lf_peers s ! k)"
    using assms(2) r(5) [OF assms(2)] r(2) r' [THEN not_sym] unfolding may_fire_def by blast
qed

lemma spawn_task_fields:
  "lf_peers (spawn_task tk up kind s) = lf_peers s" "lf_device (spawn_task tk up kind s) = lf_device s"
  "lf_owned (spawn_task tk up kind s) = lf_owned s"
  by (simp_all add: spawn_task_def split: prod.split)

context cancellation
begin

lemma fired_known: "tokens_ok known parent fired s \<Longrightarrow> fired (lf_tokens s) \<subseteq> known (lf_tokens s)"
  unfolding tokens_ok_def using may_fire_roles [of s] by blast

lemma task_token_not_fired:
  assumes "tokens_ok known parent fired s" "task_ok known parent s t"
  shows "ta_token t \<notin> fired (lf_tokens s)"
  using assms may_fire_roles [of s] unfolding tokens_ok_def task_ok_def by blast

text \<open>A task of the device itself is never cancelled: nothing cancels the token of the device.\<close>

lemma device_task_not_cancelled:
  assumes "tokens_ok known parent fired s" "task_ok known parent s t" "task_peer (ta_kind t) = None"
  shows "\<not> tl_cancelled tk (lf_tokens s) (ta_token t)"
proof -
  note ok = assms(1)[unfolded tokens_ok_def] and c = cancelled [OF _ fired_known [OF assms(1)]]
  have dev: "lf_device s \<in> known (lf_tokens s)" "lf_device s \<notin> fired (lf_tokens s)" "parent (lf_tokens s) (lf_device s) = None"
    using ok device_not_fire [of s] by (auto simp: roles_def)
  have "parent (lf_tokens s) (ta_token t) = Some (lf_device s)" "ta_token t \<in> known (lf_tokens s)"
    using assms(2,3) by (simp_all add: task_ok_def)
  then show ?thesis using c [of "ta_token t"] c [OF dev(1)] dev task_token_not_fired [OF assms(1,2)] by simp
qed

text \<open>A live task of a peer is cancelled exactly when \<open>cancel\<close> ran for the handle of the peer, and then its entry was removed.\<close>

lemma peer_task_cancelled:
  assumes "tokens_ok known parent fired s" "task_ok known parent s t" "task_peer (ta_kind t) = Some k" "task_live t"
  shows "tl_cancelled tk (lf_tokens s) (ta_token t) \<longleftrightarrow> lp_handle (lf_peers s ! k) \<in> fired (lf_tokens s)"
    and "lp_handle (lf_peers s ! k) \<in> fired (lf_tokens s) \<Longrightarrow> lp_removed (lf_peers s ! k)"
proof -
  let ?p = "lf_peers s ! k"
  note ok = assms(1)[unfolded tokens_ok_def] and c = cancelled [OF _ fired_known [OF assms(1)]]
  have k: "k < length (lf_peers s)" "parent (lf_tokens s) (ta_token t) = Some (lp_handle ?p)" "\<not> lp_dropped ?p"
      "ta_token t \<in> known (lf_tokens s)"
    using assms(2-4) by (auto simp: task_ok_def)
  have p: "?p \<in> set (lf_peers s)" using k(1) by simp
  have kn: "lp_handle ?p \<in> known (lf_tokens s)" "lp_token ?p \<in> known (lf_tokens s)"
    "parent (lf_tokens s) (lp_token ?p) = None" "parent (lf_tokens s) (lp_handle ?p) = Some (lp_token ?p)"
    using ok p k(1) by (auto simp: roles_def)
  have "lp_token ?p \<notin> may_fire s" using fire_iff(2) [OF conjunct1 [OF ok] k(1)] k(3) by simp
  then have "lp_token ?p \<notin> fired (lf_tokens s)" using ok by blast
  then show "tl_cancelled tk (lf_tokens s) (ta_token t) \<longleftrightarrow> lp_handle ?p \<in> fired (lf_tokens s)"
    using c [OF k(4)] c [OF kn(1)] c [OF kn(2)] kn(3,4) k(2) task_token_not_fired [OF assms(1,2)] by simp
  show "lp_removed ?p" if "lp_handle ?p \<in> fired (lf_tokens s)"
    using fire_iff(1) [OF conjunct1 [OF ok] k(1)] that ok by blast
qed

text \<open>What keeps the invariant: changes to flags and cancellations, given what they may be, and new tasks.\<close>

lemma life_inv_flags:
  assumes inv: "life_inv known parent fired s"
    and same: "lf_device s' = lf_device s" "lf_list s' = lf_list s" "lf_tasks s' = lf_tasks s"
      "known (lf_tokens s') = known (lf_tokens s)" "parent (lf_tokens s') = parent (lf_tokens s)"
      "lf_owned s' \<longrightarrow> lf_owned s" "length (lf_peers s') = length (lf_peers s)"
    and peers: "\<And>j. j < length (lf_peers s) \<Longrightarrow> lp_token (lf_peers s' ! j) = lp_token (lf_peers s ! j) \<and>
       lp_handle (lf_peers s' ! j) = lp_handle (lf_peers s ! j) \<and> (lp_removed (lf_peers s ! j) \<longrightarrow> lp_removed (lf_peers s' ! j)) \<and>
       (lp_dropped (lf_peers s' ! j) \<longrightarrow> lp_dropped (lf_peers s ! j) \<or>
          (\<forall>t \<in> set (lf_tasks s). task_peer (ta_kind t) = Some j \<longrightarrow> \<not> task_live t))"
    and fire: "fired (lf_tokens s') \<subseteq> may_fire s'" and entries: "entries_ok fired s'"
  shows "life_inv known parent fired s'"
proof -
  have "map lp_token (lf_peers s') = map lp_token (lf_peers s)" "map lp_handle (lf_peers s') = map lp_handle (lf_peers s)"
    using peers same(7) by (auto intro!: nth_equalityI)
  then have roles: "roles s' = roles s" using same by (simp add: roles_def)
  have "tokens_ok known parent fired s'"
    using inv peers fire same unfolding life_inv_def tokens_ok_def roles by simp
  moreover have "task_ok known parent s' t" if "t \<in> set (lf_tasks s)" for t
    using inv that peers same(4-7) unfolding life_inv_def task_ok_def roles same(1) by (auto split: option.splits)
  ultimately show ?thesis using entries same(3) by (simp add: life_inv_def)
qed

lemma on_task_inv:
  assumes inv: "life_inv known parent fired s"
    and f: "\<And>t. t \<in> set (lf_tasks s) \<Longrightarrow> task_ok known parent s t \<Longrightarrow> task_ok known parent s (f t)"
  shows "life_inv known parent fired (on_task i f s)"
proof (cases "i < length (lf_tasks s)")
  case True
  let ?ts = "(lf_tasks s)[i := f (lf_tasks s ! i)]"
  let ?s = "s\<lparr>lf_tasks := ?ts\<rparr>"
  have same: "roles ?s = roles s" "may_fire ?s = may_fire s" by (simp_all add: roles_def may_fire_def)
  have ok: "task_ok known parent ?s t = task_ok known parent s t" for t by (simp add: task_ok_def same split: option.split)
  have "\<forall>t \<in> set ?ts. task_ok known parent s t"
    using inv f True set_update_subset_insert [of "lf_tasks s" i] unfolding life_inv_def by fastforce
  then have "life_inv known parent fired ?s"
    using inv unfolding life_inv_def tokens_ok_def entries_ok_def same by (simp add: ok)
  then show ?thesis using True by (simp add: on_task_def)
qed (use inv in \<open>simp add: on_task_def\<close>)

lemma task_poll_ok:
  assumes "life_inv known parent fired s" "task_ok known parent s t"
  shows "task_ok known parent s (task_poll tk e s t)"
proof -
  have ok: "tokens_ok known parent fired s" using assms by (auto simp: life_inv_def)
  have stop: "task_peer (ta_kind t) = None \<Longrightarrow> \<not> tl_cancelled tk (lf_tokens s) (ta_token t)"
    "task_peer (ta_kind t) = Some k \<Longrightarrow> task_live t \<Longrightarrow> tl_cancelled tk (lf_tokens s) (ta_token t) \<Longrightarrow> lp_removed (lf_peers s ! k)" for k
    using device_task_not_cancelled [OF ok assms(2)] peer_task_cancelled [OF ok assms(2)] by blast+
  then show ?thesis
    using assms(2) by (auto simp: task_poll_def Let_def task_ok_def task_live_def split: task_kind.splits task_point.splits)
qed

lemma on_peer_inv:
  assumes inv: "life_inv known parent fired s"
    and f: "\<And>p. lp_token (f p) = lp_token p \<and> lp_handle (f p) = lp_handle p \<and> lp_removed (f p) = lp_removed p \<and> lp_dropped (f p) = lp_dropped p"
  shows "life_inv known parent fired (on_life_peer k f s)"
proof -
  let ?s = "on_life_peer k f s"
  have nth: "lp_token (lf_peers ?s ! j) = lp_token (lf_peers s ! j)" "lp_handle (lf_peers ?s ! j) = lp_handle (lf_peers s ! j)"
      "lp_removed (lf_peers ?s ! j) = lp_removed (lf_peers s ! j)" "lp_dropped (lf_peers ?s ! j) = lp_dropped (lf_peers s ! j)" for j
    using f by (cases "j = k"; cases "j < length (lf_peers s)"; simp add: on_life_peer_def)+
  have same: "lf_device ?s = lf_device s" "lf_list ?s = lf_list s" "lf_tasks ?s = lf_tasks s" "lf_tokens ?s = lf_tokens s"
      "lf_owned ?s = lf_owned s" "length (lf_peers ?s) = length (lf_peers s)" "lf_pending ?s = lf_pending s" "lf_listed ?s = lf_listed s"
    by (simp_all add: on_life_peer_def)
  have "may_fire ?s = may_fire s" by (simp add: may_fire_def nth same)
  then show ?thesis
    using inv nth by (intro life_inv_flags [OF inv]) (simp_all add: life_inv_def tokens_ok_def entries_ok_def same)
qed

lemma life_clear_inv:
  assumes inv: "life_inv known parent fired s"
  shows "life_inv known parent fired (life_clear s)"
proof (cases "lf_list_alive s")
  case True
  let ?s = "life_clear s"
  have nth: "lf_peers ?s ! j = (if j \<in> set (lf_listed s) then (lf_peers s ! j)\<lparr>lp_removed := True\<rparr> else lf_peers s ! j)"
    if "j < length (lf_peers s)" for j using that True by (simp add: life_clear_def)
  have same: "lf_device ?s = lf_device s" "lf_list ?s = lf_list s" "lf_tasks ?s = lf_tasks s" "lf_tokens ?s = lf_tokens s"
      "lf_owned ?s = lf_owned s" "length (lf_peers ?s) = length (lf_peers s)" "lf_listed ?s = []"
      "lf_pending ?s = lf_pending s @ map (\<lambda>k. lp_handle (lf_peers s ! k)) (lf_listed s)"
    using True by (simp_all add: life_clear_def)
  have listed: "k < length (lf_peers s)" if "k \<in> set (lf_listed s)" for k
    using inv that by (auto simp: life_inv_def entries_ok_def)
  have sub: "may_fire s \<subseteq> may_fire ?s"
    by (rule may_fire_mono) (simp_all add: same nth)
  have new: "lp_handle (lf_peers s ! k) \<in> may_fire ?s" if "k \<in> set (lf_listed s)" for k
    using may_fireI(2) [where s = ?s, of k] nth [OF listed [OF that]] that listed [OF that] by (simp add: same)
  show ?thesis
  proof (rule life_inv_flags [OF inv])
    show "fired (lf_tokens ?s) \<subseteq> may_fire ?s" using inv sub by (auto simp: life_inv_def tokens_ok_def same)
    show "entries_ok fired ?s"
      using inv sub new nth unfolding life_inv_def entries_ok_def same by auto
  qed (simp_all add: same nth)
qed (use inv in \<open>simp add: life_clear_def\<close>)

text \<open>One more token cancelled, of those that may be.\<close>

lemma cancel_inv:
  assumes inv: "life_inv known parent fired s" and k: "k \<in> may_fire s"
  shows "life_inv known parent fired (s\<lparr>lf_tokens := tl_cancel tk k (lf_tokens s)\<rparr>)"
proof -
  have "may_fire (s\<lparr>lf_tokens := t\<rparr>) = may_fire s" for t by (simp add: may_fire_def)
  then show ?thesis
    using inv k by (intro life_inv_flags [OF inv]) (auto simp: life_inv_def tokens_ok_def entries_ok_def cancel)
qed

lemma handle_cancel_inv:
  assumes inv: "life_inv known parent fired s"
  shows "life_inv known parent fired (handle_cancel tk i s)"
proof (cases "i < length (lf_pending s)")
  case True
  let ?k = "lf_pending s ! i"
  let ?rest = "take i (lf_pending s) @ drop (Suc i) (lf_pending s)"
  have set: "set (lf_pending s) = insert ?k (set ?rest)"
    using id_take_nth_drop [OF True] by (metis Un_insert_right list.simps(15) set_append)
  have k: "?k \<in> may_fire s" using inv True nth_mem by (auto simp: life_inv_def entries_ok_def)
  note c = cancel_inv [OF inv k]
  have "may_fire (s\<lparr>lf_tokens := t, lf_pending := q\<rparr>) = may_fire s" for t q by (simp add: may_fire_def)
  then have "life_inv known parent fired (s\<lparr>lf_tokens := tl_cancel tk ?k (lf_tokens s), lf_pending := ?rest\<rparr>)"
    using inv k set by (intro life_inv_flags [OF c]) (auto simp: life_inv_def tokens_ok_def entries_ok_def cancel)
  then show ?thesis using True by (simp add: handle_cancel_def)
qed (use inv in \<open>simp add: handle_cancel_def\<close>)

lemma peer_drop_inv:
  assumes inv: "life_inv known parent fired s"
  shows "life_inv known parent fired (peer_drop tk k s)"
proof (cases "k < length (lf_peers s) \<and> \<not> lp_dropped (lf_peers s ! k) \<and> peer_refs k s = 0")
  case True
  let ?s = "peer_drop tk k s"
  have nth: "lf_peers ?s ! j = (if j = k then (lf_peers s ! j)\<lparr>lp_dropped := True\<rparr> else lf_peers s ! j)" for j
    using True by (simp add: peer_drop_def on_life_peer_def)
  have same: "lf_device ?s = lf_device s" "lf_list ?s = lf_list s" "lf_tasks ?s = lf_tasks s"
      "lf_tokens ?s = tl_cancel tk (lp_token (lf_peers s ! k)) (lf_tokens s)"
      "lf_owned ?s = lf_owned s" "length (lf_peers ?s) = length (lf_peers s)" "lf_listed ?s = lf_listed s" "lf_pending ?s = lf_pending s"
    using True by (simp_all add: peer_drop_def on_life_peer_def)
  have fire: "may_fire ?s = insert (lp_token (lf_peers s ! k)) (may_fire s)"
    unfolding may_fire_def same nth using True by auto
  have dead: "\<forall>t \<in> set (lf_tasks s). task_peer (ta_kind t) = Some k \<longrightarrow> \<not> task_live t"
    using True by (auto simp: peer_refs_def filter_empty_conv)
  show ?thesis
  proof (rule life_inv_flags [OF inv])
    show "fired (lf_tokens ?s) \<subseteq> may_fire ?s" using inv by (auto simp: life_inv_def tokens_ok_def fire same cancel)
    show "entries_ok fired ?s"
      using inv by (auto simp: life_inv_def entries_ok_def fire same nth cancel)
  qed (use dead in \<open>auto simp: same nth cancel\<close>)
qed (use inv in \<open>auto simp: peer_drop_def\<close>)

lemma list_drop_inv:
  assumes inv: "life_inv known parent fired s"
  shows "life_inv known parent fired (list_drop tk s)"
proof (cases "lf_list_alive s \<and> \<not> lf_owned s \<and> lf_list_refs s = 0")
  case True
  have c: "life_inv known parent fired (s\<lparr>lf_tokens := tl_cancel tk (lf_list s) (lf_tokens s)\<rparr>)"
    by (rule cancel_inv [OF inv]) (simp add: may_fire_def)
  have "may_fire (list_drop tk s) = may_fire s" by (simp add: may_fire_def list_drop_def)
  then show ?thesis
    using c True by (intro life_inv_flags [OF c]) (auto simp: life_inv_def tokens_ok_def entries_ok_def list_drop_def may_fire_def)
qed (use inv in \<open>auto simp: list_drop_def\<close>)

lemma device_drop_inv:
  assumes inv: "life_inv known parent fired s"
  shows "life_inv known parent fired (device_drop tk s)"
proof (cases "lf_owned s")
  case True
  define f :: "'k task \<Rightarrow> 'k task" where "f = (\<lambda>t. if ta_kind t \<in> {DevInbound, DevOutbound} \<and> task_live t then t\<lparr>ta_point := Ended\<rparr> else t)"
  let ?s = "s\<lparr>lf_owned := False, lf_tasks := map f (lf_tasks s)\<rparr>"
  have same: "roles ?s = roles s" "may_fire ?s = may_fire s" by (simp_all add: roles_def may_fire_def)
  have "task_ok known parent ?s (f t)" if "t \<in> set (lf_tasks s)" for t
    using inv that unfolding life_inv_def task_ok_def same by (auto simp: f_def task_live_def split: option.splits)
  then have "life_inv known parent fired ?s"
    using inv unfolding life_inv_def tokens_ok_def entries_ok_def same by simp
  then show ?thesis using True list_drop_inv by (simp add: device_drop_def f_def)
qed (use inv in \<open>simp add: device_drop_def\<close>)

lemma spawn_task_inv:
  assumes inv: "life_inv known parent fired s"
    and up: "case task_peer kind of None \<Rightarrow> up = lf_device s
      | Some j \<Rightarrow> j < length (lf_peers s) \<and> up = lp_handle (lf_peers s ! j) \<and> \<not> lp_dropped (lf_peers s ! j)"
  shows "life_inv known parent fired (spawn_task tk up kind s)"
proof -
  obtain k tt where kt: "tl_child tk up (lf_tokens s) = (k, tt)" by (cases "tl_child tk up (lf_tokens s)")
  have "up \<in> set (roles s)" using up by (auto simp: roles_def split: option.splits)
  then have "up \<in> known (lf_tokens s)" using inv by (auto simp: life_inv_def tokens_ok_def)
  note c = child [OF kt this]
  let ?t = "\<lparr>ta_kind = kind, ta_token = k, ta_point = Running, ta_turns = 0\<rparr>"
  let ?s = "s\<lparr>lf_tokens := tt, lf_tasks := lf_tasks s @ [?t]\<rparr>"
  have same: "roles ?s = roles s" "may_fire ?s = may_fire s" by (simp_all add: roles_def may_fire_def)
  have kn: "set (roles s) \<subseteq> known (lf_tokens s)" "k \<notin> set (roles s)" using inv c by (auto simp: life_inv_def tokens_ok_def)
  have rk: "x \<noteq> k" if "x \<in> set (roles s)" for x using kn that by blast
  have "parent tt x = parent (lf_tokens s) x" if "x \<in> set (roles s)" for x using c rk [OF that] by simp
  then have "tokens_ok known parent fired ?s"
    using inv c unfolding life_inv_def tokens_ok_def same by (auto simp: roles_def)
  moreover have "task_ok known parent ?s t" if "t \<in> set (lf_tasks s)" for t
    using inv that c unfolding life_inv_def task_ok_def same by (auto split: option.splits)
  moreover have "task_ok known parent ?s ?t"
    using up c kn(2) unfolding task_ok_def same by (auto split: option.splits)
  moreover have "entries_ok fired ?s" using inv c unfolding life_inv_def entries_ok_def same by simp
  ultimately show ?thesis by (simp add: life_inv_def spawn_task_def kt)
qed

lemma add_peer_inv:
  assumes inv: "life_inv known parent fired s"
    and tok: "tl_root tk (lf_tokens s) = (tok, tt)" and handle: "tl_child tk tok tt = (handle, tt')"
    and p: "lp_token p = tok" "lp_handle p = handle" "\<not> lp_removed p" "\<not> lp_dropped p"
  shows "life_inv known parent fired
    (s\<lparr>lf_tokens := tt', lf_listed := lf_listed s @ [length (lf_peers s)], lf_peers := lf_peers s @ [p]\<rparr>)" (is "life_inv _ _ _ ?s")
proof -
  note r = root [OF tok]
  have "tok \<in> known tt" using r by simp
  note c = child [OF handle this]
  have kn: "tok \<notin> known (lf_tokens s)" "handle \<notin> known (lf_tokens s)" "tok \<noteq> handle"
      "known tt' = insert handle (insert tok (known (lf_tokens s)))" "fired tt' = fired (lf_tokens s)"
      "parent tt' tok = None" "parent tt' handle = Some tok"
    using r c by auto
  have old: "parent tt' x = parent (lf_tokens s) x" if "x \<in> known (lf_tokens s)" for x
    using r c that kn(1,2) by auto
  have rs: "set (roles ?s) = insert tok (insert handle (set (roles s)))" using p by (auto simp: roles_def)
  have rk: "set (roles s) \<subseteq> known (lf_tokens s)" using inv by (auto simp: life_inv_def tokens_ok_def)
  have d: "distinct (roles ?s)"
    using inv p kn(1-3) rk by (auto simp: life_inv_def tokens_ok_def roles_def)
  have fire: "may_fire s \<subseteq> may_fire ?s"
    by (auto simp: may_fire_def nth_append)
  have par: "parent tt' (lp_token (lf_peers s ! j)) = None \<and> parent tt' (lp_handle (lf_peers s ! j)) = Some (lp_token (lf_peers s ! j))"
    if "j < length (lf_peers s)" for j
  proof -
    have "{lp_token (lf_peers s ! j), lp_handle (lf_peers s ! j)} \<subseteq> known (lf_tokens s)" using rk that by (auto simp: roles_def)
    then show ?thesis using inv old that by (simp add: life_inv_def tokens_ok_def)
  qed
  have "parent tt' (lf_device s) = None"
    using inv old rk by (simp add: life_inv_def tokens_ok_def roles_def)
  then have "tokens_ok known parent fired ?s"
    using inv d fire rs kn par p unfolding life_inv_def tokens_ok_def
    by (simp add: nth_append less_Suc_eq_le) blast
  moreover have "task_ok known parent ?s t" if "t \<in> set (lf_tasks s)" for t
    using inv that kn old unfolding life_inv_def task_ok_def rs by (auto simp: nth_append split: option.splits)
  moreover have "entries_ok fired ?s"
    using inv fire kn(5) p unfolding life_inv_def entries_ok_def by (auto simp: nth_append)
  ultimately show ?thesis by (simp add: life_inv_def)
qed

lemma insert_entry_inv:
  assumes inv: "life_inv known parent fired s"
  shows "life_inv known parent fired (insert_entry tk online s)"
proof (cases "lf_list_alive s")
  case True
  obtain tok tt where tok: "tl_root tk (lf_tokens s) = (tok, tt)" by (cases "tl_root tk (lf_tokens s)")
  obtain handle tt' where handle: "tl_child tk tok tt = (handle, tt')" by (cases "tl_child tk tok tt")
  show ?thesis
    using True add_peer_inv [OF inv tok handle]
    by (auto simp: Let_def insert_entry_def tok handle peer_handle_spawn_def spawn_task_fields intro!: spawn_task_inv)
qed (use inv in \<open>simp add: insert_entry_def\<close>)

lemma life_new_inv: "life_inv known parent fired (life_new tk peers)"
proof -
  obtain dev tt where dev: "tl_root tk (tl_empty tk) = (dev, tt)" by (cases "tl_root tk (tl_empty tk)")
  obtain list tt' where list: "tl_child tk dev tt = (list, tt')" by (cases "tl_child tk dev tt")
  let ?s = "\<lparr>lf_tokens = tt', lf_device = dev, lf_list = list, lf_tasks = [], lf_peers = [], lf_listed = [],
               lf_pending = [], lf_owned = True, lf_list_refs = 0, lf_list_alive = True\<rparr> :: ('tt, 'k) lifecycle"
  have "life_inv known parent fired ?s"
    using root [OF dev] child [OF list] empty by (auto simp: life_inv_def tokens_ok_def entries_ok_def roles_def)
  then have "life_inv known parent fired (spawn_task tk dev UdpTask ?s)" by (rule spawn_task_inv) simp
  moreover have "life_inv known parent fired (fold (insert_entry tk) ps s)" if "life_inv known parent fired s" for ps s
    using that by (induction ps arbitrary: s) (simp_all add: insert_entry_inv)
  ultimately show ?thesis
    by (auto simp: Let_def life_new_def dev list device_handle_spawn_def spawn_task_fields intro!: spawn_task_inv)
qed

lemma life_do_inv: "life_inv known parent fired s \<Longrightarrow> life_inv known parent fired (life_do tk a s)"
proof (cases a)
  case ReleaseList
  assume inv: "life_inv known parent fired s"
  have "life_inv known parent fired (s\<lparr>lf_list_refs := n\<rparr>)" for n
    using inv by (intro life_inv_flags [OF inv]) (auto simp: life_inv_def tokens_ok_def entries_ok_def may_fire_def)
  then show ?thesis by (simp add: ReleaseList list_drop_inv)
next
  case CloneList
  assume inv: "life_inv known parent fired s"
  then show ?thesis
    using inv by (intro life_inv_flags [OF inv]) (auto simp: CloneList life_inv_def tokens_ok_def entries_ok_def may_fire_def)
next
  case (Poll i e)
  assume inv: "life_inv known parent fired s"
  then show ?thesis by (simp add: Poll on_task_inv task_poll_ok)
qed (auto intro!: insert_entry_inv life_clear_inv handle_cancel_inv on_task_inv on_peer_inv peer_drop_inv device_drop_inv
      simp: task_ok_def task_live_def split: option.splits)

lemma life_run_inv: "life_inv known parent fired (life_run tk acts (life_new tk peers))"
proof -
  have "life_inv known parent fired (life_run tk as s)" if "life_inv known parent fired s" for as s
    using that by (induction as arbitrary: s) (simp_all add: life_run_def life_do_inv)
  then show ?thesis using life_new_inv by blast
qed

end

section \<open>How tasks end\<close>

text \<open>The entries are removed by \<open>clear\<close> alone.\<close>

lemma life_do_removed:
  fixes s :: "('tt, 'k) lifecycle"
  assumes "a \<noteq> ClearPeers" "\<forall>p \<in> set (lf_peers s). \<not> lp_removed p"
  shows "\<forall>p \<in> set (lf_peers (life_do tk a s)). \<not> lp_removed p"
proof -
  have upd: "\<forall>p \<in> set (lf_peers (on_life_peer k f s')). \<not> lp_removed p"
    if "\<And>p. lp_removed (f p) = lp_removed p" "lf_peers s' = lf_peers s" for k f and s' :: "('tt, 'k) lifecycle"
    using assms(2) that by (simp add: on_life_peer_def all_set_conv_all_nth nth_list_update)
  have same: "lf_peers (on_task i g s) = lf_peers s" "lf_peers (handle_cancel tk i s) = lf_peers s" "lf_peers (device_drop tk s) = lf_peers s"
      "lf_peers (list_drop tk (s\<lparr>lf_list_refs := m\<rparr>)) = lf_peers s" for i g m
    by (simp_all add: on_task_def handle_cancel_def list_drop_def device_drop_def)
  have ins: "\<forall>p \<in> set (lf_peers (insert_entry tk b s)). \<not> lp_removed p" for b
    using assms(2) by (simp add: insert_entry_def Let_def peer_handle_spawn_def spawn_task_fields split: prod.split)
  have drop: "\<forall>p \<in> set (lf_peers (peer_drop tk k s)). \<not> lp_removed p" for k
  proof -
    let ?s = "s\<lparr>lf_tokens := tl_cancel tk (lp_token (lf_peers s ! k)) (lf_tokens s)\<rparr>"
    have "\<forall>p \<in> set (lf_peers (on_life_peer k (lp_dropped_update (\<lambda>_. True)) ?s)). \<not> lp_removed p" by (rule upd) simp_all
    then show ?thesis unfolding peer_drop_def using assms(2) by presburger
  qed
  have one: "\<forall>p \<in> set (lf_peers (on_life_peer k (lp_online_update g) s)). \<not> lp_removed p"
      "\<forall>p \<in> set (lf_peers (on_life_peer k (\<lambda>p. p\<lparr>lp_others := m p\<rparr>) s)). \<not> lp_removed p" for k g m
    by (rule upd; simp)+
  show ?thesis using assms by (cases a) (simp_all add: same ins one drop)
qed

lemma spawned_peers:
  assumes "\<forall>p \<in> set (lf_peers s). \<not> lp_removed p"
  shows "\<forall>p \<in> set (lf_peers (fold (insert_entry tk) ps s)). \<not> lp_removed p"
  using assms
proof (induction ps arbitrary: s)
  case (Cons b ps)
  then show ?case using life_do_removed [of "InsertPeer b" s tk] by simp
qed simp

lemma life_run_removed:
  fixes tk :: "('tt, 'k) token_lib"
  assumes "ClearPeers \<notin> set acts"
  shows "\<forall>p \<in> set (lf_peers (life_run tk acts (life_new tk peers))). \<not> lp_removed p"
proof -
  have "\<forall>p \<in> set (lf_peers (life_run tk as s)). \<not> lp_removed p"
    if "ClearPeers \<notin> set as" "\<forall>p \<in> set (lf_peers s). \<not> lp_removed p" for as and s :: "('tt, 'k) lifecycle"
    using that
  proof (induction as arbitrary: s)
    case (Cons a as)
    then have "\<forall>p \<in> set (lf_peers (life_do tk a s)). \<not> lp_removed p" by (intro life_do_removed) auto
    then show ?case using Cons by (simp add: life_run_def)
  qed (simp add: life_run_def)
  moreover have "\<forall>p \<in> set (lf_peers (life_new tk peers)). \<not> lp_removed p"
    by (simp add: life_new_def Let_def device_handle_spawn_def spawn_task_fields split: prod.split)
      (intro allI impI spawned_peers, simp add: spawn_task_fields)
  ultimately show ?thesis using assms by blast
qed

text \<open>C20: Only \<open>clear\<close> stops the tasks of a peer.  In whatever order a device that was started with some peers is polled, given
  peers, cleared, and dropped: a task that was ended from outside is one of the two loops of a dropped device, or a
  loop of a peer whose entry \<open>clear\<close> removed; dropping the device or its list ends no loop of a peer, and nothing ends the
  socket task.  And once the cancellations spawned by \<open>clear\<close> have run, the next poll of a task of a removed peer that
  finds nothing else to do ends it, unless it is the handshake loop away from its head: one that waits for a
  peer that is offline stays there.\<close>

theorem tasks_end_by_clear:
  assumes "cancellation tk known parent fired" and "s = life_run tk acts (life_new tk peers)" and "t \<in> set (lf_tasks s)"
  shows "(ta_point t = Ended \<longrightarrow>
      ta_kind t \<in> {DevInbound, DevOutbound} \<and> \<not> lf_owned s \<or>
      ClearPeers \<in> set acts \<and> (\<exists>k. task_peer (ta_kind t) = Some k \<and> lp_removed (lf_peers s ! k))) \<and>
    (\<forall>k. task_peer (ta_kind t) = Some k \<and> lp_removed (lf_peers s ! k) \<and> lf_pending s = [] \<and> task_live t \<longrightarrow>
      ta_point (task_poll tk False s t) =
        (case (ta_kind t, ta_point t) of
           (HandshakeLoop _, AwaitOnline) \<Rightarrow> if lp_online (lf_peers s ! k) then Sleeping else AwaitOnline
         | (HandshakeLoop _, Sleeping) \<Rightarrow> Running
         | _ \<Rightarrow> Ended))"
proof -
  note inv = cancellation.life_run_inv [OF assms(1), of acts peers, folded assms(2)]
  have ok: "tokens_ok known parent fired s" "task_ok known parent s t" "entries_ok fired s"
    using inv assms(3) by (auto simp: life_inv_def)
  have "ClearPeers \<in> set acts" if "task_peer (ta_kind t) = Some k" "lp_removed (lf_peers s ! k)" for k
    using life_run_removed [of acts tk peers, folded assms(2)] that ok(2) nth_mem [of k "lf_peers s"] by (fastforce simp: task_ok_def)
  moreover have "tl_cancelled tk (lf_tokens s) (ta_token t)"
    if "task_peer (ta_kind t) = Some k" "lp_removed (lf_peers s ! k)" "lf_pending s = []" "task_live t" for k
    using cancellation.peer_task_cancelled(1) [OF assms(1) ok(1,2) that(1,4)] ok(2,3) that
    by (auto simp: task_ok_def entries_ok_def)
  ultimately show ?thesis
    using ok(2) by (cases "ta_kind t"; cases "ta_point t") (auto simp: task_ok_def task_poll_def task_live_def Let_def)
qed

text \<open>A device with one online and one offline peer, its handshake loops polled, cleared and dropped: the loops of both are
  live until the cancellations ran.\<close>

definition plain_life :: "(plain_tree, nat) lifecycle" where
  "plain_life = life_run plain_tokens
     [Poll 1 False, Poll 4 False, DropDevice, Poll 2 True] (life_new plain_tokens [True, False])"

lemma plain_life_evaluated:
  "map ta_kind (lf_tasks plain_life) =
     [UdpTask, HandshakeLoop 0, InboundLoop 0, OutboundLoop 0, HandshakeLoop 1, InboundLoop 1, OutboundLoop 1, DevInbound, DevOutbound]"
  "map ta_point (lf_tasks plain_life) = [Running, Sleeping, Running, Running, AwaitOnline, Running, Running, Ended, Ended]"
  "lf_owned plain_life = False"
  by code_simp+

definition plain_cleared :: "(plain_tree, nat) lifecycle" where
  "plain_cleared = life_run plain_tokens
     [Poll 4 False, ClearPeers, DropDevice, RunCancel 0, RunCancel 0] (life_new plain_tokens [True, False])"

theorem tasks_end_by_clear_witness:
  "ta_point (lf_tasks plain_life ! 0) \<noteq> Ended \<and> ta_point (lf_tasks plain_life ! 1) \<noteq> Ended \<and>
   ta_point (lf_tasks plain_life ! 5) \<noteq> Ended \<and>
   ta_point (task_poll plain_tokens False plain_cleared (lf_tasks plain_cleared ! 4)) = AwaitOnline \<and>
   ta_point (task_poll plain_tokens False plain_cleared (lf_tasks plain_cleared ! 2)) = Ended"
proof -
  have len: "length (lf_tasks plain_life) = 9" "length (lf_tasks plain_cleared) = 9" by code_simp+
  have kinds: "\<forall>i \<in> {0, 1, 2, 3, 4, 5, 6}. ta_kind (lf_tasks plain_life ! i) \<notin> {DevInbound, DevOutbound}"
    "lf_tasks plain_cleared ! 4 = \<lparr>ta_kind = HandshakeLoop 1, ta_token = 10, ta_point = AwaitOnline, ta_turns = 0\<rparr>"
    "lf_tasks plain_cleared ! 2 = \<lparr>ta_kind = InboundLoop 0, ta_token = 6, ta_point = Running, ta_turns = 0\<rparr>"
    "lf_pending plain_cleared = []" "map lp_removed (lf_peers plain_cleared) = [True, True]"
    "map lp_online (lf_peers plain_cleared) = [True, False]" by code_simp+
  note t = tasks_end_by_clear [OF plain_tree.cancellation_axioms]
  have "ta_point (lf_tasks plain_life ! i) \<noteq> Ended" if "i \<in> {0, 1, 2, 3, 4, 5, 6}" for i
    using t [OF plain_life_def, of "lf_tasks plain_life ! i"] that kinds(1) len(1) by (auto simp: nth_mem)
  moreover have "lf_tasks plain_cleared ! 4 \<in> set (lf_tasks plain_cleared)" "lf_tasks plain_cleared ! 2 \<in> set (lf_tasks plain_cleared)"
    using len(2) by (simp_all add: nth_mem)
  moreover have "lf_peers plain_cleared \<noteq> [] \<and> lp_removed (lf_peers plain_cleared ! 0) \<and> lp_removed (lf_peers plain_cleared ! 1) \<and>
      \<not> lp_online (lf_peers plain_cleared ! 1)"
    using kinds(5,6) by (auto simp: map_eq_Cons_conv)
  ultimately show ?thesis
    using t [OF plain_cleared_def, of "lf_tasks plain_cleared ! 4"] t [OF plain_cleared_def, of "lf_tasks plain_cleared ! 2"] kinds(2-4)
    by (auto simp: task_live_def)
qed

end
