(* ===== verification/Client_Tasks.thy ===== *)
theory Client_Tasks
  imports Daemon_Client
begin

text \<open>
  The two tasks of the daemon's client that share a channel (\<open>vlinkd/src/client.rs\<close>, \<open>spawn\<close>): one opens connections and logs in,
  the other runs the event loop of the connection it is given (\<open>connect.rs\<close>).  The channel has room for one item.  Before it
  dials, the first task sends two empty items: the second finds room only when the event loop before has ended.
  What a login does is \<open>Daemon_Client\<close>; here connections are numbers, and a message on the bus is the number of the connection
  it came from.
\<close>

datatype reconnect_point = SendFirst | SendSecond | Dial | SendLoop nat | LoginAt nat | GivenUp
datatype runner = Idle | RunningLoop nat

record client_tasks =
  ct_point :: reconnect_point
  ct_chan :: "nat option list"
  ct_runner :: runner
  ct_dialled :: nat
  ct_bus :: "nat list"
  ct_conn :: "nat option"

definition client_tasks_new :: client_tasks where
  "client_tasks_new = \<lparr>ct_point = SendFirst, ct_chan = [], ct_runner = Idle, ct_dialled = 0, ct_bus = [], ct_conn = None\<rparr>"

text \<open>A poll of the reconnecting task; \<open>ok\<close> is the outcome of dialling or of the login.  It subscribes to the bus when
  it has dialled, and its login ends after a message came; a failed login ends the task.\<close>

definition reconnect_poll :: "bool \<Rightarrow> client_tasks \<Rightarrow> client_tasks" where
  "reconnect_poll ok s =
     (case ct_point s of
        SendFirst \<Rightarrow> if ct_chan s = [] then s\<lparr>ct_chan := [None], ct_point := SendSecond\<rparr> else s
      | SendSecond \<Rightarrow> if ct_chan s = [] then s\<lparr>ct_chan := [None], ct_point := Dial\<rparr> else s
      | Dial \<Rightarrow>
          if ok then s\<lparr>ct_point := SendLoop (ct_dialled s), ct_dialled := Suc (ct_dialled s), ct_bus := []\<rparr>
          else s\<lparr>ct_point := SendFirst\<rparr>
      | SendLoop n \<Rightarrow> if ct_chan s = [] then s\<lparr>ct_chan := [Some n], ct_point := LoginAt n\<rparr> else s
      | LoginAt n \<Rightarrow>
          if \<not> ok then s\<lparr>ct_point := GivenUp\<rparr>
          else if ct_bus s \<noteq> [] then s\<lparr>ct_conn := Some n, ct_point := SendFirst\<rparr>
          else s
      | GivenUp \<Rightarrow> s)"

text \<open>A poll of the running task: it takes the next item, or the event loop it runs passes on a message or ends.\<close>

datatype loop_event = LoopMessage | LoopEnds

definition runner_poll :: "loop_event \<Rightarrow> client_tasks \<Rightarrow> client_tasks" where
  "runner_poll ev s =
     (case ct_runner s of
        Idle \<Rightarrow>
          (case ct_chan s of
             [] \<Rightarrow> s
           | None # rest \<Rightarrow> s\<lparr>ct_chan := rest\<rparr>
           | Some n # rest \<Rightarrow> s\<lparr>ct_chan := rest, ct_runner := RunningLoop n\<rparr>)
      | RunningLoop n \<Rightarrow>
          (case ev of
             LoopMessage \<Rightarrow> s\<lparr>ct_bus := ct_bus s @ [n]\<rparr>
           | LoopEnds \<Rightarrow> s\<lparr>ct_runner := Idle\<rparr>))"

text \<open>The tasks are branches of one \<open>select!\<close>: they take turns until the first of them ends.\<close>

inductive client_step :: "client_tasks \<Rightarrow> client_tasks \<Rightarrow> bool" where
  reconnecting: "ct_point s \<noteq> GivenUp \<Longrightarrow> client_step s (reconnect_poll ok s)"
| running: "ct_point s \<noteq> GivenUp \<Longrightarrow> client_step s (runner_poll ev s)"

inductive_cases client_stepE: "client_step s s'"

section \<open>One connection at a time\<close>

definition no_loop :: "client_tasks \<Rightarrow> bool" where
  "no_loop s \<longleftrightarrow> ct_runner s = Idle \<and> ct_chan s \<in> {[], [None]}"

fun at_point :: "reconnect_point \<Rightarrow> client_tasks \<Rightarrow> bool" where
  "at_point SendFirst s \<longleftrightarrow> no_loop s \<or> ct_chan s = []"
| "at_point SendSecond s \<longleftrightarrow> no_loop s \<or> ct_chan s = [None]"
| "at_point Dial s \<longleftrightarrow> no_loop s"
| "at_point (SendLoop n) s \<longleftrightarrow> no_loop s \<and> ct_bus s = []"
| "at_point (LoginAt n) s \<longleftrightarrow> set (ct_bus s) \<subseteq> {n} \<and>
     (ct_runner s = Idle \<and> ct_chan s = [Some n] \<and> ct_bus s = [] \<or> ct_chan s = [] \<and> ct_runner s \<in> {Idle, RunningLoop n})"
| "at_point GivenUp s \<longleftrightarrow> True"

lemma reconnect_poll_inv: "at_point (ct_point s) s \<Longrightarrow> at_point (ct_point (reconnect_poll ok s)) (reconnect_poll ok s)"
  by (cases "ct_point s") (auto simp: reconnect_poll_def no_loop_def)

lemma runner_poll_inv: "at_point (ct_point s) s \<Longrightarrow> at_point (ct_point (runner_poll ev s)) (runner_poll ev s)"
  by (cases "ct_point s"; cases ev) (auto simp: runner_poll_def no_loop_def split: runner.splits list.splits option.splits)

lemma client_step_inv: "client_step s s' \<Longrightarrow> at_point (ct_point s) s \<Longrightarrow> at_point (ct_point s') s'"
  by (erule client_stepE) (simp_all only: reconnect_poll_inv runner_poll_inv)

lemma client_reach_inv: "client_step\<^sup>*\<^sup>* client_tasks_new s \<Longrightarrow> at_point (ct_point s) s"
proof (induction rule: rtranclp_induct)
  case base
  show ?case by (simp add: client_tasks_new_def no_loop_def)
qed (rule client_step_inv)

text \<open>Once no event loop runs, the reconnecting task gets to its next dial.\<close>

lemma reconnecting_steps:
  assumes "ct_point s \<noteq> GivenUp" "reconnect_poll ok s = s'"
  shows "client_step s s'"
  using client_step.reconnecting [OF assms(1), of ok] assms(2) by simp

lemma running_steps:
  assumes "ct_point s \<noteq> GivenUp" "runner_poll ev s = s'"
  shows "client_step s s'"
  using client_step.running [OF assms(1), of ev] assms(2) by simp

lemma dial_from_second:
  assumes "ct_point s = SendSecond" "no_loop s"
  shows "\<exists>s'. client_step\<^sup>*\<^sup>* s s' \<and> ct_point s' = Dial"
proof -
  let ?s = "s\<lparr>ct_chan := []\<rparr>"
  have "runner_poll LoopMessage s = ?s" using assms by (auto simp: runner_poll_def no_loop_def)
  then have "client_step s ?s" using assms(1) by (intro running_steps [where ev = LoopMessage]) auto
  moreover have "client_step ?s (?s\<lparr>ct_chan := [None], ct_point := Dial\<rparr>)"
    using assms(1) by (intro reconnecting_steps [where ok = True]) (auto simp: reconnect_poll_def)
  ultimately show ?thesis
    by (intro exI [of _ "?s\<lparr>ct_chan := [None], ct_point := Dial\<rparr>"])
      (auto intro: converse_rtranclp_into_rtranclp)
qed

lemma dial_from_first:
  assumes "ct_point s = SendFirst" "no_loop s"
  shows "\<exists>s'. client_step\<^sup>*\<^sup>* s s' \<and> ct_point s' = Dial"
proof -
  let ?s = "s\<lparr>ct_chan := []\<rparr>"
  let ?t = "?s\<lparr>ct_chan := [None], ct_point := SendSecond\<rparr>"
  have "runner_poll LoopMessage s = ?s" using assms by (auto simp: runner_poll_def no_loop_def)
  then have "client_step s ?s" using assms(1) by (intro running_steps [where ev = LoopMessage]) auto
  moreover have "client_step ?s ?t"
    using assms(1) by (intro reconnecting_steps [where ok = True]) (auto simp: reconnect_poll_def)
  moreover obtain s' where "client_step\<^sup>*\<^sup>* ?t s'" "ct_point s' = Dial"
    using dial_from_second [of ?t] assms(2) by (auto simp: no_loop_def)
  ultimately show ?thesis by (meson converse_rtranclp_into_rtranclp)
qed


text \<open>A run as a list of turns: of the reconnecting task with an outcome, of the running task with an event.\<close>

fun client_turn :: "bool + loop_event \<Rightarrow> client_tasks \<Rightarrow> client_tasks" where
  "client_turn (Inl ok) s = (if ct_point s = GivenUp then s else reconnect_poll ok s)"
| "client_turn (Inr ev) s = (if ct_point s = GivenUp then s else runner_poll ev s)"

lemma client_run_reach: "client_step\<^sup>*\<^sup>* s (fold client_turn as s)"
proof (induction as arbitrary: s)
  case (Cons a as)
  have "client_step\<^sup>*\<^sup>* s (client_turn a s)"
    by (cases a) (auto intro: client_step.intros)
  then show ?case using Cons [of "client_turn a s"] by (simp add: rtranclp_trans)
qed simp

definition logged_in_run :: client_tasks where
  "logged_in_run = fold client_turn
     [Inl True, Inr LoopMessage, Inl True, Inl False, Inr LoopMessage, Inl True, Inr LoopMessage, Inl True, Inl True, Inr LoopMessage,
      Inl True, Inr LoopMessage, Inr LoopMessage, Inl True, Inl True, Inl True, Inl True] client_tasks_new"


end
