(* ===== verification/Command_Bus.thy ===== *)
theory Command_Bus
  imports Daemon_Client "HOL-Library.Sublist"
begin

text \<open>
  How messages of the coordination server get to the network manager (\<open>vlinkd/src/client.rs\<close>: the broadcast channel of \<open>VlinkClient::new\<close> and
  \<open>process_cmd\<close>; \<open>network/ctrl.rs\<close>: the command queue).  The connection publishes on a broadcast channel that keeps the last \<open>cap\<close>
  messages for a receiver; a receiver that has fallen further behind is told so once and goes on with the oldest message kept.
  \<open>process_cmd\<close> passes messages to a queue with room for \<open>room\<close> commands and waits while it is full.  (The capacity the source asks for
  is 10 for both; the \<open>tokio\<close> channel may keep more.)
\<close>

record 'm command_bus =
  cb_sent :: "'m to_client list"
  cb_pos :: nat
  cb_held :: "'m to_client_data option"
  cb_queue :: "'m network_ctrl_cmd list"
  cb_taken :: "'m network_ctrl_cmd list"

definition command_bus_new :: "'m command_bus" where
  "command_bus_new = \<lparr>cb_sent = [], cb_pos = 0, cb_held = None, cb_queue = [], cb_taken = []\<rparr>"

definition cb_publish :: "'m to_client \<Rightarrow> 'm command_bus \<Rightarrow> 'm command_bus" where
  "cb_publish m b = b\<lparr>cb_sent := cb_sent b @ [m]\<rparr>"

definition lagging :: "nat \<Rightarrow> 'm command_bus \<Rightarrow> bool" where
  "lagging cap b \<longleftrightarrow> cb_pos b + cap < length (cb_sent b)"

text \<open>A poll of \<open>process_cmd\<close>: finish a send that waits for room, or receive.  That it lags is an error, which is ignored.\<close>

definition process_cmd_poll :: "nat \<Rightarrow> nat \<Rightarrow> 'm command_bus \<Rightarrow> 'm command_bus" where
  "process_cmd_poll cap room b =
     (case cb_held b of
        Some d \<Rightarrow>
          if length (cb_queue b) < room then b\<lparr>cb_queue := cb_queue b @ [ToClientCmd d], cb_held := None\<rparr> else b
      | None \<Rightarrow>
          if lagging cap b then b\<lparr>cb_pos := length (cb_sent b) - cap\<rparr>
          else if cb_pos b < length (cb_sent b)
          then b\<lparr>cb_pos := Suc (cb_pos b), cb_held := tc_data (cb_sent b ! cb_pos b)\<rparr>
          else b)"

definition manager_take :: "'m command_bus \<Rightarrow> 'm command_bus" where
  "manager_take b =
     (case cb_queue b of [] \<Rightarrow> b | c # cs \<Rightarrow> b\<lparr>cb_queue := cs, cb_taken := cb_taken b @ [c]\<rparr>)"

datatype 'm bus_act = Publish "'m to_client" | Relay | Take

fun bus_do :: "nat \<Rightarrow> nat \<Rightarrow> 'm bus_act \<Rightarrow> 'm command_bus \<Rightarrow> 'm command_bus" where
  "bus_do cap room (Publish m) b = cb_publish m b"
| "bus_do cap room Relay b = process_cmd_poll cap room b"
| "bus_do cap room Take b = manager_take b"

text \<open>A run, with whether a receive found that messages were lost.\<close>

fun bus_run :: "nat \<Rightarrow> nat \<Rightarrow> 'm bus_act list \<Rightarrow> 'm command_bus \<times> bool \<Rightarrow> 'm command_bus \<times> bool" where
  "bus_run cap room [] s = s"
| "bus_run cap room (a # as) (b, lost) =
     bus_run cap room as (bus_do cap room a b, lost \<or> (a = Relay \<and> cb_held b = None \<and> lagging cap b))"

section \<open>What arrives\<close>

text \<open>The commands that have got as far as the hands of \<open>process_cmd\<close>, in the order they were passed on.\<close>

definition passed :: "'m command_bus \<Rightarrow> 'm network_ctrl_cmd list" where
  "passed b = cb_taken b @ cb_queue b @ (case cb_held b of Some d \<Rightarrow> [ToClientCmd d] | None \<Rightarrow> [])"

definition bus_inv :: "nat \<Rightarrow> 'm command_bus \<Rightarrow> bool \<Rightarrow> bool" where
  "bus_inv room b lost \<longleftrightarrow> cb_pos b \<le> length (cb_sent b) \<and> length (cb_queue b) \<le> room \<and>
     subseq (passed b) (process_cmd (take (cb_pos b) (cb_sent b))) \<and>
     (\<not> lost \<longrightarrow> passed b = process_cmd (take (cb_pos b) (cb_sent b)))"

lemma process_cmd_append: "process_cmd (xs @ ys) = process_cmd xs @ process_cmd ys"
  by (simp add: process_cmd_def)

lemma bus_inv_new: "bus_inv room command_bus_new False"
  by (simp add: bus_inv_def command_bus_new_def passed_def process_cmd_def)

lemma bus_inv_relay:
  assumes inv: "bus_inv room b lost" and l: "lost' = (lost \<or> cb_held b = None \<and> lagging cap b)"
  shows "bus_inv room (process_cmd_poll cap room b) lost'"
proof (cases "cb_held b")
  case (Some d)
  have "passed (process_cmd_poll cap room b) = passed b" "cb_pos (process_cmd_poll cap room b) = cb_pos b"
      "cb_sent (process_cmd_poll cap room b) = cb_sent b" "length (cb_queue (process_cmd_poll cap room b)) \<le> room"
    using Some inv by (auto simp: process_cmd_poll_def passed_def bus_inv_def)
  then show ?thesis using inv l Some by (simp add: bus_inv_def)
next
  case None
  consider "lagging cap b" | "\<not> lagging cap b" "cb_pos b < length (cb_sent b)" | "\<not> lagging cap b" "cb_pos b = length (cb_sent b)"
    using inv by (fastforce simp: bus_inv_def)
  then show ?thesis
  proof cases
    case 1
    have "\<exists>ms. take (length (cb_sent b) - cap) (cb_sent b) = take (cb_pos b) (cb_sent b) @ ms"
      using 1 take_add [of "cb_pos b" "length (cb_sent b) - cap - cb_pos b" "cb_sent b"] by (auto simp: lagging_def)
    then have "subseq (passed b) (process_cmd (take (length (cb_sent b) - cap) (cb_sent b)))"
      using inv by (auto simp: bus_inv_def process_cmd_append)
    then show ?thesis
      using inv l None 1 by (simp add: process_cmd_poll_def bus_inv_def passed_def)
  next
    case 2
    let ?b = "process_cmd_poll cap room b" and ?new = "process_cmd [cb_sent b ! cb_pos b]"
    have "passed ?b = passed b @ ?new" using None 2 by (simp add: process_cmd_poll_def passed_def process_cmd_def split: option.split)
    moreover have "process_cmd (take (cb_pos ?b) (cb_sent ?b)) = process_cmd (take (cb_pos b) (cb_sent b)) @ ?new"
      using None 2 by (simp add: process_cmd_poll_def take_Suc_conv_app_nth process_cmd_append)
    moreover have "cb_pos ?b \<le> length (cb_sent ?b)" "cb_queue ?b = cb_queue b" using None 2 by (simp_all add: process_cmd_poll_def)
    ultimately show ?thesis using inv l 2(1) by (auto simp: bus_inv_def intro: list_emb_append_mono)
  qed (use inv l None in \<open>simp add: process_cmd_poll_def bus_inv_def passed_def\<close>)
qed

lemma bus_inv_do:
  assumes "bus_inv room b lost"
  shows "bus_inv room (bus_do cap room a b) (lost \<or> (a = Relay \<and> cb_held b = None \<and> lagging cap b))"
proof (cases a)
  case (Publish m)
  then show ?thesis using assms by (simp add: bus_inv_def cb_publish_def passed_def)
next
  case Relay
  then show ?thesis using bus_inv_relay [OF assms refl, of cap] by simp
next
  case Take
  then show ?thesis using assms by (auto simp: bus_inv_def manager_take_def passed_def split: list.splits)
qed

lemma bus_inv_run: "bus_inv room b lost \<Longrightarrow> bus_run cap room as (b, lost) = (b', lost') \<Longrightarrow> bus_inv room b' lost'"
proof (induction as arbitrary: b lost)
  case (Cons a as)
  then show ?case using bus_inv_do [OF Cons.prems(1), of cap a] by simp
qed simp


definition two_messages :: "string to_client list" where
  "two_messages = [\<lparr>tc_id = 1, tc_data = Some (PeerLeaveTC ''a'')\<rparr>, \<lparr>tc_id = 2, tc_data = Some (PeerLeaveTC ''b'')\<rparr>]"


text \<open>A manager that is busy: with room for one command and a channel that keeps two messages, the third and fourth of six messages are lost.\<close>

lemma busy_manager_loses:
  "let m = \<lambda>i. \<lparr>tc_id = i, tc_data = Some (ErrorTC 0 ''e'')\<rparr> :: string to_client in
   snd (bus_run 2 1 (map Publish [m 1, m 2] @ [Relay, Relay, Relay, Relay] @ map Publish [m 3, m 4, m 5, m 6] @
     [Take, Relay, Relay]) (command_bus_new, False))"
  by code_simp

end
