(* ===== verification/Derp_Client.thy ===== *)
theory Derp_Client
  imports Derp
begin

text \<open>
  Connecting to a DERP relay: \<open>derp_client.rs\<close>, \<open>derp_utils.rs\<close> (\<open>resolve\<close>) and \<open>ssl.rs\<close> of \<open>tailscale-derp\<close>, with the feature the
  crate is built with, \<open>ssl-native-tls\<close>.  The answers of the \<open>url\<close> crate, the resolver, the sockets and the TLS library are the record
  \<open>connect_env\<close>; the codec and the handshake are those of \<open>Derp\<close>.
\<close>

section \<open>Streams with or without TLS (ssl.rs)\<close>

datatype async_connector = Plain | NativeTls
datatype maybe_tls = PlainStream | NativeTlsStream

record derp_url = url_parts +
  url_scheme :: string
  url_domain :: "string option"

record connect_env =
  ce_socket_addrs :: "derp_url \<Rightarrow> string + string list"
  ce_tcp :: "string \<Rightarrow> string option"
  ce_tls_new :: "string option"
  ce_tls_connect :: "string \<Rightarrow> string option"
  ce_write :: "bytes \<Rightarrow> string option"
  ce_reads :: "bytes list"
  ce_public_key :: "bytes \<Rightarrow> bytes"

definition new_with_default_tls_config :: "connect_env \<Rightarrow> (derp_error, async_connector) result" where
  "new_with_default_tls_config en = (case ce_tls_new en of None \<Rightarrow> Ok NativeTls | Some e \<Rightarrow> Err (TlsError e))"

fun connector_wrap :: "connect_env \<Rightarrow> string \<Rightarrow> async_connector \<Rightarrow> (derp_error, maybe_tls) result" where
  "connector_wrap en domain Plain = Ok PlainStream"
| "connector_wrap en domain NativeTls =
     (case ce_tls_connect en domain of None \<Rightarrow> Ok NativeTlsStream | Some e \<Rightarrow> Err (TlsError e))"

text \<open>A write goes to the socket as it is or through the TLS session; both are recorded.\<close>

definition stream_write :: "connect_env \<Rightarrow> maybe_tls \<Rightarrow> bytes \<Rightarrow> (derp_error, maybe_tls \<times> bytes) result" where
  "stream_write en st b = (case ce_write en b of None \<Rightarrow> Ok (st, b) | Some e \<Rightarrow> Err (IoError e))"

section \<open>The client (derp_client.rs)\<close>

definition resolve :: "connect_env \<Rightarrow> derp_url \<Rightarrow> (derp_error, string) result" where
  "resolve en url =
     (case ce_socket_addrs en url of
        Inl e \<Rightarrow> Err (IoError e)
      | Inr [] \<Rightarrow> Err (ErrorMsg ''can't resolve host'')
      | Inr (a # _) \<Rightarrow> Ok a)"

text \<open>\<open>dl_rx\<close>: the reading end of the channel to the sink task has not been taken.\<close>

record derp_client =
  dl_key :: bytes
  dl_server_url :: derp_url
  dl_rx :: bool
  dl_sender :: derp_channel

definition derp_client_new :: "(string \<Rightarrow> string + derp_url) \<Rightarrow> bytes \<Rightarrow> string \<Rightarrow> (string, derp_client) result" where
  "derp_client_new parse key url =
     (case parse url of
        Inl e \<Rightarrow> Err e
      | Inr u \<Rightarrow> Ok \<lparr>dl_key = key, dl_server_url = u, dl_rx = True, dl_sender = \<lparr>ch_open = True, ch_queue = []\<rparr>\<rparr>)"

definition derp_send :: "bytes \<Rightarrow> bytes \<Rightarrow> derp_client \<Rightarrow> (derp_error, derp_client) result" where
  "derp_send dst data cl = rbind (send_to (dl_sender cl) dst data) (\<lambda>ch. Ok (cl\<lparr>dl_sender := ch\<rparr>))"

text \<open>What the stream yields: the responses of the reads, and the error that ends it.\<close>

definition framed_items :: "derp_lib \<Rightarrow> derp_codec \<Rightarrow> bytes list \<Rightarrow> (derp_error, (derp_response + derp_error) list) result" where
  "framed_items lib c reads =
     (case feed (derp_decode lib) c [] reads of
        None \<Rightarrow> Panic
      | Some (rs, Waiting) \<Rightarrow> Ok (map Inl rs)
      | Some (rs, Failed e) \<Rightarrow> Ok (map Inl rs @ [Inr e])
      | Some (rs, Crashed) \<Rightarrow> Panic)"

text \<open>Opening the stream: resolve, connect, wrap in TLS for the scheme \<open>wss\<close> only.\<close>

definition derp_open_stream :: "connect_env \<Rightarrow> derp_url \<Rightarrow> (derp_error, maybe_tls) result" where
  "derp_open_stream en url =
     rbind (resolve en url) (\<lambda>addr.
     rbind (case ce_tcp en addr of None \<Rightarrow> Ok () | Some e \<Rightarrow> Err (IoError e)) (\<lambda>_.
     rbind (if url_scheme url = ''wss'' then new_with_default_tls_config en else Ok Plain) (\<lambda>connector.
     connector_wrap en (case url_domain url of Some d \<Rightarrow> d | None \<Rightarrow> []) connector)))"

text \<open>\<open>async_connect\<close> gives the rest of the stream.  Besides the result: the client, and what was written before the sink task.\<close>

definition async_connect ::
    "derp_lib \<Rightarrow> connect_env \<Rightarrow> derp_client \<Rightarrow>
     derp_client \<times> (maybe_tls \<times> bytes) list \<times> (derp_error, (derp_response + derp_error) list) result" where
  "async_connect lib en cl =
     (let url = dl_server_url cl; request = map of_char (build_request (url_parts.truncate url) []) in
      case rbind (derp_open_stream en url) (\<lambda>st. stream_write en st request) of
        Err e \<Rightarrow> (cl, [], Err e)
      | Panic \<Rightarrow> (cl, [], Panic)
      | Ok w \<Rightarrow>
          let codec = derp_codec_new (ce_public_key en (dl_key cl)) (dl_key cl) False in
          if \<not> dl_rx cl then (cl, [w], Panic)
          else let cl = cl\<lparr>dl_rx := False\<rparr> in
               (case rbind (framed_items lib codec (ce_reads en)) (\<lambda>items. await_handshake items (dl_sender cl)) of
                  Ok (rest, ch) \<Rightarrow> (cl\<lparr>dl_sender := ch\<rparr>, [w], Ok rest)
                | Err e \<Rightarrow> (cl, [w], Err e)
                | Panic \<Rightarrow> (cl, [w], Panic)))"

section \<open>Properties\<close>

lemma connector_wrap_Ok: "connector_wrap en d c = Ok st \<Longrightarrow> (c = Plain \<and> st = PlainStream) \<or> (c = NativeTls \<and> st = NativeTlsStream)"
  by (cases c) (auto split: option.splits)

lemma derp_open_stream_Ok:
  assumes "derp_open_stream en url = Ok st"
  shows "st = (if url_scheme url = ''wss'' then NativeTlsStream else PlainStream)"
proof -
  obtain c d where "connector_wrap en d c = Ok st"
      "(if url_scheme url = ''wss'' then new_with_default_tls_config en else Ok Plain) = (Ok c :: (derp_error, _) result)"
    using assms by (auto simp: derp_open_stream_def rbind_eq_Ok)
  then show ?thesis
    by (auto simp: new_with_default_tls_config_def dest!: connector_wrap_Ok split: if_splits option.splits)
qed

text \<open>The upgrade request, and with it everything after, goes through TLS exactly for the scheme \<open>wss\<close>: a relay given as
  \<open>https\<close> is spoken to in the clear.\<close>

lemma connect_in_clear:
  assumes "async_connect lib en cl = (cl', writes, res)" "(st, b) \<in> set writes"
  shows "st = (if url_scheme (dl_server_url cl) = ''wss'' then NativeTlsStream else PlainStream)"
    and "b = map of_char (build_request (url_parts.truncate (dl_server_url cl)) [])"
proof -
  let ?req = "map of_char (build_request (url_parts.truncate (dl_server_url cl)) []) :: bytes"
  from assms have w: "rbind (derp_open_stream en (dl_server_url cl)) (\<lambda>st. stream_write en st ?req) = Ok (st, b)"
    by (auto simp: async_connect_def Let_def split: result.splits if_splits prod.splits)
  then obtain st' where st: "derp_open_stream en (dl_server_url cl) = Ok st'" "stream_write en st' ?req = Ok (st, b)"
    by (auto simp: rbind_eq_Ok)
  then show "st = (if url_scheme (dl_server_url cl) = ''wss'' then NativeTlsStream else PlainStream)" "b = ?req"
    using derp_open_stream_Ok [OF st(1)] by (auto simp: stream_write_def split: option.splits)
qed

text \<open>A client connects once: whatever the outcome of a call that got as far as the upgrade request, a later call panics
  unless it fails before that.\<close>

lemma connect_once:
  assumes "async_connect lib en cl = (cl', writes, res)" "writes \<noteq> []"
    and "async_connect lib' en' cl' = (cl'', writes', res')"
  shows "res' = Panic \<or> writes' = [] \<and> (\<exists>e. res' = Err e)"
proof -
  have "\<not> dl_rx cl'" using assms(1,2) by (auto simp: async_connect_def Let_def split: result.splits if_splits prod.splits)
  moreover have "dl_server_url cl' = dl_server_url cl"
    using assms(1) by (auto simp: async_connect_def Let_def split: result.splits if_splits prod.splits)
  ultimately show ?thesis
    using assms(3) by (auto simp: async_connect_def Let_def split: result.splits)
qed

text \<open>With a relay that answers the upgrade and sends its key and its info, a first call succeeds and queues one client info.\<close>

lemma connect_succeeds:
  assumes "derp_open_stream en (dl_server_url cl) = Ok st" "dl_rx cl" "ch_open (dl_sender cl)"
    and "ce_write en (map of_char (build_request (url_parts.truncate (dl_server_url cl)) [])) = None"
    and "framed_items lib (derp_codec_new (ce_public_key en (dl_key cl)) (dl_key cl) False) (ce_reads en) =
      Ok (Inl Ws # Inl (FrameServerKeyR k) # Inl (ServerInfoR v) # rest)"
  shows "\<exists>cl'. async_connect lib en cl = (cl', [(st, map of_char (build_request (url_parts.truncate (dl_server_url cl)) []))], Ok rest) \<and>
    ch_queue (dl_sender cl') = ch_queue (dl_sender cl) @ [ClientInfoReq (client_info_new False)]"
  using assms by (simp add: async_connect_def Let_def stream_write_def channel_send_def)

end
