(* ===== verification/Win_Setup.thy ===== *)
theory Win_Setup
  imports Tun_Windows
begin

text \<open>
  The wrappers of the Windows setup API, of registry notifications and of overlapped files in \<open>tun/windows/ffi.rs\<close> of \<open>vlink-tun\<close>, kept there for
  later use.  A system call gives a value and what it wrote to its output buffer; the record \<open>setup_api\<close> says which, over a
  state of Windows, and what the last error is.  Handles are 64-bit values; structures are the bytes the wrapper passes, their
  sizes are those of the \<open>winapi\<close> crate.
\<close>

type_synonym handle = u64

datatype setup_call =
    ReadFile handle nat | WriteFile handle bytes | GetOverlappedResult handle bool
  | CreateDeviceInfoList bytes | GetClassDevs bytes u32 | DestroyDeviceInfoList handle | ClassNameFromGuid bytes nat
  | CreateDeviceInfo handle "u16 list" bytes "u16 list" u32 bytes | SetSelectedDevice handle bytes
  | SetDeviceRegistryProperty handle bytes u32 "u16 list" nat | GetDeviceRegistryProperty handle bytes u32 nat
  | BuildDriverInfoList handle bytes u32 | DestroyDriverInfoList handle bytes u32 | GetDriverInfoDetail handle bytes bytes bytes nat
  | SetSelectedDriver handle bytes bytes | SetClassInstallParams handle bytes bytes nat | CallClassInstaller u32 handle bytes
  | OpenDevRegKey handle bytes u32 u32 u32 u32 | CreateEvent bool bool | RegNotifyChangeKeyValue handle bool u32 handle bool
  | WaitForSingleObject handle u32 | EnumDriverInfo handle bytes u32 u32 bytes | EnumDeviceInfo handle u32 bytes

record 'w setup_api =
  sa_call :: "setup_call \<Rightarrow> 'w \<Rightarrow> (u64 \<times> bytes) \<times> 'w"
  sa_last_error :: "'w \<Rightarrow> u32"
  sa_devinfo_size :: nat
  sa_drvinfo_size :: nat
  sa_detail_size :: nat
  sa_detail2_size :: nat

section \<open>How results are checked\<close>

definition INVALID_HANDLE_VALUE :: handle where "INVALID_HANDLE_VALUE = - 1"
definition ERROR_NO_MORE_ITEMS :: u32 where "ERROR_NO_MORE_ITEMS = 259"

definition last_os_error :: "'w setup_api \<Rightarrow> 'w \<Rightarrow> io_error" where
  "last_os_error api w = OsError (uint (sa_last_error api w))"

definition nonzero :: "'w setup_api \<Rightarrow> setup_call \<Rightarrow> ('w, io_error, bytes) op" where
  "nonzero api c w =
     (case sa_call api c w of ((r, out), w') \<Rightarrow> (if r = 0 then Err (last_os_error api w') else Ok out, w'))"

definition success :: "'w setup_api \<Rightarrow> setup_call \<Rightarrow> ('w, io_error, unit) op" where
  "success api c = op_bind (nonzero api c) (\<lambda>_. op_ret ())"

definition valid_handle :: "'w setup_api \<Rightarrow> setup_call \<Rightarrow> ('w, io_error, handle) op" where
  "valid_handle api c w =
     (case sa_call api c w of ((r, _), w') \<Rightarrow> (if r = INVALID_HANDLE_VALUE then Err (last_os_error api w') else Ok r, w'))"

text \<open>A structure filled with zeros but for its first field, the size it claims.\<close>

definition sized :: "nat \<Rightarrow> nat \<Rightarrow> bytes" where
  "sized n cb_size = to_le_bytes 4 (of_nat cb_size :: u32) @ replicate (n - 4) 0"

fun le_units :: "bytes \<Rightarrow> u16 list" where
  "le_units (a # b # rest) = from_le_bytes [a, b] # le_units rest"
| "le_units _ = []"

section \<open>The wrappers\<close>

text \<open>Both file operations: when the call is pending, wait for its result.  \<open>ret\<close> counts the bytes transferred; for a read
  they come first in the output.\<close>

definition overlapped_call :: "'w setup_api \<Rightarrow> handle \<Rightarrow> setup_call \<Rightarrow> ('w, io_error, bytes) op" where
  "overlapped_call api h c w =
     (case sa_call api c w of ((r, out), w') \<Rightarrow>
        if r \<noteq> 0 then (Ok out, w')
        else let e = last_os_error api w' in
             if e = OsError ERROR_IO_PENDING
             then (case sa_call api (GetOverlappedResult h True) w' of ((r2, out2), w2) \<Rightarrow> (if r2 = 0 then Err e else Ok out2, w2))
             else (Err e, w'))"

definition read_file :: "'w setup_api \<Rightarrow> handle \<Rightarrow> bytes \<Rightarrow> ('w, io_error, u32 \<times> bytes) op" where
  "read_file api h buffer =
     op_bind (overlapped_call api h (ReadFile h (length buffer)))
       (\<lambda>got. op_ret (of_nat (length got), got @ drop (length got) buffer))"

definition write_file :: "'w setup_api \<Rightarrow> handle \<Rightarrow> bytes \<Rightarrow> ('w, io_error, u32) op" where
  "write_file api h buffer =
     op_bind (overlapped_call api h (WriteFile h buffer)) (\<lambda>out. op_ret (from_le_bytes (take 4 out)))"

definition create_device_info_list :: "'w setup_api \<Rightarrow> bytes \<Rightarrow> ('w, io_error, handle) op" where
  "create_device_info_list api guid = valid_handle api (CreateDeviceInfoList guid)"

definition get_class_devs :: "'w setup_api \<Rightarrow> bytes \<Rightarrow> u32 \<Rightarrow> ('w, io_error, handle) op" where
  "get_class_devs api guid flags = valid_handle api (GetClassDevs guid flags)"

definition destroy_device_info_list :: "'w setup_api \<Rightarrow> handle \<Rightarrow> ('w, io_error, unit) op" where
  "destroy_device_info_list api devinfo = success api (DestroyDeviceInfoList devinfo)"

definition class_name_from_guid :: "'w setup_api \<Rightarrow> bytes \<Rightarrow> ('w, io_error, u16 list) op" where
  "class_name_from_guid api guid = op_bind (nonzero api (ClassNameFromGuid guid 32)) (\<lambda>out. op_ret (le_units out))"

definition create_device_info ::
    "'w setup_api \<Rightarrow> handle \<Rightarrow> u16 list \<Rightarrow> bytes \<Rightarrow> u16 list \<Rightarrow> u32 \<Rightarrow> ('w, io_error, bytes) op" where
  "create_device_info api devinfo device_name guid device_description creation_flags =
     nonzero api (CreateDeviceInfo devinfo device_name guid device_description creation_flags
       (sized (sa_devinfo_size api) (sa_devinfo_size api)))"

definition set_selected_device :: "'w setup_api \<Rightarrow> handle \<Rightarrow> bytes \<Rightarrow> ('w, io_error, unit) op" where
  "set_selected_device api devinfo devinfo_data = success api (SetSelectedDevice devinfo devinfo_data)"

definition set_device_registry_property :: "'w setup_api \<Rightarrow> handle \<Rightarrow> bytes \<Rightarrow> u32 \<Rightarrow> u16 list \<Rightarrow> ('w, io_error, unit) op" where
  "set_device_registry_property api devinfo devinfo_data property v =
     success api (SetDeviceRegistryProperty devinfo devinfo_data property v (length v * 2))"

definition get_device_registry_property :: "'w setup_api \<Rightarrow> handle \<Rightarrow> bytes \<Rightarrow> u32 \<Rightarrow> ('w, io_error, u16 list) op" where
  "get_device_registry_property api devinfo devinfo_data property =
     op_bind (nonzero api (GetDeviceRegistryProperty devinfo devinfo_data property (32 * 2))) (\<lambda>out. op_ret (le_units out))"

definition build_driver_info_list :: "'w setup_api \<Rightarrow> handle \<Rightarrow> bytes \<Rightarrow> u32 \<Rightarrow> ('w, io_error, unit) op" where
  "build_driver_info_list api devinfo devinfo_data driver_type = success api (BuildDriverInfoList devinfo devinfo_data driver_type)"

definition destroy_driver_info_list :: "'w setup_api \<Rightarrow> handle \<Rightarrow> bytes \<Rightarrow> u32 \<Rightarrow> ('w, io_error, unit) op" where
  "destroy_driver_info_list api devinfo devinfo_data driver_type =
     success api (DestroyDriverInfoList devinfo devinfo_data driver_type)"

text \<open>The detail structure is larger than the one of the API: it claims the size of that one.\<close>

definition get_driver_info_detail :: "'w setup_api \<Rightarrow> handle \<Rightarrow> bytes \<Rightarrow> bytes \<Rightarrow> ('w, io_error, bytes) op" where
  "get_driver_info_detail api devinfo devinfo_data drvinfo_data =
     nonzero api (GetDriverInfoDetail devinfo devinfo_data drvinfo_data (sized (sa_detail2_size api) (sa_detail_size api)) (sa_detail2_size api))"

definition set_selected_driver :: "'w setup_api \<Rightarrow> handle \<Rightarrow> bytes \<Rightarrow> bytes \<Rightarrow> ('w, io_error, unit) op" where
  "set_selected_driver api devinfo devinfo_data drvinfo_data = success api (SetSelectedDriver devinfo devinfo_data drvinfo_data)"

definition set_class_install_params :: "'w setup_api \<Rightarrow> handle \<Rightarrow> bytes \<Rightarrow> bytes \<Rightarrow> ('w, io_error, unit) op" where
  "set_class_install_params api devinfo devinfo_data params =
     success api (SetClassInstallParams devinfo devinfo_data params (length params))"

definition call_class_installer :: "'w setup_api \<Rightarrow> handle \<Rightarrow> bytes \<Rightarrow> u32 \<Rightarrow> ('w, io_error, unit) op" where
  "call_class_installer api devinfo devinfo_data install_function =
     success api (CallClassInstaller install_function devinfo devinfo_data)"

definition open_dev_reg_key :: "'w setup_api \<Rightarrow> handle \<Rightarrow> bytes \<Rightarrow> u32 \<Rightarrow> u32 \<Rightarrow> u32 \<Rightarrow> u32 \<Rightarrow> ('w, io_error, handle) op" where
  "open_dev_reg_key api devinfo devinfo_data scope hw_profile key_type sam_desired =
     valid_handle api (OpenDevRegKey devinfo devinfo_data scope hw_profile key_type sam_desired)"

definition notify_change_key_value :: "'w setup_api \<Rightarrow> handle \<Rightarrow> bool \<Rightarrow> u32 \<Rightarrow> u32 \<Rightarrow> ('w, io_error, unit) op" where
  "notify_change_key_value api key watch_subtree notify_filter milliseconds =
     op_bind (valid_handle api (CreateEvent False False)) (\<lambda>event w.
       case sa_call api (RegNotifyChangeKeyValue key watch_subtree notify_filter event True) w of ((r, _), w1) \<Rightarrow>
         if r \<noteq> 0 then (Err (OsError (uint r)), w1)
         else case sa_call api (WaitForSingleObject event milliseconds) w1 of ((r2, _), w2) \<Rightarrow>
                (if r2 = 0 then Ok ()
                 else if r2 = 0x102 then Err (IoOther ''Registry timed out'')
                 else Err (last_os_error api w2), w2))"

text \<open>Enumeration: \<open>None\<close> past the last item.\<close>

definition enumerated :: "'w setup_api \<Rightarrow> setup_call \<Rightarrow> 'w \<Rightarrow> (io_error, bytes) result option \<times> 'w" where
  "enumerated api c w =
     (case sa_call api c w of ((r, out), w') \<Rightarrow>
        (if r \<noteq> 0 then Some (Ok out)
         else if sa_last_error api w' = ERROR_NO_MORE_ITEMS then None
         else Some (Err (last_os_error api w')), w'))"

definition enum_driver_info :: "'w setup_api \<Rightarrow> handle \<Rightarrow> bytes \<Rightarrow> u32 \<Rightarrow> u32 \<Rightarrow> 'w \<Rightarrow> (io_error, bytes) result option \<times> 'w" where
  "enum_driver_info api devinfo devinfo_data driver_type member_index =
     enumerated api (EnumDriverInfo devinfo devinfo_data driver_type member_index (sized (sa_drvinfo_size api) (sa_drvinfo_size api)))"

definition enum_device_info :: "'w setup_api \<Rightarrow> handle \<Rightarrow> u32 \<Rightarrow> 'w \<Rightarrow> (io_error, bytes) result option \<times> 'w" where
  "enum_device_info api devinfo member_index =
     enumerated api (EnumDeviceInfo devinfo member_index (sized (sa_devinfo_size api) (sa_devinfo_size api)))"

section \<open>What they report\<close>

text \<open>A pending read or write whose wait fails is reported as pending, not with the error of the wait.\<close>

lemma overlapped_call_pending:
  assumes "sa_call api c w = ((0, out), w1)" "uint (sa_last_error api w1) = ERROR_IO_PENDING"
    and "sa_call api (GetOverlappedResult h True) w1 = ((0, out2), w2)"
  shows "overlapped_call api h c w = (Err (OsError ERROR_IO_PENDING), w2)"
  using assms by (simp add: overlapped_call_def last_os_error_def Let_def)

text \<open>\<open>CreateEventW\<close> fails with the null handle, which is not the invalid one: the notification goes on with it.\<close>

lemma notify_null_event:
  assumes "sa_call api (CreateEvent False False) w = ((0, out), w1)"
    and "sa_call api (RegNotifyChangeKeyValue key sub flt 0 True) w1 = ((r, out2), w2)" "r \<noteq> 0"
  shows "notify_change_key_value api key sub flt ms w = (Err (OsError (uint r)), w2)"
  using assms by (simp add: notify_change_key_value_def op_bind_def valid_handle_def INVALID_HANDLE_VALUE_def)

text \<open>The calls a wrapper makes, over a Windows that records them and answers by a function.\<close>

definition recording :: "(setup_call \<Rightarrow> u64 \<times> bytes) \<Rightarrow> u32 \<Rightarrow> setup_call list setup_api" where
  "recording f e =
     \<lparr>sa_call = (\<lambda>c w. (f c, w @ [c])), sa_last_error = (\<lambda>_. e), sa_devinfo_size = 32, sa_drvinfo_size = 1568,
      sa_detail_size = 1584, sa_detail2_size = 2600\<rparr>"

text \<open>Every notification makes an event, and none is closed, whatever Windows answers.\<close>

lemma notify_keeps_event:
  "\<exists>rest. snd (notify_change_key_value (recording f e) key sub flt ms w) = w @ CreateEvent False False # rest \<and>
     set rest \<subseteq> {RegNotifyChangeKeyValue key sub flt (fst (f (CreateEvent False False))) True,
       WaitForSingleObject (fst (f (CreateEvent False False))) ms}"
  by (auto simp: notify_change_key_value_def op_bind_def valid_handle_def recording_def split: prod.splits)

end
