(* ===== verification/Spec2Isabelle.thy ===== *)
theory Spec2Isabelle
  imports Frp Daemon_Main Relay_Transport Snowflake Device_Steps Lifecycle Client_Tasks Command_Bus Derp_Client Win_Setup
begin

text \<open>
  VLINK is a WireGuard-compatible virtual private network: \<open>vlink-tun\<close> is the user-space device (noise
  handshake, sessions, peers, tunnel and UDP tasks), \<open>derp/tailscale-derp\<close> and \<open>derp/frp-client\<close> are
  clients of two relay protocols, \<open>headlink\<close> is the coordination server, \<open>vlinkd\<close> the daemon that runs a
  device from the configuration the server sends, \<open>vlink-core\<close> what the last two share.

  A packet from the tunnel interface is routed by its destination to a peer (\<open>handle.rs\<close>,
  \<open>peers.rs\<close>), encrypted in the peer's current session and sent to its endpoint (\<open>peer/handler.rs\<close>).
  A datagram passes the handshake guard and the parser, is given to the peer of its session index, and
  there is handled as initiation, response, cookie reply or data (\<open>peer/inbound.rs\<close>).  Handshake turns and
  keepalives are driven by the peer's monitor.  A daemon logs in to the coordination server, asks for its
  configuration, starts its device from it and announces itself; the server tells the other daemons of the network,
  which add the peer; a peer without an endpoint is reached by the address it announced or through a relay.

  The theories of the device (\<open>vlink-tun/src\<close>), from the bottom up:

  \<^item> \<open>Prelude\<close>: results with panics, byte encodings, words, text.
  \<^item> \<open>Nonce_Filter\<close>: the replay window of \<open>session.rs\<close>.  It refines an abstract window over the set
    of admitted counters and never admits a counter twice.
  \<^item> \<open>Protocol\<close> (\<open>noise/protocol.rs\<close>): the four messages, their parser, round trips and panics.
  \<^item> \<open>Noise_Crypto\<close> (\<open>noise/crypto.rs\<close>, the session cipher), \<open>Timestamp\<close> (\<open>noise/timestamp.rs\<close>),
    \<open>Noise_Handshake\<close> (\<open>noise/handshake\<close>): both sides of the handshake agree and authenticate.
  \<^item> \<open>Session\<close> (\<open>peer/session.rs\<close>): sessions, the session index and the four slots of a peer.  The
    locale \<open>session_table\<close> is the interface of the index; index and slots stay in step in every
    interleaving of handshakes.
  \<^item> \<open>Peer_Handshake\<close> (\<open>peer/handshake.rs\<close>): initiate, respond, finalize give matching sessions.
  \<^item> \<open>Monitor\<close> (\<open>peer/monitor.rs\<close>, \<open>time.rs\<close>, \<open>rate_limiter.rs\<close>): pacing and keepalives.
  \<^item> \<open>Cidr\<close> (\<open>peer/cidr.rs\<close>) and \<open>Peer_List\<close> (\<open>peers.rs\<close>): prefixes, their text, and the routing table.
  \<^item> \<open>Peer\<close> (\<open>peer/mod.rs\<close>, \<open>inbound.rs\<close>, \<open>handler.rs\<close>): the packet handlers and one turn of each task.
  \<^item> \<open>Device\<close> (\<open>device/mod.rs\<close>, \<open>config.rs\<close>, \<open>handle.rs\<close>, \<open>transport/udp.rs\<close>): dispatch and UDP.
  \<^item> \<open>Peer_Steps\<close>, \<open>Device_Steps\<close>: the tasks of a device and the calls of the daemon as steps of one
    transition system, taken in any order: the device writes only authentic packets to its tunnel, each once; a
    step panics in exactly the cases listed there; every session of the index is in a slot of its peer.
  \<^item> \<open>Lifecycle\<close>: the same tasks from outside: spawning, cancellation tokens (locale \<open>cancellation\<close>), what keeps a peer
    alive and what ends its tasks.
  \<^item> \<open>Tun\<close> (\<open>tun/mod.rs\<close>, \<open>tun/unix\<close>, \<open>tun/linux\<close>), \<open>Tun_Macos\<close>, \<open>Tun_Windows\<close>: the tunnel interface of each platform;
    the locale \<open>ip_interface\<close> states that an address that was set is read back.  \<open>Device_Start\<close> (\<open>Device::new\<close>, \<open>router\<close>):
    a device that starts has the configured address and mask.  \<open>Win_Setup\<close>: the wrappers of the Windows setup API (\<open>ffi.rs\<close>).

  Relays, server and daemon:

  \<^item> \<open>Frame_Decoder\<close>: streaming decoders; the locale \<open>frame_decoder\<close> states when the cut of the stream
    into reads does not matter.  \<open>Derp\<close> and \<open>Frp\<close> interpret it for the two relay codecs and add the
    clients' handshakes; \<open>Derp_Client\<close> opens the connection to a relay, with TLS or without (\<open>derp_client.rs\<close>, \<open>ssl.rs\<close>).
  \<^item> \<open>Abi\<close> (\<open>vlink-core\<close>, \<open>abi.rs\<close>), \<open>Rw_Map\<close> (\<open>rw_map.rs\<close>, interface \<open>hash_map\<close>), \<open>Vlink_Core\<close> (base64, key pairs,
    masks, and the key file of the daemon).
  \<^item> \<open>Headlink\<close> (all of \<open>headlink/src\<close> but the database layer): networks, login, handlers, connections.
    \<open>Headlink_Steps\<close> runs them as a transition system and shows that online peers can be reached;
    \<open>Headlink_Addresses\<close> is about the addresses the server hands out, \<open>Snowflake\<close> about the identifiers of its rows.
  \<^item> \<open>Daemon_Client\<close> (\<open>vlinkd/src/client.rs\<close>, \<open>connect.rs\<close>): requests, login, reconnection.  \<open>Client_Tasks\<close>:
    its tasks interleaved; there is one connection at a time.  \<open>Command_Bus\<close>: the way of the server's messages to the manager.  \<open>Daemon\<close> (\<open>network\<close>, \<open>handler\<close>):
    configuration, manager, commands and events.  \<open>Nat_Transport\<close> and \<open>Relay_Transport\<close> (\<open>transport\<close>): public
    addresses, forwarders, relays and the choice among them.
  \<^item> Compositions: \<open>Login\<close> (daemon and server agree on the outcome of a login; the server keeps its key),
    \<open>Config_Delivery\<close> (a configured network routes every packet to the owner of its address), \<open>Daemon_Main\<close>
    (\<open>main.rs\<close>: the daemon comes up), and this theory: the first packet between two devices, from the handshake
    turn of the one to the tunnel of the other.

  Conventions.  A fallible operation returns a \<open>result\<close>: \<open>Ok\<close>, the \<open>Err\<close> of the source, or \<open>Panic\<close> for
  an index out of range, an \<open>unwrap\<close> of an error, \<open>todo!()\<close> and \<open>panic!()\<close>.  Counters, indices and
  lengths on the wire keep their width.  Randomness, clocks and the answers of sockets are
  arguments (the record \<open>env\<close> for the device, \<open>attempt\<close> for a connection of the daemon).  Shared mutable cells (the \<open>Arc\<close>s of a
  session, the peers) live in lists indexed by number, so that aliasing is visible.

  Code of other crates and of operating systems is a parameter: \<open>crypto\<close> (primitives), \<open>netlib\<close> and \<open>net_new\<close> (prefixes and their tables),
  \<open>derp_lib\<close> (HTTP, NaCl box, JSON) and \<open>connect_env\<close> (resolver, sockets, TLS), \<open>frp_lib\<close> (JSON, digests, AES-CFB), \<open>core_lib\<close> (base64, hex, curve, box, JSON),
  \<open>db\<close>, \<open>net4\<close> and \<open>config_table\<close> (queries, IPv4 prefixes and configuration table of the server), \<open>abi_codec\<close> (protobuf),
  \<open>token_lib\<close> (cancellation tokens), gateway and STUN answers (arguments of \<open>Nat_Transport\<close>), \<open>kernel\<close>, \<open>utun_kernel\<close>, \<open>win_env\<close> and
  \<open>setup_api\<close> (Linux, macOS, Windows with the Wintun driver).  What is relied on of it is a named predicate or locale (\<open>crypto_laws\<close>, \<open>netlib_laws\<close>,
  \<open>cfb_laws\<close>, \<open>db_safe\<close>, \<open>core_laws\<close>, \<open>host_law\<close>, \<open>config_laws\<close>, \<open>codec_laws\<close>, \<open>linux_laws\<close>, \<open>macos_laws\<close>, \<open>cancellation\<close>), and
  \<open>plain_crypto\<close>, \<open>list_netlib\<close>, \<open>plain_derp\<close>, \<open>plain_frp\<close>, \<open>plain_core\<close>, \<open>plain_db\<close>, \<open>plain_net4\<close>, \<open>plain_kernel\<close>, \<open>plain_tokens\<close> and
  the like are instances for the witnesses.

  No model uses fuel: the loops are structural, measured (\<open>nf_advance_to\<close>) or option-valued with a proof that they
  end (\<open>drain\<close>); loops that serve for ever are runs over the list of what they are given.  A turn of a task is one step:
  its suspension points are not split.  In \<open>Device_Steps\<close> only listed peers take turns; that a peer whose entry was
  cleared may still take some is part of \<open>Lifecycle\<close>, and the program clears a list only when the device is made, before it has peers.

  Not modelled.  Generated code: the bindings of the Wintun driver, the database entities, the protobuf encoding.  Code
  that only calls a library: log and metrics output, the blocking TLS connector that nothing uses.  Bounds of
  channels but those of \<open>Client_Tasks\<close> and \<open>Command_Bus\<close>, and locks (each is held for one operation).  Stubs, unused and
  unfinished files, examples and tests.  The components of the manifest list them one by one.
\<close>

section \<open>From handshake to tunnel\<close>

lemma decrypted_delivery:
  assumes st: "session_state s p sh S" and sys: "0 \<le> en_sys en" and c: "unat (td_counter pk) \<le> 2 ^ 64 - 1025"
    and new: "nf_can_accept (sc_nonce_filter (sh_cells sh ! ss_cell s)) (td_counter pk) = (Ok True :: (unit, bool) result)"
    and dec: "decrypt_data (en_crypto en) s pk = Ok d" "d \<noteq> []" and tun: "en_tun_ok en d"
  obtains p' sh' where "handle_transport_data en ep pk s p sh = Ok (p', sh')"
    "sh_log sh' = sh_log sh @ [TunSend d]"
    "as_next (pr_sessions p) = Some s \<Longrightarrow> as_current (pr_sessions p') = Some s"
proof -
  have inv: "slots_inv (pr_pub_key p) (pr_sessions p, sh_index sh)" and key: "session_key s = pr_pub_key p"
    and cell: "ss_cell s < length (sh_cells sh)" and repr: "nf_repr (sc_nonce_filter (sh_cells sh ! ss_cell s)) S"
    using st by (simp_all add: session_state_def)
  obtain ret a t where cn: "complete_next s (pr_sessions p, sh_index sh) =
      (Ok (ret, a, t) :: (unit, bool \<times> slots) result)"
    by (rule complete_next_total [OF inv key])
  have cur: "as_next (pr_sessions p) = Some s \<Longrightarrow> as_current a = Some s"
    using complete_next_effect [OF inv, of s s, where ?'e = unit] cn by fastforce
  define q where "q = (count_inbound (packet_len pk) p)\<lparr>pr_sessions := a\<rparr>"
  obtain q' where q': "mark_completed en q = (Ok q' :: (unit, peer) result)" "pr_sessions q' = pr_sessions q"
    by (rule mark_completed_Ok [OF sys])
  obtain g where g: "nf_accept (sc_nonce_filter (sh_cells sh ! ss_cell s)) (td_counter pk) =
      (Ok g :: (unit, nonce_filter) result)"
    using nonce_ring.acc_repr [OF repr c new] by blast
  have p0: "pr_sessions (count_inbound (packet_len pk) p) = pr_sessions p" by (simp add: count_inbound_def)
  show ?thesis
    using that cn q' dec tun g new cell cur
    by (cases ret) (simp_all add: handle_transport_data_def Let_def update_endpoint_def p0
        session_can_accept_def session_aceept_def q_def)
qed

text \<open>Two devices whose sessions match, the one with its session current, the other with its session next in line: the first packet of the
  one is written to the tunnel of the other.\<close>

lemma first_data_delivered:
  assumes cr: "crypto_laws cr" and m: "session_match sI sR" and data: "data \<noteq> []" "length data < 2 ^ 32"
    and A: "as_current (pr_sessions pA) = Some sI" "pr_endpoint pA = Some addrB" "ss_cell sI < length (sh_cells shA)"
      "sh_cells shA ! ss_cell sI = fresh_cell" "en_crypto eA = cr" "\<And>x y. en_send_ok eA x y"
    and B: "slots_inv (pr_pub_key pB) (pr_sessions pB, sh_index shB)" "as_next (pr_sessions pB) = Some sR" "session_key sR = pr_pub_key pB"
      "get_by_index (sh_index shB) (ss_sender_index sR) = Some sR" "ss_cell sR < length (sh_cells shB)"
      "sh_cells shB ! ss_cell sR = fresh_cell" "en_crypto eB = cr" "0 \<le> en_sys eB" "\<And>x. en_tun_ok eB x"
  obtains pA' shA' buf pk pB' shB' where "peer_tick_outbound eA data pA shA = Ok (pA', shA')" "sh_log shA' = sh_log shA @ [SendTo addrB buf]"
    "message_parse buf = Ok (TransportData pk)" "get_by_index (sh_index shB) (td_receiver_index pk) = Some sR"
    "handle_transport_data eB addrA pk sR pB shB = Ok (pB', shB')" "sh_log shB' = sh_log shB @ [TunSend data]"
    "as_current (pr_sessions pB') = Some sR"
proof -
  obtain pk h where D: "encrypt_data cr sI data (sh_cells shA) = (Ok (Inr pk, h) :: (unit, _) result)"
    "decrypt_data cr sR pk = Ok data" "td_counter pk = 0" "td_receiver_index pk = ss_receiver_index sI"
    by (rule session_match_transfer [OF cr m A(3) data(2), where ?'e = unit]) (use A(4) in \<open>simp add: fresh_cell_def\<close>)
  obtain pA' shA' where out: "peer_tick_outbound eA data pA shA = Ok (pA', shA')"
      "sh_log shA' = sh_log shA @ [SendTo addrB (transport_to_bytes pk)]"
    using A D(1) by (simp add: peer_tick_outbound_def send_outbound_def Let_def)
  have idx: "td_receiver_index pk = ss_sender_index sR" using D(4) m by (simp add: session_match_def)
  have st: "session_state sR pB shB {}"
    using B nonce_ring.repr_new by (simp add: session_state_def fresh_cell_def)
  obtain pB' shB' where "handle_transport_data eB addrA pk sR pB shB = Ok (pB', shB')"
    "sh_log shB' = sh_log shB @ [TunSend data]" "as_current (pr_sessions pB') = Some sR"
    by (rule decrypted_delivery [OF st, of eB pk data addrA])
      (use B D(2,3) data(1) in \<open>simp_all add: fresh_cell_def nf_can_accept_def nonce_filter_new_def\<close>)
  then show ?thesis by (rule that [OF out message_parse_transport B(4) [folded idx]])
qed

text \<open>C1: The first packet arrives.  Two devices have configured each other as peers, neither has a session
  for the other, and their sockets and tunnel devices work.  The initiator's handshake turn sends an
  initiation; the responder opens it and answers; the answer finds the initiator's prepared session
  and completes it; and the first packet the initiator then sends is parsed by the responder, finds
  the session of the handshake, is written to the tunnel unchanged, and makes that session the
  current one.\<close>

theorem first_packet_end_to_end:
  assumes "crypto_laws cr"
    and "length a = 32" "length b = 32" "length (en_rand eA) = 32" "length (en_rand eB) = 32" "length (en_ts eA) = 12"
    and "si = set_psk psk (with_peer (local_secret_new cr a) (x25519_pub cr b))"
    and "sr = set_psk psk (with_peer (local_secret_new cr b) (x25519_pub cr a))"
    and "\<forall>e\<in>{eA0, eA, eA2, eB0, eB, eB2}. en_crypto e = cr \<and> 0 \<le> en_sys e \<and>
       (\<forall>x y. en_send_ok e x y) \<and> (\<forall>x. en_tun_ok e x)"
    and "en_now eA0 \<le> en_now eA"
    and "idle (ps_public si) shA" "idle (ps_public sr) shB"
    and "data \<noteq> []" "length data < 2 ^ 32"
  shows "\<exists>pA shA1 init p inc pB shB1 resp q pre pA2 shA2 pA3 shA3 buf pk sR pB2 shB2.
    handshake_turn eA (peer_new eA0 si (Some addrB) ivA True ipA) shA = Ok (pA, shA1) \<and>
    sh_log shA1 = sh_log shA @ [SendTo addrB init] \<and>
    message_parse init = Ok (HandshakeInitiation p) \<and>
    incoming_initiation_parse cr (ps_local sr) p = Ok inc \<and>
    ii_static_public_key inc = ps_public sr \<and>
    handle_handshake_initiation eB addrA inc (peer_new eB0 sr epB ivB onB ipB) shB = Ok (pB, shB1) \<and>
    sh_log shB1 = sh_log shB @ [SendTo addrA resp] \<and>
    message_parse resp = Ok (HandshakeResponse q) \<and>
    get_by_index (sh_index shA1) (hr_receiver_index q) = Some pre \<and>
    handle_handshake_response eA2 addrB q pre pA shA1 = Ok (pA2, shA2) \<and>
    peer_tick_outbound eA2 data pA2 shA2 = Ok (pA3, shA3) \<and>
    sh_log shA3 = sh_log shA2 @ [SendTo addrB buf] \<and>
    message_parse buf = Ok (TransportData pk) \<and>
    get_by_index (sh_index shB1) (td_receiver_index pk) = Some sR \<and>
    handle_transport_data eB2 addrA pk sR pB shB1 = Ok (pB2, shB2) \<and>
    sh_log shB2 = sh_log shB1 @ [TunSend data] \<and> as_current (pr_sessions pB2) = Some sR"
proof -
  note cr = assms(1)
  have en: "en_crypto e = cr" "0 \<le> en_sys e" "en_send_ok e x y" "en_tun_ok e z"
    if "e \<in> {eA0, eA, eA2, eB0, eB, eB2}" for e x y z
    using assms(9) that by auto
  obtain pre init hs' ti' hi' p inc sR resp tr' hr' q sI hi'' where x:
    "initiate cr (en_rand eA) (en_ts eA) (en_now eA) (handshake_new cr si) (sh_index shA) (sh_cells shA) =
      Ok ((pre, init), hs', ti', hi')"
    "message_parse init = Ok (HandshakeInitiation p)"
    "incoming_initiation_parse cr (ps_local sr) p = Ok inc"
    "ii_static_public_key inc = ls_public (ps_local si)"
    "respond cr (en_rand eB) (en_now eB) inc (handshake_new cr sr) (sh_index shB) (sh_cells shB) =
      Ok ((sR, resp), tr', hr')"
    "message_parse resp = Ok (HandshakeResponse q)" "hr_receiver_index q = ss_sender_index pre"
    "finalize cr (en_now eA2) q hs' hi' = Ok (sI, hi'')" "ss_sender_index sI = ss_sender_index pre"
    "session_match sI sR" "ss_cell sI < length hi''" "ss_cell sR < length hr'"
    "hi'' ! ss_cell sI = fresh_cell" "hr' ! ss_cell sR = fresh_cell"
    "session_key pre = ps_public si" "session_key sI = ps_public si" "session_key sR = ps_public sr"
    "ss_sender_index pre = si_index (sh_index shA)" "ss_sender_index sR = si_index (sh_index shB)"
    "hs_secret hs' = si" "ti' = snd (next_index (sh_index shA))" "tr' = snd (next_index (sh_index shB))"
    by (rule handshake_exchange [OF assms(1-8)])
  have crs: "en_crypto eA0 = cr" "en_crypto eA = cr" "en_crypto eA2 = cr" "en_crypto eB0 = cr" "en_crypto eB = cr"
      "en_crypto eB2 = cr"
    by (rule en(1), blast)+
  have ini: "initiate (en_crypto eA) (en_rand eA) (en_ts eA) (en_now eA) (handshake_new (en_crypto eA0) si)
      (sh_index shA) (sh_cells shA) = Ok ((pre, init), hs', snd (next_index (sh_index shA)), hi')"
    using x(1) unfolding crs x(21) .
  have res: "respond (en_crypto eB) (en_rand eB) (en_now eB) inc (handshake_new (en_crypto eB0) sr)
      (sh_index shB) (sh_cells shB) = Ok ((sR, resp), snd (next_index (sh_index shB)), hr')"
    using x(5) unfolding crs x(22) .
  obtain pA shA1 where A1: "handshake_turn eA (peer_new eA0 si (Some addrB) ivA True ipA) shA = Ok (pA, shA1)"
    "slots_inv (ps_public si) (pr_sessions pA, sh_index shA1)" "as_uninit (pr_sessions pA) = Some pre"
    "get_by_index (sh_index shA1) (ss_sender_index pre) = Some pre" "sh_cells shA1 = hi'"
    "sh_log shA1 = sh_log shA @ [SendTo addrB init]" "pr_handshake pA = hs'" "pr_pub_key pA = ps_public si"
    "pr_endpoint pA = Some addrB"
    by (rule handshake_turn_first [OF ini x(15,18) assms(11,10) en(3)]) auto
  obtain pB shB1 where B1: "handle_handshake_initiation eB addrA inc (peer_new eB0 sr epB ivB onB ipB) shB = Ok (pB, shB1)"
    "slots_inv (ps_public sr) (pr_sessions pB, sh_index shB1)" "as_next (pr_sessions pB) = Some sR"
    "get_by_index (sh_index shB1) (ss_sender_index sR) = Some sR" "sh_cells shB1 = hr'"
    "sh_log shB1 = sh_log shB @ [SendTo addrA resp]" "pr_pub_key pB = ps_public sr"
    by (rule handle_initiation_first [OF res x(17,19) assms(12) en(3)]) auto
  have fin: "finalize (en_crypto eA2) (en_now eA2) q (pr_handshake pA) (sh_cells shA1) = Ok (sI, hi'')"
    using x(8) unfolding crs A1(5,7) .
  obtain pA2 shA2 where A2: "handle_handshake_response eA2 addrB q pre pA shA1 = Ok (pA2, shA2)"
    "as_current (pr_sessions pA2) = Some sI" "sh_cells shA2 = hi''" "pr_endpoint pA2 = Some addrB"
    by (rule handle_response_first [OF A1(2) [folded A1(8)] fin A1(3) x(9) [symmetric]
          x(16) [folded A1(8)] en(2)]) auto
  obtain pA3 shA3 buf pk pB2 shB2 where D: "peer_tick_outbound eA2 data pA2 shA2 = Ok (pA3, shA3)"
    "sh_log shA3 = sh_log shA2 @ [SendTo addrB buf]" "message_parse buf = Ok (TransportData pk)"
    "get_by_index (sh_index shB1) (td_receiver_index pk) = Some sR" "handle_transport_data eB2 addrA pk sR pB shB1 = Ok (pB2, shB2)"
    "sh_log shB2 = sh_log shB1 @ [TunSend data]" "as_current (pr_sessions pB2) = Some sR"
    by (rule first_data_delivered [OF cr x(10) assms(13,14), of pA2 addrB shA2 eA2 pB shB1 eB2 addrA])
      (use A2 B1 x(11-14,17) crs(3,6) en(2,3,4) in simp_all)
  have "ls_public (ps_local si) = ps_public sr"
    using assms(7,8) by (simp add: set_psk_def with_peer_def peer_secret_new_def local_secret_new_def)
  with x(4) have key: "ii_static_public_key inc = ps_public sr" by simp
  show ?thesis
    by (intro exI conjI) (rule A1(1) A1(6) x(2) x(3) key B1(1) B1(6) x(6) A1(4) [folded x(7)] A2(1) D)+
qed

theorem first_packet_end_to_end_witness:
  "\<exists>pA shA1 init. handshake_turn plain_env (peer_new plain_env (plain_secret 1 2) (Some plain_endpoint) None True []) 
      \<lparr>sh_index = session_index_new 5, sh_cells = [], sh_log = []\<rparr> = Ok (pA, shA1) \<and>
    sh_log shA1 = [SendTo plain_endpoint init]"
proof -
  have idle: "idle k \<lparr>sh_index = session_index_new i, sh_cells = [], sh_log = []\<rparr>" for k i
    using slots_invD(1) [OF slots_inv_new [of k i]]
    by (simp add: idle_def index_elems_def session_index_new_def get_by_index_def)
  have env: "\<forall>e\<in>{plain_env, plain_env, plain_env, plain_env, plain_env, plain_env}. en_crypto e = plain_crypto \<and>
      0 \<le> en_sys e \<and> (\<forall>x y. en_send_ok e x y) \<and> (\<forall>x. en_tun_ok e x)"
    "length (en_rand plain_env) = 32" "length (en_ts plain_env) = 12"
    by (simp_all add: plain_env_def)
  have keys: "length (replicate 32 (1 :: u8)) = 32" "length (replicate 32 (2 :: u8)) = 32" by simp_all
  have data: "[9 :: u8] \<noteq> []" "length [9 :: u8] < 2 ^ 32" by simp_all
  from first_packet_end_to_end [OF plain_crypto_laws keys env(2,2,3) plain_secret_def plain_secret_def env(1)
      order_refl idle [of _ 5] idle [of _ 7] data, where addrA = plain_endpoint and addrB = plain_endpoint and ivA = None
        and ipA = "[]" and epB = None and ivB = None and onB = True and ipB = "[]"]
  show ?thesis by auto
qed

end
